(* ===== verification/Prelude.thy ===== *)
theory Prelude
  imports Main "HOL-Library.Word" "HOL-Library.Multiset" "HOL-Library.List_Lexorder" "HOL-Library.Product_Lexorder"
    "HOL-Library.Char_ord"
begin

text \<open>
  Shared vocabulary of the development: bytes, the results of Go functions, machine
  integers and times, and the generic facts on lists that several components use.

  Go strings and byte slices are byte sequences: a string is a \<open>char list\<close> (a \<open>char\<close> is
  one byte) and a slice a list of 8-bit words. A nil slice and an empty slice are not told
  apart. Times are integers, nanoseconds since the Unix epoch.
\<close>

named_theorems wf_intros \<open>preservation of the well-formedness invariants\<close>
named_theorems frame_simps \<open>what an operation leaves alone\<close>

type_synonym byte = "8 word"
type_synonym bytes = "8 word list"

section \<open>Results\<close>

text \<open>
  A Go call returns a value, returns an error (here its message), or panics. A panic
  unwinds the goroutine and, as the program never recovers, ends the process.
\<close>

datatype 'a go = Ret 'a | Err string | Panic string

fun go_map :: "('a \<Rightarrow> 'b go) \<Rightarrow> 'a list \<Rightarrow> 'b list go" where
  "go_map f [] = Ret []"
| "go_map f (x # xs) =
     (case f x of
        Ret y \<Rightarrow> (case go_map f xs of Ret ys \<Rightarrow> Ret (y # ys) | Err e \<Rightarrow> Err e | Panic e \<Rightarrow> Panic e)
      | Err e \<Rightarrow> Err e
      | Panic e \<Rightarrow> Panic e)"

fun go_each :: "('a \<Rightarrow> unit go) \<Rightarrow> 'a list \<Rightarrow> unit go" where
  "go_each f [] = Ret ()"
| "go_each f (x # xs) = (case f x of Ret u \<Rightarrow> go_each f xs | Err e \<Rightarrow> Err e | Panic e \<Rightarrow> Panic e)"

lemma go_map_Ret: "(\<And>x. x \<in> set xs \<Longrightarrow> f x = Ret (g x)) \<Longrightarrow> go_map f xs = Ret (map g xs)"
  by (induction xs) auto

lemma go_map_RetD: "go_map f xs = Ret ys \<Longrightarrow> list_all2 (\<lambda>x y. f x = Ret y) xs ys"
  by (induction xs arbitrary: ys) (auto split: go.splits)

lemma go_map_length: "go_map f xs = Ret ys \<Longrightarrow> length ys = length xs"
  by (drule go_map_RetD) (simp add: list_all2_lengthD)

lemma go_each_Ret_iff: "go_each f xs = Ret () \<longleftrightarrow> (\<forall>x \<in> set xs. f x = Ret ())"
  by (induction xs) (auto split: go.splits)

section \<open>Machine integers and times\<close>

text \<open>The value a 64-bit signed addition or multiplication leaves, from the exact one.\<close>

definition i64 :: "int \<Rightarrow> int" where
  "i64 x = sint (word_of_int x :: 64 word)"

lemma i64_id [simp]: "- (2 ^ 63) \<le> x \<Longrightarrow> x < 2 ^ 63 \<Longrightarrow> i64 x = x"
  by (simp add: i64_def sint_sbintrunc' signed_take_bit_int_eq_self)

lemma i64_wraps: "i64 (2 ^ 63) = - (2 ^ 63)"
  by (simp add: i64_def)

text \<open>\<open>time.Duration(n) * time.Second\<close>: nanoseconds in an \<open>int64\<close>, wrapping.\<close>

definition seconds :: "int \<Rightarrow> int" where
  "seconds n = i64 (n * 1000000000)"

lemma seconds_exact: "0 \<le> n \<Longrightarrow> n \<le> 9223372036 \<Longrightarrow> seconds n = n * 1000000000"
  by (simp add: seconds_def)

text \<open>\<open>Time.Unix()\<close> and \<open>Time.UnixMicro()\<close>, which round towards the past.\<close>

definition unix :: "int \<Rightarrow> int" where
  "unix t = t div 1000000000"

definition unix_micro :: "int \<Rightarrow> int" where
  "unix_micro t = t div 1000"

lemma unix_mono: "s \<le> t \<Longrightarrow> unix s \<le> unix t"
  by (simp add: unix_def zdiv_mono1)

lemma unix_micro_mono: "s \<le> t \<Longrightarrow> unix_micro s \<le> unix_micro t"
  by (simp add: unix_micro_def zdiv_mono1)

section \<open>Cutting a list into blocks\<close>

text \<open>
  The transfers cut a payload with \<open>count = (len + n - 1) / n\<close> and, for each index,
  \<open>data[i*n : min((i+1)*n, len)]\<close>.
\<close>

definition block_count :: "nat \<Rightarrow> 'a list \<Rightarrow> nat" where
  "block_count n xs = (length xs + n - 1) div n"

definition block :: "nat \<Rightarrow> 'a list \<Rightarrow> nat \<Rightarrow> 'a list" where
  "block n xs i = take (min (i * n + n) (length xs) - i * n) (drop (i * n) xs)"

definition blocks :: "nat \<Rightarrow> 'a list \<Rightarrow> 'a list list" where
  "blocks n xs = map (block n xs) [0..<block_count n xs]"

lemma block_eq: "block n xs i = take n (drop (i * n) xs)"
  by (auto simp: block_def min_def)

lemma block_0 [simp]: "block n xs 0 = take n xs"
  by (simp add: block_eq)

lemma block_Suc: "block n xs (Suc i) = block n (drop n xs) i"
  by (simp add: block_eq add.commute)

lemma length_block: "length (block n xs i) \<le> n"
  by (simp add: block_eq)

lemma block_count_0 [simp]: "0 < n \<Longrightarrow> block_count n [] = 0"
  by (simp add: block_count_def)

lemma block_count_pos: "0 < n \<Longrightarrow> xs \<noteq> [] \<Longrightarrow> 0 < block_count n xs"
  by (cases xs) (auto simp: block_count_def div_greater_zero_iff)

lemma block_count_drop:
  assumes "0 < n" "xs \<noteq> []"
  shows "block_count n xs = Suc (block_count n (drop n xs))"
proof (cases "length xs \<le> n")
  case True
  obtain k where "length xs = Suc k" using assms(2) by (cases xs) auto
  then have "(length xs + n - 1) div n = 1"
    using True by (intro div_nat_eqI) auto
  with True assms show ?thesis by (simp add: block_count_def)
next
  case False
  then have "length xs + n - 1 = (length xs - 1) + n" "length (drop n xs) + n - 1 = length xs - 1"
    using assms by auto
  then show ?thesis
    using assms(1) by (simp only: block_count_def div_add_self2)
qed

lemma concat_blocks_upto:
  "0 < n \<Longrightarrow> concat (map (block n xs) [0..<block_count n xs]) = xs"
proof (induction xs rule: length_induct)
  case (1 xs)
  show ?case
  proof (cases "xs = []")
    case True
    then show ?thesis using 1 by simp
  next
    case False
    let ?ys = "drop n xs"
    have less: "length ?ys < length xs" using False 1(2) by (cases xs) auto
    have "map (block n xs) [0..<block_count n xs]
        = block n xs 0 # map (block n xs) (map Suc [0..<block_count n ?ys])"
      using block_count_drop [OF 1(2) False] by (simp add: upt_conv_Cons map_Suc_upt del: upt_Suc)
    also have "\<dots> = take n xs # map (block n ?ys) [0..<block_count n ?ys]"
      by (simp add: block_Suc)
    finally have "concat (map (block n xs) [0..<block_count n xs])
        = take n xs @ concat (map (block n ?ys) [0..<block_count n ?ys])" by simp
    also have "\<dots> = take n xs @ ?ys" using 1 less by simp
    finally show ?thesis by simp
  qed
qed

lemma concat_blocks: "0 < n \<Longrightarrow> concat (blocks n xs) = xs"
  by (simp add: blocks_def concat_blocks_upto)

lemma length_blocks [simp]: "length (blocks n xs) = block_count n xs"
  by (simp add: blocks_def)

lemma nth_blocks: "i < block_count n xs \<Longrightarrow> blocks n xs ! i = block n xs i"
  by (simp add: blocks_def)

lemma block_count_less: "0 < n \<Longrightarrow> i < block_count n xs \<Longrightarrow> i * n < length xs"
proof -
  assume n: "0 < n" and i: "i < block_count n xs"
  from i have "Suc i * n \<le> (length xs + n - 1) div n * n"
    unfolding block_count_def by (intro mult_le_mono1) simp
  also have "\<dots> \<le> length xs + n - 1" by (rule div_times_less_eq_dividend)
  finally show ?thesis using n by simp
qed

lemma block_nonempty: "0 < n \<Longrightarrow> i < block_count n xs \<Longrightarrow> block n xs i \<noteq> []"
  using block_count_less [of n i xs] by (simp add: block_eq)

section \<open>Sorting by a key\<close>

text \<open>
  Two sorting facts: rows sorted by a key in which they are distinct do not depend on the
  order they are found in, and sorting what is already in order changes nothing.
\<close>

lemma sort_key_mset_cong:
  assumes "mset xs = mset ys" "distinct (map f xs)"
  shows "sort_key f xs = sort_key f ys"
proof -
  have same: "set xs = set ys"
    using assms(1) by (metis set_mset_mset)
  have inj: "inj_on f (set xs)" and dx: "distinct xs"
    using assms(2) by (simp_all add: distinct_map)
  have dy: "distinct ys"
    using assms(1) dx by (metis mset_eq_imp_distinct_iff)
  have "map f (sort_key f xs) = map f (sort_key f ys)"
    by (rule sorted_distinct_set_unique) (use same inj dx dy in \<open>auto simp: distinct_map\<close>)
  then show ?thesis
    by (rule map_inj_on) (use same inj in simp)
qed

end
