(* ===== verification/GoStrings.thy ===== *)
theory GoStrings
  imports Prelude
begin

text \<open>
  The functions of Go's packages \<open>strings\<close> and \<open>fmt\<close> that the program uses, on byte
  strings: prefixes and suffixes, splitting at a separator byte, \<open>TrimSpace\<close>, the decimal
  rendering of integers, and the conversions between strings and byte slices.
\<close>

section \<open>Conversions\<close>

definition bytes_of :: "string \<Rightarrow> bytes" where
  "bytes_of s = map of_char s"

definition string_of :: "bytes \<Rightarrow> string" where
  "string_of b = map (\<lambda>w. char_of (unat w)) b"

lemma unat_of_char: "unat (of_char c :: byte) = of_char c"
proof -
  have "(of_char c :: byte) = word_of_nat (of_char c)"
    by (simp add: of_nat_of_char)
  moreover have "(of_char c :: nat) < 256" by simp
  ultimately show ?thesis by (simp add: unat_of_nat)
qed

lemma unat_byte: "unat (w :: byte) < 256"
  using unsigned_less [of w] by simp

lemma of_char_unat: "of_char (char_of (unat w)) = (w :: byte)"
proof -
  have "unat w < 256" by (rule unat_byte)
  then have "(of_char (char_of (unat w)) :: nat) = unat w"
    by (simp add: take_bit_eq_mod)
  then show ?thesis
    by (metis of_nat_of_char word_unat_eq_iff unat_of_char)
qed

lemma string_of_bytes_of [simp]: "string_of (bytes_of s) = s"
  by (simp add: string_of_def bytes_of_def comp_def unat_of_char)

lemma bytes_of_string_of [simp]: "bytes_of (string_of b) = b"
  by (simp add: string_of_def bytes_of_def comp_def of_char_unat)

lemma bytes_of_inject [simp]: "bytes_of s = bytes_of t \<longleftrightarrow> s = t"
  by (metis string_of_bytes_of)

section \<open>Prefixes, suffixes, separators\<close>

definition HasPrefix :: "string \<Rightarrow> string \<Rightarrow> bool" where
  "HasPrefix s p = (take (length p) s = p)"

definition TrimPrefix :: "string \<Rightarrow> string \<Rightarrow> string" where
  "TrimPrefix s p = (if HasPrefix s p then drop (length p) s else s)"

definition HasSuffix :: "string \<Rightarrow> string \<Rightarrow> bool" where
  "HasSuffix s p = (length p \<le> length s \<and> drop (length s - length p) s = p)"

definition TrimSuffix :: "string \<Rightarrow> string \<Rightarrow> string" where
  "TrimSuffix s p = (if HasSuffix s p then take (length s - length p) s else s)"

lemma HasPrefix_append [simp]: "HasPrefix (p @ s) p"
  by (simp add: HasPrefix_def)

lemma HasPrefixD: "HasPrefix s p \<Longrightarrow> \<exists>r. s = p @ r"
  by (metis HasPrefix_def append_take_drop_id)

lemma TrimPrefix_append [simp]: "TrimPrefix (p @ s) p = s"
  by (simp add: TrimPrefix_def)

lemma HasSuffix_append [simp]: "HasSuffix (s @ p) p"
  by (simp add: HasSuffix_def)

lemma TrimSuffix_append [simp]: "TrimSuffix (s @ p) p = s"
  by (simp add: TrimSuffix_def)

text \<open>\<open>strings.IndexByte\<close>: the first position of a byte, or \<open>-1\<close>.\<close>

fun IndexByte :: "string \<Rightarrow> char \<Rightarrow> int" where
  "IndexByte [] c = -1"
| "IndexByte (x # xs) c =
     (if x = c then 0 else (let i = IndexByte xs c in if i < 0 then -1 else i + 1))"

lemma IndexByte_absent: "c \<notin> set s \<Longrightarrow> IndexByte s c = -1"
  by (induction s) auto

lemma IndexByte_ge: "-1 \<le> IndexByte s c"
  by (induction s) (auto simp: Let_def)

lemma IndexByte_neg: "IndexByte s c < 0 \<longleftrightarrow> c \<notin> set s"
  by (induction s) (auto simp: Let_def)

lemma IndexByte_first: "c \<notin> set a \<Longrightarrow> IndexByte (a @ c # b) c = int (length a)"
  by (induction a) (auto simp: Let_def)

text \<open>\<open>strings.SplitN(s, sep, 2)\<close> for a one-byte separator.\<close>

fun SplitN2 :: "string \<Rightarrow> char \<Rightarrow> string list" where
  "SplitN2 [] c = [[]]"
| "SplitN2 (x # xs) c =
     (if x = c then [[], xs]
      else (case SplitN2 xs c of [] \<Rightarrow> [[x]] | p # ps \<Rightarrow> (x # p) # ps))"

lemma SplitN2_absent: "c \<notin> set s \<Longrightarrow> SplitN2 s c = [s]"
  by (induction s) auto

lemma SplitN2_append: "c \<notin> set a \<Longrightarrow> SplitN2 (a @ c # b) c = [a, b]"
  by (induction a) auto

lemma SplitN2_cases: "SplitN2 s c = [s] \<and> c \<notin> set s \<or>
  (\<exists>a b. s = a @ c # b \<and> c \<notin> set a \<and> SplitN2 s c = [a, b])"
proof (cases "c \<in> set s")
  case True
  then obtain a b where "s = a @ c # b" "c \<notin> set a"
    by (meson split_list_first)
  then show ?thesis using SplitN2_append by blast
next
  case False
  then show ?thesis by (simp add: SplitN2_absent)
qed

lemma SplitN2_pairE:
  assumes "SplitN2 s c = [a, b]"
  shows "s = a @ c # b \<and> c \<notin> set a"
  using SplitN2_cases [of s c] assms by auto

text \<open>\<open>strings.Split(s, sep)\<close> for a one-byte separator.\<close>

fun Split :: "string \<Rightarrow> char \<Rightarrow> string list" where
  "Split [] c = [[]]"
| "Split (x # xs) c =
     (if x = c then [] # Split xs c
      else (case Split xs c of [] \<Rightarrow> [[x]] | p # ps \<Rightarrow> (x # p) # ps))"

lemma Split_nonempty [simp]: "Split s c \<noteq> []"
  by (induction s) (auto split: list.splits)

lemma Split_absent: "c \<notin> set s \<Longrightarrow> Split s c = [s]"
  by (induction s) auto

lemma Split_append: "c \<notin> set a \<Longrightarrow> Split (a @ c # b) c = a # Split b c"
  by (induction a) auto

lemma hd_Split: "hd (Split s c) = hd (SplitN2 s c)"
  using SplitN2_cases [of s c] Split_append [of c _ _] Split_absent [of c s] by auto

section \<open>White space\<close>

text \<open>
  \<open>strings.TrimSpace\<close> removes leading and trailing white space in the sense of
  \<open>unicode.IsSpace\<close>: the ASCII blanks and the UTF-8 encodings of U+0085, U+00A0, U+1680,
  U+2000 to U+200A, U+2028, U+2029, U+202F, U+205F and U+3000.
\<close>

definition space_codes :: "nat list list" where
  "space_codes =
     [[9], [10], [11], [12], [13], [32], [194, 133], [194, 160], [225, 154, 128]]
     @ map (\<lambda>k. [226, 128, k]) ([128..<139] @ [168, 169, 175])
     @ [[226, 129, 159], [227, 128, 128]]"

definition spaces :: "string list" where
  "spaces = map (map char_of) space_codes"

fun strip_one :: "string list \<Rightarrow> string \<Rightarrow> string option" where
  "strip_one [] s = None"
| "strip_one (p # ps) s = (if HasPrefix s p then Some (drop (length p) s) else strip_one ps s)"

function trim_left :: "string list \<Rightarrow> string \<Rightarrow> string" where
  "trim_left ps s =
     (case strip_one ps s of
        None \<Rightarrow> s
      | Some t \<Rightarrow> if length t < length s then trim_left ps t else s)"
  by pat_completeness auto
termination
  by (relation "measure (\<lambda>(ps, s). length s)") auto

declare trim_left.simps [simp del]

definition TrimSpace :: "string \<Rightarrow> string" where
  "TrimSpace s = rev (trim_left (map rev spaces) (rev (trim_left spaces s)))"

lemma trim_left_None: "strip_one ps s = None \<Longrightarrow> trim_left ps s = s"
  by (simp add: trim_left.simps)

text \<open>A string of printable ASCII bytes other than the blank is left as it is.\<close>

definition graphic :: "char \<Rightarrow> bool" where
  "graphic c = (33 \<le> (of_char c :: nat) \<and> (of_char c :: nat) < 127)"

lemma strip_one_None: "\<forall>p \<in> set ps. p \<noteq> [] \<and> hd p \<noteq> x \<Longrightarrow> strip_one ps (x # s) = None"
proof (induction ps)
  case (Cons p ps)
  then show ?case
    by (cases p) (auto simp: HasPrefix_def)
qed simp

lemma strip_one_Nil: "\<forall>p \<in> set ps. p \<noteq> [] \<Longrightarrow> strip_one ps [] = None"
  by (induction ps) (auto simp: HasPrefix_def)

lemma space_codes_ends:
  "\<forall>p \<in> set space_codes. p \<noteq> [] \<and> hd p < 256 \<and> last p < 256
      \<and> \<not> (33 \<le> hd p \<and> hd p < 127) \<and> \<not> (33 \<le> last p \<and> last p < 127)"
  by (auto simp: space_codes_def)

lemma graphic_char_of: "(n :: nat) < 256 \<Longrightarrow> graphic (char_of n) \<longleftrightarrow> 33 \<le> n \<and> n < 127"
  by (simp add: graphic_def take_bit_eq_mod)

lemma spaces_ends: "\<forall>p \<in> set spaces. p \<noteq> [] \<and> \<not> graphic (hd p) \<and> \<not> graphic (last p)"
  using space_codes_ends
  by (auto simp: spaces_def hd_map last_map graphic_char_of)

lemma TrimSpace_graphic:
  assumes "s \<noteq> []" "graphic (hd s)" "graphic (last s)"
  shows "TrimSpace s = s"
proof -
  have left: "trim_left spaces s = s"
  proof (rule trim_left_None)
    have "strip_one spaces (hd s # tl s) = None"
      using spaces_ends assms(2) by (intro strip_one_None) metis
    then show "strip_one spaces s = None" using assms(1) by simp
  qed
  have "strip_one (map rev spaces) (last s # rev (butlast s)) = None"
    using spaces_ends assms(3) by (intro strip_one_None) (auto simp: hd_rev)
  moreover have "last s # rev (butlast s) = rev s"
    using assms(1) by (metis append_butlast_last_id rev_eq_Cons_iff rev_rev_ident)
  ultimately have "trim_left (map rev spaces) (rev s) = rev s"
    by (intro trim_left_None) simp
  with left show ?thesis by (simp add: TrimSpace_def)
qed

lemma TrimSpace_Nil [simp]: "TrimSpace [] = []"
proof -
  have "trim_left spaces [] = []" "trim_left (map rev spaces) [] = []"
    using spaces_ends by (auto intro!: trim_left_None strip_one_Nil)
  then show ?thesis by (simp add: TrimSpace_def)
qed

section \<open>Decimal rendering\<close>

definition digit :: "nat \<Rightarrow> char" where
  "digit d = char_of (48 + d)"

fun dec_nat :: "nat \<Rightarrow> string" where
  "dec_nat n = (if n < 10 then [digit n] else dec_nat (n div 10) @ [digit (n mod 10)])"

declare dec_nat.simps [simp del]

text \<open>\<open>fmt.Sprintf("%d", n)\<close>.\<close>

definition itoa :: "int \<Rightarrow> string" where
  "itoa n = (if n < 0 then CHR ''-'' # dec_nat (nat (- n)) else dec_nat (nat n))"

definition undec :: "string \<Rightarrow> nat" where
  "undec s = foldl (\<lambda>a c. 10 * a + (of_char c - 48)) 0 s"

lemma of_char_digit: "d < 10 \<Longrightarrow> of_char (digit d) = 48 + d"
  by (simp add: digit_def take_bit_eq_mod)

lemma undec_dec_nat: "undec (dec_nat n) = n"
proof (induction n rule: dec_nat.induct)
  case (1 n)
  show ?case
  proof (cases "n < 10")
    case True
    then show ?thesis
      by (simp add: dec_nat.simps [of n] undec_def of_char_digit)
  next
    case False
    then show ?thesis
      using 1 by (simp add: dec_nat.simps [of n] undec_def of_char_digit)
  qed
qed

lemma dec_nat_digits: "c \<in> set (dec_nat n) \<Longrightarrow> c \<in> digit ` {0..<10}"
proof (induction n rule: dec_nat.induct)
  case (1 n)
  then show ?case
    by (cases "n < 10") (auto simp: dec_nat.simps [of n])
qed

lemma digit_graphic: "d < 10 \<Longrightarrow> graphic (digit d) \<and> digit d \<noteq> CHR ''-''"
proof -
  assume d: "d < 10"
  have "digit d \<noteq> CHR ''-''"
  proof
    assume "digit d = CHR ''-''"
    then have "(of_char (digit d) :: nat) = of_char (CHR ''-'')" by simp
    with d show False by (simp add: of_char_digit)
  qed
  with d show ?thesis by (simp add: graphic_def of_char_digit)
qed

lemma dec_nat_graphic: "c \<in> set (dec_nat n) \<Longrightarrow> graphic c \<and> c \<noteq> CHR ''-''"
  using dec_nat_digits [of c n] digit_graphic by auto

lemma dec_nat_no_minus: "CHR ''-'' \<notin> set (dec_nat n)"
  using dec_nat_graphic by blast

definition unitoa :: "string \<Rightarrow> int" where
  "unitoa s =
     (if s \<noteq> [] \<and> hd s = CHR ''-'' then - int (undec (tl s)) else int (undec s))"

lemma unitoa_itoa: "unitoa (itoa n) = n"
proof (cases "n < 0")
  case True
  then show ?thesis by (simp add: unitoa_def itoa_def undec_dec_nat)
next
  case False
  have "hd (dec_nat (nat n)) \<noteq> CHR ''-''" if "dec_nat (nat n) \<noteq> []"
    using dec_nat_no_minus [of "nat n"] hd_in_set [OF that] by metis
  with False show ?thesis by (auto simp: unitoa_def itoa_def undec_dec_nat)
qed

lemma itoa_inj: "itoa a = itoa b \<longleftrightarrow> a = b"
  by (metis unitoa_itoa)

lemma itoa_graphic: "c \<in> set (itoa n) \<Longrightarrow> graphic c"
  using dec_nat_graphic [of c] by (auto simp: itoa_def graphic_def split: if_splits)

text \<open>\<open>strings.ToLower\<close> on the ASCII letters.\<close>

definition to_lower :: "string \<Rightarrow> string" where
  "to_lower s =
     map (\<lambda>c. let n = (of_char c :: nat) in if 65 \<le> n \<and> n \<le> 90 then char_of (n + 32) else c) s"

text \<open>\<open>strings.Contains\<close>.\<close>

fun Contains :: "string \<Rightarrow> string \<Rightarrow> bool" where
  "Contains [] p = (p = [])"
| "Contains (c # s) p = (HasPrefix (c # s) p \<or> Contains s p)"

end
