(* ===== verification/Base64.thy ===== *)
theory Base64
  imports GoStrings
begin

text \<open>
  Go's \<open>base64.StdEncoding\<close>: the padded standard alphabet. Decoding skips carriage returns
  and line feeds, wants the padding, and accepts any value in the unused trailing bits, as
  the non-strict encoding does.
\<close>

definition b64_alphabet :: string where
  "b64_alphabet = ''ABCDEFGHIJKLMNOPQRSTUVWXYZabcdefghijklmnopqrstuvwxyz0123456789+/''"

abbreviation (input) pad :: char where
  "pad \<equiv> CHR ''=''"

definition enc6 :: "nat \<Rightarrow> char" where
  "enc6 n = b64_alphabet ! n"

definition dec6 :: "char \<Rightarrow> nat option" where
  "dec6 c = map_of (zip b64_alphabet [0..<64]) c"

text \<open>The four sextets of three octets, and the octets from the sextets.\<close>

definition sext1 :: "nat \<Rightarrow> nat" where
  "sext1 a = a div 4"

definition sext2 :: "nat \<Rightarrow> nat \<Rightarrow> nat" where
  "sext2 a b = a mod 4 * 16 + b div 16"

definition sext3 :: "nat \<Rightarrow> nat \<Rightarrow> nat" where
  "sext3 b c = b mod 16 * 4 + c div 64"

definition sext4 :: "nat \<Rightarrow> nat" where
  "sext4 c = c mod 64"

definition oct1 :: "nat \<Rightarrow> nat \<Rightarrow> nat" where
  "oct1 n1 n2 = n1 * 4 + n2 div 16"

definition oct2 :: "nat \<Rightarrow> nat \<Rightarrow> nat" where
  "oct2 n2 n3 = n2 mod 16 * 16 + n3 div 4"

definition oct3 :: "nat \<Rightarrow> nat \<Rightarrow> nat" where
  "oct3 n3 n4 = n3 mod 4 * 64 + n4"

fun b64_nats :: "nat list \<Rightarrow> string" where
  "b64_nats [] = []"
| "b64_nats [a] = [enc6 (sext1 a), enc6 (sext2 a 0), pad, pad]"
| "b64_nats [a, b] = [enc6 (sext1 a), enc6 (sext2 a b), enc6 (sext3 b 0), pad]"
| "b64_nats (a # b # c # r) =
     enc6 (sext1 a) # enc6 (sext2 a b) # enc6 (sext3 b c) # enc6 (sext4 c) # b64_nats r"

definition b64_encode :: "bytes \<Rightarrow> string" where
  "b64_encode bs = b64_nats (map unat bs)"

fun b64_quads :: "string \<Rightarrow> nat list option" where
  "b64_quads [] = Some []"
| "b64_quads (c1 # c2 # c3 # c4 # r) =
     (case (dec6 c1, dec6 c2) of
        (Some n1, Some n2) \<Rightarrow>
          if c3 = pad \<and> c4 = pad \<and> r = [] then Some [oct1 n1 n2]
          else (case dec6 c3 of
             None \<Rightarrow> None
           | Some n3 \<Rightarrow>
               if c4 = pad \<and> r = [] then Some [oct1 n1 n2, oct2 n2 n3]
               else (case (dec6 c4, b64_quads r) of
                  (Some n4, Some ns) \<Rightarrow> Some (oct1 n1 n2 # oct2 n2 n3 # oct3 n3 n4 # ns)
                | _ \<Rightarrow> None))
      | _ \<Rightarrow> None)"
| "b64_quads _ = None"

definition b64_decode :: "string \<Rightarrow> bytes option" where
  "b64_decode s =
     map_option (map word_of_nat)
       (b64_quads (filter (\<lambda>c. c \<noteq> CHR 0x0A \<and> c \<noteq> CHR 0x0D) s))"

lemma length_b64_alphabet [simp]: "length b64_alphabet = 64"
  by (simp add: b64_alphabet_def)

lemma distinct_b64_alphabet: "distinct b64_alphabet"
  by (simp add: b64_alphabet_def)

lemma dec6_enc6 [simp]: "n < 64 \<Longrightarrow> dec6 (enc6 n) = Some n"
  using distinct_b64_alphabet by (simp add: dec6_def enc6_def map_of_zip_nth)

lemma enc6_in: "n < 64 \<Longrightarrow> enc6 n \<in> set b64_alphabet"
  by (simp add: enc6_def)

text \<open>The alphabet and the padding are printable ASCII, and neither holds a separator.\<close>

definition b64_char :: "char \<Rightarrow> bool" where
  "b64_char c \<longleftrightarrow> graphic c \<and> c \<noteq> CHR '':'' \<and> c \<noteq> CHR ''.''"

lemma b64_alphabet_char: "\<forall>c \<in> set b64_alphabet. b64_char c \<and> c \<noteq> pad"
  by (simp add: b64_alphabet_def graphic_def b64_char_def)

lemma b64_char_pad [simp]: "b64_char pad"
  by (simp add: b64_char_def graphic_def)

lemma enc6_char [simp]: "n < 64 \<Longrightarrow> b64_char (enc6 n)"
  using enc6_in b64_alphabet_char by blast

lemma enc6_not_pad [simp]: "n < 64 \<Longrightarrow> enc6 n \<noteq> pad"
  using enc6_in b64_alphabet_char by metis

lemma sext_less [simp]:
  "a < 256 \<Longrightarrow> sext1 a < 64" "b < 256 \<Longrightarrow> sext2 a b < 64" "c < 256 \<Longrightarrow> sext3 b c < 64"
  "sext4 c < 64"
proof -
  have "a mod 4 < 4" "b mod 16 < 16" by simp_all
  then show "a < 256 \<Longrightarrow> sext1 a < 64" "b < 256 \<Longrightarrow> sext2 a b < 64" "c < 256 \<Longrightarrow> sext3 b c < 64"
    "sext4 c < 64"
    by (auto simp: sext1_def sext2_def sext3_def sext4_def)
qed

lemma oct_sext [simp]:
  "b < 256 \<Longrightarrow> oct1 (sext1 a) (sext2 a b) = a"
  "b < 256 \<Longrightarrow> c < 256 \<Longrightarrow> oct2 (sext2 a b) (sext3 b c) = b"
  "c < 256 \<Longrightarrow> oct3 (sext3 b c) (sext4 c) = c"
  by (simp_all add: oct1_def oct2_def oct3_def sext1_def sext2_def sext3_def sext4_def
        less_mult_imp_div_less)

lemma b64_nats_chars: "\<forall>n \<in> set ns. n < 256 \<Longrightarrow> c \<in> set (b64_nats ns) \<Longrightarrow> b64_char c"
  by (induction ns rule: b64_nats.induct) auto

lemma all_bytes: "\<forall>n \<in> set (map unat (bs :: bytes)). n < 256"
  using unat_byte by auto

lemma b64_encode_char: "c \<in> set (b64_encode bs) \<Longrightarrow> b64_char c"
  unfolding b64_encode_def by (rule b64_nats_chars [OF all_bytes])

lemma b64_quads_nats: "\<forall>n \<in> set ns. n < 256 \<Longrightarrow> b64_quads (b64_nats ns) = Some ns"
  by (induction ns rule: b64_nats.induct) auto

lemma b64_decode_encode [simp]: "b64_decode (b64_encode bs) = Some bs"
proof -
  have "c \<noteq> CHR 0x0A \<and> c \<noteq> CHR 0x0D" if "b64_char c" for c
    using that by (auto simp: b64_char_def graphic_def)
  then have "filter (\<lambda>c. c \<noteq> CHR 0x0A \<and> c \<noteq> CHR 0x0D) (b64_encode bs) = b64_encode bs"
    using b64_encode_char by (intro filter_True) blast
  then show ?thesis
    by (simp add: b64_decode_def b64_encode_def b64_quads_nats [OF all_bytes] comp_def)
qed

lemma b64_encode_inject [simp]: "b64_encode a = b64_encode b \<longleftrightarrow> a = b"
  by (metis b64_decode_encode option.inject)

lemma b64_decode_example: "b64_decode ''aGk='' = Some [104, 105]"
  by code_simp

end
