(* ===== verification/Crypto.thy ===== *)
theory Crypto
  imports Base64
begin

text \<open>
  \<open>internal/crypto/crypto.go\<close>: key generation, the key file, key agreement, AES-GCM and
  signatures. The primitives behind it (X25519, SHA-256, AES-GCM, Ed25519) are the fields of
  the parameter \<open>crypto_lib\<close>; what the program relies on of them is \<open>crypto_lawful\<close>. Their
  preconditions are the library's: a wrong AES key length is an error, a wrong nonce length
  or a wrong Ed25519 key length panics.
\<close>

unbundle bit_operations_syntax

record crypto_lib =
  lib_x25519 :: "bytes \<Rightarrow> bytes \<Rightarrow> bytes option"
  lib_sha256 :: "bytes \<Rightarrow> bytes"
  lib_seal :: "bytes \<Rightarrow> bytes \<Rightarrow> bytes \<Rightarrow> bytes"
  lib_open :: "bytes \<Rightarrow> bytes \<Rightarrow> bytes \<Rightarrow> bytes option"
  lib_sign :: "bytes \<Rightarrow> bytes \<Rightarrow> bytes"
  lib_verify :: "bytes \<Rightarrow> bytes \<Rightarrow> bytes \<Rightarrow> bool"
  lib_ed25519 :: "bytes \<Rightarrow> bytes \<times> bytes"

definition aes_key_size :: "bytes \<Rightarrow> bool" where
  "aes_key_size k = (length k = 16 \<or> length k = 24 \<or> length k = 32)"

definition basepoint :: bytes where
  "basepoint = 9 # replicate 31 0"

definition crypto_lawful :: "crypto_lib \<Rightarrow> bool" where
  "crypto_lawful L \<longleftrightarrow>
     (\<forall>k n p. aes_key_size k \<longrightarrow> length n = 12 \<longrightarrow> lib_open L k n (lib_seal L k n p) = Some p)
     \<and> (\<forall>a b A B. lib_x25519 L a basepoint = Some A \<longrightarrow> lib_x25519 L b basepoint = Some B
           \<longrightarrow> lib_x25519 L a B = lib_x25519 L b A)
     \<and> (\<forall>m. length (lib_sha256 L m) = 32)"

text \<open>A signing pair as Ed25519 makes it, and an agreement pair as X25519 does.\<close>

definition sign_pair :: "crypto_lib \<Rightarrow> bytes \<Rightarrow> bytes \<Rightarrow> bool" where
  "sign_pair L pub priv \<longleftrightarrow>
     length pub = 32 \<and> length priv = 64 \<and> (\<forall>m. lib_verify L pub m (lib_sign L priv m))"

definition dh_pair :: "crypto_lib \<Rightarrow> bytes \<Rightarrow> bytes \<Rightarrow> bool" where
  "dh_pair L priv pub \<longleftrightarrow> lib_x25519 L priv basepoint = Some pub"

section \<open>Operations\<close>

text \<open>\<open>io.ReadFull(rand.Reader, buf)\<close>: \<open>None\<close> is a failing source, else exactly \<open>n\<close> bytes.\<close>

definition read_full :: "nat \<Rightarrow> bytes option \<Rightarrow> bytes go" where
  "read_full n r = (case r of None \<Rightarrow> Err ''rand'' | Some b \<Rightarrow> Ret (take n (b @ replicate n 0)))"

definition EncodeKey :: "bytes \<Rightarrow> string" where
  "EncodeKey k = b64_encode k"

definition DecodeKey :: "string \<Rightarrow> bytes go" where
  "DecodeKey s = (case b64_decode s of None \<Rightarrow> Err ''illegal base64 data'' | Some b \<Rightarrow> Ret b)"

definition GenerateSigningKey :: "crypto_lib \<Rightarrow> bytes option \<Rightarrow> (bytes \<times> bytes) go" where
  "GenerateSigningKey L r =
     (case read_full 32 r of Ret seed \<Rightarrow> Ret (lib_ed25519 L seed) | Err e \<Rightarrow> Err e | Panic e \<Rightarrow> Panic e)"

definition clamp_scalar :: "bytes \<Rightarrow> bytes" where
  "clamp_scalar p =
     (let p1 = p[0 := p ! 0 AND 248]; p2 = p1[31 := p1 ! 31 AND 127] in p2[31 := p2 ! 31 OR 64])"

definition GenerateEncryptionKey :: "crypto_lib \<Rightarrow> bytes option \<Rightarrow> (bytes \<times> bytes) go" where
  "GenerateEncryptionKey L r =
     (case read_full 32 r of
        Ret b \<Rightarrow>
          (let priv = clamp_scalar b in
           case lib_x25519 L priv basepoint of None \<Rightarrow> Err ''x25519'' | Some pub \<Rightarrow> Ret (priv, pub))
      | Err e \<Rightarrow> Err e
      | Panic e \<Rightarrow> Panic e)"

definition DeriveSharedKey :: "crypto_lib \<Rightarrow> bytes \<Rightarrow> bytes \<Rightarrow> bytes go" where
  "DeriveSharedKey L priv pub =
     (case lib_x25519 L priv pub of None \<Rightarrow> Err ''x25519'' | Some secret \<Rightarrow> Ret (lib_sha256 L secret))"

definition EncryptAES :: "crypto_lib \<Rightarrow> bytes option \<Rightarrow> bytes \<Rightarrow> bytes \<Rightarrow> (bytes \<times> bytes) go" where
  "EncryptAES L r plaintext aesKey =
     (if \<not> aes_key_size aesKey then Err ''invalid key size''
      else (case read_full 12 r of
         Ret nonce \<Rightarrow> Ret (lib_seal L aesKey nonce plaintext, nonce)
       | Err e \<Rightarrow> Err e
       | Panic e \<Rightarrow> Panic e))"

definition DecryptAES :: "crypto_lib \<Rightarrow> bytes \<Rightarrow> bytes \<Rightarrow> bytes \<Rightarrow> bytes go" where
  "DecryptAES L ciphertext nonce aesKey =
     (if \<not> aes_key_size aesKey then Err ''invalid key size''
      else if length nonce \<noteq> 12 then Panic ''incorrect nonce length given to GCM''
      else (case lib_open L aesKey nonce ciphertext of
         None \<Rightarrow> Err ''message authentication failed''
       | Some p \<Rightarrow> Ret p))"

definition Sign :: "crypto_lib \<Rightarrow> bytes \<Rightarrow> bytes \<Rightarrow> bytes go" where
  "Sign L priv data =
     (if length priv \<noteq> 64 then Panic ''bad private key length'' else Ret (lib_sign L priv data))"

definition Verify :: "crypto_lib \<Rightarrow> bytes \<Rightarrow> bytes \<Rightarrow> bytes \<Rightarrow> bool go" where
  "Verify L pub data sig =
     (if length pub \<noteq> 32 then Panic ''bad public key length'' else Ret (lib_verify L pub data sig))"

section \<open>The key file\<close>

record KeyFile =
  kf_sign_public :: string
  kf_sign_private :: string
  kf_enc_private :: string
  kf_enc_public :: string

record parsed_keys =
  k_sign_public :: bytes
  k_sign_private :: bytes
  k_enc_private :: bytes
  k_enc_public :: bytes

text \<open>The JSON of a key file is a parameter: \<open>render\<close> and \<open>parse\<close>.\<close>

definition ParseKeyFile :: "(bytes \<Rightarrow> KeyFile option) \<Rightarrow> bytes \<Rightarrow> parsed_keys go" where
  "ParseKeyFile parse data =
     (case parse data of
        None \<Rightarrow> Err ''json''
      | Some kf \<Rightarrow>
         (case DecodeKey (kf_sign_public kf) of Err e \<Rightarrow> Err e | Panic e \<Rightarrow> Panic e | Ret sp \<Rightarrow>
         (case DecodeKey (kf_sign_private kf) of Err e \<Rightarrow> Err e | Panic e \<Rightarrow> Panic e | Ret sk \<Rightarrow>
         (case DecodeKey (kf_enc_private kf) of Err e \<Rightarrow> Err e | Panic e \<Rightarrow> Panic e | Ret ek \<Rightarrow>
         (case DecodeKey (kf_enc_public kf) of Err e \<Rightarrow> Err e | Panic e \<Rightarrow> Panic e | Ret ep \<Rightarrow>
            Ret \<lparr>k_sign_public = sp, k_sign_private = sk, k_enc_private = ek, k_enc_public = ep\<rparr>)))))"

definition FormatKeyFile :: "(KeyFile \<Rightarrow> bytes) \<Rightarrow> parsed_keys \<Rightarrow> bytes" where
  "FormatKeyFile render k =
     render \<lparr>kf_sign_public = EncodeKey (k_sign_public k),
             kf_sign_private = EncodeKey (k_sign_private k),
             kf_enc_private = EncodeKey (k_enc_private k),
             kf_enc_public = EncodeKey (k_enc_public k)\<rparr>"

section \<open>Facts\<close>

lemma DecodeKey_EncodeKey [simp]: "DecodeKey (EncodeKey k) = Ret k"
  by (simp add: DecodeKey_def EncodeKey_def)

lemma DecodeKey_no_panic [simp]: "DecodeKey s \<noteq> Panic e"
  by (simp add: DecodeKey_def split: option.splits)

lemma DecodeKey_b64: "DecodeKey s = Ret b \<longleftrightarrow> b64_decode s = Some b"
  by (simp add: DecodeKey_def split: option.splits)

lemma read_full_length: "read_full n r = Ret b \<Longrightarrow> length b = n"
  by (auto simp: read_full_def split: option.splits)

lemma EncryptAES_RetD:
  "EncryptAES L r p k = Ret (ct, nonce) \<Longrightarrow>
     aes_key_size k \<and> length nonce = 12 \<and> ct = lib_seal L k nonce p"
  by (auto simp: EncryptAES_def read_full_length split: if_splits go.splits)

lemma DecryptAES_seal:
  "crypto_lawful L \<Longrightarrow> aes_key_size k \<Longrightarrow> length nonce = 12
    \<Longrightarrow> DecryptAES L (lib_seal L k nonce p) nonce k = Ret p"
  by (simp add: DecryptAES_def crypto_lawful_def)

lemma DecryptAES_EncryptAES:
  "crypto_lawful L \<Longrightarrow> EncryptAES L r p k = Ret (ct, nonce) \<Longrightarrow> DecryptAES L ct nonce k = Ret p"
  by (drule EncryptAES_RetD) (auto simp: DecryptAES_seal)

lemma DeriveSharedKey_agree:
  "crypto_lawful L \<Longrightarrow> dh_pair L a A \<Longrightarrow> dh_pair L b B \<Longrightarrow> DeriveSharedKey L a B = DeriveSharedKey L b A"
proof -
  assume "crypto_lawful L" "dh_pair L a A" "dh_pair L b B"
  then have "lib_x25519 L a B = lib_x25519 L b A"
    unfolding crypto_lawful_def dh_pair_def by blast
  then show ?thesis by (simp only: DeriveSharedKey_def)
qed

lemma DeriveSharedKey_size: "crypto_lawful L \<Longrightarrow> DeriveSharedKey L a B = Ret k \<Longrightarrow> aes_key_size k"
  by (auto simp: DeriveSharedKey_def crypto_lawful_def aes_key_size_def split: option.splits)

lemma GenerateEncryptionKey_pair: "GenerateEncryptionKey L r = Ret (priv, pub) \<Longrightarrow> dh_pair L priv pub"
  by (auto simp: GenerateEncryptionKey_def dh_pair_def Let_def split: go.splits option.splits)

lemma Sign_Verify: "sign_pair L pub priv \<Longrightarrow> Sign L priv m = Ret s \<Longrightarrow> Verify L pub m s = Ret True"
  by (auto simp: sign_pair_def Sign_def Verify_def)

lemma ParseKeyFile_FormatKeyFile:
  assumes "\<forall>kf. parse (render kf) = Some kf"
  shows "ParseKeyFile parse (FormatKeyFile render k) = Ret k"
proof -
  have "parse (FormatKeyFile render k) = Some
     \<lparr>kf_sign_public = EncodeKey (k_sign_public k), kf_sign_private = EncodeKey (k_sign_private k),
      kf_enc_private = EncodeKey (k_enc_private k), kf_enc_public = EncodeKey (k_enc_public k)\<rparr>"
    unfolding FormatKeyFile_def by (rule assms [THEN spec])
  then show ?thesis by (simp add: ParseKeyFile_def)
qed

lemma clamp_scalar_shape:
  assumes "length p = 32"
  shows "clamp_scalar p = (p ! 0 AND 248) # take 30 (drop 1 p) @ [(p ! 31 AND 127) OR 64]"
proof -
  obtain x xs where p: "p = x # xs" "length xs = 31" using assms by (cases p) auto
  then obtain ys y where xs: "xs = ys @ [y]" "length ys = 30"
    by (cases xs rule: rev_cases) auto
  show ?thesis
    using p xs by (simp add: clamp_scalar_def Let_def nth_append list_update_append)
qed

lemma byte_masks:
  fixes x :: byte
  shows "(x AND 248) AND 7 = 0" and "((x AND 127) OR 64) AND 192 = 64"
proof -
  have "(248::byte) AND 7 = 0" "(127::byte) AND 192 = 64" "(64::byte) AND 192 = 64" by simp_all
  then show "(x AND 248) AND 7 = 0" and "((x AND 127) OR 64) AND 192 = 64"
    by (simp_all add: and.assoc bit.conj_disj_distrib2 or.commute)
qed

lemma clamp_scalar_bits:
  assumes "length p = 32"
  shows "clamp_scalar p ! 0 AND 7 = 0" and "clamp_scalar p ! 31 AND 192 = 64"
    and "length (clamp_scalar p) = 32"
  using assms by (simp_all add: clamp_scalar_shape nth_append byte_masks)

section \<open>A library for the concrete instances\<close>

text \<open>
  A stand-in for the primitives that satisfies what is assumed of them: XOR for agreement,
  the identity for encryption, and the public half of the key as signature. The concrete
  instances of the theorems run on it.
\<close>

definition toy_lib :: crypto_lib where
  "toy_lib =
     \<lparr>lib_x25519 = (\<lambda>a B. if B = basepoint then Some (0 # a) else Some (map2 (XOR) a (tl B))),
      lib_sha256 = (\<lambda>m. take 32 (m @ replicate 32 0)),
      lib_seal = (\<lambda>k n p. p),
      lib_open = (\<lambda>k n c. Some c),
      lib_sign = (\<lambda>priv m. take 32 priv @ take 4 m),
      lib_verify = (\<lambda>pub m s. s = pub @ take 4 m),
      lib_ed25519 = (\<lambda>seed. (seed, seed @ seed))\<rparr>"

lemma toy_lib_lawful: "crypto_lawful toy_lib"
proof -
  have "map2 (XOR) a b = map2 (XOR) b a" for a b :: bytes
    by (subst zip_commute) (simp add: xor.commute case_prod_unfold comp_def)
  then show ?thesis
    by (auto simp: crypto_lawful_def toy_lib_def basepoint_def split: if_splits)
qed

lemma toy_sign_pair: "length p = 32 \<Longrightarrow> sign_pair toy_lib p (p @ p)"
  by (simp add: sign_pair_def toy_lib_def)

lemma toy_dh_pair: "dh_pair toy_lib a (0 # a)"
  by (simp add: dh_pair_def toy_lib_def)

end
