(* ===== verification/Json.thy ===== *)
theory Json
  imports GoStrings
begin

text \<open>
  What \<open>encoding/json\<close> does with strings and with a \<open>map[string]string\<close>, the form in which
  an envelope is signed: strings are quoted with HTML escaping on, a byte that is no part of
  valid UTF-8 becomes U+FFFD, and the keys of a map come out in byte order. The reader at
  the end takes such an object apart again; it shows that on valid UTF-8 the rendering
  loses nothing.
\<close>

section \<open>UTF-8\<close>

definition code :: "char \<Rightarrow> nat" where
  "code c = of_char c"

lemma code_less [simp]: "code c < 256"
  by (simp add: code_def)

lemma code_char [simp]: "n < 256 \<Longrightarrow> code (char_of n) = n"
  by (simp add: code_def take_bit_eq_mod)

lemma char_code [simp]: "char_of (code c) = c"
  by (simp add: code_def)

definition in_range :: "nat \<Rightarrow> nat \<Rightarrow> string \<Rightarrow> nat \<Rightarrow> bool" where
  "in_range lo hi s i = (i < length s \<and> lo \<le> code (s ! i) \<and> code (s ! i) \<le> hi)"

text \<open>
  The length of the rune at the head of a string that starts with a byte of 128 or more,
  and 0 where the bytes there are not valid UTF-8 (\<open>utf8.DecodeRuneInString\<close>).
\<close>

definition rune_size :: "string \<Rightarrow> nat" where
  "rune_size s =
     (let b = code (hd s);
          lo = (if b = 224 then 160 else if b = 240 then 144 else 128);
          hi = (if b = 237 then 159 else if b = 244 then 143 else 191)
      in if 194 \<le> b \<and> b \<le> 223 \<and> in_range 128 191 s 1 then 2
         else if 224 \<le> b \<and> b \<le> 239 \<and> in_range lo hi s 1 \<and> in_range 128 191 s 2 then 3
         else if 240 \<le> b \<and> b \<le> 244 \<and> in_range lo hi s 1 \<and> in_range 128 191 s 2
                 \<and> in_range 128 191 s 3 then 4
         else 0)"

section \<open>Quoting\<close>

definition hex :: "nat \<Rightarrow> char" where
  "hex n = (if n < 10 then char_of (48 + n) else char_of (87 + n))"

definition escape_ascii :: "char \<Rightarrow> string" where
  "escape_ascii c =
     (if c = CHR 0x22 \<or> c = CHR 0x5C then [CHR 0x5C, c]
      else if c = CHR 0x08 then [CHR 0x5C, CHR ''b'']
      else if c = CHR 0x0C then [CHR 0x5C, CHR ''f'']
      else if c = CHR 0x0A then [CHR 0x5C, CHR ''n'']
      else if c = CHR 0x0D then [CHR 0x5C, CHR ''r'']
      else if c = CHR 0x09 then [CHR 0x5C, CHR ''t'']
      else if code c < 32 \<or> c = CHR ''<'' \<or> c = CHR ''>'' \<or> c = CHR 0x26
        then [CHR 0x5C, CHR ''u'', CHR ''0'', CHR ''0'', hex (code c div 16), hex (code c mod 16)]
      else [c])"

definition line_sep :: string where
  "line_sep = [CHR 0xE2, CHR 0x80, CHR 0xA8]"

definition para_sep :: string where
  "para_sep = [CHR 0xE2, CHR 0x80, CHR 0xA9]"

definition escape_rune :: "string \<Rightarrow> string" where
  "escape_rune r =
     (if r = line_sep then CHR 0x5C # ''u2028''
      else if r = para_sep then CHR 0x5C # ''u2029''
      else r)"

function escape :: "string \<Rightarrow> string" where
  "escape [] = []"
| "escape (c # s) =
     (if code c < 128 then escape_ascii c @ escape s
      else let n = rune_size (c # s) in
        if n = 0 then CHR 0x5C # ''ufffd'' @ escape s
        else escape_rune (take n (c # s)) @ escape (drop n (c # s)))"
  by pat_completeness auto
termination
  by (relation "measure length") auto

function valid_utf8 :: "string \<Rightarrow> bool" where
  "valid_utf8 [] = True"
| "valid_utf8 (c # s) =
     (if code c < 128 then valid_utf8 s
      else let n = rune_size (c # s) in if n = 0 then False else valid_utf8 (drop n (c # s)))"
  by pat_completeness auto
termination
  by (relation "measure length") auto

definition quoted :: "string \<Rightarrow> string" where
  "quoted s = CHR 0x22 # escape s @ [CHR 0x22]"

fun members :: "(string \<times> string) list \<Rightarrow> string" where
  "members [] = []"
| "members [(k, v)] = quoted k @ CHR '':'' # quoted v"
| "members ((k, v) # m # ms) = quoted k @ CHR '':'' # quoted v @ CHR '','' # members (m # ms)"

definition json_map :: "(string \<times> string) list \<Rightarrow> string" where
  "json_map kvs = CHR ''{'' # members (sort_key fst kvs) @ ''}''"

lemma ascii_valid: "\<forall>c \<in> set s. code c < 128 \<Longrightarrow> valid_utf8 s"
  by (induction s) auto

lemma graphic_valid: "\<forall>c \<in> set s. graphic c \<Longrightarrow> valid_utf8 s"
  by (rule ascii_valid) (auto simp: graphic_def code_def)

section \<open>Reading a quoted string back\<close>

definition unhex :: "char \<Rightarrow> nat" where
  "unhex c = (if code c < 58 then code c - 48 else code c - 87)"

lemma unhex_hex: "n < 16 \<Longrightarrow> unhex (hex n) = n"
  by (auto simp: unhex_def hex_def)

definition unescape_u :: "char \<Rightarrow> char \<Rightarrow> char \<Rightarrow> char \<Rightarrow> string" where
  "unescape_u a b c d =
     (if [a, b, c, d] = ''2028'' then line_sep
      else if [a, b, c, d] = ''2029'' then para_sep
      else [char_of (unhex c * 16 + unhex d)])"

definition unescape_1 :: "char \<Rightarrow> char" where
  "unescape_1 c =
     (if c = CHR ''b'' then CHR 0x08 else if c = CHR ''f'' then CHR 0x0C
      else if c = CHR ''n'' then CHR 0x0A else if c = CHR ''r'' then CHR 0x0D
      else if c = CHR ''t'' then CHR 0x09 else c)"

definition prefix_to :: "string \<Rightarrow> (string \<times> string) option \<Rightarrow> (string \<times> string) option" where
  "prefix_to p r = map_option (apfst ((@) p)) r"

fun read_string :: "string \<Rightarrow> (string \<times> string) option" where
  "read_string [] = None"
| "read_string (x # r) =
     (if x = CHR 0x22 then Some ([], r)
      else if x = CHR 0x5C then
        (case r of
           [] \<Rightarrow> None
         | e # r1 \<Rightarrow>
             if e = CHR ''u'' then
               (case r1 of
                  a # b # c # d # r2 \<Rightarrow> prefix_to (unescape_u a b c d) (read_string r2)
                | _ \<Rightarrow> None)
             else prefix_to [unescape_1 e] (read_string r1))
      else prefix_to [x] (read_string r))"

declare read_string.simps(2) [simp del]

lemma read_plain:
  "x \<noteq> CHR 0x22 \<Longrightarrow> x \<noteq> CHR 0x5C \<Longrightarrow> read_string (x # r) = prefix_to [x] (read_string r)"
  by (simp add: read_string.simps(2))

lemma read_end [simp]: "read_string (CHR 0x22 # r) = Some ([], r)"
  by (simp add: read_string.simps(2))

lemma read_bs_u [simp]:
  "read_string (CHR 0x5C # CHR ''u'' # a # b # c # d # r)
    = prefix_to (unescape_u a b c d) (read_string r)"
  by (simp add: read_string.simps(2))

lemma read_bs_1 [simp]:
  "e \<noteq> CHR ''u'' \<Longrightarrow> read_string (CHR 0x5C # e # r) = prefix_to [unescape_1 e] (read_string r)"
  by (simp add: read_string.simps(2) [of "CHR 0x5C"])

lemma prefix_to_append: "prefix_to p (prefix_to q r) = prefix_to (p @ q) r"
  by (cases r) (auto simp: prefix_to_def)

lemma read_plain_list:
  "\<forall>x \<in> set p. x \<noteq> CHR 0x22 \<and> x \<noteq> CHR 0x5C \<Longrightarrow> read_string (p @ r) = prefix_to p (read_string r)"
proof (induction p)
  case Nil
  then show ?case by (cases "read_string r") (auto simp: prefix_to_def)
next
  case (Cons x p)
  then show ?case by (simp add: read_plain prefix_to_append)
qed

lemma code_eq_iff: "code c = code d \<longleftrightarrow> c = d"
  by (metis char_code)

lemma unescape_u00:
  assumes "code c < 128"
  shows "unescape_u (CHR ''0'') (CHR ''0'') (hex (code c div 16)) (hex (code c mod 16)) = [c]"
proof -
  have "code c div 16 < 16" "code c mod 16 < 16" using assms by auto
  then have "unhex (hex (code c div 16)) * 16 + unhex (hex (code c mod 16)) = code c"
    by (simp add: unhex_hex)
  then show ?thesis by (simp add: unescape_u_def)
qed

lemma read_escape_ascii:
  "code c < 128 \<Longrightarrow> read_string (escape_ascii c @ r) = prefix_to [c] (read_string r)"
  by (auto simp: escape_ascii_def unescape_u00 read_plain unescape_1_def)

lemma rune_size_le: "rune_size s \<le> 4"
  by (simp add: rune_size_def Let_def)

lemma rune_size_range:
  assumes "0 < i" "i < rune_size s"
  shows "128 \<le> code (s ! i)"
proof -
  consider "i = 1" | "i = 2" | "i = 3" using assms rune_size_le [of s] by linarith
  then show ?thesis
    by cases (use assms in \<open>auto simp: rune_size_def in_range_def Let_def split: if_splits\<close>)
qed

lemma rune_bytes:
  assumes "128 \<le> code c"
  shows "\<forall>x \<in> set (take (rune_size (c # s)) (c # s)). 128 \<le> code x"
  unfolding all_set_conv_all_nth
proof (intro allI impI)
  fix i assume i: "i < length (take (rune_size (c # s)) (c # s))"
  show "128 \<le> code (take (rune_size (c # s)) (c # s) ! i)"
  proof (cases i)
    case 0
    then have "rune_size (c # s) \<noteq> 0" using i by auto
    with 0 assms show ?thesis by simp
  next
    case (Suc k)
    then show ?thesis using rune_size_range [of i "c # s"] i by simp
  qed
qed

lemma read_escape_rune:
  assumes "\<forall>x \<in> set p. 128 \<le> code x"
  shows "read_string (escape_rune p @ r) = prefix_to p (read_string r)"
proof -
  have "x \<noteq> CHR 0x22 \<and> x \<noteq> CHR 0x5C" if "x \<in> set p" for x
    using assms that by (auto simp: code_def)
  then show ?thesis
    by (auto simp: escape_rune_def unescape_u_def intro!: read_plain_list)
qed

lemma read_escape:
  "valid_utf8 s \<Longrightarrow> read_string (escape s @ r) = prefix_to s (read_string r)"
proof (induction s rule: escape.induct)
  case 1
  then show ?case by (cases "read_string r") (auto simp: prefix_to_def)
next
  case (2 c s)
  show ?case
  proof (cases "code c < 128")
    case True
    with 2 show ?thesis by (simp add: read_escape_ascii prefix_to_append)
  next
    case False
    let ?n = "rune_size (c # s)"
    have n: "?n \<noteq> 0" "valid_utf8 (drop ?n (c # s))"
      using 2(4) False by (auto simp: Let_def split: if_splits)
    have "read_string (escape (c # s) @ r)
        = read_string (escape_rune (take ?n (c # s)) @ escape (drop ?n (c # s)) @ r)"
      using False n by (simp add: Let_def)
    also have "\<dots> = prefix_to (take ?n (c # s)) (read_string (escape (drop ?n (c # s)) @ r))"
      using rune_bytes [of c s] False by (intro read_escape_rune) simp
    also have "\<dots> = prefix_to (take ?n (c # s) @ drop ?n (c # s)) (read_string r)"
      using 2(3) [OF False refl n(1)] n(2) by (simp add: prefix_to_append)
    finally show ?thesis by simp
  qed
qed

lemma read_quoted: "valid_utf8 s \<Longrightarrow> read_string (escape s @ CHR 0x22 # r) = Some (s, r)"
  by (simp add: read_escape prefix_to_def)

text \<open>Two quoted strings are told apart whatever follows them.\<close>

lemma quoted_eqD:
  assumes "valid_utf8 a" "valid_utf8 b" "quoted a @ r = quoted b @ t"
  shows "a = b \<and> r = t"
proof -
  have "escape a @ CHR 0x22 # r = escape b @ CHR 0x22 # t"
    using assms(3) by (simp add: quoted_def)
  then have "Some (a, r) = Some (b, t)"
    using read_quoted [OF assms(1)] read_quoted [OF assms(2)] by metis
  then show ?thesis by simp
qed

definition valid_pair :: "string \<times> string \<Rightarrow> bool" where
  "valid_pair kv = (valid_utf8 (fst kv) \<and> valid_utf8 (snd kv))"

lemma members_inj:
  "\<forall>m \<in> set ms. valid_pair m \<Longrightarrow> \<forall>m \<in> set ns. valid_pair m
    \<Longrightarrow> members ms @ ''}'' = members ns @ ''}'' \<Longrightarrow> ms = ns"
proof (induction ms arbitrary: ns rule: members.induct)
  case 1
  then show ?case
    by (cases ns rule: members.cases) (auto simp: quoted_def)
next
  case (2 k v)
  then show ?case
  proof (cases ns rule: members.cases)
    case (3 k' v' m ns')
    have "k = k' \<and> CHR '':'' # quoted v @ ''}'' = CHR '':'' # quoted v' @ CHR '','' # members (m # ns') @ ''}''"
      by (rule quoted_eqD) (use 2 3 in \<open>auto simp: valid_pair_def\<close>)
    then have "v = v' \<and> ''}'' = CHR '','' # members (m # ns') @ ''}''"
      by (intro quoted_eqD) (use 2 3 in \<open>auto simp: valid_pair_def\<close>)
    then show ?thesis by simp
  next
    case (2 k' v')
    have "k = k' \<and> CHR '':'' # quoted v @ ''}'' = CHR '':'' # quoted v' @ ''}''"
      by (rule quoted_eqD) (use \<open>ns = _\<close> "2.prems" in \<open>auto simp: valid_pair_def\<close>)
    then have "v = v'"
      using quoted_eqD [of v v' "''}''" "''}''"] "2.prems" \<open>ns = _\<close> by (auto simp: valid_pair_def)
    with \<open>k = k' \<and> _\<close> 2 show ?thesis by simp
  qed (auto simp: quoted_def)
next
  case (3 k v m ms)
  then show ?case
  proof (cases ns rule: members.cases)
    case (3 k' v' m' ns')
    have "k = k' \<and> CHR '':'' # quoted v @ CHR '','' # members (m # ms) @ ''}''
        = CHR '':'' # quoted v' @ CHR '','' # members (m' # ns') @ ''}''"
      by (rule quoted_eqD) (use \<open>ns = _\<close> "3.prems" in \<open>auto simp: valid_pair_def\<close>)
    moreover from this have "v = v' \<and> CHR '','' # members (m # ms) @ ''}''
        = CHR '','' # members (m' # ns') @ ''}''"
      by (intro quoted_eqD) (use \<open>ns = _\<close> "3.prems" in \<open>auto simp: valid_pair_def\<close>)
    ultimately show ?thesis
      using "3.IH" [of "m' # ns'"] "3.prems" 3 by auto
  next
    case (2 k' v')
    have "k = k' \<and> CHR '':'' # quoted v @ CHR '','' # members (m # ms) @ ''}''
        = CHR '':'' # quoted v' @ ''}''"
      by (rule quoted_eqD) (use \<open>ns = _\<close> "3.prems" in \<open>auto simp: valid_pair_def\<close>)
    then have "v = v' \<and> CHR '','' # members (m # ms) @ ''}'' = ''}''"
      by (intro quoted_eqD) (use \<open>ns = _\<close> "3.prems" in \<open>auto simp: valid_pair_def\<close>)
    then show ?thesis by simp
  qed (auto simp: quoted_def)
qed

text \<open>
  On valid UTF-8 the rendering of a map determines the map: two maps with distinct keys
  that render alike hold the same pairs.
\<close>

theorem json_map_inj:
  assumes "json_map ms = json_map ns"
    and "\<forall>m \<in> set ms. valid_pair m" "\<forall>m \<in> set ns. valid_pair m"
  shows "set ms = set ns"
proof -
  have "members (sort_key fst ms) @ ''}'' = members (sort_key fst ns) @ ''}''"
    using assms(1) by (simp add: json_map_def)
  then have "sort_key fst ms = sort_key fst ns"
    by (rule members_inj [rotated 2]) (use assms in auto)
  then show ?thesis by (metis set_sort)
qed

end
