(* ===== verification/Chunk.thy ===== *)
theory Chunk
  imports Json Crypto
begin

text \<open>
  \<open>internal/chunk/chunk.go\<close>: a plaintext is cut into blocks of 1024 bytes, each block is
  encrypted and signed as an \<open>Envelope\<close>, and a set of envelopes is verified, decrypted and
  put back together in the order of the chunk indices.

  Randomness is the parameter \<open>rnd\<close>: \<open>rnd i\<close> is what the \<open>i\<close>-th read of the random source
  yields, \<open>None\<close> when it fails. \<open>sort.Slice\<close> is not stable; it is modelled by the stable
  \<open>sort_key\<close>, and the theorems that depend on the result ask for distinct indices, where
  every sorting function agrees.
\<close>

definition ChunkSize :: nat where
  "ChunkSize = 1024"

lemma ChunkSize_pos [simp]: "0 < ChunkSize"
  by (simp add: ChunkSize_def)

record Envelope =
  env_message :: string
  env_sender :: string
  env_recipient :: string
  env_total :: int
  env_index :: int
  env_cipher :: string
  env_nonce :: string
  env_ephem :: string
  env_sig :: string

section \<open>Splitting\<close>

definition envelope_fields :: "Envelope \<Rightarrow> (string \<times> string) list" where
  "envelope_fields env =
     [(''message_id'', env_message env),
      (''sender_id'', env_sender env),
      (''total_chunks'', itoa (env_total env)),
      (''chunk_index'', itoa (env_index env)),
      (''ciphertext'', env_cipher env),
      (''nonce'', env_nonce env)]
     @ (if env_recipient env \<noteq> [] then [(''recipient_id'', env_recipient env)] else [])
     @ (if env_ephem env \<noteq> [] then [(''ephemeral_key'', env_ephem env)] else [])"

definition envelopeBytes :: "Envelope \<Rightarrow> bytes" where
  "envelopeBytes env = bytes_of (json_map (envelope_fields env))"

text \<open>
  One turn of the loop of both splitting functions: encrypt the block, fill in ciphertext
  and nonce of the envelope \<open>env\<close> made for it, sign, and add the signature.
\<close>

definition seal_chunk ::
    "crypto_lib \<Rightarrow> bytes option \<Rightarrow> bytes \<Rightarrow> bytes \<Rightarrow> bytes \<Rightarrow> Envelope \<Rightarrow> Envelope go" where
  "seal_chunk L r data aesKey signKey env =
     (case EncryptAES L r data aesKey of
        Err e \<Rightarrow> Err (''encrypt chunk: '' @ e)
      | Panic e \<Rightarrow> Panic e
      | Ret (ct, nonce) \<Rightarrow>
         (let env1 = env\<lparr>env_cipher := b64_encode ct, env_nonce := EncodeKey nonce\<rparr> in
          case Sign L signKey (envelopeBytes env1) of
            Err e \<Rightarrow> Err e
          | Panic e \<Rightarrow> Panic e
          | Ret sig \<Rightarrow> Ret (env1\<lparr>env_sig := EncodeKey sig\<rparr>)))"

definition SplitAndEncrypt ::
    "crypto_lib \<Rightarrow> (nat \<Rightarrow> bytes option) \<Rightarrow> string \<Rightarrow> string \<Rightarrow> string \<Rightarrow> bytes \<Rightarrow> bytes \<Rightarrow> bytes
      \<Rightarrow> Envelope list go" where
  "SplitAndEncrypt L rnd messageID senderID recipientID plaintext recipientPubKey signKey =
     (case GenerateEncryptionKey L (rnd 0) of
        Err e \<Rightarrow> Err (''generate ephemeral key: '' @ e)
      | Panic e \<Rightarrow> Panic e
      | Ret (ephemPriv, ephemPub) \<Rightarrow>
         (case DeriveSharedKey L ephemPriv recipientPubKey of
            Err e \<Rightarrow> Err (''derive shared key: '' @ e)
          | Panic e \<Rightarrow> Panic e
          | Ret aesKey \<Rightarrow>
             (let total = (length plaintext + ChunkSize - 1) div ChunkSize in
              go_map (\<lambda>i.
                  seal_chunk L (rnd (Suc i)) (block ChunkSize plaintext i) aesKey signKey
                    \<lparr>env_message = messageID, env_sender = senderID, env_recipient = recipientID,
                     env_total = int total, env_index = int i, env_cipher = [], env_nonce = [],
                     env_ephem = EncodeKey ephemPub, env_sig = []\<rparr>)
                [0..<total])))"

definition SplitAndEncryptFile ::
    "crypto_lib \<Rightarrow> (nat \<Rightarrow> bytes option) \<Rightarrow> string \<Rightarrow> string \<Rightarrow> bytes \<Rightarrow> bytes \<Rightarrow> bytes
      \<Rightarrow> Envelope list go" where
  "SplitAndEncryptFile L rnd fileID senderID plaintext aesKey signKey =
     (let total = max 1 ((length plaintext + ChunkSize - 1) div ChunkSize) in
      go_map (\<lambda>i.
          seal_chunk L (rnd i) (block ChunkSize plaintext i) aesKey signKey
            \<lparr>env_message = fileID, env_sender = senderID, env_recipient = [],
             env_total = int total, env_index = int i, env_cipher = [], env_nonce = [],
             env_ephem = [], env_sig = []\<rparr>)
        [0..<total])"

section \<open>Assembling\<close>

definition verify_envelope :: "crypto_lib \<Rightarrow> bytes \<Rightarrow> Envelope \<Rightarrow> unit go" where
  "verify_envelope L verifyKey env =
     (case DecodeKey (env_sig env) of
        Err e \<Rightarrow> Err (''decode sig: '' @ e)
      | Panic e \<Rightarrow> Panic e
      | Ret sig \<Rightarrow>
         (case Verify L verifyKey (envelopeBytes env) sig of
            Err e \<Rightarrow> Err e
          | Panic e \<Rightarrow> Panic e
          | Ret ok \<Rightarrow> if ok then Ret () else Err ''invalid signature on envelope''))"

definition open_envelope :: "crypto_lib \<Rightarrow> bytes \<Rightarrow> Envelope \<Rightarrow> (int \<times> bytes) go" where
  "open_envelope L aesKey env =
     (case DecodeKey (env_nonce env) of
        Err e \<Rightarrow> Err (''decode nonce: '' @ e)
      | Panic e \<Rightarrow> Panic e
      | Ret nonce \<Rightarrow>
         (case b64_decode (env_cipher env) of
            None \<Rightarrow> Err ''decode ciphertext''
          | Some ciphertext \<Rightarrow>
             (case DecryptAES L ciphertext nonce aesKey of
                Err e \<Rightarrow> Err (''decrypt chunk: '' @ e)
              | Panic e \<Rightarrow> Panic e
              | Ret plaintext \<Rightarrow> Ret (env_index env, plaintext))))"

definition join_chunks :: "(int \<times> bytes) list \<Rightarrow> bytes" where
  "join_chunks chunks = concat (map snd (sort_key fst chunks))"

definition AssembleAndDecryptFile :: "crypto_lib \<Rightarrow> Envelope list \<Rightarrow> bytes \<Rightarrow> bytes \<Rightarrow> bytes go" where
  "AssembleAndDecryptFile L envelopes aesKey verifyKey =
     (if envelopes = [] then Err ''no envelopes''
      else (case go_each (verify_envelope L verifyKey) envelopes of
         Err e \<Rightarrow> Err e
       | Panic e \<Rightarrow> Panic e
       | Ret _ \<Rightarrow>
          (case go_map (open_envelope L aesKey) envelopes of
             Err e \<Rightarrow> Err e
           | Panic e \<Rightarrow> Panic e
           | Ret chunks \<Rightarrow> Ret (join_chunks chunks))))"

definition AssembleAndDecrypt ::
    "crypto_lib \<Rightarrow> Envelope list \<Rightarrow> bytes \<Rightarrow> bytes \<Rightarrow> bytes \<Rightarrow> bytes go" where
  "AssembleAndDecrypt L envelopes myPrivateKey myPublicKey verifyKey =
     (if envelopes = [] then Err ''no envelopes''
      else (case go_each (verify_envelope L verifyKey) envelopes of
         Err e \<Rightarrow> Err e
       | Panic e \<Rightarrow> Panic e
       | Ret _ \<Rightarrow>
          (case DecodeKey (env_ephem (hd envelopes)) of
             Err e \<Rightarrow> Err (''decode ephemeral key: '' @ e)
           | Panic e \<Rightarrow> Panic e
           | Ret ephemPub \<Rightarrow>
              (case DeriveSharedKey L myPrivateKey ephemPub of
                 Err e \<Rightarrow> Err (''derive shared key: '' @ e)
               | Panic e \<Rightarrow> Panic e
               | Ret aesKey \<Rightarrow>
                  (case go_map (open_envelope L aesKey) envelopes of
                     Err e \<Rightarrow> Err e
                   | Panic e \<Rightarrow> Panic e
                   | Ret chunks \<Rightarrow> Ret (join_chunks chunks))))))"

section \<open>Hashes\<close>

definition ComputeHash :: "crypto_lib \<Rightarrow> bytes \<Rightarrow> string" where
  "ComputeHash L data = b64_encode (lib_sha256 L data)"

definition hex_byte :: "byte \<Rightarrow> string" where
  "hex_byte b = [hex (unat b div 16), hex (unat b mod 16)]"

definition RegisteredHash :: "crypto_lib \<Rightarrow> bytes \<Rightarrow> string" where
  "RegisteredHash L data = concat (map hex_byte (take 8 (lib_sha256 L data)))"

section \<open>Facts\<close>

lemma envelopeBytes_sig [simp]: "envelopeBytes (env\<lparr>env_sig := s\<rparr>) = envelopeBytes env"
  by (simp add: envelopeBytes_def envelope_fields_def)

lemma verify_envelope_Ret:
  "verify_envelope L vk env = Ret () \<longleftrightarrow>
     length vk = 32 \<and> (\<exists>sig. b64_decode (env_sig env) = Some sig \<and> lib_verify L vk (envelopeBytes env) sig)"
  by (auto simp: verify_envelope_def Verify_def DecodeKey_def split: option.splits go.splits if_splits)

lemma open_envelope_RetD: "open_envelope L k env = Ret (i, d) \<Longrightarrow> i = env_index env"
  by (auto simp: open_envelope_def split: go.splits option.splits)

text \<open>What one turn of the splitting loop leaves in the envelope.\<close>

lemma seal_chunk_RetD:
  assumes "seal_chunk L r data k sk env = Ret e"
  obtains nonce where "aes_key_size k" "length sk = 64" "length nonce = 12"
    "e = env\<lparr>env_cipher := b64_encode (lib_seal L k nonce data), env_nonce := EncodeKey nonce,
            env_sig := EncodeKey (lib_sign L sk (envelopeBytes
              (env\<lparr>env_cipher := b64_encode (lib_seal L k nonce data), env_nonce := EncodeKey nonce\<rparr>)))\<rparr>"
proof -
  obtain ct nonce where enc: "EncryptAES L r data k = Ret (ct, nonce)"
    using assms by (auto simp: seal_chunk_def split: go.splits)
  note d = EncryptAES_RetD [OF enc]
  have "length sk = 64"
    using assms enc by (auto simp: seal_chunk_def Sign_def Let_def split: if_splits)
  then show ?thesis
    using assms enc d by (intro that [of nonce]) (auto simp: seal_chunk_def Sign_def Let_def)
qed

lemma seal_chunk_opens:
  assumes L: "crypto_lawful L" "sign_pair L vk sk" and e: "seal_chunk L r data k sk env = Ret e"
  shows "verify_envelope L vk e = Ret ()" and "open_envelope L k e = Ret (env_index e, data)"
    and "env_index e = env_index env" and "env_total e = env_total env"
    and "env_message e = env_message env" and "env_sender e = env_sender env"
    and "env_recipient e = env_recipient env" and "env_ephem e = env_ephem env"
proof -
  obtain nonce where n: "aes_key_size k" "length sk = 64" "length nonce = 12"
    and eq: "e = env\<lparr>env_cipher := b64_encode (lib_seal L k nonce data), env_nonce := EncodeKey nonce,
            env_sig := EncodeKey (lib_sign L sk (envelopeBytes
              (env\<lparr>env_cipher := b64_encode (lib_seal L k nonce data), env_nonce := EncodeKey nonce\<rparr>)))\<rparr>"
    using e by (rule seal_chunk_RetD)
  show "verify_envelope L vk e = Ret ()"
    using L(2) by (simp add: eq verify_envelope_Ret sign_pair_def EncodeKey_def)
  show "open_envelope L k e = Ret (env_index e, data)"
    using L(1) n by (simp add: eq open_envelope_def DecryptAES_seal)
  show "env_index e = env_index env" "env_total e = env_total env"
    "env_message e = env_message env" "env_sender e = env_sender env"
    "env_recipient e = env_recipient env" "env_ephem e = env_ephem env"
    by (simp_all add: eq)
qed

lemma sort_key_map: "sort_key f (map g xs) = map g (sort_key (\<lambda>x. f (g x)) xs)"
proof (induction xs)
  case (Cons x xs)
  have "insort_key f (g x) (map g ys) = map g (insort_key (\<lambda>x. f (g x)) x ys)" for ys
    by (induction ys) auto
  with Cons show ?case by simp
qed simp

lemma join_chunks_map:
  "join_chunks (map (\<lambda>e. (env_index e, d (env_index e))) es) = concat (map d (sort (map env_index es)))"
  by (simp add: join_chunks_def sort_key_map [of fst] sort_key_map [of "\<lambda>x. x"] comp_def)

text \<open>
  Assembly in general: whatever envelopes are at hand, if each of them verifies and opens
  under the key, the result is their blocks in the order of the indices.
\<close>

lemma AssembleAndDecryptFile_sorted:
  assumes "es \<noteq> []" and "\<forall>e \<in> set es. verify_envelope L vk e = Ret ()"
    and "\<forall>e \<in> set es. open_envelope L k e = Ret (env_index e, d (env_index e))"
  shows "AssembleAndDecryptFile L es k vk = Ret (concat (map d (sort (map env_index es))))"
proof -
  have "go_each (verify_envelope L vk) es = Ret ()"
    using assms(2) by (simp add: go_each_Ret_iff)
  moreover have "go_map (open_envelope L k) es = Ret (map (\<lambda>e. (env_index e, d (env_index e))) es)"
    using assms(3) by (intro go_map_Ret) simp
  ultimately show ?thesis
    using assms(1) by (simp add: AssembleAndDecryptFile_def join_chunks_map)
qed

lemma AssembleAndDecrypt_via_file:
  assumes "es \<noteq> []" and "DecodeKey (env_ephem (hd es)) = Ret P" and "DeriveSharedKey L priv P = Ret k"
  shows "AssembleAndDecrypt L es priv pub vk = AssembleAndDecryptFile L es k vk"
  using assms by (simp add: AssembleAndDecrypt_def AssembleAndDecryptFile_def split: go.splits)

text \<open>The envelopes of a split, one by one.\<close>

definition split_of ::
    "crypto_lib \<Rightarrow> bytes \<Rightarrow> bytes \<Rightarrow> bytes \<Rightarrow> nat \<Rightarrow> Envelope list \<Rightarrow> bool" where
  "split_of L vk k plaintext n es \<longleftrightarrow>
     length es = n \<and>
     (\<forall>i < n. env_index (es ! i) = int i \<and> env_total (es ! i) = int n
        \<and> verify_envelope L vk (es ! i) = Ret ()
        \<and> open_envelope L k (es ! i) = Ret (int i, block ChunkSize plaintext i))"

lemma go_map_upt:
  assumes "go_map f [0..<n] = Ret es"
  shows "length es = n" and "\<And>i. i < n \<Longrightarrow> f i = Ret (es ! i)"
  using go_map_length [OF assms] go_map_RetD [OF assms] by (auto simp: list_all2_conv_all_nth)

lemma split_of_go_map:
  assumes L: "crypto_lawful L" "sign_pair L vk sk"
    and es: "go_map (\<lambda>i. seal_chunk L (r i) (block ChunkSize p i) k sk (env i)) [0..<n] = Ret es"
    and env: "\<And>i. env_index (env i) = int i \<and> env_total (env i) = int n"
  shows "split_of L vk k p n es"
  unfolding split_of_def
proof (intro conjI allI impI)
  show "length es = n" using es by (rule go_map_upt)
  fix i assume "i < n"
  note o = seal_chunk_opens [OF L go_map_upt(2) [OF es this]]
  show "env_index (es ! i) = int i" by (simp only: o(3) env)
  show "env_total (es ! i) = int n" by (simp only: o(4) env)
  show "verify_envelope L vk (es ! i) = Ret ()" by (rule o(1))
  show "open_envelope L k (es ! i) = Ret (int i, block ChunkSize p i)" by (simp only: o(2,3) env)
qed

lemma split_of_assemble:
  assumes s: "split_of L vk k p n es" and sub: "set fs \<subseteq> set es" and ne: "fs \<noteq> []"
  shows "AssembleAndDecryptFile L fs k vk
    = Ret (concat (map (\<lambda>i. block ChunkSize p (nat i)) (sort (map env_index fs))))"
proof (rule AssembleAndDecryptFile_sorted [where d = "\<lambda>i. block ChunkSize p (nat i)"])
  have *: "verify_envelope L vk e = Ret () \<and>
      open_envelope L k e = Ret (env_index e, block ChunkSize p (nat (env_index e)))" if "e \<in> set fs" for e
  proof -
    have "e \<in> set es" using that sub by blast
    then obtain i where i: "i < length es" "e = es ! i" by (auto simp: in_set_conv_nth)
    moreover have "length es = n" using s by (simp add: split_of_def)
    ultimately show ?thesis using s by (simp add: split_of_def)
  qed
  then show "\<forall>e\<in>set fs. verify_envelope L vk e = Ret ()"
    and "\<forall>e\<in>set fs. open_envelope L k e = Ret (env_index e, block ChunkSize p (nat (env_index e)))"
    by auto
qed (rule ne)

lemma split_of_indices: "split_of L vk k p n es \<Longrightarrow> map env_index es = map int [0..<n]"
  by (auto simp: split_of_def intro!: nth_equalityI)

lemma split_of_permuted:
  assumes s: "split_of L vk k p n es" and perm: "mset fs = mset es" and n: "0 < n"
  shows "AssembleAndDecryptFile L fs k vk = Ret (concat (map (block ChunkSize p) [0..<n]))"
proof -
  have "mset (map env_index fs) = mset (map int [0..<n])"
    using perm split_of_indices [OF s] by (metis mset_map)
  then have sorted: "sort (map env_index fs) = map int [0..<n]"
    by (intro properties_for_sort) (simp_all add: sorted_map)
  have ne: "fs \<noteq> []" using perm s n by (auto simp: split_of_def)
  have sub: "set fs \<subseteq> set es" using perm by (metis order_refl set_mset_mset)
  show ?thesis
    by (rule trans [OF split_of_assemble [OF s sub ne]]) (simp only: sorted map_map comp_def nat_int)
qed

text \<open>Splitting succeeds as soon as the random source and the keys are good.\<close>

lemma seal_chunk_total:
  assumes "r \<noteq> None" "aes_key_size k" "length sk = 64"
  shows "\<exists>e. seal_chunk L r data k sk env = Ret e"
  using assms by (auto simp: seal_chunk_def EncryptAES_def read_full_def Sign_def Let_def)

lemma go_map_total: "\<forall>x \<in> set xs. \<exists>y. f x = Ret y \<Longrightarrow> \<exists>ys. go_map f xs = Ret ys"
  by (induction xs) force+

definition keys_agree :: "crypto_lib \<Rightarrow> bytes \<Rightarrow> bytes \<Rightarrow> bytes \<Rightarrow> bytes \<Rightarrow> bool" where
  "keys_agree L priv pub vk sk \<longleftrightarrow>
     crypto_lawful L \<and> sign_pair L vk sk \<and> dh_pair L priv pub
     \<and> (\<forall>a. lib_x25519 L a basepoint \<noteq> None \<and> lib_x25519 L a pub \<noteq> None)"

lemma keys_agree_toy: "length p = 32 \<Longrightarrow> keys_agree toy_lib a (0 # a) p (p @ p)"
  by (auto simp: keys_agree_def toy_lib_lawful toy_sign_pair toy_dh_pair) (auto simp: toy_lib_def)

lemma SplitAndEncrypt_split_of:
  assumes K: "keys_agree L priv pub vk sk" and r: "\<forall>i. rnd i \<noteq> None"
  obtains es P k where "SplitAndEncrypt L rnd m s rcp p pub sk = Ret es"
    and "split_of L vk k p (block_count ChunkSize p) es"
    and "\<forall>e \<in> set es. env_ephem e = EncodeKey P" and "DeriveSharedKey L priv P = Ret k"
proof -
  have L: "crypto_lawful L" "sign_pair L vk sk" "dh_pair L priv pub"
    using K by (auto simp: keys_agree_def)
  have "\<exists>a A. GenerateEncryptionKey L (rnd 0) = Ret (a, A)"
  proof -
    obtain b where b: "rnd 0 = Some b" using r by (metis option.exhaust)
    have "lib_x25519 L (clamp_scalar (take 32 (b @ replicate 32 0))) basepoint \<noteq> None"
      using K unfolding keys_agree_def by blast
    then show ?thesis by (auto simp: GenerateEncryptionKey_def read_full_def b Let_def)
  qed
  then obtain a A where g: "GenerateEncryptionKey L (rnd 0) = Ret (a, A)" by blast
  have "lib_x25519 L a pub \<noteq> None" using K unfolding keys_agree_def by blast
  then obtain k where k: "DeriveSharedKey L a pub = Ret k" by (auto simp: DeriveSharedKey_def)
  have size: "aes_key_size k" "length sk = 64"
    using DeriveSharedKey_size [OF L(1) k] L(2) by (simp_all add: sign_pair_def)
  let ?n = "block_count ChunkSize p"
  let ?env = "\<lambda>i. \<lparr>env_message = m, env_sender = s, env_recipient = rcp, env_total = int ?n,
     env_index = int i, env_cipher = [], env_nonce = [], env_ephem = EncodeKey A, env_sig = []\<rparr>"
  let ?f = "\<lambda>i. seal_chunk L (rnd (Suc i)) (block ChunkSize p i) k sk (?env i)"
  have "\<exists>es. go_map ?f [0..<?n] = Ret es"
    by (intro go_map_total ballI seal_chunk_total size) (use r in simp)
  then obtain es where es: "go_map ?f [0..<?n] = Ret es" by blast
  show thesis
  proof (rule that [of es k A])
    show "SplitAndEncrypt L rnd m s rcp p pub sk = Ret es"
      using es by (simp add: SplitAndEncrypt_def g k block_count_def Let_def)
    show "split_of L vk k p ?n es"
      by (rule split_of_go_map [OF L(1,2) es]) simp
    show "\<forall>e \<in> set es. env_ephem e = EncodeKey A"
    proof
      fix e assume "e \<in> set es"
      then obtain i where "i < ?n" "e = es ! i"
        using go_map_upt(1) [OF es] by (auto simp: in_set_conv_nth)
      then show "env_ephem e = EncodeKey A"
        using seal_chunk_opens(8) [OF L(1,2) go_map_upt(2) [OF es]] by simp
    qed
    show "DeriveSharedKey L priv A = Ret k"
      using DeriveSharedKey_agree [OF L(1,3) GenerateEncryptionKey_pair [OF g]] k by simp
  qed
qed

lemma SplitAndEncrypt_es:
  assumes "keys_agree L priv pub vk sk" "\<forall>i. rnd i \<noteq> None" "p \<noteq> []" "SplitAndEncrypt L rnd m s rcp p pub sk = Ret es"
  shows "es \<noteq> []" and "map env_index es = map int [0..<length es]" and "\<forall>e \<in> set es. env_total e = int (length es)"
    and "\<forall>fs. mset fs = mset es \<longrightarrow> AssembleAndDecrypt L fs priv pub vk = Ret p"
proof -
  obtain es' P k where es': "SplitAndEncrypt L rnd m s rcp p pub sk = Ret es'"
    "split_of L vk k p (block_count ChunkSize p) es'"
    and P': "\<forall>e \<in> set es'. env_ephem e = EncodeKey P" "DeriveSharedKey L priv P = Ret k"
    using assms(1,2) by (rule SplitAndEncrypt_split_of)
  have eq: "es' = es" using es'(1) assms(4) by simp
  note es = es'(2) [unfolded eq] and P = P' [unfolded eq]
  have n: "0 < block_count ChunkSize p" by (simp add: block_count_pos assms(3))
  have len: "length es = block_count ChunkSize p" using es by (simp add: split_of_def)
  show "es \<noteq> []" using n len by auto
  show "map env_index es = map int [0..<length es]" using split_of_indices [OF es] len by simp
  show "\<forall>e \<in> set es. env_total e = int (length es)" using es by (auto simp: split_of_def in_set_conv_nth)
  show "\<forall>fs. mset fs = mset es \<longrightarrow> AssembleAndDecrypt L fs priv pub vk = Ret p"
  proof (intro allI impI)
    fix fs assume perm: "mset fs = mset es"
    have ne: "fs \<noteq> []" using perm \<open>es \<noteq> []\<close> by auto
    then have "hd fs \<in> set es" by (simp add: mset_eq_setD [OF perm, symmetric])
    with P ne have "AssembleAndDecrypt L fs priv pub vk = AssembleAndDecryptFile L fs k vk"
      by (intro AssembleAndDecrypt_via_file) auto
    then show "AssembleAndDecrypt L fs priv pub vk = Ret p"
      using split_of_permuted [OF es perm n] concat_blocks_upto [of ChunkSize p] by simp
  qed
qed

lemma SplitAndEncryptFile_split_of:
  assumes L: "crypto_lawful L" "sign_pair L vk sk" and k: "aes_key_size k" and r: "\<forall>i. rnd i \<noteq> None"
  obtains es where "SplitAndEncryptFile L rnd m s p k sk = Ret es"
    and "split_of L vk k p (max 1 (block_count ChunkSize p)) es"
proof -
  let ?n = "max 1 (block_count ChunkSize p)"
  let ?env = "\<lambda>i. \<lparr>env_message = m, env_sender = s, env_recipient = [], env_total = int ?n,
     env_index = int i, env_cipher = [], env_nonce = [], env_ephem = [], env_sig = []\<rparr>"
  let ?f = "\<lambda>i. seal_chunk L (rnd i) (block ChunkSize p i) k sk (?env i)"
  have "length sk = 64" using L(2) by (simp add: sign_pair_def)
  then have "\<exists>es. go_map ?f [0..<?n] = Ret es"
    by (intro go_map_total ballI seal_chunk_total k) (use r in simp_all)
  then obtain es where es: "go_map ?f [0..<?n] = Ret es" by blast
  show thesis
  proof (rule that)
    show "SplitAndEncryptFile L rnd m s p k sk = Ret es"
      using es by (simp only: SplitAndEncryptFile_def block_count_def Let_def)
    show "split_of L vk k p ?n es"
      by (rule split_of_go_map [OF L es]) simp
  qed
qed

lemma SplitAndEncryptFile_roundtrip_es:
  assumes "crypto_lawful L" "sign_pair L vk sk" "aes_key_size k" "\<forall>i. rnd i \<noteq> None"
    and "SplitAndEncryptFile L rnd m s p k sk = Ret es"
  shows "length es = max 1 (block_count ChunkSize p) \<and> (\<forall>fs. mset fs = mset es \<longrightarrow> AssembleAndDecryptFile L fs k vk = Ret p)
     \<and> AssembleAndDecryptFile L es k vk = Ret p"
proof -
  obtain es' where es': "SplitAndEncryptFile L rnd m s p k sk = Ret es'"
    "split_of L vk k p (max 1 (block_count ChunkSize p)) es'"
    using assms(1-4) by (rule SplitAndEncryptFile_split_of)
  then have es: "split_of L vk k p (max 1 (block_count ChunkSize p)) es" using assms(5) by simp
  have all: "concat (map (block ChunkSize p) [0..<max 1 (block_count ChunkSize p)]) = p"
  proof (cases "p = []")
    case False
    then have "max 1 (block_count ChunkSize p) = block_count ChunkSize p"
      using block_count_pos [of ChunkSize p] by simp
    then show ?thesis by (simp only: concat_blocks_upto [OF ChunkSize_pos])
  qed simp
  have "AssembleAndDecryptFile L fs k vk = Ret p" if "mset fs = mset es" for fs
    using split_of_permuted [OF es that] all by simp
  then show ?thesis using es by (simp add: split_of_def)
qed

section \<open>Properties\<close>

text \<open>
  C1. A message that is not empty always comes back: with working randomness and matching
  keys the split succeeds, with one envelope per started block of 1024 bytes, and whatever
  order its envelopes arrive in, assembling them with the recipient's private key and the
  sender's signing key gives the plaintext back.
\<close>

theorem SplitAndEncrypt_roundtrip:
  assumes "keys_agree L priv pub vk sk" and "\<forall>i. rnd i \<noteq> None" and "p \<noteq> []"
  shows "\<exists>es. SplitAndEncrypt L rnd m s rcp p pub sk = Ret es \<and> length es = block_count ChunkSize p \<and>
     (\<forall>fs. mset fs = mset es \<longrightarrow> AssembleAndDecrypt L fs priv pub vk = Ret p)"
proof -
  obtain es P k where es: "SplitAndEncrypt L rnd m s rcp p pub sk = Ret es" "split_of L vk k p (block_count ChunkSize p) es"
    using assms(1,2) by (rule SplitAndEncrypt_split_of)
  then show ?thesis using SplitAndEncrypt_es(4) [OF assms es(1)] by (auto simp: split_of_def)
qed

lemma SplitAndEncrypt_roundtrip_witness:
  "\<exists>es. SplitAndEncrypt toy_lib (\<lambda>i. Some [of_nat i]) ''m'' ''a'' ''b'' [1, 2, 3] (0 # replicate 32 7)
        (replicate 64 5) = Ret es \<and> length es = block_count ChunkSize [1, 2, 3 :: byte] \<and>
     (\<forall>fs. mset fs = mset es \<longrightarrow>
        AssembleAndDecrypt toy_lib fs (replicate 32 7) (0 # replicate 32 7) (replicate 32 5) = Ret [1, 2, 3])"
proof -
  have "replicate 64 5 = replicate 32 (5 :: byte) @ replicate 32 5" by (simp add: replicate_add [symmetric])
  then show ?thesis
    by (simp only: ) (rule SplitAndEncrypt_roundtrip, rule keys_agree_toy, simp_all)
qed

text \<open>
  A file always comes back, the empty file included: it travels as one empty block.
\<close>

theorem SplitAndEncryptFile_roundtrip:
  assumes "crypto_lawful L" "sign_pair L vk sk" "aes_key_size k" and "\<forall>i. rnd i \<noteq> None"
  shows "\<exists>es. SplitAndEncryptFile L rnd m s p k sk = Ret es \<and> length es = max 1 (block_count ChunkSize p) \<and>
     (\<forall>fs. mset fs = mset es \<longrightarrow> AssembleAndDecryptFile L fs k vk = Ret p)"
proof -
  obtain es where es: "SplitAndEncryptFile L rnd m s p k sk = Ret es"
    using assms by (rule SplitAndEncryptFile_split_of)
  then show ?thesis using SplitAndEncryptFile_roundtrip_es [OF assms es] by blast
qed

lemma SplitAndEncryptFile_roundtrip_witness:
  "\<exists>es. SplitAndEncryptFile toy_lib (\<lambda>i. Some []) ''f'' ''a'' [] (replicate 32 9) (replicate 32 5 @ replicate 32 5)
        = Ret es \<and> length es = max 1 (block_count ChunkSize ([] :: bytes)) \<and>
     (\<forall>fs. mset fs = mset es \<longrightarrow> AssembleAndDecryptFile toy_lib fs (replicate 32 9) (replicate 32 5) = Ret [])"
  by (rule SplitAndEncryptFile_roundtrip)
    (simp_all add: toy_lib_lawful toy_sign_pair aes_key_size_def)

text \<open>
  The signed bytes determine the envelope: every field other than the signature, on strings
  that are valid UTF-8 (which is what \<open>encoding/json\<close> delivers).
\<close>

definition valid_envelope :: "Envelope \<Rightarrow> bool" where
  "valid_envelope env =
     (valid_utf8 (env_message env) \<and> valid_utf8 (env_sender env) \<and> valid_utf8 (env_recipient env)
      \<and> valid_utf8 (env_cipher env) \<and> valid_utf8 (env_nonce env) \<and> valid_utf8 (env_ephem env))"

lemma valid_itoa: "valid_utf8 (itoa n)"
  by (intro graphic_valid ballI) (rule itoa_graphic)

lemma valid_keys [simp]:
  "valid_utf8 ''message_id''" "valid_utf8 ''sender_id''" "valid_utf8 ''total_chunks''"
  "valid_utf8 ''chunk_index''" "valid_utf8 ''ciphertext''" "valid_utf8 ''nonce''"
  "valid_utf8 ''recipient_id''" "valid_utf8 ''ephemeral_key''"
  by (rule ascii_valid, simp add: code_def)+

lemma valid_envelope_fields: "valid_envelope env \<Longrightarrow> \<forall>m \<in> set (envelope_fields env). valid_pair m"
  by (auto simp add: valid_envelope_def envelope_fields_def valid_pair_def valid_itoa simp del: valid_utf8.simps)

definition field :: "string \<Rightarrow> (string \<times> string) set \<Rightarrow> string set" where
  "field k ps = {v. (k, v) \<in> ps}"

lemma envelope_field:
  "field ''message_id'' (set (envelope_fields env)) = {env_message env}"
  "field ''sender_id'' (set (envelope_fields env)) = {env_sender env}"
  "field ''total_chunks'' (set (envelope_fields env)) = {itoa (env_total env)}"
  "field ''chunk_index'' (set (envelope_fields env)) = {itoa (env_index env)}"
  "field ''ciphertext'' (set (envelope_fields env)) = {env_cipher env}"
  "field ''nonce'' (set (envelope_fields env)) = {env_nonce env}"
  "field ''recipient_id'' (set (envelope_fields env))
     = (if env_recipient env = [] then {} else {env_recipient env})"
  "field ''ephemeral_key'' (set (envelope_fields env))
     = (if env_ephem env = [] then {} else {env_ephem env})"
  by (auto simp: field_def envelope_fields_def)

lemma envelopeBytes_inj:
  assumes "envelopeBytes a = envelopeBytes b" "valid_envelope a" "valid_envelope b"
  shows "a\<lparr>env_sig := []\<rparr> = b\<lparr>env_sig := []\<rparr>"
proof -
  have "json_map (envelope_fields a) = json_map (envelope_fields b)"
    using assms(1) by (simp add: envelopeBytes_def)
  then have same: "set (envelope_fields a) = set (envelope_fields b)"
    by (rule json_map_inj) (rule valid_envelope_fields [OF assms(2)] valid_envelope_fields [OF assms(3)])+
  then have f: "field k (set (envelope_fields a)) = field k (set (envelope_fields b))" for k
    by simp
  have "env_message a = env_message b" "env_sender a = env_sender b"
    "env_total a = env_total b" "env_index a = env_index b"
    "env_cipher a = env_cipher b" "env_nonce a = env_nonce b"
    using f [of "''message_id''"] f [of "''sender_id''"] f [of "''total_chunks''"]
      f [of "''chunk_index''"] f [of "''ciphertext''"] f [of "''nonce''"]
    by (simp_all add: envelope_field itoa_inj)
  moreover have "env_recipient a = env_recipient b"
    using f [of "''recipient_id''"] by (simp add: envelope_field split: if_splits)
  moreover have "env_ephem a = env_ephem b"
    using f [of "''ephemeral_key''"] by (simp add: envelope_field split: if_splits)
  ultimately show ?thesis by simp
qed

lemma AssembleAndDecryptFile_verified:
  "AssembleAndDecryptFile L es k vk = Ret p \<Longrightarrow> \<forall>e \<in> set es. verify_envelope L vk e = Ret ()"
  unfolding go_each_Ret_iff [symmetric]
  by (cases "go_each (verify_envelope L vk) es") (simp_all add: AssembleAndDecryptFile_def split: if_splits)

lemma AssembleAndDecrypt_verified:
  "AssembleAndDecrypt L es priv pub vk = Ret p \<Longrightarrow> \<forall>e \<in> set es. verify_envelope L vk e = Ret ()"
  unfolding go_each_Ret_iff [symmetric]
  by (cases "go_each (verify_envelope L vk) es") (simp_all add: AssembleAndDecrypt_def split: if_splits)

text \<open>
  C2. Nothing an intermediary changes gets through: if the only signatures that verify under
  the sender's key are on the bytes of envelopes in \<open>sent\<close>, then every envelope of an
  accepted message agrees with one of them in all its fields, whatever the signature bytes.
\<close>

theorem AssembleAndDecrypt_authentic:
  assumes "AssembleAndDecrypt L es priv pub vk = Ret p"
    and "\<forall>m sig. lib_verify L vk m sig \<longrightarrow> m \<in> envelopeBytes ` sent"
    and "\<forall>e \<in> set es \<union> sent. valid_envelope e"
  shows "\<forall>e \<in> set es. \<exists>h \<in> sent. e\<lparr>env_sig := []\<rparr> = h\<lparr>env_sig := []\<rparr>"
proof
  fix e assume e: "e \<in> set es"
  then have "verify_envelope L vk e = Ret ()" using AssembleAndDecrypt_verified [OF assms(1)] by blast
  then obtain sig where "lib_verify L vk (envelopeBytes e) sig"
    unfolding verify_envelope_Ret by blast
  then obtain h where "h \<in> sent" "envelopeBytes e = envelopeBytes h" using assms(2) by blast
  with e assms(3) show "\<exists>h \<in> sent. e\<lparr>env_sig := []\<rparr> = h\<lparr>env_sig := []\<rparr>"
    by (intro bexI [of _ h] envelopeBytes_inj) auto
qed

definition sample_envelope :: Envelope where
  "sample_envelope =
     \<lparr>env_message = ''m'', env_sender = ''a'', env_recipient = ''b'', env_total = 1, env_index = 0,
      env_cipher = ''aGk='', env_nonce = ''AAAAAAAAAAAAAAAA'', env_ephem = ''AAAA'', env_sig = ''''\<rparr>"

definition strict_lib :: crypto_lib where
  "strict_lib = toy_lib\<lparr>lib_verify := (\<lambda>pub m s. m = envelopeBytes sample_envelope)\<rparr>"

lemma sample_opens: "AssembleAndDecrypt strict_lib [sample_envelope] priv pub (replicate 32 5) = Ret [104, 105]"
proof -
  have "b64_decode ''AAAAAAAAAAAAAAAA'' = Some (replicate 12 0)" "b64_decode ''AAAA'' = Some [0, 0, 0]"
    "b64_decode '''' = Some []" by code_simp+
  then show ?thesis
    by (simp add: AssembleAndDecrypt_def verify_envelope_def open_envelope_def DecodeKey_def Verify_def
        DeriveSharedKey_def DecryptAES_def aes_key_size_def strict_lib_def toy_lib_def join_chunks_def
        sample_envelope_def b64_decode_example basepoint_def)
qed

lemma AssembleAndDecrypt_authentic_witness:
  "AssembleAndDecrypt strict_lib [sample_envelope] [] [] (replicate 32 5) = Ret [104, 105]
   \<and> (\<exists>h \<in> {sample_envelope}. sample_envelope\<lparr>env_sig := []\<rparr> = h\<lparr>env_sig := []\<rparr>)"
proof -
  have "\<forall>e \<in> set [sample_envelope]. \<exists>h \<in> {sample_envelope}. e\<lparr>env_sig := []\<rparr> = h\<lparr>env_sig := []\<rparr>"
  proof (rule AssembleAndDecrypt_authentic [OF sample_opens])
    show "\<forall>m sig. lib_verify strict_lib (replicate 32 5) m sig \<longrightarrow> m \<in> envelopeBytes ` {sample_envelope}"
      by (simp add: strict_lib_def)
    show "\<forall>e \<in> set [sample_envelope] \<union> {sample_envelope}. valid_envelope e"
      by (auto simp: valid_envelope_def sample_envelope_def code_def intro!: ascii_valid)
  qed
  then show ?thesis by (simp add: sample_opens)
qed

section \<open>Panics\<close>

lemma go_each_no_panic: "\<forall>x \<in> set xs. f x \<noteq> Panic e \<Longrightarrow> go_each f xs \<noteq> Panic e"
  by (induction xs) (auto split: go.splits)

lemma go_map_no_panic: "\<forall>x \<in> set xs. f x \<noteq> Panic e \<Longrightarrow> go_map f xs \<noteq> Panic e"
  by (induction xs) (auto split: go.splits)

lemma open_envelope_no_panic:
  "(\<And>n. b64_decode (env_nonce env) = Some n \<Longrightarrow> length n = 12) \<Longrightarrow> open_envelope L k env \<noteq> Panic x"
  by (auto simp: open_envelope_def DecodeKey_def DecryptAES_def split: option.splits go.splits if_splits)

lemma verify_envelope_no_panic: "length vk = 32 \<Longrightarrow> verify_envelope L vk env \<noteq> Panic x"
  by (auto simp: verify_envelope_def Verify_def split: go.splits)

text \<open>
  Assembling returns (a plaintext or an error) and does not bring the process down when
  the verification key has the length of an Ed25519 key and every nonce that decodes is 12
  bytes long. The code checks neither.
\<close>

theorem AssembleAndDecrypt_no_panic:
  assumes "length vk = 32"
    and "\<forall>e \<in> set es. \<forall>n. b64_decode (env_nonce e) = Some n \<longrightarrow> length n = 12"
  shows "AssembleAndDecrypt L es priv pub vk \<noteq> Panic x \<and> AssembleAndDecryptFile L es k vk \<noteq> Panic x"
proof -
  have v: "go_each (verify_envelope L vk) es \<noteq> Panic x" for x
    using assms(1) by (intro go_each_no_panic) (simp add: verify_envelope_no_panic)
  have o: "go_map (open_envelope L k) es \<noteq> Panic x" for k x
    using assms(2) by (intro go_map_no_panic) (auto intro!: open_envelope_no_panic)
  have d: "DeriveSharedKey L a b \<noteq> Panic x" for a b x
    by (simp add: DeriveSharedKey_def split: option.splits)
  have "AssembleAndDecrypt L es priv pub vk \<noteq> Panic x"
    using v o d by (auto simp: AssembleAndDecrypt_def split: go.splits)
  moreover have "AssembleAndDecryptFile L es k vk \<noteq> Panic x"
    using v o by (auto simp: AssembleAndDecryptFile_def split: go.splits)
  ultimately show ?thesis by blast
qed

lemma AssembleAndDecrypt_no_panic_witness:
  "AssembleAndDecrypt toy_lib [] [] [] (replicate 32 1) \<noteq> Panic '''' \<and>
   AssembleAndDecryptFile toy_lib [] [] (replicate 32 1) \<noteq> Panic ''''"
  by (rule AssembleAndDecrypt_no_panic) simp_all

text \<open>
  C3. Either missing check can be reached: with a verification key of another length the
  first envelope whose signature is base64 panics, and so does a correctly signed envelope
  whose nonce is not 12 bytes long.
\<close>

theorem AssembleAndDecryptFile_panics:
  assumes "b64_decode (env_sig e) = Some sig" and "b64_decode (env_nonce e) = Some n"
    and "b64_decode (env_cipher e) = Some c" and "aes_key_size k"
    and "length vk \<noteq> 32 \<or> lib_verify L vk (envelopeBytes e) sig \<and> length n \<noteq> 12"
  shows "\<exists>x. AssembleAndDecryptFile L [e] k vk = Panic x"
proof (cases "length vk = 32")
  case True
  then have "verify_envelope L vk e = Ret ()" using assms by (auto simp: verify_envelope_Ret)
  moreover have "open_envelope L k e = Panic ''incorrect nonce length given to GCM''"
    using assms True by (simp add: open_envelope_def DecodeKey_def DecryptAES_def)
  ultimately show ?thesis by (simp add: AssembleAndDecryptFile_def)
next
  case False
  then have "verify_envelope L vk e = Panic ''bad public key length''"
    using assms(1) by (simp add: verify_envelope_def DecodeKey_def Verify_def)
  then show ?thesis by (simp add: AssembleAndDecryptFile_def)
qed

lemma AssembleAndDecryptFile_panics_witness:
  "\<exists>x. AssembleAndDecryptFile strict_lib [sample_envelope] (replicate 32 9) (replicate 31 5) = Panic x"
proof (rule AssembleAndDecryptFile_panics)
  have "b64_decode '''' = Some []" "b64_decode ''AAAAAAAAAAAAAAAA'' = Some (replicate 12 0)" by code_simp+
  then show "b64_decode (env_sig sample_envelope) = Some []"
    "b64_decode (env_nonce sample_envelope) = Some (replicate 12 0)"
    by (simp_all only: sample_envelope_def Envelope.simps)
  show "b64_decode (env_cipher sample_envelope) = Some [104, 105]"
    by (simp add: sample_envelope_def b64_decode_example)
qed (simp_all add: aes_key_size_def)

end
