(* ===== verification/StoreMigrations.thy ===== *)
theory StoreMigrations
  imports Crypto Chunk
begin

text \<open>
  \<open>migration.go\<close>: the SQL files of \<open>migrations/sqlite\<close> are read in the order of their names, and
  each is executed once, its id recorded in \<open>schema_version\<close>. Executing SQL text is the
  parameter \<open>exec\<close> on an abstract database: it yields the database it leaves and an error text,
  if any. Statements on \<open>schema_version\<close> itself are the list of recorded rows.
\<close>

record Migration =
  mig_id :: string
  mig_author :: string
  mig_description :: string
  mig_sql :: string

definition parseMigrationFile :: "string \<Rightarrow> string \<times> string" where
  "parseMigrationFile name0 =
     (let name = TrimSuffix name0 ''.sql''; idx = IndexByte name (CHR ''_'') in
      if idx < 0 then ([], [])
      else (take (nat idx) name, map (\<lambda>c. if c = CHR ''_'' then CHR '' '' else c) (drop (nat idx + 1) name)))"

text \<open>
  The embedded directory as \<open>ReadDir\<close> lists it: the names, and what reading each file yields.
  \<open>loadMigrations\<close> runs before \<open>main\<close>, and an error ends the process.
\<close>

fun read_migrations :: "(string \<times> bytes go) list \<Rightarrow> Migration list go" where
  "read_migrations [] = Ret []"
| "read_migrations ((name, file) # es) =
     (let (ident, desc) = parseMigrationFile name in
      if ident = [] then read_migrations es
      else
        (case file of
           Err e \<Rightarrow> Err (''read sqlite/'' @ name @ '': '' @ e)
         | Panic e \<Rightarrow> Panic e
         | Ret content \<Rightarrow>
            (case read_migrations es of
               Ret ms \<Rightarrow> Ret (\<lparr>mig_id = ident, mig_author = ''muninn'', mig_description = desc,
                 mig_sql = TrimSpace (string_of content)\<rparr> # ms)
             | r \<Rightarrow> r)))"

definition loadMigrations :: "(string \<times> bytes go) list go \<Rightarrow> Migration list go" where
  "loadMigrations dir =
     (case dir of
        Ret entries \<Rightarrow> read_migrations (sort_key fst entries)
      | Err e \<Rightarrow> Err (''read sqlite migrations: '' @ e)
      | Panic e \<Rightarrow> Panic e)"

definition init_migrations :: "(string \<times> bytes go) list go \<Rightarrow> Migration list go" where
  "init_migrations dir =
     (case loadMigrations dir of Err e \<Rightarrow> Panic (''load migrations: '' @ e) | r \<Rightarrow> r)"

definition checksum :: "crypto_lib \<Rightarrow> Migration \<Rightarrow> string" where
  "checksum L m = RegisteredHash L (bytes_of (mig_sql m))"

record version_row =
  v_id :: string
  v_author :: string
  v_description :: string
  v_applied :: int
  v_checksum :: string

definition version_of :: "crypto_lib \<Rightarrow> int \<Rightarrow> Migration \<Rightarrow> version_row" where
  "version_of L now m = \<lparr>v_id = mig_id m, v_author = mig_author m, v_description = mig_description m,
     v_applied = unix now, v_checksum = checksum L m\<rparr>"

text \<open>
  The state of a run: the database, the rows of \<open>schema_version\<close> and, for the theorems, the SQL
  texts executed so far, latest first.
\<close>

record 'd mig_state =
  ms_db :: 'd
  ms_versions :: "version_row list"
  ms_log :: "string list"

text \<open>
  What the database may refuse during a run: the creation of the table \<open>schema_version\<close>, the
  query of its ids, the reading of its \<open>i\<close>-th row (a row that is not scanned, or that comes after
  the answer broke off, is passed over), and the insertion of the record of a migration, beside
  the violation of the primary key.
\<close>

record mig_faults =
  mf_create :: "string option"
  mf_query :: "string option"
  mf_scanned :: "nat \<Rightarrow> bool"
  mf_record :: "string \<Rightarrow> string option"

definition no_mig_faults :: mig_faults where
  "no_mig_faults = \<lparr>mf_create = None, mf_query = None, mf_scanned = (\<lambda>_. True), mf_record = (\<lambda>_. None)\<rparr>"

text \<open>The ids in \<open>applied\<close>: none if the query failed, whose error is not looked at.\<close>

definition read_applied :: "mig_faults \<Rightarrow> version_row list \<Rightarrow> string list" where
  "read_applied f vs =
     (case mf_query f of
        Some _ \<Rightarrow> []
      | None \<Rightarrow> map (\<lambda>i. v_id (vs ! i)) (filter (mf_scanned f) [0..<length vs]))"

definition insert_version ::
    "mig_faults \<Rightarrow> version_row \<Rightarrow> 'd mig_state \<Rightarrow> string option \<times> 'd mig_state" where
  "insert_version f v s =
     (if v_id v \<in> v_id ` set (ms_versions s) then (Some ''UNIQUE constraint failed: schema_version.id'', s)
      else
        (case mf_record f (v_id v) of
           Some e \<Rightarrow> (Some e, s)
         | None \<Rightarrow> (None, s\<lparr>ms_versions := ms_versions s @ [v]\<rparr>)))"

fun apply_migrations ::
    "crypto_lib \<Rightarrow> ('d \<Rightarrow> string \<Rightarrow> 'd \<times> string option) \<Rightarrow> int \<Rightarrow> mig_faults \<Rightarrow> string list \<Rightarrow> Migration list
      \<Rightarrow> 'd mig_state \<Rightarrow> unit go \<times> 'd mig_state" where
  "apply_migrations L exec now f applied [] s = (Ret (), s)"
| "apply_migrations L exec now f applied (m # ms) s =
     (if mig_id m \<in> set applied then apply_migrations L exec now f applied ms s
      else if mig_sql m = [] then apply_migrations L exec now f applied ms s
      else
        (case exec (ms_db s) (mig_sql m) of (d', e) \<Rightarrow>
           let s1 = s\<lparr>ms_db := d', ms_log := mig_sql m # ms_log s\<rparr>;
               refused = (case e of
                  None \<Rightarrow> None
                | Some msg \<Rightarrow> if Contains msg ''duplicate column name'' then None else Some msg) in
           (case refused of
              Some msg \<Rightarrow> (Err (''migration '' @ mig_id m @ '': '' @ msg), s1)
            | None \<Rightarrow>
               (case insert_version f (version_of L now m) s1 of
                  (Some msg, s2) \<Rightarrow> (Err (''record migration '' @ mig_id m @ '': '' @ msg), s2)
                | (None, s2) \<Rightarrow> apply_migrations L exec now f applied ms s2))))"

definition runMigrations ::
    "crypto_lib \<Rightarrow> ('d \<Rightarrow> string \<Rightarrow> 'd \<times> string option) \<Rightarrow> int \<Rightarrow> mig_faults \<Rightarrow> Migration list \<Rightarrow> 'd mig_state
      \<Rightarrow> unit go \<times> 'd mig_state" where
  "runMigrations L exec now f migrations s =
     (case mf_create f of
        Some e \<Rightarrow> (Err (''create schema_version: '' @ e), s)
      | None \<Rightarrow> apply_migrations L exec now f (read_applied f (ms_versions s)) migrations s)"

text \<open>\<open>New\<close> of \<open>sqlite.go\<close>: \<open>opened\<close> is the end of \<open>sql.Open\<close>.\<close>

definition New_store ::
    "crypto_lib \<Rightarrow> ('d \<Rightarrow> string \<Rightarrow> 'd \<times> string option) \<Rightarrow> int \<Rightarrow> mig_faults \<Rightarrow> Migration list \<Rightarrow> unit go
      \<Rightarrow> 'd mig_state \<Rightarrow> unit go \<times> 'd mig_state" where
  "New_store L exec now f migrations opened s =
     (case opened of
        Err e \<Rightarrow> (Err e, s)
      | Panic e \<Rightarrow> (Panic e, s)
      | Ret _ \<Rightarrow>
         (case exec (ms_db s) ''PRAGMA journal_mode=WAL'' of
            (d1, Some e) \<Rightarrow> (Err e, s\<lparr>ms_db := d1\<rparr>)
          | (d1, None) \<Rightarrow>
             (case exec d1 ''PRAGMA busy_timeout=5000'' of
                (d2, Some e) \<Rightarrow> (Err e, s\<lparr>ms_db := d2\<rparr>)
              | (d2, None) \<Rightarrow>
                 (case runMigrations L exec now f migrations (s\<lparr>ms_db := d2\<rparr>) of
                    (Err e, s1) \<Rightarrow> (Err (''run migrations: '' @ e), s1)
                  | r \<Rightarrow> r))))"

section \<open>Facts\<close>

lemma parseMigrationFile_name:
  "CHR ''_'' \<notin> set ident \<Longrightarrow> parseMigrationFile (ident @ CHR ''_'' # desc @ ''.sql'')
     = (ident, map (\<lambda>c. if c = CHR ''_'' then CHR '' '' else c) desc)"
  using TrimSuffix_append [of "ident @ CHR ''_'' # desc" "''.sql''"]
  by (simp add: parseMigrationFile_def Let_def IndexByte_first nat_add_distrib)

definition recorded :: "'d mig_state \<Rightarrow> string list" where
  "recorded s = map v_id (ms_versions s)"

text \<open>What is still to be done: the migrations with some SQL whose id is not recorded.\<close>

definition pending :: "'d mig_state \<Rightarrow> Migration list \<Rightarrow> Migration list" where
  "pending s ms = filter (\<lambda>m. mig_id m \<notin> set (recorded s) \<and> mig_sql m \<noteq> []) ms"

text \<open>The ids of \<open>schema_version\<close> are read in full.\<close>

definition reads_versions :: "mig_faults \<Rightarrow> 'd mig_state \<Rightarrow> bool" where
  "reads_versions f s \<longleftrightarrow> mf_query f = None \<and> (\<forall>i < length (ms_versions s). mf_scanned f i)"

lemma read_applied_recorded: "set (read_applied f (ms_versions s)) \<subseteq> set (recorded s)"
  by (auto simp: read_applied_def recorded_def split: option.splits)

lemma read_applied_all: "reads_versions f s \<Longrightarrow> set (read_applied f (ms_versions s)) = set (recorded s)"
  by (force simp: read_applied_def recorded_def reads_versions_def in_set_conv_nth)

lemma insert_version_cases:
  "insert_version f v s = (e, s') \<Longrightarrow> (\<exists>msg. e = Some msg \<and> s' = s)
     \<or> (e = None \<and> s' = s\<lparr>ms_versions := ms_versions s @ [v]\<rparr> \<and> v_id v \<notin> set (recorded s))"
  by (auto simp: insert_version_def recorded_def split: if_splits option.splits)

lemma apply_migrations_step:
  assumes "apply_migrations L exec now f applied (m # ms) s = (r, s')"
    and "mig_id m \<notin> set applied" "mig_sql m \<noteq> []"
  shows "(\<exists>e. r = Err e \<and> recorded s' = recorded s \<and> ms_log s' = mig_sql m # ms_log s)
    \<or> (mig_id m \<notin> set (recorded s) \<and> (\<exists>s2. recorded s2 = recorded s @ [mig_id m] \<and> ms_log s2 = mig_sql m # ms_log s
         \<and> apply_migrations L exec now f applied ms s2 = (r, s')))"
proof -
  obtain d' e where ex: "exec (ms_db s) (mig_sql m) = (d', e)" by fastforce
  let ?s1 = "s\<lparr>ms_db := d', ms_log := mig_sql m # ms_log s\<rparr>"
  obtain i s2 where ins: "insert_version f (version_of L now m) ?s1 = (i, s2)" by fastforce
  have [simp]: "v_id (version_of L now m) = mig_id m" "recorded ?s1 = recorded s"
    by (simp_all add: version_of_def recorded_def)
  show ?thesis
  proof (cases "\<exists>msg. e = Some msg \<and> \<not> Contains msg ''duplicate column name''")
    case True
    with assms ex show ?thesis by (auto simp: Let_def recorded_def)
  next
    case False
    with assms ex ins have step: "(case i of Some msg \<Rightarrow> (Err (''record migration '' @ mig_id m @ '': '' @ msg), s2)
        | None \<Rightarrow> apply_migrations L exec now f applied ms s2) = (r, s')"
      by (auto simp: Let_def split: option.splits)
    from insert_version_cases [OF ins] step show ?thesis
      by (auto simp: recorded_def version_of_def)
  qed
qed

text \<open>
  Along a run the recorded ids grow by a prefix of the pending migrations. A run without an error
  does all of them; one that stops has executed at most one file more than it recorded.
\<close>

lemma apply_migrations_prefix:
  assumes "apply_migrations L exec now f applied ms s = (r, s')"
    and "set applied \<subseteq> R" "R \<subseteq> set (recorded s)"
  defines "P \<equiv> filter (\<lambda>m. mig_id m \<notin> R \<and> mig_sql m \<noteq> []) ms"
  shows "\<exists>k. recorded s' = recorded s @ map mig_id (take k P)
     \<and> (if r = Ret () then length P \<le> k \<and> ms_log s' = rev (map mig_sql P) @ ms_log s
        else \<exists>m \<in> set ms. (set applied = R \<longrightarrow> k < length P \<and> m = P ! k)
          \<and> ms_log s' = mig_sql m # rev (map mig_sql (take k P)) @ ms_log s)"
  using assms(1,3) unfolding P_def
proof (induction ms arbitrary: s)
  case (Cons m ms)
  let ?G = "\<lambda>s ms k. let P = filter (\<lambda>m. mig_id m \<notin> R \<and> mig_sql m \<noteq> []) ms in
     recorded s' = recorded s @ map mig_id (take k P)
     \<and> (if r = Ret () then length P \<le> k \<and> ms_log s' = rev (map mig_sql P) @ ms_log s
        else \<exists>m \<in> set ms. (set applied = R \<longrightarrow> k < length P \<and> m = P ! k)
          \<and> ms_log s' = mig_sql m # rev (map mig_sql (take k P)) @ ms_log s)"
  have IH: "apply_migrations L exec now f applied ms s = (r, s') \<Longrightarrow> R \<subseteq> set (recorded s) \<Longrightarrow> \<exists>k. ?G s ms k" for s
    using Cons.IH by (simp add: Let_def)
  have "\<exists>k. ?G s (m # ms) k"
  proof (cases "mig_id m \<in> set applied \<or> mig_sql m = []")
    case True
    with Cons.prems assms(2) have "apply_migrations L exec now f applied ms s = (r, s')" "mig_id m \<in> R \<or> mig_sql m = []"
      by (auto split: if_splits)
    moreover obtain k where "?G s ms k" using IH [OF calculation(1) Cons.prems(2)] by blast
    ultimately have "?G s (m # ms) k" by (auto simp: Let_def split: if_splits)
    then show ?thesis ..
  next
    case False
    from apply_migrations_step [OF Cons.prems(1)] False consider
        (fails) e where "r = Err e" "recorded s' = recorded s" "ms_log s' = mig_sql m # ms_log s"
      | (goes) s2 where "mig_id m \<notin> set (recorded s)" "recorded s2 = recorded s @ [mig_id m]"
          "ms_log s2 = mig_sql m # ms_log s" "apply_migrations L exec now f applied ms s2 = (r, s')"
      by blast
    then show ?thesis
    proof cases
      case fails
      with False assms(2) have "?G s (m # ms) 0" by (auto simp: Let_def)
      then show ?thesis ..
    next
      case goes
      then have "R \<subseteq> set (recorded s2)" "mig_id m \<notin> R" using Cons.prems(2) by auto
      with IH [OF goes(4)] obtain k where "?G s2 ms k" by blast
      with goes(2,3) False \<open>mig_id m \<notin> R\<close> have "?G s (m # ms) (Suc k)" by (auto simp: Let_def split: if_splits)
      then show ?thesis ..
    qed
  qed
  then show ?case by (simp only: Let_def)
qed auto

lemma apply_migrations_none:
  "\<forall>m \<in> set ms. mig_id m \<in> set applied \<or> mig_sql m = [] \<Longrightarrow> apply_migrations L exec now f applied ms s = (Ret (), s)"
  by (induction ms) auto

lemma runMigrations_prefix:
  assumes "runMigrations L exec now f ms s = (r, s')"
  shows "\<exists>k tried. recorded s' = recorded s @ map mig_id (take k (pending s ms))
     \<and> ms_log s' = map mig_sql tried @ rev (map mig_sql (take k (pending s ms))) @ ms_log s
     \<and> (if r = Ret () then length (pending s ms) \<le> k \<and> tried = []
        else length tried \<le> 1 \<and> (reads_versions f s \<longrightarrow> tried = [] \<or> tried = take 1 (drop k (pending s ms))))"
proof (cases "mf_create f")
  case (Some e)
  with assms show ?thesis by (intro exI [of _ 0] exI [of _ "[]"]) (auto simp: runMigrations_def)
next
  case None
  with assms have run: "apply_migrations L exec now f (read_applied f (ms_versions s)) ms s = (r, s')"
    by (simp add: runMigrations_def)
  from apply_migrations_prefix [OF run read_applied_recorded order_refl]
  obtain k where k: "recorded s' = recorded s @ map mig_id (take k (pending s ms))"
    "if r = Ret () then length (pending s ms) \<le> k \<and> ms_log s' = rev (map mig_sql (pending s ms)) @ ms_log s
     else \<exists>m \<in> set ms. (set (read_applied f (ms_versions s)) = set (recorded s)
            \<longrightarrow> k < length (pending s ms) \<and> m = pending s ms ! k)
          \<and> ms_log s' = mig_sql m # rev (map mig_sql (take k (pending s ms))) @ ms_log s"
    unfolding pending_def by blast
  show ?thesis
  proof (cases "r = Ret ()")
    case True
    with k show ?thesis by (intro exI [of _ k] exI [of _ "[]"]) simp
  next
    case False
    with k(2) obtain m where m: "set (read_applied f (ms_versions s)) = set (recorded s)
            \<longrightarrow> k < length (pending s ms) \<and> m = pending s ms ! k"
      "ms_log s' = mig_sql m # rev (map mig_sql (take k (pending s ms))) @ ms_log s" by auto
    with k(1) False read_applied_all [of f s] show ?thesis
      by (intro exI [of _ k] exI [of _ "[m]"]) (auto simp: take_Suc_conv_app_nth hd_drop_conv_nth take_Suc)
  qed
qed

lemma runMigrations_success:
  assumes "runMigrations L exec now f ms s = (Ret (), s')"
  shows "pending s' ms = []"
proof -
  from runMigrations_prefix [OF assms] have "recorded s' = recorded s @ map mig_id (pending s ms)" by auto
  then show ?thesis by (auto simp: pending_def filter_empty_conv)
qed

lemma runMigrations_uptodate:
  assumes "pending s ms = []" "mf_create f = None" "reads_versions f s"
  shows "runMigrations L exec now f ms s = (Ret (), s)"
proof -
  have "\<forall>m \<in> set ms. mig_id m \<in> set (read_applied f (ms_versions s)) \<or> mig_sql m = []"
    using assms(1) read_applied_all [OF assms(3)] by (auto simp: pending_def filter_empty_conv)
  then show ?thesis using assms(2) by (simp add: runMigrations_def apply_migrations_none)
qed


text \<open>
  C17. Migrations are applied once, whatever the database refuses during a run. The run records a
  prefix of the pending migrations, in order, and nothing else, and what was recorded stays
  recorded. A run that succeeds has executed all the pending ones, in order, and nothing else. A
  run that fails has executed those it recorded and at most one file more, which, if the recorded
  ids could be read, is the next pending one. After a success, a later run records nothing,
  executes nothing when it succeeds, and succeeds when the recorded ids can be read.
\<close>

theorem runMigrations_once:
  assumes "runMigrations L exec now f ms s = (r, s')"
    and "runMigrations L exec now' f' ms s' = (r', s'')"
  shows "(\<exists>k tried. recorded s' = recorded s @ map mig_id (take k (pending s ms))
     \<and> ms_log s' = map mig_sql tried @ rev (map mig_sql (take k (pending s ms))) @ ms_log s
     \<and> (if r = Ret () then length (pending s ms) \<le> k \<and> tried = []
        else length tried \<le> 1 \<and> (reads_versions f s \<longrightarrow> tried = [] \<or> tried = take 1 (drop k (pending s ms)))))
   \<and> (r = Ret () \<longrightarrow> recorded s'' = recorded s' \<and> (r' = Ret () \<longrightarrow> ms_log s'' = ms_log s')
       \<and> (mf_create f' = None \<longrightarrow> reads_versions f' s' \<longrightarrow> r' = Ret () \<and> s'' = s'))"
proof (intro conjI impI)
  from runMigrations_prefix [OF assms(1)]
  show "\<exists>k tried. recorded s' = recorded s @ map mig_id (take k (pending s ms))
     \<and> ms_log s' = map mig_sql tried @ rev (map mig_sql (take k (pending s ms))) @ ms_log s
     \<and> (if r = Ret () then length (pending s ms) \<le> k \<and> tried = []
        else length tried \<le> 1 \<and> (reads_versions f s \<longrightarrow> tried = [] \<or> tried = take 1 (drop k (pending s ms))))"
    by blast
  assume "r = Ret ()"
  with runMigrations_success assms(1) have none: "pending s' ms = []" by blast
  from runMigrations_prefix [OF assms(2)] none
  show "recorded s'' = recorded s'" "r' = Ret () \<Longrightarrow> ms_log s'' = ms_log s'" by (auto split: if_splits)
  assume "mf_create f' = None" "reads_versions f' s'"
  from runMigrations_uptodate [OF none this, of L exec now'] assms(2)
  show "r' = Ret ()" "s'' = s'" by simp_all
qed

definition sample_migrations :: "Migration list" where
  "sample_migrations =
     [\<lparr>mig_id = ''001'', mig_author = ''muninn'', mig_description = ''init'', mig_sql = ''A''\<rparr>,
      \<lparr>mig_id = ''002'', mig_author = ''muninn'', mig_description = ''more rows'', mig_sql = ''B''\<rparr>]"

lemma runMigrations_once_witness:
  "\<exists>s'. runMigrations toy_lib (\<lambda>d sql. (d + 1, None)) 0 no_mig_faults sample_migrations
       \<lparr>ms_db = 0 :: nat, ms_versions = [], ms_log = []\<rparr> = (Ret (), s') \<and> ms_log s' = [''B'', ''A'']
     \<and> runMigrations toy_lib (\<lambda>d sql. (d + 1, None)) 9 no_mig_faults sample_migrations s' = (Ret (), s')"
proof -
  let ?s = "\<lparr>ms_db = 0 :: nat, ms_versions = [], ms_log = []\<rparr>"
  obtain s' where run: "runMigrations toy_lib (\<lambda>d sql. (d + 1, None)) 0 no_mig_faults sample_migrations ?s = (Ret (), s')"
    by (simp add: runMigrations_def sample_migrations_def version_of_def insert_version_def no_mig_faults_def read_applied_def)
  obtain r' s'' where again: "runMigrations toy_lib (\<lambda>d sql. (d + 1, None)) 9 no_mig_faults sample_migrations s' = (r', s'')"
    by fastforce
  have "pending ?s sample_migrations = sample_migrations" by (simp add: pending_def recorded_def sample_migrations_def)
  with runMigrations_once [OF run again] run again show ?thesis
    by (auto simp: no_mig_faults_def reads_versions_def sample_migrations_def)
qed

text \<open>
  The error of the query of the recorded ids is not looked at: all migrations then count as
  pending, and the first file that was already applied is executed a second time before the
  primary key of its record stops the run.
\<close>

lemma runMigrations_reexecutes:
  assumes "mf_create f = None" "mf_query f = Some e" "ms = m # rest" "mig_id m \<in> set (recorded s)" "mig_sql m \<noteq> []"
  shows "\<exists>e' s'. runMigrations L exec now f ms s = (Err e', s') \<and> ms_log s' = mig_sql m # ms_log s
    \<and> recorded s' = recorded s"
proof -
  obtain r s' where run: "apply_migrations L exec now f [] (m # rest) s = (r, s')" by fastforce
  from apply_migrations_step [OF run] assms have "\<exists>e'. r = Err e'" "ms_log s' = mig_sql m # ms_log s"
    "recorded s' = recorded s" by auto
  with run assms(1,2,3) show ?thesis by (auto simp: runMigrations_def read_applied_def)
qed

text \<open>
  A migration file holds several statements, which are not run as one transaction: if the
  first of them had been executed in an earlier, interrupted run, the error that its column
  exists already makes the whole file count as applied, the statements after it included.
\<close>

lemma duplicate_column_recorded:
  assumes "mig_sql m \<noteq> []" "mig_id m \<notin> set (recorded s)" "exec (ms_db s) (mig_sql m) = (d', Some msg)"
    and "Contains msg ''duplicate column name''" "mf_create f = None" "mf_record f (mig_id m) = None"
  shows "runMigrations L exec now f [m] s = (Ret (), s\<lparr>ms_db := d', ms_log := mig_sql m # ms_log s,
     ms_versions := ms_versions s @ [version_of L now m]\<rparr>)"
  using assms read_applied_recorded [of f s]
  by (auto simp: runMigrations_def recorded_def insert_version_def version_of_def)

text \<open>
  A store that was opened once opens again, if the settings of the connection work and the recorded
  ids can be read: the second time no migration is executed.
\<close>

lemma reopened:
  assumes "New_store L exec now f ms (Ret ()) s = (Ret (), s')"
    and "exec (ms_db s') ''PRAGMA journal_mode=WAL'' = (d1, None)" "exec d1 ''PRAGMA busy_timeout=5000'' = (d2, None)"
    and "mf_create f' = None" "reads_versions f' s'"
  shows "New_store L exec now' f' ms (Ret ()) s' = (Ret (), s'\<lparr>ms_db := d2\<rparr>)"
proof -
  obtain a e where 1: "exec (ms_db s) ''PRAGMA journal_mode=WAL'' = (a, e)" by fastforce
  obtain b g where 2: "exec a ''PRAGMA busy_timeout=5000'' = (b, g)" by fastforce
  obtain r s1 where run0: "runMigrations L exec now f ms (s\<lparr>ms_db := b\<rparr>) = (r, s1)" by fastforce
  have run: "runMigrations L exec now f ms (s\<lparr>ms_db := b\<rparr>) = (Ret (), s')"
    using assms(1) 1 2 run0 by (cases e; cases g; cases r) (simp_all add: New_store_def)
  have "pending (s'\<lparr>ms_db := d2\<rparr>) ms = []"
    using runMigrations_success [OF run] by (simp add: pending_def recorded_def)
  then have "runMigrations L exec now' f' ms (s'\<lparr>ms_db := d2\<rparr>) = (Ret (), s'\<lparr>ms_db := d2\<rparr>)"
    by (rule runMigrations_uptodate) (use assms(4,5) in \<open>simp_all add: reads_versions_def\<close>)
  then show ?thesis using assms(2,3) by (simp add: New_store_def)
qed

text \<open>
  The names of the migrations that are loaded: the directory's, less those without an underscore.
\<close>

lemma loadMigrations_ids:
  assumes "loadMigrations (Ret entries) = Ret ms"
  shows "map mig_id ms = filter (\<lambda>i. i \<noteq> []) (map (fst \<circ> parseMigrationFile \<circ> fst) (sort_key fst entries))"
proof -
  have "read_migrations es = Ret ms \<Longrightarrow>
      map mig_id ms = filter (\<lambda>i. i \<noteq> []) (map (fst \<circ> parseMigrationFile \<circ> fst) es)" for es
  proof (induction es arbitrary: ms rule: read_migrations.induct)
    case (2 name content es)
    obtain ident desc where "parseMigrationFile name = (ident, desc)" by fastforce
    with 2 show ?case by (auto split: if_splits go.splits)
  qed simp
  with assms show ?thesis by (simp add: loadMigrations_def)
qed

end
