(* ===== verification/Tables.thy ===== *)
theory Tables
  imports Prelude
begin

text \<open>
  SQL tables as the store uses them: a table is the list of its rows in rowid order, with a
  function that gives the primary key of a row. Here are the statement forms the store issues
  (plain insert, insert or replace, insert or ignore, upsert, update, delete, select), the
  invariant that a primary key occurs once, and the reading of a table as a finite map. The
  locale at the end is what the components above the store rely on.
\<close>

type_synonym 'r table = "'r list"

definition pk :: "('r \<Rightarrow> 'k) \<Rightarrow> 'r table \<Rightarrow> bool" where
  "pk key t = distinct (map key t)"

definition tbl_find :: "('r \<Rightarrow> 'k) \<Rightarrow> 'r table \<Rightarrow> 'k \<Rightarrow> 'r option" where
  "tbl_find key t k = List.find (\<lambda>r. key r = k) t"

definition tbl_has :: "('r \<Rightarrow> 'k) \<Rightarrow> 'k \<Rightarrow> 'r table \<Rightarrow> bool" where
  "tbl_has key k t = list_ex (\<lambda>r. key r = k) t"

definition tbl_insert :: "('r \<Rightarrow> 'k) \<Rightarrow> 'r \<Rightarrow> 'r table \<Rightarrow> 'r table option" where
  "tbl_insert key r t = (if tbl_has key (key r) t then None else Some (t @ [r]))"

definition tbl_replace :: "('r \<Rightarrow> 'k) \<Rightarrow> 'r \<Rightarrow> 'r table \<Rightarrow> 'r table" where
  "tbl_replace key r t = filter (\<lambda>x. key x \<noteq> key r) t @ [r]"

definition tbl_ignore :: "('r \<Rightarrow> 'k) \<Rightarrow> 'r \<Rightarrow> 'r table \<Rightarrow> 'r table" where
  "tbl_ignore key r t = (if tbl_has key (key r) t then t else t @ [r])"

definition tbl_update :: "('r \<Rightarrow> bool) \<Rightarrow> ('r \<Rightarrow> 'r) \<Rightarrow> 'r table \<Rightarrow> 'r table" where
  "tbl_update P f t = map (\<lambda>r. if P r then f r else r) t"

text \<open>\<open>INSERT ... ON CONFLICT(key) DO UPDATE SET\<close>: \<open>f old new\<close> is the row that is kept.\<close>

definition tbl_upsert :: "('r \<Rightarrow> 'k) \<Rightarrow> ('r \<Rightarrow> 'r \<Rightarrow> 'r) \<Rightarrow> 'r \<Rightarrow> 'r table \<Rightarrow> 'r table" where
  "tbl_upsert key f r t =
     (if tbl_has key (key r) t then tbl_update (\<lambda>x. key x = key r) (\<lambda>x. f x r) t else t @ [r])"

definition tbl_delete :: "('r \<Rightarrow> bool) \<Rightarrow> 'r table \<Rightarrow> 'r table" where
  "tbl_delete P t = filter (\<lambda>r. \<not> P r) t"

section \<open>The primary key\<close>

lemma pk_Nil [simp]: "pk key []"
  by (simp add: pk_def)

lemma tbl_has_iff: "tbl_has key k t \<longleftrightarrow> (\<exists>r \<in> set t. key r = k)"
  by (auto simp: tbl_has_def list_ex_iff)

lemma tbl_has_find: "tbl_has key k t \<longleftrightarrow> tbl_find key t k \<noteq> None"
  by (auto simp: tbl_has_iff tbl_find_def find_None_iff)

lemma tbl_find_SomeD: "tbl_find key t k = Some r \<Longrightarrow> r \<in> set t \<and> key r = k"
  by (auto simp: tbl_find_def find_Some_iff)

lemma pk_append [simp]: "pk key (t @ [r]) \<longleftrightarrow> pk key t \<and> \<not> tbl_has key (key r) t"
  by (auto simp: pk_def tbl_has_iff image_iff)

lemma pk_filter: "pk key t \<Longrightarrow> pk key (filter P t)"
  by (simp add: pk_def distinct_map_filter)

lemma pk_insert: "tbl_insert key r t = Some t' \<Longrightarrow> pk key t \<Longrightarrow> pk key t'"
  by (auto simp: tbl_insert_def split: if_splits)

lemma pk_replace: "pk key t \<Longrightarrow> pk key (tbl_replace key r t)"
  by (auto simp: tbl_replace_def pk_filter tbl_has_iff)

lemma pk_ignore: "pk key t \<Longrightarrow> pk key (tbl_ignore key r t)"
  by (simp add: tbl_ignore_def)

lemma pk_delete: "pk key t \<Longrightarrow> pk key (tbl_delete P t)"
  by (simp add: tbl_delete_def pk_filter)

lemma pk_update: "pk key t \<Longrightarrow> (\<And>r. P r \<Longrightarrow> key (f r) = key r) \<Longrightarrow> pk key (tbl_update P f t)"
proof -
  assume "pk key t" and f: "\<And>r. P r \<Longrightarrow> key (f r) = key r"
  moreover have "map key (tbl_update P f t) = map key t"
    using f by (simp add: tbl_update_def)
  ultimately show ?thesis by (simp add: pk_def)
qed

lemma pk_upsert:
  "pk key t \<Longrightarrow> (\<And>x. key x = key r \<Longrightarrow> key (f x r) = key r) \<Longrightarrow> pk key (tbl_upsert key f r t)"
proof -
  assume "pk key t" and "\<And>x. key x = key r \<Longrightarrow> key (f x r) = key r"
  then have "pk key (tbl_update (\<lambda>x. key x = key r) (\<lambda>x. f x r) t)"
    by (intro pk_update) simp_all
  with \<open>pk key t\<close> show ?thesis by (simp add: tbl_upsert_def)
qed

lemmas pk_rules = pk_filter pk_replace pk_ignore pk_delete pk_update pk_upsert

section \<open>A table as a finite map\<close>

lemma tbl_find_Nil [simp]: "tbl_find key [] k = None"
  by (simp add: tbl_find_def)

lemma tbl_find_Cons: "tbl_find key (r # t) k = (if key r = k then Some r else tbl_find key t k)"
  by (simp add: tbl_find_def)

lemma tbl_find_absent: "k \<notin> key ` set t \<Longrightarrow> tbl_find key t k = None"
  by (auto simp: tbl_find_def find_None_iff)

lemma tbl_find_append:
  "tbl_find key (t @ [r]) k = (case tbl_find key t k of Some x \<Rightarrow> Some x | None \<Rightarrow> if key r = k then Some r else None)"
  by (induction t) (auto simp: tbl_find_Cons)

lemma tbl_find_filter_key:
  "(\<And>x. key x = k \<Longrightarrow> P x) \<Longrightarrow> tbl_find key (filter P t) k = tbl_find key t k"
  by (induction t) (auto simp: tbl_find_Cons)

lemma tbl_find_filter_none:
  "(\<And>x. key x = k \<Longrightarrow> \<not> P x) \<Longrightarrow> tbl_find key (filter P t) k = None"
  by (induction t) (auto simp: tbl_find_Cons)

lemma tbl_find_replace: "tbl_find key (tbl_replace key r t) = (tbl_find key t)(key r \<mapsto> r)"
proof
  fix k
  show "tbl_find key (tbl_replace key r t) k = ((tbl_find key t)(key r \<mapsto> r)) k"
  proof (cases "key r = k")
    case True
    then have "tbl_find key (filter (\<lambda>x. key x \<noteq> key r) t) k = None"
      by (intro tbl_find_filter_none) simp
    with True show ?thesis by (simp add: tbl_replace_def tbl_find_append)
  next
    case False
    then have "tbl_find key (filter (\<lambda>x. key x \<noteq> key r) t) k = tbl_find key t k"
      by (intro tbl_find_filter_key) auto
    with False show ?thesis by (auto simp: tbl_replace_def tbl_find_append split: option.splits)
  qed
qed

lemma tbl_find_insert: "tbl_insert key r t = Some t' \<Longrightarrow> tbl_find key t' = (tbl_find key t)(key r \<mapsto> r)"
  by (rule ext) (auto simp: tbl_insert_def tbl_has_find tbl_find_append split: if_splits option.splits)

lemma tbl_find_ignore:
  "tbl_find key (tbl_ignore key r t) k
     = (case tbl_find key t k of Some x \<Rightarrow> Some x | None \<Rightarrow> if key r = k then Some r else None)"
  by (auto simp: tbl_ignore_def tbl_has_find tbl_find_append split: option.splits)

lemma tbl_find_update:
  "(\<And>r. P r \<Longrightarrow> key (f r) = key r) \<Longrightarrow>
     tbl_find key (tbl_update P f t) k = map_option (\<lambda>r. if P r then f r else r) (tbl_find key t k)"
  by (induction t) (auto simp: tbl_update_def tbl_find_Cons)

lemma tbl_find_upsert:
  assumes "\<And>x. key x = key r \<Longrightarrow> key (f x r) = key r"
  shows "tbl_find key (tbl_upsert key f r t) k
     = (if k = key r then (case tbl_find key t k of None \<Rightarrow> Some r | Some x \<Rightarrow> Some (f x r))
        else tbl_find key t k)"
proof -
  have "tbl_find key (tbl_update (\<lambda>x. key x = key r) (\<lambda>x. f x r) t) k
      = map_option (\<lambda>x. if key x = key r then f x r else x) (tbl_find key t k)"
    using assms by (intro tbl_find_update) auto
  then show ?thesis
    by (auto simp: tbl_upsert_def tbl_has_find tbl_find_append split: option.splits dest: tbl_find_SomeD)
qed

lemma tbl_find_delete:
  assumes "pk key t"
  shows "tbl_find key (tbl_delete P t) k
     = (case tbl_find key t k of None \<Rightarrow> None | Some r \<Rightarrow> if P r then None else Some r)"
  using assms
proof (induction t)
  case (Cons a t)
  then have a: "key a \<notin> key ` set t" and t: "pk key t" by (simp_all add: pk_def)
  show ?case
  proof (cases "key a = k")
    case True
    then have "tbl_find key t k = None" "tbl_find key (tbl_delete P t) k = None"
      using a by (auto simp: tbl_delete_def intro!: tbl_find_absent)
    with True show ?thesis by (simp add: tbl_delete_def tbl_find_Cons)
  next
    case False
    then show ?thesis using Cons.IH [OF t] by (simp add: tbl_delete_def tbl_find_Cons)
  qed
qed (simp add: tbl_delete_def)

lemma tbl_find_in: "pk key t \<Longrightarrow> r \<in> set t \<Longrightarrow> tbl_find key t (key r) = Some r"
  by (induction t) (auto simp: pk_def tbl_find_Cons image_iff)

text \<open>Selecting in another order yields the same rows.\<close>

lemma pk_sort_key: "pk key t \<Longrightarrow> pk key (sort_key h t)"
  unfolding pk_def by (metis mset_map mset_sort mset_eq_imp_distinct_iff)

lemma tbl_find_sort_key:
  assumes "pk key t"
  shows "tbl_find key (sort_key h t) k = tbl_find key t k"
proof (cases "tbl_find key t k")
  case None
  then have "k \<notin> key ` set (sort_key h t)" using tbl_find_in [OF assms] by fastforce
  then show ?thesis using None by (simp add: tbl_find_absent)
next
  case (Some r)
  then have "r \<in> set (sort_key h t)" "key r = k" by (auto dest: tbl_find_SomeD)
  then show ?thesis using tbl_find_in [OF pk_sort_key [OF assms]] Some by metis
qed

section \<open>What the components above rely on\<close>

text \<open>
  A keyed store: rows can be put and looked up by key, under an invariant that \<open>put\<close> keeps.
  A client that puts a batch of rows with different keys finds each of them, in whatever
  order they were put, and leaves the other keys alone.
\<close>

locale keyed_store =
  fixes inv :: "'s \<Rightarrow> bool" and look :: "'s \<Rightarrow> 'k \<Rightarrow> 'r option" and put :: "'r \<Rightarrow> 's \<Rightarrow> 's"
    and key :: "'r \<Rightarrow> 'k"
  assumes put_inv: "inv s \<Longrightarrow> inv (put r s)"
    and look_put: "inv s \<Longrightarrow> look (put r s) = (look s)(key r \<mapsto> r)"
begin

lemma puts_inv: "inv s \<Longrightarrow> inv (fold put rs s)"
  by (induction rs arbitrary: s) (auto intro: put_inv)

lemma look_puts_other:
  "inv s \<Longrightarrow> k \<notin> key ` set rs \<Longrightarrow> look (fold put rs s) k = look s k"
  by (induction rs arbitrary: s) (auto simp: put_inv look_put)

lemma look_puts:
  "inv s \<Longrightarrow> distinct (map key rs) \<Longrightarrow> r \<in> set rs \<Longrightarrow> look (fold put rs s) (key r) = Some r"
proof (induction rs arbitrary: s)
  case (Cons a rs)
  show ?case
  proof (cases "r = a")
    case True
    then have "key r \<notin> key ` set rs" using Cons.prems by auto
    with True Cons.prems show ?thesis by (simp add: look_puts_other put_inv look_put)
  next
    case False
    with Cons show ?thesis by (simp add: put_inv)
  qed
qed simp

lemma look_puts_perm:
  assumes "inv s" "distinct (map key rs)" "mset rs = mset qs"
  shows "look (fold put rs s) = look (fold put qs s)"
proof
  fix k
  have d: "distinct (map key qs)" and same: "set rs = set qs"
    using assms(2,3) by (metis mset_map mset_eq_imp_distinct_iff, metis mset_eq_setD)
  show "look (fold put rs s) k = look (fold put qs s) k"
  proof (cases "k \<in> key ` set rs")
    case True
    then obtain r where "r \<in> set rs" "k = key r" by auto
    then show ?thesis using assms(1,2) d same by (simp add: look_puts)
  next
    case False
    then show ?thesis using assms(1) same by (simp add: look_puts_other)
  qed
qed

lemma put_twice: "inv s \<Longrightarrow> look (put r (put r s)) = look (put r s)"
  by (simp add: look_put put_inv)

end

lemma tbl_keyed_store: "keyed_store (pk key) (tbl_find key) (tbl_replace key) key"
  by unfold_locales (simp_all add: pk_replace tbl_find_replace)

end
