(* ===== verification/StoreDb.thy ===== *)
theory StoreDb
  imports Tables GoStrings
begin

text \<open>
  The database of \<open>internal/store\<close>: the rows of its tables as the migrations under
  \<open>migrations/sqlite\<close> declare them, and the way a statement runs. Any statement, any commit
  and any begin can fail (a full disk, a lock held too long); which of them do is the
  schedule \<open>db_faults\<close>, one entry per statement, no failure once it is used up. A failing
  statement leaves the tables as they were; a transaction that does not commit is rolled
  back. Every method of the Go store holds the one mutex from its first statement to its
  last, so that a method is one step here.

  Times in rows are nanoseconds, except where a column holds a Unix time in seconds or
  microseconds, as the field says.
\<close>

section \<open>Rows\<close>

text \<open>\<open>messages\<close>; both times in microseconds.\<close>

record message_row =
  m_uid :: string
  m_login :: string
  m_sender :: string
  m_chat :: string
  m_data :: bytes
  m_created :: int
  m_updated :: int

record chunk_row =
  c_file :: string
  c_index :: int
  c_data :: bytes
  c_created :: int
  c_ttl :: int

record PendingChunk =
  pc_file :: string
  pc_index :: int
  pc_recipient :: string
  pc_sender :: string
  pc_data :: bytes
  pc_hash :: string
  pc_sig :: string
  pc_created :: int
  pc_placed :: bool
  pc_ttl :: int
  pc_persist :: bool

text \<open>\<open>failed_chunks\<close>; created in seconds.\<close>

record FailedChunk =
  fc_file :: string
  fc_index :: int
  fc_recipient :: string
  fc_created :: int
  fc_ttl :: int

record GroupChat =
  g_uid :: string
  g_name :: string
  g_enc_private :: string
  g_enc_public :: string
  g_sign_private :: string
  g_sign_public :: string
  g_created :: int

record peer_row =
  p_login :: string
  p_peer :: string
  p_enc :: string
  p_sign :: string
  p_seen :: int
  p_fake :: bool

text \<open>\<open>file_downloads\<close>; times in seconds, \<open>None\<close> for SQL NULL.\<close>

record download_row =
  d_file :: string
  d_first :: int
  d_expires :: int
  d_completed :: "int option"
  d_stopped :: "int option"
  d_cancelled :: "int option"
  d_path :: string
  d_filename :: string
  d_total :: int

record tables =
  t_messages :: "message_row table"
  t_chunks :: "chunk_row table"
  t_pending :: "PendingChunk table"
  t_failed :: "FailedChunk table"
  t_last_check :: "(string \<times> int) table"
  t_groups :: "GroupChat table"
  t_peers :: "peer_row table"
  t_config :: "(string \<times> string) table"
  t_downloads :: "download_row table"
  t_state_check :: "(string \<times> int) table"

definition chunk_key :: "chunk_row \<Rightarrow> string \<times> int" where
  "chunk_key r = (c_file r, c_index r)"

definition pending_key :: "PendingChunk \<Rightarrow> string \<times> int" where
  "pending_key r = (pc_file r, pc_index r)"

definition failed_key :: "FailedChunk \<Rightarrow> string \<times> int" where
  "failed_key r = (fc_file r, fc_index r)"

definition peer_key :: "peer_row \<Rightarrow> string \<times> string" where
  "peer_key r = (p_login r, p_sign r)"

text \<open>The primary keys of the schema.\<close>

definition wf_tables :: "tables \<Rightarrow> bool" where
  "wf_tables t \<longleftrightarrow>
     pk m_uid (t_messages t) \<and> pk chunk_key (t_chunks t) \<and> pk pending_key (t_pending t)
     \<and> pk failed_key (t_failed t) \<and> pk fst (t_last_check t) \<and> pk g_uid (t_groups t)
     \<and> pk peer_key (t_peers t) \<and> pk fst (t_config t) \<and> pk d_file (t_downloads t)
     \<and> pk fst (t_state_check t)"

definition no_tables :: tables where
  "no_tables = \<lparr>t_messages = [], t_chunks = [], t_pending = [], t_failed = [], t_last_check = [],
     t_groups = [], t_peers = [], t_config = [], t_downloads = [], t_state_check = []\<rparr>"

lemma wf_no_tables: "wf_tables no_tables"
  by (simp add: wf_tables_def no_tables_def)

section \<open>Statements and transactions\<close>

record db =
  db_tables :: tables
  db_faults :: "bool list"

type_synonym 'a dbop = "db \<Rightarrow> 'a go \<times> db"

definition fault :: "db \<Rightarrow> bool \<times> db" where
  "fault d = (case db_faults d of [] \<Rightarrow> (False, d) | b # bs \<Rightarrow> (b, d\<lparr>db_faults := bs\<rparr>))"

text \<open>One statement; \<open>None\<close> is a violated constraint.\<close>

definition sql :: "(tables \<Rightarrow> ('a \<times> tables) option) \<Rightarrow> 'a dbop" where
  "sql f d =
     (case fault d of (b, d') \<Rightarrow>
        if b then (Err ''database'', d')
        else (case f (db_tables d') of
                None \<Rightarrow> (Err ''constraint failed'', d')
              | Some (x, t) \<Rightarrow> (Ret x, d'\<lparr>db_tables := t\<rparr>)))"

definition sql_read :: "(tables \<Rightarrow> 'a) \<Rightarrow> 'a dbop" where
  "sql_read f = sql (\<lambda>t. Some (f t, t))"

definition sql_write :: "(tables \<Rightarrow> tables) \<Rightarrow> unit dbop" where
  "sql_write f = sql (\<lambda>t. Some ((), f t))"

definition db_ret :: "'a \<Rightarrow> 'a dbop" where
  "db_ret x d = (Ret x, d)"

definition db_err :: "string \<Rightarrow> 'a dbop" where
  "db_err e d = (Err e, d)"

definition db_then :: "'a dbop \<Rightarrow> ('a \<Rightarrow> 'b dbop) \<Rightarrow> 'b dbop" where
  "db_then m k d =
     (case m d of (Ret x, d') \<Rightarrow> k x d' | (Err e, d') \<Rightarrow> (Err e, d') | (Panic e, d') \<Rightarrow> (Panic e, d'))"

fun db_each :: "('x \<Rightarrow> unit dbop) \<Rightarrow> 'x list \<Rightarrow> unit dbop" where
  "db_each f [] = db_ret ()"
| "db_each f (x # xs) = db_then (f x) (\<lambda>_. db_each f xs)"

definition rollback :: "tables \<Rightarrow> db \<Rightarrow> db" where
  "rollback t d = d\<lparr>db_tables := t\<rparr>"

definition transaction :: "'a dbop \<Rightarrow> 'a dbop" where
  "transaction body d =
     (case fault d of (b, d0) \<Rightarrow>
        if b then (Err ''begin'', d0)
        else (case body d0 of
            (Ret x, d1) \<Rightarrow>
              (case fault d1 of (c, d2) \<Rightarrow>
                 if c then (Err ''commit'', rollback (db_tables d) d2) else (Ret x, d2))
          | (Err e, d1) \<Rightarrow> (Err e, rollback (db_tables d) d1)
          | (Panic e, d1) \<Rightarrow> (Panic e, rollback (db_tables d) d1)))"

section \<open>Reasoning about statements\<close>

lemma fault_tables [simp]: "fault d = (b, d') \<Longrightarrow> db_tables d' = db_tables d"
  by (auto simp: fault_def split: list.splits)

lemma fault_none: "db_faults d = [] \<Longrightarrow> fault d = (False, d)"
  by (simp add: fault_def)

lemma fault_none_after: "db_faults d = [] \<Longrightarrow> fault d = (b, d') \<Longrightarrow> \<not> b \<and> d' = d"
  by (simp add: fault_def)

text \<open>With no failure scheduled, what the operations compute.\<close>

lemma sql_ok:
  "db_faults d = [] \<Longrightarrow> sql f d = (case f (db_tables d) of None \<Rightarrow> (Err ''constraint failed'', d)
      | Some (x, t) \<Rightarrow> (Ret x, d\<lparr>db_tables := t\<rparr>))"
  by (simp add: sql_def fault_none)

lemma sql_read_ok: "db_faults d = [] \<Longrightarrow> sql_read f d = (Ret (f (db_tables d)), d)"
  by (simp add: sql_read_def sql_ok)

lemma sql_write_ok: "db_faults d = [] \<Longrightarrow> sql_write f d = (Ret (), d\<lparr>db_tables := f (db_tables d)\<rparr>)"
  by (simp add: sql_write_def sql_ok)

lemma transaction_ok:
  "db_faults d = [] \<Longrightarrow> body d = (Ret x, d') \<Longrightarrow> db_faults d' = [] \<Longrightarrow> transaction body d = (Ret x, d')"
  by (simp add: transaction_def fault_none)

lemma transaction_fail:
  "db_faults d = [] \<Longrightarrow> body d = (Err e, d') \<Longrightarrow> transaction body d = (Err e, rollback (db_tables d) d')"
  by (simp add: transaction_def fault_none)

lemmas db_ok = sql_ok sql_read_ok sql_write_ok

text \<open>Whatever fails: a result other than \<open>Ret\<close> of a statement or a transaction changes no table.\<close>

lemma sql_atomic: "sql f d = (r, d') \<Longrightarrow> (\<And>x. r \<noteq> Ret x) \<Longrightarrow> db_tables d' = db_tables d"
  by (auto simp: sql_def split: prod.splits if_splits option.splits)

lemma sql_RetD: "sql f d = (Ret x, d') \<Longrightarrow> f (db_tables d) = Some (x, db_tables d')"
  by (auto simp: sql_def split: prod.splits if_splits option.splits)

lemma sql_read_RetD: "sql_read f d = (Ret x, d') \<Longrightarrow> x = f (db_tables d) \<and> db_tables d' = db_tables d"
  by (auto simp: sql_read_def dest: sql_RetD)

lemma sql_write_RetD: "sql_write f d = (Ret u, d') \<Longrightarrow> db_tables d' = f (db_tables d)"
  by (auto simp: sql_write_def dest: sql_RetD)

lemma sql_write_either:
  "sql_write f d = (r, d') \<Longrightarrow> db_tables d' = f (db_tables d) \<or> db_tables d' = db_tables d"
  by (auto simp: sql_write_def sql_def split: prod.splits if_splits)

lemma sql_read_tables: "db_tables (snd (sql_read f d)) = db_tables d"
  by (auto simp: sql_read_def sql_def split: prod.splits)

lemma sql_no_panic: "sql f d \<noteq> (Panic e, d')"
  by (auto simp: sql_def split: prod.splits option.splits)

lemma transaction_atomic:
  "transaction body d = (r, d') \<Longrightarrow> (\<And>x. r \<noteq> Ret x) \<Longrightarrow> db_tables d' = db_tables d"
  by (auto simp: transaction_def rollback_def split: prod.splits if_splits go.splits)

lemma transaction_RetD:
  assumes "transaction body d = (Ret x, d')"
  obtains d0 d1 where "db_tables d0 = db_tables d" "body d0 = (Ret x, d1)" "db_tables d' = db_tables d1"
proof -
  obtain d0 d1 where "fault d = (False, d0)" "body d0 = (Ret x, d1)" "fault d1 = (False, d')"
    using assms by (auto simp: transaction_def split: prod.splits if_splits go.splits)
  then show thesis by (intro that [of d0 d1]) simp_all
qed

lemma db_then_RetD:
  assumes "db_then m k d = (Ret y, d')"
  obtains x d1 where "m d = (Ret x, d1)" "k x d1 = (Ret y, d')"
  using assms by (auto simp: db_then_def split: prod.splits go.splits)

section \<open>Invariants of statements\<close>

definition keeps :: "(tables \<Rightarrow> bool) \<Rightarrow> 'a dbop \<Rightarrow> bool" where
  "keeps I m \<longleftrightarrow> (\<forall>d. I (db_tables d) \<longrightarrow> I (db_tables (snd (m d))))"

lemma keepsD: "keeps I m \<Longrightarrow> m d = (r, d') \<Longrightarrow> I (db_tables d) \<Longrightarrow> I (db_tables d')"
  by (metis keeps_def snd_conv)

lemma keeps_sql: "(\<And>t x t'. I t \<Longrightarrow> f t = Some (x, t') \<Longrightarrow> I t') \<Longrightarrow> keeps I (sql f)"
  by (auto simp: keeps_def sql_def split: prod.splits option.splits)

lemma keeps_write [wf_intros]: "(\<And>t. I t \<Longrightarrow> I (f t)) \<Longrightarrow> keeps I (sql_write f)"
  by (auto simp: sql_write_def intro: keeps_sql)

lemma keeps_read [wf_intros]: "keeps I (sql_read f)"
  by (auto simp: sql_read_def intro: keeps_sql)

lemma keeps_ret [wf_intros]: "keeps I (db_ret x)"
  by (simp add: keeps_def db_ret_def)

lemma keeps_err [wf_intros]: "keeps I (db_err e)"
  by (simp add: keeps_def db_err_def)

lemma keeps_then [wf_intros]: "keeps I m \<Longrightarrow> (\<And>x. keeps I (k x)) \<Longrightarrow> keeps I (db_then m k)"
proof -
  assume m: "keeps I m" and k: "\<And>x. keeps I (k x)"
  have "I (db_tables (snd (db_then m k d)))" if I: "I (db_tables d)" for d
  proof -
    obtain r d1 where e: "m d = (r, d1)" by fastforce
    with m I have "I (db_tables d1)" by (blast dest: keepsD)
    then show ?thesis using k by (cases r) (simp_all add: db_then_def e keeps_def)
  qed
  then show ?thesis by (simp add: keeps_def)
qed

lemma keeps_each [wf_intros]: "(\<And>x. keeps I (f x)) \<Longrightarrow> keeps I (db_each f xs)"
  by (induction xs) (simp_all add: keeps_ret keeps_then)

lemma keeps_transaction [wf_intros]: "keeps I body \<Longrightarrow> keeps I (transaction body)"
proof -
  assume b: "keeps I body"
  have "I (db_tables (snd (transaction body d)))" if I: "I (db_tables d)" for d
  proof (cases "transaction body d")
    case (Pair r d')
    show ?thesis
    proof (cases r)
      case (Ret x)
      then obtain d0 d1 where "db_tables d0 = db_tables d" "body d0 = (Ret x, d1)"
          "db_tables d' = db_tables d1"
        using Pair by (blast elim: transaction_RetD)
      then show ?thesis using keepsD [OF b] I Pair by (metis snd_conv)
    qed (use transaction_atomic [OF Pair] I Pair in simp_all)
  qed
  then show ?thesis by (simp add: keeps_def)
qed

lemma keeps_if [wf_intros]: "keeps I a \<Longrightarrow> keeps I b \<Longrightarrow> keeps I (if P then a else b)"
  by simp

text \<open>With no failure scheduled there is none scheduled afterwards.\<close>

definition quiet :: "'a dbop \<Rightarrow> bool" where
  "quiet m \<longleftrightarrow> (\<forall>d. db_faults d = [] \<longrightarrow> db_faults (snd (m d)) = [])"

lemma quietD: "quiet m \<Longrightarrow> db_faults d = [] \<Longrightarrow> m d = (r, d') \<Longrightarrow> db_faults d' = []"
  unfolding quiet_def by (metis snd_conv)

lemma quiet_sql [wf_intros]: "quiet (sql f)"
  by (simp add: quiet_def sql_ok split: option.splits prod.splits)

lemma quiet_read [wf_intros]: "quiet (sql_read f)"
  unfolding sql_read_def by (rule quiet_sql)

lemma quiet_write [wf_intros]: "quiet (sql_write f)"
  unfolding sql_write_def by (rule quiet_sql)

lemma quiet_ret [wf_intros]: "quiet (db_ret x)"
  by (simp add: quiet_def db_ret_def)

lemma quiet_err [wf_intros]: "quiet (db_err e)"
  by (simp add: quiet_def db_err_def)

lemma quiet_then [wf_intros]:
  assumes "quiet m" and "\<And>x. quiet (k x)"
  shows "quiet (db_then m k)"
  unfolding quiet_def
proof (intro allI impI)
  fix d :: db assume d: "db_faults d = []"
  obtain r d1 where e: "m d = (r, d1)" by fastforce
  with assms(1) d have "db_faults d1 = []" by (blast dest: quietD)
  then show "db_faults (snd (db_then m k d)) = []"
    using assms(2) by (cases r) (simp_all add: db_then_def e quiet_def)
qed

lemma quiet_each [wf_intros]: "(\<And>x. quiet (f x)) \<Longrightarrow> quiet (db_each f xs)"
  by (induction xs) (simp_all add: quiet_ret quiet_then)

lemma quiet_if [wf_intros]: "quiet a \<Longrightarrow> quiet b \<Longrightarrow> quiet (if P then a else b)"
  by simp

lemma quiet_transaction [wf_intros]:
  assumes "quiet body"
  shows "quiet (transaction body)"
  unfolding quiet_def
proof (intro allI impI)
  fix d :: db assume d: "db_faults d = []"
  obtain r d1 where e: "body d = (r, d1)" by fastforce
  with assms d have "db_faults d1 = []" by (blast dest: quietD)
  then show "db_faults (snd (transaction body d)) = []"
    by (cases r) (simp_all add: transaction_def fault_none d e rollback_def)
qed

lemma transaction_value:
  assumes "quiet body" and d: "db_faults (d :: db) = []"
  shows "transaction body d = (case body d of (Ret x, d') \<Rightarrow> (Ret x, d')
     | (Err e, d') \<Rightarrow> (Err e, rollback (db_tables d) d')
     | (Panic e, d') \<Rightarrow> (Panic e, rollback (db_tables d) d'))"
proof -
  obtain r d1 where e: "body d = (r, d1)" by fastforce
  with assms have "db_faults d1 = []" by (blast dest: quietD)
  then show ?thesis
    by (cases r) (simp_all add: transaction_def fault_none d e)
qed

end
