(* ===== verification/StoreChunks.thy ===== *)
theory StoreChunks
  imports StoreDb
begin

text \<open>
  \<open>chunkStore.go\<close>, \<open>chunkExpiry.go\<close> and \<open>pendingChunkStore.go\<close>: the encrypted blocks a peer
  holds for others, and the outgoing blocks that still wait to be placed. The instant at which
  a method reads the clock is its parameter \<open>now\<close>.
\<close>

section \<open>Held blocks\<close>

definition put_chunk :: "chunk_row \<Rightarrow> tables \<Rightarrow> tables" where
  "put_chunk r t = t\<lparr>t_chunks := tbl_replace chunk_key r (t_chunks t)\<rparr>"

definition StoreChunk :: "int \<Rightarrow> string \<Rightarrow> int \<Rightarrow> bytes \<Rightarrow> int \<Rightarrow> unit dbop" where
  "StoreChunk now fileID chunkIndex data ttlSeconds =
     sql_write (put_chunk
       \<lparr>c_file = fileID, c_index = chunkIndex, c_data = data, c_created = now, c_ttl = ttlSeconds\<rparr>)"

text \<open>\<open>!now.Before(created.Add(ttl * time.Second))\<close>\<close>

definition expired :: "int \<Rightarrow> int \<Rightarrow> int \<Rightarrow> bool" where
  "expired now created ttl = (\<not> now < created + seconds ttl)"

definition GetChunk :: "int \<Rightarrow> string \<Rightarrow> int \<Rightarrow> bytes option dbop" where
  "GetChunk now fileID chunkIndex =
     db_then (sql_read (\<lambda>t. tbl_find chunk_key (t_chunks t) (fileID, chunkIndex)))
       (\<lambda>row. case row of
          Some c \<Rightarrow> db_ret (Some (c_data c))
        | None \<Rightarrow>
            db_then (sql_read (\<lambda>t. tbl_find pending_key (t_pending t) (fileID, chunkIndex)))
              (\<lambda>row. case row of
                 None \<Rightarrow> db_ret None
               | Some p \<Rightarrow>
                   if expired now (pc_created p) (pc_ttl p) then db_ret None
                   else db_ret (Some (pc_data p))))"

definition DeleteChunks :: "string \<Rightarrow> unit dbop" where
  "DeleteChunks fileID =
     sql_write (\<lambda>t. t\<lparr>t_chunks := tbl_delete (\<lambda>r. c_file r = fileID) (t_chunks t)\<rparr>)"

definition ListChunkFiles :: "string list dbop" where
  "ListChunkFiles = sql_read (\<lambda>t. remdups (map c_file (t_chunks t)))"

text \<open>The Go map from indices to data, as its entries.\<close>

definition ListChunks :: "string \<Rightarrow> (int \<times> bytes) list dbop" where
  "ListChunks fileID =
     sql_read (\<lambda>t. map (\<lambda>r. (c_index r, c_data r)) (filter (\<lambda>r. c_file r = fileID) (t_chunks t)))"

definition DeleteChunk :: "string \<Rightarrow> int \<Rightarrow> unit dbop" where
  "DeleteChunk fileID index =
     sql_write (\<lambda>t. t\<lparr>t_chunks := tbl_delete (\<lambda>r. c_file r = fileID \<and> c_index r = index) (t_chunks t)\<rparr>)"

definition DeleteChunksWithMessage :: "unit dbop" where
  "DeleteChunksWithMessage =
     sql_write (\<lambda>t. t\<lparr>t_chunks := tbl_delete
       (\<lambda>r. c_file r \<in> set (map m_uid (t_messages t)) \<and> c_file r \<notin> set (map pc_file (t_pending t)))
       (t_chunks t)\<rparr>)"

section \<open>Expiry\<close>

text \<open>
  \<open>deleteExpiredPayloads\<close> works on either table of blocks: \<open>rows\<close> reads the key, creation time
  and TTL of its rows, \<open>del\<close> deletes the row of a key. The keys are read by one statement, the
  rows deleted in a transaction of their own.
\<close>

definition deleteExpiredPayloads ::
    "(tables \<Rightarrow> ((string \<times> int) \<times> int \<times> int) list) \<Rightarrow> (string \<times> int \<Rightarrow> tables \<Rightarrow> tables) \<Rightarrow> int \<Rightarrow> unit dbop"
  where
  "deleteExpiredPayloads rows del now =
     db_then (sql_read (\<lambda>t. filter (\<lambda>(k, created, ttl). 0 < ttl) (rows t)))
       (\<lambda>found.
          let gone = map fst (filter (\<lambda>(k, created, ttl). expired now created ttl) found) in
          if gone = [] then db_ret ()
          else transaction (db_each (\<lambda>k. sql_write (del k)) gone))"

definition chunk_rows :: "tables \<Rightarrow> ((string \<times> int) \<times> int \<times> int) list" where
  "chunk_rows t = map (\<lambda>r. (chunk_key r, c_created r, c_ttl r)) (t_chunks t)"

definition del_chunk :: "string \<times> int \<Rightarrow> tables \<Rightarrow> tables" where
  "del_chunk k t = t\<lparr>t_chunks := tbl_delete (\<lambda>r. chunk_key r = k) (t_chunks t)\<rparr>"

definition pending_rows :: "tables \<Rightarrow> ((string \<times> int) \<times> int \<times> int) list" where
  "pending_rows t = map (\<lambda>r. (pending_key r, pc_created r, pc_ttl r)) (t_pending t)"

definition del_pending :: "string \<times> int \<Rightarrow> tables \<Rightarrow> tables" where
  "del_pending k t = t\<lparr>t_pending := tbl_delete (\<lambda>r. pending_key r = k) (t_pending t)\<rparr>"

definition DeleteExpiredChunks :: "int \<Rightarrow> unit dbop" where
  "DeleteExpiredChunks now = deleteExpiredPayloads chunk_rows del_chunk now"

definition DeleteExpiredPendingChunks :: "int \<Rightarrow> unit dbop" where
  "DeleteExpiredPendingChunks now = deleteExpiredPayloads pending_rows del_pending now"

section \<open>Blocks waiting to be placed\<close>

definition StorePendingChunk :: "PendingChunk \<Rightarrow> unit dbop" where
  "StorePendingChunk pc =
     sql_write (\<lambda>t. t\<lparr>t_pending := tbl_replace pending_key pc (t_pending t)\<rparr>)"

definition GetUnplacedChunks :: "PendingChunk list dbop" where
  "GetUnplacedChunks =
     sql_read (\<lambda>t. sort_key pc_created (filter (\<lambda>r. \<not> pc_placed r) (t_pending t)))"

definition MarkChunkPlaced :: "string \<Rightarrow> int \<Rightarrow> unit dbop" where
  "MarkChunkPlaced fileID chunkIndex =
     sql_write (\<lambda>t. t\<lparr>t_pending := tbl_update (\<lambda>r. pc_file r = fileID \<and> pc_index r = chunkIndex)
       (\<lambda>r. r\<lparr>pc_placed := True\<rparr>) (t_pending t)\<rparr>)"

definition GetPendingChunksByMessage :: "string \<Rightarrow> PendingChunk list dbop" where
  "GetPendingChunksByMessage fileID =
     sql_read (\<lambda>t. sort_key pc_index (filter (\<lambda>r. pc_file r = fileID) (t_pending t)))"

definition DeletePendingChunks :: "string \<Rightarrow> unit dbop" where
  "DeletePendingChunks fileID =
     sql_write (\<lambda>t. t\<lparr>t_pending := tbl_delete (\<lambda>r. pc_file r = fileID) (t_pending t)\<rparr>)"

section \<open>The primary keys are kept\<close>

lemma keeps_StoreChunk [wf_intros]: "keeps wf_tables (StoreChunk now f i d ttl)"
  unfolding StoreChunk_def by (rule keeps_write) (simp add: put_chunk_def wf_tables_def pk_rules)

lemma keeps_GetChunk [wf_intros]: "keeps I (GetChunk now f i)"
  unfolding GetChunk_def by (auto intro!: wf_intros split: option.splits)

lemma keeps_DeleteChunks [wf_intros]: "keeps wf_tables (DeleteChunks f)"
  unfolding DeleteChunks_def by (rule keeps_write) (simp add: wf_tables_def pk_rules)

lemma keeps_DeleteChunk [wf_intros]: "keeps wf_tables (DeleteChunk f i)"
  unfolding DeleteChunk_def by (rule keeps_write) (simp add: wf_tables_def pk_rules)

lemma keeps_DeleteChunksWithMessage [wf_intros]: "keeps wf_tables DeleteChunksWithMessage"
  unfolding DeleteChunksWithMessage_def by (rule keeps_write) (simp add: wf_tables_def pk_rules)

lemma keeps_deleteExpiredPayloads:
  "(\<And>k t. I t \<Longrightarrow> I (del k t)) \<Longrightarrow> keeps I (deleteExpiredPayloads rows del now)"
  unfolding deleteExpiredPayloads_def Let_def
  by (intro keeps_then keeps_read keeps_if keeps_ret keeps_transaction keeps_each keeps_write)

lemma keeps_DeleteExpiredChunks [wf_intros]: "keeps wf_tables (DeleteExpiredChunks now)"
  unfolding DeleteExpiredChunks_def
  by (rule keeps_deleteExpiredPayloads) (simp add: del_chunk_def wf_tables_def pk_rules)

lemma keeps_DeleteExpiredPendingChunks [wf_intros]: "keeps wf_tables (DeleteExpiredPendingChunks now)"
  unfolding DeleteExpiredPendingChunks_def
  by (rule keeps_deleteExpiredPayloads) (simp add: del_pending_def wf_tables_def pk_rules)

lemma keeps_StorePendingChunk [wf_intros]: "keeps wf_tables (StorePendingChunk pc)"
  unfolding StorePendingChunk_def by (rule keeps_write) (simp add: wf_tables_def pk_rules)

lemma keeps_MarkChunkPlaced [wf_intros]: "keeps wf_tables (MarkChunkPlaced f i)"
  unfolding MarkChunkPlaced_def by (rule keeps_write) (simp add: wf_tables_def pk_rules pending_key_def)

lemma keeps_DeletePendingChunks [wf_intros]: "keeps wf_tables (DeletePendingChunks f)"
  unfolding DeletePendingChunks_def by (rule keeps_write) (simp add: wf_tables_def pk_rules)

section \<open>Held blocks as a keyed store\<close>

definition held :: "tables \<Rightarrow> string \<times> int \<Rightarrow> chunk_row option" where
  "held t k = tbl_find chunk_key (t_chunks t) k"

definition waiting :: "tables \<Rightarrow> string \<times> int \<Rightarrow> PendingChunk option" where
  "waiting t k = tbl_find pending_key (t_pending t) k"

definition put_pending :: "PendingChunk \<Rightarrow> tables \<Rightarrow> tables" where
  "put_pending r t = t\<lparr>t_pending := tbl_replace pending_key r (t_pending t)\<rparr>"

interpretation held_blocks: keyed_store wf_tables held put_chunk chunk_key
  by unfold_locales (simp_all add: put_chunk_def held_def wf_tables_def pk_rules tbl_find_replace fun_eq_iff)

interpretation waiting_blocks: keyed_store wf_tables waiting put_pending pending_key
  by unfold_locales (simp_all add: put_pending_def waiting_def wf_tables_def pk_rules tbl_find_replace fun_eq_iff)

lemma GetChunk_RetD:
  assumes "GetChunk now f i d = (Ret x, d')"
  shows "x = (case held (db_tables d) (f, i) of
       Some c \<Rightarrow> Some (c_data c)
     | None \<Rightarrow> (case waiting (db_tables d) (f, i) of
          None \<Rightarrow> None
        | Some p \<Rightarrow> if expired now (pc_created p) (pc_ttl p) then None else Some (pc_data p)))"
    and "db_tables d' = db_tables d"
  using assms unfolding GetChunk_def held_def waiting_def
  by (auto elim!: db_then_RetD dest!: sql_read_RetD simp: db_ret_def split: option.splits if_splits)

lemma GetChunk_ok:
  assumes "db_faults d = []"
  shows "\<exists>x. GetChunk now f i d = (Ret x, d)"
  using assms unfolding GetChunk_def
  by (auto simp: db_then_def sql_read_ok db_ret_def split: option.splits)

lemma GetChunk_value:
  assumes "db_faults d = []"
  shows "GetChunk now f i d = (Ret (case held (db_tables d) (f, i) of
       Some c \<Rightarrow> Some (c_data c)
     | None \<Rightarrow> (case waiting (db_tables d) (f, i) of
          None \<Rightarrow> None
        | Some p \<Rightarrow> if expired now (pc_created p) (pc_ttl p) then None else Some (pc_data p))), d)"
  using GetChunk_ok [OF assms, of now f i] GetChunk_RetD(1) by fastforce

section \<open>Expiry removes exactly what has expired\<close>

lemma db_each_write_RetD: "db_each (\<lambda>k. sql_write (f k)) ks d = (Ret u, d') \<Longrightarrow> db_tables d' = fold f ks (db_tables d)"
  by (induction ks arbitrary: d) (auto simp: db_ret_def elim!: db_then_RetD dest!: sql_write_RetD)

lemma deleteExpiredPayloads_result:
  assumes "deleteExpiredPayloads rows del now d = (r, d')"
  shows "db_tables d' = (if r = Ret () then
       fold del (map fst (filter (\<lambda>(k, created, ttl). 0 < ttl \<and> expired now created ttl) (rows (db_tables d))))
         (db_tables d)
     else db_tables d)"
proof -
  let ?gone = "\<lambda>found. map fst (filter (\<lambda>(k, created, ttl). expired now created ttl) found)"
  obtain q d1 where q: "sql_read (\<lambda>t. filter (\<lambda>(k, created, ttl). 0 < ttl) (rows t)) d = (q, d1)" by fastforce
  then have same: "db_tables d1 = db_tables d" by (metis snd_conv sql_read_tables)
  show ?thesis
  proof (cases q)
    case (Ret found)
    then have found: "found = filter (\<lambda>(k, created, ttl). 0 < ttl) (rows (db_tables d))"
      using q by (auto dest: sql_read_RetD)
    have gone: "?gone found = map fst (filter (\<lambda>(k, created, ttl). 0 < ttl \<and> expired now created ttl)
        (rows (db_tables d)))"
      by (simp add: found) (rule arg_cong [where f = "map fst"], rule filter_cong, auto)
    have run: "(r, d') = (if ?gone found = [] then db_ret () d1
        else transaction (db_each (\<lambda>k. sql_write (del k)) (?gone found)) d1)"
      using assms Ret q by (auto simp: deleteExpiredPayloads_def db_then_def Let_def split: if_splits)
    show ?thesis
    proof (cases "?gone found = []")
      case True
      then show ?thesis using run same by (simp add: db_ret_def gone)
    next
      case False
      then have t: "transaction (db_each (\<lambda>k. sql_write (del k)) (?gone found)) d1 = (r, d')"
        using run by simp
      show ?thesis
      proof (cases "r = Ret ()")
        case True
        then show ?thesis
          using t same by (auto elim!: transaction_RetD dest!: db_each_write_RetD simp: gone)
      next
        case False
        then show ?thesis using transaction_atomic [OF t] same by auto
      qed
    qed
  qed (use assms q same in \<open>auto simp: deleteExpiredPayloads_def db_then_def\<close>)
qed

lemma fold_del_chunk:
  "fold del_chunk ks t = t\<lparr>t_chunks := filter (\<lambda>r. chunk_key r \<notin> set ks) (t_chunks t)\<rparr>"
  by (induction ks arbitrary: t)
    (auto simp: del_chunk_def tbl_delete_def intro!: arg_cong [where f = "\<lambda>x. t\<lparr>t_chunks := x\<rparr>" for t] filter_cong)

lemma fold_del_pending:
  "fold del_pending ks t = t\<lparr>t_pending := filter (\<lambda>r. pending_key r \<notin> set ks) (t_pending t)\<rparr>"
  by (induction ks arbitrary: t)
    (auto simp: del_pending_def tbl_delete_def intro!: arg_cong [where f = "\<lambda>x. t\<lparr>t_pending := x\<rparr>" for t] filter_cong)

lemma pk_filter_not_keys:
  assumes "pk key rs"
  shows "filter (\<lambda>r. key r \<notin> key ` {x \<in> set rs. P x}) rs = filter (\<lambda>r. \<not> P r) rs"
proof (rule filter_cong)
  fix r assume r: "r \<in> set rs"
  have "inj_on key (set rs)" using assms by (simp add: pk_def distinct_map)
  with r show "(key r \<notin> key ` {x \<in> set rs. P x}) = (\<not> P r)"
    by (auto simp: inj_on_def)
qed simp

definition chunk_gone :: "int \<Rightarrow> chunk_row \<Rightarrow> bool" where
  "chunk_gone now c = (0 < c_ttl c \<and> expired now (c_created c) (c_ttl c))"

definition pending_gone :: "int \<Rightarrow> PendingChunk \<Rightarrow> bool" where
  "pending_gone now c = (0 < pc_ttl c \<and> expired now (pc_created c) (pc_ttl c))"

lemma gone_chunk_keys:
  "set (map fst (filter (\<lambda>(k, created, ttl). 0 < ttl \<and> expired now created ttl) (chunk_rows t)))
     = chunk_key ` {x \<in> set (t_chunks t). chunk_gone now x}"
  by (force simp: chunk_rows_def chunk_gone_def)

lemma gone_pending_keys:
  "set (map fst (filter (\<lambda>(k, created, ttl). 0 < ttl \<and> expired now created ttl) (pending_rows t)))
     = pending_key ` {x \<in> set (t_pending t). pending_gone now x}"
  by (force simp: pending_rows_def pending_gone_def)

lemma DeleteExpiredChunks_effect:
  assumes "wf_tables (db_tables d)" and "DeleteExpiredChunks now d = (r, d')"
  shows "db_tables d' = (if r = Ret ()
     then (db_tables d)\<lparr>t_chunks := filter (\<lambda>c. \<not> chunk_gone now c) (t_chunks (db_tables d))\<rparr>
     else db_tables d)"
proof -
  have "pk chunk_key (t_chunks (db_tables d))" using assms(1) by (simp add: wf_tables_def)
  then show ?thesis
    using deleteExpiredPayloads_result [OF assms(2) [unfolded DeleteExpiredChunks_def]]
    by (simp only: fold_del_chunk gone_chunk_keys pk_filter_not_keys)
qed

lemma chunk_kept: "(\<not> chunk_gone now c) = (c_ttl c \<le> 0 \<or> now < c_created c + seconds (c_ttl c))"
  by (auto simp: chunk_gone_def expired_def)

text \<open>
  C4. Housekeeping of the held blocks is exact and atomic: whatever statement fails, either it
  succeeds and removes precisely the rows whose positive TTL has run out, or it reports an
  error and the database is as before. A row with a TTL of zero or less is never removed.
\<close>

theorem DeleteExpiredChunks_exact:
  assumes "wf_tables (db_tables d)" and "DeleteExpiredChunks now d = (r, d')"
  shows "db_tables d' = (if r = Ret ()
     then (db_tables d)\<lparr>t_chunks :=
       filter (\<lambda>c. c_ttl c \<le> 0 \<or> now < c_created c + seconds (c_ttl c)) (t_chunks (db_tables d))\<rparr>
     else db_tables d)"
  using DeleteExpiredChunks_effect [OF assms] by (simp only: chunk_kept)

lemma DeleteExpiredPendingChunks_exact:
  assumes "wf_tables (db_tables d)" and "DeleteExpiredPendingChunks now d = (r, d')"
  shows "db_tables d' = (if r = Ret ()
     then (db_tables d)\<lparr>t_pending := filter (\<lambda>c. \<not> pending_gone now c) (t_pending (db_tables d))\<rparr>
     else db_tables d)"
proof -
  have "pk pending_key (t_pending (db_tables d))" using assms(1) by (simp add: wf_tables_def)
  then show ?thesis
    using deleteExpiredPayloads_result [OF assms(2) [unfolded DeleteExpiredPendingChunks_def]]
    by (simp only: fold_del_pending gone_pending_keys pk_filter_not_keys)
qed

definition sample_chunk :: "int \<Rightarrow> chunk_row" where
  "sample_chunk i = \<lparr>c_file = ''f'', c_index = i, c_data = [1], c_created = 0, c_ttl = i\<rparr>"

definition sample_chunks :: tables where
  "sample_chunks = no_tables\<lparr>t_chunks := [sample_chunk 0, sample_chunk 5, sample_chunk 60]\<rparr>"

lemma DeleteExpiredChunks_exact_witness:
  "db_tables (snd (DeleteExpiredChunks 10000000000 \<lparr>db_tables = sample_chunks, db_faults = []\<rparr>))
     = sample_chunks\<lparr>t_chunks := [sample_chunk 0, sample_chunk 60]\<rparr>"
proof -
  let ?d = "\<lparr>db_tables = sample_chunks, db_faults = []\<rparr>"
  have wf: "wf_tables (db_tables ?d)"
    by (simp add: sample_chunks_def wf_tables_def no_tables_def pk_def chunk_key_def sample_chunk_def)
  obtain r d' where e: "DeleteExpiredChunks 10000000000 ?d = (r, d')" by fastforce
  have "r = Ret ()"
    using e by (simp add: DeleteExpiredChunks_def deleteExpiredPayloads_def db_then_def sql_read_ok
        chunk_rows_def sample_chunks_def sample_chunk_def expired_def seconds_def transaction_def fault_def
        sql_write_ok db_ret_def chunk_key_def no_tables_def)
  then show ?thesis
    using DeleteExpiredChunks_exact [OF wf e] e
    by (simp add: sample_chunks_def sample_chunk_def chunk_gone_def expired_def seconds_def no_tables_def)
qed

section \<open>Blocks of a file, stored in any order\<close>

lemma ListChunks_map_of:
  assumes "wf_tables t"
  shows "map_of (map (\<lambda>r. (c_index r, c_data r)) (filter (\<lambda>r. c_file r = f) (t_chunks t))) i
     = map_option c_data (held t (f, i))"
proof -
  have "map_of (map (\<lambda>r. (c_index r, c_data r)) (filter (\<lambda>r. c_file r = f) rs)) i
      = map_option c_data (tbl_find chunk_key rs (f, i))" for rs
    by (induction rs) (auto simp: tbl_find_Cons chunk_key_def)
  then show ?thesis by (simp add: held_def)
qed

lemma db_each_write_ok:
  "db_faults d = [] \<Longrightarrow> db_each (\<lambda>x. sql_write (f x)) xs d = (Ret (), d\<lparr>db_tables := fold f xs (db_tables d)\<rparr>)"
  by (induction xs arbitrary: d) (simp_all add: db_ret_def db_then_def sql_write_ok)

lemma db_each_StoreChunk:
  "db_each (\<lambda>(i, data). StoreChunk now f i data ttl) xs
     = db_each (\<lambda>r. sql_write (put_chunk r))
         (map (\<lambda>(i, data). \<lparr>c_file = f, c_index = i, c_data = data, c_created = now, c_ttl = ttl\<rparr>) xs)"
  by (induction xs) (auto simp: StoreChunk_def)

text \<open>
  The blocks of a file can be stored in any order and any number of times each: afterwards
  \<open>ListChunks\<close> gives for every index stored the data, and blocks of other files are as they
  were.
\<close>

theorem StoreChunk_any_order:
  assumes "wf_tables t" and "distinct (map fst xs)" and "set ys = set xs"
    and "db_each (\<lambda>(i, data). StoreChunk now f i data ttl) ys \<lparr>db_tables = t, db_faults = []\<rparr> = (r, d)"
  shows "r = Ret () \<and> wf_tables (db_tables d)
    \<and> (\<forall>(i, data) \<in> set xs. \<exists>es. ListChunks f d = (Ret es, d) \<and> map_of es i = Some data)
    \<and> (\<forall>g i. g \<noteq> f \<longrightarrow> held (db_tables d) (g, i) = held t (g, i))"
proof -
  let ?row = "\<lambda>(i, data). \<lparr>c_file = f, c_index = i, c_data = data, c_created = now, c_ttl = ttl\<rparr>"
  have rd: "r = Ret () \<and> d = \<lparr>db_tables = fold put_chunk (map ?row ys) t, db_faults = []\<rparr>"
    using assms(4) unfolding db_each_StoreChunk by (simp add: db_each_write_ok)
  have wf: "wf_tables (fold put_chunk (map ?row ys) t)"
    by (rule held_blocks.puts_inv [OF assms(1)])
  have inj: "\<forall>p \<in> set ys. \<forall>q \<in> set ys. fst p = fst q \<longrightarrow> p = q"
    using assms(2) by (simp add: assms(3) distinct_map inj_on_def)
  have each: "held (fold put_chunk (map ?row zs) s) (f, fst p) = Some (?row p)"
    if "p \<in> set zs" "set zs \<subseteq> set ys" "wf_tables s" for p zs s
    using that
  proof (induction zs arbitrary: s)
    case (Cons z zs)
    have wfs: "wf_tables (put_chunk (?row z) s)" by (rule held_blocks.put_inv [OF Cons.prems(3)])
    show ?case
    proof (cases "p \<in> set zs")
      case True
      then show ?thesis using Cons.IH [OF True _ wfs] Cons.prems by simp
    next
      case False
      then have p: "p = z" using Cons.prems by simp
      have no: "(f, fst p) \<notin> chunk_key ` set (map ?row zs)"
      proof
        assume "(f, fst p) \<in> chunk_key ` set (map ?row zs)"
        then obtain q where "q \<in> set zs" "fst q = fst p" by (auto simp: chunk_key_def)
        with inj p Cons.prems False show False by (metis list.set_intros subsetD)
      qed
      show ?thesis
        using held_blocks.look_puts_other [OF wfs no] held_blocks.look_put [OF Cons.prems(3)] p
        by (simp add: chunk_key_def split: prod.splits)
    qed
  qed simp
  have list: "ListChunks f d = (Ret (map (\<lambda>r. (c_index r, c_data r))
      (filter (\<lambda>r. c_file r = f) (t_chunks (db_tables d)))), d)"
    using rd by (simp add: ListChunks_def sql_read_ok)
  have found: "\<forall>(i, data) \<in> set xs. map_of (map (\<lambda>r. (c_index r, c_data r))
      (filter (\<lambda>r. c_file r = f) (t_chunks (db_tables d)))) i = Some data"
    using each [OF _ order_refl assms(1)] rd wf by (auto simp: ListChunks_map_of assms(3) split: prod.splits)
  have other: "\<forall>g i. g \<noteq> f \<longrightarrow> held (db_tables d) (g, i) = held t (g, i)"
    using held_blocks.look_puts_other [OF assms(1), of _ "map ?row ys"] rd
    by (auto simp: chunk_key_def image_iff split: prod.splits)
  show ?thesis using rd wf list found other by auto
qed

lemma StoreChunk_any_order_witness:
  "fst (db_each (\<lambda>(i, data). StoreChunk 0 ''f'' i data 60) [(1, [7]), (0, [5]), (1, [7])]
     \<lparr>db_tables = no_tables, db_faults = []\<rparr>) = Ret ()"
proof -
  obtain r d where e: "db_each (\<lambda>(i, data). StoreChunk 0 ''f'' i data 60) [(1, [7]), (0, [5]), (1, [7])]
     \<lparr>db_tables = no_tables, db_faults = []\<rparr> = (r, d)" by fastforce
  have "r = Ret ()"
    using StoreChunk_any_order [OF wf_no_tables _ _ e, of "[(0, [5]), (1, [7])]"] by auto
  with e show ?thesis by simp
qed

text \<open>
  Dropping the blocks of messages already received never drops an outgoing block that may
  still be asked for: of the held blocks exactly those go whose file is a received message
  and has no pending row.
\<close>

theorem DeleteChunksWithMessage_keeps_pending:
  assumes "wf_tables (db_tables d)" and "DeleteChunksWithMessage d = (Ret (), d')"
  shows "held (db_tables d') (f, i) =
     (if (\<exists>m \<in> set (t_messages (db_tables d)). m_uid m = f) \<and> (\<forall>j. waiting (db_tables d) (f, j) = None)
      then None else held (db_tables d) (f, i))"
proof -
  have pkc: "pk chunk_key (t_chunks (db_tables d))" and pkp: "pk pending_key (t_pending (db_tables d))"
    using assms(1) by (simp_all add: wf_tables_def)
  have pend: "f \<in> set (map pc_file (t_pending (db_tables d))) \<longleftrightarrow> (\<exists>j. waiting (db_tables d) (f, j) \<noteq> None)"
  proof
    assume "f \<in> set (map pc_file (t_pending (db_tables d)))"
    then obtain p where "p \<in> set (t_pending (db_tables d))" "pending_key p = (f, pc_index p)"
      by (auto simp: pending_key_def)
    then show "\<exists>j. waiting (db_tables d) (f, j) \<noteq> None"
      using tbl_find_in [OF pkp] by (metis option.distinct(1) waiting_def)
  next
    assume "\<exists>j. waiting (db_tables d) (f, j) \<noteq> None"
    then obtain j p where "tbl_find pending_key (t_pending (db_tables d)) (f, j) = Some p"
      by (auto simp: waiting_def)
    then show "f \<in> set (map pc_file (t_pending (db_tables d)))"
      by (force simp: pending_key_def dest: tbl_find_SomeD)
  qed
  have new: "t_chunks (db_tables d') = tbl_delete
       (\<lambda>r. c_file r \<in> set (map m_uid (t_messages (db_tables d)))
          \<and> c_file r \<notin> set (map pc_file (t_pending (db_tables d)))) (t_chunks (db_tables d))"
    using sql_write_RetD [OF assms(2) [unfolded DeleteChunksWithMessage_def]] by simp
  show ?thesis
  proof (cases "held (db_tables d) (f, i)")
    case None
    then show ?thesis by (simp add: held_def new tbl_find_delete [OF pkc])
  next
    case (Some c)
    then have "c_file c = f" by (auto simp: held_def chunk_key_def dest: tbl_find_SomeD)
    with Some have "held (db_tables d') (f, i) = (if f \<in> set (map m_uid (t_messages (db_tables d)))
        \<and> f \<notin> set (map pc_file (t_pending (db_tables d))) then None else Some c)"
      by (simp add: held_def new tbl_find_delete [OF pkc])
    moreover have "f \<in> set (map m_uid (t_messages (db_tables d))) \<longleftrightarrow> (\<exists>m \<in> set (t_messages (db_tables d)). m_uid m = f)"
      by auto
    ultimately show ?thesis using Some by (simp only: pend) simp
  qed
qed

definition mixed_tables :: tables where
  "mixed_tables = no_tables\<lparr>
     t_messages := [\<lparr>m_uid = ''f'', m_login = '''', m_sender = '''', m_chat = '''', m_data = [],
       m_created = 0, m_updated = 0\<rparr>],
     t_chunks := [sample_chunk 0]\<rparr>"

lemma DeleteChunksWithMessage_keeps_pending_witness:
  "held (db_tables (snd (DeleteChunksWithMessage \<lparr>db_tables = mixed_tables, db_faults = []\<rparr>))) (''f'', 0) = None"
proof -
  obtain d' where e: "DeleteChunksWithMessage \<lparr>db_tables = mixed_tables, db_faults = []\<rparr> = (Ret (), d')"
    by (simp add: DeleteChunksWithMessage_def sql_write_ok)
  have "wf_tables mixed_tables"
    by (simp add: mixed_tables_def wf_tables_def no_tables_def pk_def)
  then show ?thesis
    using DeleteChunksWithMessage_keeps_pending [OF _ e, of "''f''" 0] e
    by (simp add: mixed_tables_def no_tables_def waiting_def)
qed

text \<open>
  Placing: once \<open>MarkChunkPlaced\<close> has succeeded, \<open>GetUnplacedChunks\<close> no longer offers that
  block and offers every other one it offered before, oldest first.
\<close>

theorem MarkChunkPlaced_unplaced:
  assumes "db_faults d = []" and "MarkChunkPlaced f i d = (r, d1)" and "GetUnplacedChunks d1 = (q, d2)"
  shows "q = Ret (filter (\<lambda>p. pending_key p \<noteq> (f, i))
     (sort_key pc_created (filter (\<lambda>p. \<not> pc_placed p) (t_pending (db_tables d)))))"
proof -
  have d1: "d1 = d\<lparr>db_tables := (db_tables d)\<lparr>t_pending := tbl_update (\<lambda>r. pc_file r = f \<and> pc_index r = i)
       (\<lambda>r. r\<lparr>pc_placed := True\<rparr>) (t_pending (db_tables d))\<rparr>\<rparr>"
    using assms(1,2) by (simp add: MarkChunkPlaced_def sql_write_ok)
  have filter_ex: "filter (\<lambda>r. \<not> pc_placed r) (tbl_update (\<lambda>r. pc_file r = f \<and> pc_index r = i)
       (\<lambda>r. r\<lparr>pc_placed := True\<rparr>) ps)
     = filter (\<lambda>p. pending_key p \<noteq> (f, i)) (filter (\<lambda>p. \<not> pc_placed p) ps)" for ps
    by (induction ps) (auto simp: tbl_update_def pending_key_def)
  have "q = Ret (sort_key pc_created (filter (\<lambda>r. \<not> pc_placed r) (t_pending (db_tables d1))))"
    using assms(1,3) d1 by (auto simp: GetUnplacedChunks_def sql_read_ok)
  then show ?thesis
    by (simp add: d1 filter_ex filter_sort del: filter_filter)
qed

lemma MarkChunkPlaced_unplaced_witness:
  "\<exists>q d2. GetUnplacedChunks (snd (MarkChunkPlaced ''f'' 0 \<lparr>db_tables = no_tables, db_faults = []\<rparr>)) = (q, d2)
     \<and> q = Ret []"
proof -
  obtain r d1 where a: "MarkChunkPlaced ''f'' 0 \<lparr>db_tables = no_tables, db_faults = []\<rparr> = (r, d1)" by fastforce
  obtain q d2 where b: "GetUnplacedChunks d1 = (q, d2)" by fastforce
  show ?thesis
    using MarkChunkPlaced_unplaced [OF _ a b] a b by (simp add: no_tables_def)
qed

end
