(* ===== verification/StoreMessages.thy ===== *)
theory StoreMessages
  imports StoreChunks
begin

text \<open>
  \<open>messageStore.go\<close>, \<open>outgoingStore.go\<close> and \<open>stateSyncStore.go\<close>: the message history, the
  transaction that queues an outgoing message with its blocks, and the export and import of
  messages between the devices of one user.

  Rows that tie under an \<open>ORDER BY\<close> come in rowid order here; SQL leaves that order open, and
  no theorem depends on it.
\<close>

section \<open>History\<close>

definition new_message :: "int \<Rightarrow> string \<Rightarrow> string \<Rightarrow> string \<Rightarrow> string \<Rightarrow> bytes \<Rightarrow> int \<Rightarrow> message_row" where
  "new_message now uid login sender chat data created =
     \<lparr>m_uid = uid, m_login = login, m_sender = sender, m_chat = chat, m_data = data,
      m_created = created, m_updated = unix_micro now\<rparr>"

definition insert_message :: "message_row \<Rightarrow> tables \<Rightarrow> (unit \<times> tables) option" where
  "insert_message r t = map_option (\<lambda>ms. ((), t\<lparr>t_messages := ms\<rparr>)) (tbl_insert m_uid r (t_messages t))"

definition SaveMessage :: "int \<Rightarrow> string \<Rightarrow> string \<Rightarrow> string \<Rightarrow> string \<Rightarrow> bytes \<Rightarrow> int \<Rightarrow> unit dbop" where
  "SaveMessage now msg_uid login senderLogin chatID data created_at =
     sql (insert_message (new_message now msg_uid login senderLogin chatID data (unix_micro created_at)))"

definition GetMessages :: "string \<Rightarrow> bytes list dbop" where
  "GetMessages peerID =
     sql_read (\<lambda>t. map m_data (sort_key m_created (filter (\<lambda>r. m_chat r = peerID) (t_messages t))))"

text \<open>\<open>LIMIT\<close> and \<open>OFFSET\<close>: a negative limit is no limit, a negative offset is none.\<close>

definition page :: "int \<Rightarrow> int \<Rightarrow> 'a list \<Rightarrow> 'a list" where
  "page limit offset xs =
     (let rest = drop (nat offset) xs in if limit < 0 then rest else take (nat limit) rest)"

definition GetMessagesDesc :: "string \<Rightarrow> int \<Rightarrow> int \<Rightarrow> bytes list dbop" where
  "GetMessagesDesc peerID limit offset =
     sql_read (\<lambda>t. map m_data (page limit offset
       (sort_key (\<lambda>r. - m_created r) (filter (\<lambda>r. m_chat r = peerID) (t_messages t)))))"

definition FindMessageById :: "string \<Rightarrow> bool dbop" where
  "FindMessageById msgID = sql_read (\<lambda>t. tbl_has m_uid msgID (t_messages t))"

section \<open>Queueing an outgoing message\<close>

definition insert_chunk :: "chunk_row \<Rightarrow> tables \<Rightarrow> (unit \<times> tables) option" where
  "insert_chunk r t = map_option (\<lambda>cs. ((), t\<lparr>t_chunks := cs\<rparr>)) (tbl_insert chunk_key r (t_chunks t))"

definition insert_pending :: "PendingChunk \<Rightarrow> tables \<Rightarrow> (unit \<times> tables) option" where
  "insert_pending r t = map_option (\<lambda>ps. ((), t\<lparr>t_pending := ps\<rparr>)) (tbl_insert pending_key r (t_pending t))"

definition payload_of :: "PendingChunk \<Rightarrow> chunk_row" where
  "payload_of c = \<lparr>c_file = pc_file c, c_index = pc_index c, c_data = pc_data c,
     c_created = pc_created c, c_ttl = pc_ttl c\<rparr>"

definition queue_chunk :: "PendingChunk \<Rightarrow> unit dbop" where
  "queue_chunk c =
     (if length (pc_data c) = 0 \<or> pc_ttl c \<le> 0 then db_err ''invalid outgoing chunk''
      else db_then (sql (insert_chunk (payload_of c)))
        (\<lambda>_. sql (insert_pending (c\<lparr>pc_placed := False\<rparr>))))"

definition QueueOutgoing ::
    "int \<Rightarrow> string \<Rightarrow> string \<Rightarrow> string \<Rightarrow> string \<Rightarrow> bytes \<Rightarrow> int \<Rightarrow> PendingChunk list \<Rightarrow> unit dbop" where
  "QueueOutgoing now msgID login sender chatID data sentAt chunks =
     transaction
       (db_then (sql (insert_message (new_message now msgID login sender chatID data (unix_micro sentAt))))
         (\<lambda>_. db_each queue_chunk chunks))"

section \<open>Messages between the devices of a user\<close>

record ReplicatedMessage =
  rm_uid :: string
  rm_login :: string
  rm_sender :: string
  rm_chat :: string
  rm_data :: bytes
  rm_created :: int

record MessageReplicationDelta =
  md_version :: int
  md_checkpoint :: int
  md_messages :: "ReplicatedMessage list"

text \<open>The zero \<open>time.Time\<close>: the first instant of the year 1.\<close>

definition zero_time :: int where
  "zero_time = - 62135596800 * 1000000000"

definition GetLastStateCheck :: "string \<Rightarrow> int dbop" where
  "GetLastStateCheck peerID =
     (if peerID = [] then db_err ''peer id is empty''
      else db_then (sql_read (\<lambda>t. tbl_find fst (t_state_check t) peerID))
        (\<lambda>row. case row of None \<Rightarrow> db_ret zero_time | Some (_, us) \<Rightarrow> db_ret (us * 1000)))"

definition SetLastStateCheck :: "string \<Rightarrow> int \<Rightarrow> unit dbop" where
  "SetLastStateCheck peerID checkedAt =
     (if peerID = [] then db_err ''peer id is empty''
      else if checkedAt = zero_time then db_err ''last state check is zero''
      else sql_write (\<lambda>t. t\<lparr>t_state_check := tbl_upsert fst (\<lambda>old new. (fst old, max (snd old) (snd new)))
             (peerID, unix_micro checkedAt) (t_state_check t)\<rparr>))"

definition replicated :: "message_row \<Rightarrow> ReplicatedMessage" where
  "replicated r = \<lparr>rm_uid = m_uid r, rm_login = m_login r, rm_sender = m_sender r, rm_chat = m_chat r,
     rm_data = m_data r, rm_created = m_created r\<rparr>"

definition ExportMessagesForStateSync :: "int \<Rightarrow> int \<Rightarrow> MessageReplicationDelta dbop" where
  "ExportMessagesForStateSync since checkpoint =
     (if checkpoint = zero_time then db_err ''state sync checkpoint is zero''
      else
        let sinceUs = (if since = zero_time then 0 else unix_micro since);
            checkUs = unix_micro checkpoint
        in if checkUs < sinceUs then db_err ''state sync checkpoint precedes last check''
        else sql_read (\<lambda>t. \<lparr>md_version = 1, md_checkpoint = checkUs,
          md_messages = map replicated (sort_key (\<lambda>r. (m_updated r, m_uid r))
            (filter (\<lambda>r. sinceUs \<le> m_updated r \<and> m_updated r \<le> checkUs) (t_messages t)))\<rparr>))"

definition received_row :: "int \<Rightarrow> ReplicatedMessage \<Rightarrow> message_row" where
  "received_row importedAt m = \<lparr>m_uid = rm_uid m, m_login = rm_login m, m_sender = rm_sender m,
     m_chat = rm_chat m, m_data = rm_data m, m_created = rm_created m, m_updated = importedAt\<rparr>"

text \<open>\<open>INSERT ... ON CONFLICT DO NOTHING\<close> and the number of rows it affected.\<close>

definition insert_absent :: "message_row \<Rightarrow> tables \<Rightarrow> (nat \<times> tables) option" where
  "insert_absent r t =
     Some (if tbl_has m_uid (m_uid r) (t_messages t) then 0 else 1,
           t\<lparr>t_messages := tbl_ignore m_uid r (t_messages t)\<rparr>)"

fun import_messages :: "int \<Rightarrow> ReplicatedMessage list \<Rightarrow> ReplicatedMessage list dbop" where
  "import_messages importedAt [] = db_ret []"
| "import_messages importedAt (m # ms) =
     db_then (sql (insert_absent (received_row importedAt m)))
       (\<lambda>rowsAffected. db_then (import_messages importedAt ms)
          (\<lambda>inserted. db_ret (if 0 < rowsAffected then m # inserted else inserted)))"

definition ImportStateSyncMessages :: "int \<Rightarrow> ReplicatedMessage list \<Rightarrow> ReplicatedMessage list dbop" where
  "ImportStateSyncMessages now messages = transaction (import_messages (unix_micro now) messages)"

section \<open>The primary keys are kept\<close>

lemma wf_insert_message: "wf_tables t \<Longrightarrow> insert_message r t = Some (u, t') \<Longrightarrow> wf_tables t'"
  by (auto simp: insert_message_def wf_tables_def pk_insert)

lemma wf_insert_chunk: "wf_tables t \<Longrightarrow> insert_chunk r t = Some (u, t') \<Longrightarrow> wf_tables t'"
  by (auto simp: insert_chunk_def wf_tables_def pk_insert)

lemma wf_insert_pending: "wf_tables t \<Longrightarrow> insert_pending r t = Some (u, t') \<Longrightarrow> wf_tables t'"
  by (auto simp: insert_pending_def wf_tables_def pk_insert)

lemma keeps_SaveMessage [wf_intros]: "keeps wf_tables (SaveMessage now u l s c dat at)"
  unfolding SaveMessage_def by (rule keeps_sql) (rule wf_insert_message)

lemma keeps_queue_chunk [wf_intros]: "keeps wf_tables (queue_chunk c)"
  unfolding queue_chunk_def
  by (intro keeps_if keeps_err keeps_then keeps_sql) (erule wf_insert_chunk wf_insert_pending, assumption)+

lemma keeps_QueueOutgoing [wf_intros]: "keeps wf_tables (QueueOutgoing now u l s c dat at cs)"
  unfolding QueueOutgoing_def
  by (intro keeps_transaction keeps_then keeps_each keeps_queue_chunk keeps_sql) (rule wf_insert_message)

lemma keeps_SetLastStateCheck [wf_intros]: "keeps wf_tables (SetLastStateCheck p at)"
  unfolding SetLastStateCheck_def
  by (intro keeps_if keeps_err keeps_write) (simp add: wf_tables_def pk_rules)

lemma keeps_import_messages: "keeps wf_tables (import_messages at ms)"
  by (induction ms)
    (auto simp: insert_absent_def wf_tables_def pk_rules intro!: keeps_then keeps_ret keeps_sql)

lemma keeps_ImportStateSyncMessages [wf_intros]: "keeps wf_tables (ImportStateSyncMessages now ms)"
  unfolding ImportStateSyncMessages_def by (intro keeps_transaction keeps_import_messages)

section \<open>Queueing is all or nothing\<close>

definition queued :: "PendingChunk \<Rightarrow> tables \<Rightarrow> tables" where
  "queued c t = t\<lparr>t_chunks := t_chunks t @ [payload_of c],
     t_pending := t_pending t @ [c\<lparr>pc_placed := False\<rparr>]\<rparr>"

definition chunk_ok :: "PendingChunk \<Rightarrow> bool" where
  "chunk_ok c = (pc_data c \<noteq> [] \<and> 0 < pc_ttl c)"

definition key_free :: "PendingChunk \<Rightarrow> tables \<Rightarrow> bool" where
  "key_free c t = (\<not> tbl_has chunk_key (pending_key c) (t_chunks t)
     \<and> \<not> tbl_has pending_key (pending_key c) (t_pending t))"

lemma key_of_payload [simp]: "chunk_key (payload_of c) = pending_key c"
  by (simp add: chunk_key_def payload_of_def pending_key_def)

lemma key_of_placed [simp]: "pending_key (c\<lparr>pc_placed := b\<rparr>) = pending_key c"
  by (simp add: pending_key_def)

lemma insert_message_Some: "insert_message r t = Some (u, t') \<longleftrightarrow>
    \<not> tbl_has m_uid (m_uid r) (t_messages t) \<and> t' = t\<lparr>t_messages := t_messages t @ [r]\<rparr>"
  by (auto simp: insert_message_def tbl_insert_def)

lemma insert_chunk_Some: "insert_chunk r t = Some (u, t') \<longleftrightarrow>
    \<not> tbl_has chunk_key (chunk_key r) (t_chunks t) \<and> t' = t\<lparr>t_chunks := t_chunks t @ [r]\<rparr>"
  by (auto simp: insert_chunk_def tbl_insert_def)

lemma insert_pending_Some: "insert_pending r t = Some (u, t') \<longleftrightarrow>
    \<not> tbl_has pending_key (pending_key r) (t_pending t) \<and> t' = t\<lparr>t_pending := t_pending t @ [r]\<rparr>"
  by (auto simp: insert_pending_def tbl_insert_def)

lemma queue_chunk_RetD:
  assumes "queue_chunk c d = (Ret u, d')"
  shows "chunk_ok c \<and> key_free c (db_tables d) \<and> db_tables d' = queued c (db_tables d)"
proof -
  have ok: "chunk_ok c" using assms by (auto simp: queue_chunk_def chunk_ok_def db_err_def split: if_splits)
  then have "db_then (sql (insert_chunk (payload_of c))) (\<lambda>_. sql (insert_pending (c\<lparr>pc_placed := False\<rparr>))) d
      = (Ret u, d')"
    using assms by (simp add: queue_chunk_def chunk_ok_def)
  then obtain v d1 where "sql (insert_chunk (payload_of c)) d = (Ret v, d1)"
    and "sql (insert_pending (c\<lparr>pc_placed := False\<rparr>)) d1 = (Ret u, d')"
    by (rule db_then_RetD)
  from this [THEN sql_RetD] ok show ?thesis
    by (simp add: insert_chunk_Some insert_pending_Some key_free_def queued_def)
qed

lemma quiet_queue_chunk [wf_intros]: "quiet (queue_chunk c)"
  unfolding queue_chunk_def by (intro quiet_if quiet_err quiet_then quiet_sql)

lemma fold_queued:
  "fold queued cs t = t\<lparr>t_chunks := t_chunks t @ map payload_of cs,
     t_pending := t_pending t @ map (\<lambda>c. c\<lparr>pc_placed := False\<rparr>) cs\<rparr>"
  by (induction cs arbitrary: t) (simp_all add: queued_def)

lemma queue_chunks_RetD:
  "db_each queue_chunk cs d = (Ret u, d') \<Longrightarrow> list_all chunk_ok cs \<and> db_tables d' = fold queued cs (db_tables d)"
  by (induction cs arbitrary: d) (auto simp: db_ret_def elim!: db_then_RetD dest!: queue_chunk_RetD)

lemma tbl_has_append [simp]: "tbl_has key k (t @ u) \<longleftrightarrow> tbl_has key k t \<or> tbl_has key k u"
  by (simp add: tbl_has_def)

lemma queue_chunks_ok:
  assumes "db_faults d = []"
  shows "fst (db_each queue_chunk cs d) = Ret () \<longleftrightarrow>
     list_all chunk_ok cs \<and> distinct (map pending_key cs) \<and> list_all (\<lambda>c. key_free c (db_tables d)) cs"
  using assms
proof (induction cs arbitrary: d)
  case (Cons c cs)
  show ?case
  proof (cases "chunk_ok c \<and> key_free c (db_tables d)")
    case True
    let ?d1 = "d\<lparr>db_tables := queued c (db_tables d)\<rparr>"
    have "queue_chunk c d = (Ret (), ?d1)"
      using True Cons.prems
      by (simp add: queue_chunk_def chunk_ok_def key_free_def db_then_def sql_ok insert_chunk_def
          insert_pending_def tbl_insert_def queued_def)
    moreover have "list_all (\<lambda>x. key_free x (queued c (db_tables d))) cs \<longleftrightarrow>
        pending_key c \<notin> set (map pending_key cs) \<and> list_all (\<lambda>x. key_free x (db_tables d)) cs"
      by (auto simp: list_all_iff key_free_def queued_def tbl_has_def)
    ultimately show ?thesis
      using Cons.IH [of ?d1] Cons.prems True by (auto simp: db_then_def)
  next
    case False
    have "fst (queue_chunk c d) \<noteq> Ret u" for u
      using queue_chunk_RetD [of c d u "snd (queue_chunk c d)"] False by (metis prod.collapse)
    then have "fst (db_each queue_chunk (c # cs) d) \<noteq> Ret ()"
      by (auto simp: db_then_def split: prod.splits go.splits)
    with False show ?thesis by auto
  qed
qed (simp add: db_ret_def)

lemma quiet_QueueOutgoing [wf_intros]: "quiet (QueueOutgoing now u l s c dat at cs)"
  unfolding QueueOutgoing_def by (intro quiet_transaction quiet_then quiet_sql quiet_each quiet_queue_chunk)

lemma QueueOutgoing_effect:
  assumes "QueueOutgoing now uid login sender chat data sentAt cs d = (Ret u, d')"
  shows "list_all chunk_ok cs" and "db_tables d' = (db_tables d)
          \<lparr>t_messages := t_messages (db_tables d) @ [new_message now uid login sender chat data (unix_micro sentAt)],
           t_chunks := t_chunks (db_tables d) @ map payload_of cs,
           t_pending := t_pending (db_tables d) @ map (\<lambda>c. c\<lparr>pc_placed := False\<rparr>) cs\<rparr>"
proof -
  obtain d0 d1 where 0: "db_tables d0 = db_tables d" and 1: "db_tables d' = db_tables d1"
    and body: "db_then (sql (insert_message (new_message now uid login sender chat data (unix_micro sentAt))))
       (\<lambda>_. db_each queue_chunk cs) d0 = (Ret u, d1)"
    using assms by (auto simp: QueueOutgoing_def elim: transaction_RetD)
  from body obtain v d2 where
    "sql (insert_message (new_message now uid login sender chat data (unix_micro sentAt))) d0 = (Ret v, d2)"
    and each: "db_each queue_chunk cs d2 = (Ret u, d1)"
    by (rule db_then_RetD)
  from this(1) [THEN sql_RetD] queue_chunks_RetD [OF each]
  show "list_all chunk_ok cs" and "db_tables d' = (db_tables d)
          \<lparr>t_messages := t_messages (db_tables d) @ [new_message now uid login sender chat data (unix_micro sentAt)],
           t_chunks := t_chunks (db_tables d) @ map payload_of cs,
           t_pending := t_pending (db_tables d) @ map (\<lambda>c. c\<lparr>pc_placed := False\<rparr>) cs\<rparr>"
    by (simp_all add: 0 1 insert_message_Some fold_queued)
qed

text \<open>
  C5. \<open>QueueOutgoing\<close> stores the message together with every retry payload, or nothing: for
  every schedule of failing statements, if it reports success the tables have gained exactly
  the message, the payloads and the unplaced pending rows, and if it reports an error they
  are as before.
\<close>

theorem QueueOutgoing_atomic:
  "case QueueOutgoing now uid login sender chat data sentAt cs d of (r, d') \<Rightarrow>
     (if r = Ret ()
      then list_all chunk_ok cs \<and>
        db_tables d' = (db_tables d)
          \<lparr>t_messages := t_messages (db_tables d) @ [new_message now uid login sender chat data (unix_micro sentAt)],
           t_chunks := t_chunks (db_tables d) @ map payload_of cs,
           t_pending := t_pending (db_tables d) @ map (\<lambda>c. c\<lparr>pc_placed := False\<rparr>) cs\<rparr>
      else db_tables d' = db_tables d)"
proof (cases "QueueOutgoing now uid login sender chat data sentAt cs d")
  case (Pair r d')
  have "db_tables d' = db_tables d" if "r \<noteq> Ret ()"
    by (rule transaction_atomic [OF Pair [unfolded QueueOutgoing_def]]) (use that in auto)
  then show ?thesis using Pair QueueOutgoing_effect by auto
qed

text \<open>
  On a database that does not fail, \<open>QueueOutgoing\<close> succeeds precisely when the message id
  is new, every chunk has data and a positive TTL, and the chunk keys are new and differ.
\<close>

theorem QueueOutgoing_succeeds_iff:
  assumes "db_faults d = []"
  shows "fst (QueueOutgoing now uid login sender chat data sentAt cs d) = Ret () \<longleftrightarrow>
     \<not> tbl_has m_uid uid (t_messages (db_tables d)) \<and> list_all chunk_ok cs
     \<and> distinct (map pending_key cs) \<and> list_all (\<lambda>c. key_free c (db_tables d)) cs"
proof -
  let ?m = "new_message now uid login sender chat data (unix_micro sentAt)"
  let ?d1 = "d\<lparr>db_tables := (db_tables d)\<lparr>t_messages := t_messages (db_tables d) @ [?m]\<rparr>\<rparr>"
  have uid: "m_uid ?m = uid" by (simp add: new_message_def)
  have free: "key_free c (db_tables ?d1) = key_free c (db_tables d)" for c by (simp add: key_free_def)
  show ?thesis
  proof (cases "tbl_has m_uid uid (t_messages (db_tables d))")
    case True
    then show ?thesis
      by (simp add: QueueOutgoing_def transaction_def fault_none assms db_then_def sql_ok insert_message_def
          tbl_insert_def uid)
  next
    case False
    have m: "sql (insert_message ?m) d = (Ret (), ?d1)"
      using False assms by (simp add: sql_ok insert_message_def tbl_insert_def uid)
    obtain r d2 where each: "db_each queue_chunk cs ?d1 = (r, d2)" by fastforce
    have "db_faults d2 = []" using quietD [OF quiet_each [OF quiet_queue_chunk] _ each] assms by simp
    then have "fst (QueueOutgoing now uid login sender chat data sentAt cs d) = Ret () \<longleftrightarrow> r = Ret ()"
      unfolding QueueOutgoing_def transaction_def fault_none [OF assms]
      by (cases r) (simp_all add: db_then_def m each fault_none)
    also have "\<dots> \<longleftrightarrow> list_all chunk_ok cs \<and> distinct (map pending_key cs) \<and> list_all (\<lambda>c. key_free c (db_tables d)) cs"
      using queue_chunks_ok [of ?d1 cs] each assms free by simp
    finally show ?thesis using False by simp
  qed
qed

definition sample_pending :: "int \<Rightarrow> PendingChunk" where
  "sample_pending i = \<lparr>pc_file = ''m'', pc_index = i, pc_recipient = ''b'', pc_sender = ''a'',
     pc_data = [1, 2], pc_hash = '''', pc_sig = '''', pc_created = 0, pc_placed = False, pc_ttl = 60,
     pc_persist = False\<rparr>"

lemma QueueOutgoing_succeeds_iff_witness:
  "fst (QueueOutgoing 0 ''m'' ''b'' ''a'' ''b'' [1] 0 [sample_pending 0, sample_pending 1]
     \<lparr>db_tables = no_tables, db_faults = []\<rparr>) = Ret ()"
  by (subst QueueOutgoing_succeeds_iff)
    (simp_all add: no_tables_def tbl_has_def chunk_ok_def sample_pending_def pending_key_def key_free_def)

section \<open>A queued payload stays available\<close>

text \<open>
  What housekeeping and other traffic may do to the block tables before the time \<open>T\<close>, apart
  from file \<open>f\<close>: expire rows of either table, drop the held blocks of received messages,
  drop held blocks outright (also those of \<open>f\<close>), mark blocks as placed, and store or queue
  blocks of other files.
\<close>

inductive housekeep :: "int \<Rightarrow> string \<Rightarrow> db \<Rightarrow> db \<Rightarrow> bool" for T f where
  expire_chunks: "now < T \<Longrightarrow> DeleteExpiredChunks now d = (r, d') \<Longrightarrow> housekeep T f d d'"
| expire_pending: "now < T \<Longrightarrow> DeleteExpiredPendingChunks now d = (r, d') \<Longrightarrow> housekeep T f d d'"
| with_message: "DeleteChunksWithMessage d = (r, d') \<Longrightarrow> housekeep T f d d'"
| drop_held: "DeleteChunks g d = (r, d') \<Longrightarrow> housekeep T f d d'"
| drop_one: "DeleteChunk g i d = (r, d') \<Longrightarrow> housekeep T f d d'"
| placed: "MarkChunkPlaced g i d = (r, d') \<Longrightarrow> housekeep T f d d'"
| store_other: "g \<noteq> f \<Longrightarrow> StoreChunk now g i data ttl d = (r, d') \<Longrightarrow> housekeep T f d d'"
| save: "SaveMessage now u l s c dat at d = (r, d') \<Longrightarrow> housekeep T f d d'"

definition carries :: "tables \<Rightarrow> PendingChunk \<Rightarrow> bool" where
  "carries t c \<longleftrightarrow> wf_tables t
     \<and> (\<exists>p. waiting t (pending_key c) = Some p \<and> pc_data p = pc_data c
          \<and> pc_created p = pc_created c \<and> pc_ttl p = pc_ttl c)
     \<and> (case held t (pending_key c) of None \<Rightarrow> True | Some h \<Rightarrow> c_data h = pc_data c)"

lemma carriesI:
  assumes "wf_tables t" "waiting t (pending_key c) = Some p" "pc_data p = pc_data c"
    "pc_created p = pc_created c" "pc_ttl p = pc_ttl c"
    "\<And>h. held t (pending_key c) = Some h \<Longrightarrow> c_data h = pc_data c"
  shows "carries t c"
  using assms by (auto simp: carries_def split: option.splits)

lemma carries_frame:
  assumes "carries t c" "wf_tables t'" "waiting t' (pending_key c) = waiting t (pending_key c)"
    "held t' (pending_key c) \<in> {None, held t (pending_key c)}"
  shows "carries t' c"
  using assms by (auto simp: carries_def split: option.splits)

lemma tbl_find_delete_in: "pk key t \<Longrightarrow> tbl_find key (tbl_delete P t) k \<in> {None, tbl_find key t k}"
  by (auto simp: tbl_find_delete split: option.splits)

lemma carries_delete_chunks:
  assumes c: "carries t c"
  shows "carries (t\<lparr>t_chunks := tbl_delete P (t_chunks t)\<rparr>) c"
proof (rule carries_frame [OF c])
  have wf: "wf_tables t" using c by (simp add: carries_def)
  then show "wf_tables (t\<lparr>t_chunks := tbl_delete P (t_chunks t)\<rparr>)" by (simp add: wf_tables_def pk_rules)
  have "pk chunk_key (t_chunks t)" using wf by (simp add: wf_tables_def)
  from tbl_find_delete_in [OF this]
  show "held (t\<lparr>t_chunks := tbl_delete P (t_chunks t)\<rparr>) (pending_key c) \<in> {None, held t (pending_key c)}"
    by (simp add: held_def)
qed (simp add: waiting_def)

lemma carries_delete_pending:
  assumes c: "carries t c" and not: "\<And>p. pending_key p = pending_key c \<Longrightarrow> pc_created p = pc_created c
     \<Longrightarrow> pc_ttl p = pc_ttl c \<Longrightarrow> \<not> P p"
  shows "carries (t\<lparr>t_pending := tbl_delete P (t_pending t)\<rparr>) c"
proof -
  have wf: "wf_tables t" using c by (simp add: carries_def)
  then have pk: "pk pending_key (t_pending t)" by (simp add: wf_tables_def)
  obtain p where p: "waiting t (pending_key c) = Some p" "pc_data p = pc_data c"
      "pc_created p = pc_created c" "pc_ttl p = pc_ttl c"
    using c by (auto simp: carries_def)
  have "pending_key p = pending_key c" using p(1) by (auto simp: waiting_def dest: tbl_find_SomeD)
  with p not have "waiting (t\<lparr>t_pending := tbl_delete P (t_pending t)\<rparr>) (pending_key c) = Some p"
    by (simp add: waiting_def tbl_find_delete [OF pk])
  moreover have "wf_tables (t\<lparr>t_pending := tbl_delete P (t_pending t)\<rparr>)"
    using wf by (simp add: wf_tables_def pk_rules)
  ultimately show ?thesis
    using c p by (auto simp: carries_def held_def)
qed

lemma carries_placed:
  assumes c: "carries t c"
  shows "carries (t\<lparr>t_pending := tbl_update P (\<lambda>r. r\<lparr>pc_placed := True\<rparr>) (t_pending t)\<rparr>) c"
proof -
  have "wf_tables (t\<lparr>t_pending := tbl_update P (\<lambda>r. r\<lparr>pc_placed := True\<rparr>) (t_pending t)\<rparr>)"
    using c by (simp add: carries_def wf_tables_def pk_rules)
  moreover have "waiting (t\<lparr>t_pending := tbl_update P (\<lambda>r. r\<lparr>pc_placed := True\<rparr>) (t_pending t)\<rparr>) k
      = map_option (\<lambda>r. if P r then r\<lparr>pc_placed := True\<rparr> else r) (waiting t k)" for k
    by (simp add: waiting_def tbl_find_update)
  moreover obtain p where "waiting t (pending_key c) = Some p" "pc_data p = pc_data c"
      "pc_created p = pc_created c" "pc_ttl p = pc_ttl c"
    using c by (auto simp: carries_def)
  ultimately show ?thesis
    using c by (intro carriesI [where p = "if P p then p\<lparr>pc_placed := True\<rparr> else p"])
      (auto simp: carries_def held_def)
qed

lemma expire_pending_carries:
  assumes "DeleteExpiredPendingChunks now d = (r, d')" "carries (db_tables d) c" "now < pc_created c + seconds (pc_ttl c)"
  shows "carries (db_tables d') c"
proof -
  have wf: "wf_tables (db_tables d)" using assms(2) by (simp add: carries_def)
  have "carries ((db_tables d)\<lparr>t_pending := tbl_delete (pending_gone now) (t_pending (db_tables d))\<rparr>) c"
    by (rule carries_delete_pending) (use assms in \<open>auto simp: pending_gone_def expired_def\<close>)
  then show ?thesis
    using DeleteExpiredPendingChunks_exact [OF wf assms(1)] assms(2) by (auto simp: tbl_delete_def split: if_splits)
qed

lemma store_other_carries:
  assumes "StoreChunk now g i data ttl d = (r, d')" "carries (db_tables d) c" "(g, i) \<noteq> pending_key c"
  shows "carries (db_tables d') c"
proof -
  let ?row = "\<lparr>c_file = g, c_index = i, c_data = data, c_created = now, c_ttl = ttl\<rparr>"
  have wf: "wf_tables (db_tables d)" using assms(2) by (simp add: carries_def)
  have "carries (put_chunk ?row (db_tables d)) c"
    by (rule carries_frame [OF assms(2) held_blocks.put_inv [OF wf]])
      (use assms(3) in \<open>simp_all add: waiting_def put_chunk_def held_def tbl_find_replace chunk_key_def\<close>)
  then show ?thesis using sql_write_either [OF assms(1) [unfolded StoreChunk_def]] assms(2) by auto
qed

lemma save_carries:
  assumes "SaveMessage now u l s ch dat at d = (r, d')" "carries (db_tables d) c"
  shows "carries (db_tables d') c"
proof (cases r)
  case (Ret x)
  have "wf_tables (db_tables d')" using keepsD [OF keeps_SaveMessage assms(1)] assms(2) by (simp add: carries_def)
  then show ?thesis
    by (rule carries_frame [OF assms(2)])
      (use assms(1) Ret in \<open>auto simp: SaveMessage_def waiting_def held_def insert_message_Some dest!: sql_RetD\<close>)
qed (use assms in \<open>auto simp: SaveMessage_def dest: sql_atomic\<close>)

lemma housekeep_carries:
  assumes "housekeep T f d d'" "carries (db_tables d) c" "pc_file c = f"
    "T \<le> pc_created c + seconds (pc_ttl c)"
  shows "carries (db_tables d') c"
  using assms
proof (induction rule: housekeep.induct)
  case (expire_chunks now d r d')
  have wf: "wf_tables (db_tables d)" using expire_chunks.prems by (simp add: carries_def)
  show ?case
    using DeleteExpiredChunks_effect [OF wf expire_chunks.hyps(2)] expire_chunks.prems
      carries_delete_chunks [of "db_tables d" c "chunk_gone now"] by (auto simp: tbl_delete_def split: if_splits)
next
  case (expire_pending now d r d')
  then show ?case using expire_pending_carries [OF expire_pending.hyps(2)] by auto
next
  case (with_message d r d')
  then show ?case
    using sql_write_either [OF with_message.hyps [unfolded DeleteChunksWithMessage_def]] carries_delete_chunks [OF with_message.prems(1)] by auto
next
  case (drop_held g d r d')
  then show ?case
    using sql_write_either [OF drop_held.hyps [unfolded DeleteChunks_def]] carries_delete_chunks [OF drop_held.prems(1)] by auto
next
  case (drop_one g i d r d')
  then show ?case
    using sql_write_either [OF drop_one.hyps [unfolded DeleteChunk_def]] carries_delete_chunks [OF drop_one.prems(1)] by auto
next
  case (placed g i d r d')
  then show ?case
    using sql_write_either [OF placed.hyps [unfolded MarkChunkPlaced_def]] carries_placed [OF placed.prems(1)] by auto
next
  case (store_other g now i data ttl d r d')
  then show ?case using store_other_carries [OF store_other.hyps(2)] by (auto simp: pending_key_def)
next
  case (save now u l s ch dat at d r d')
  then show ?case using save_carries [OF save.hyps] by simp
qed

lemma QueueOutgoing_carries:
  assumes wf: "wf_tables (db_tables d)"
    and q: "QueueOutgoing now uid login sender chat data sentAt cs d = (Ret (), d1)" and c: "c \<in> set cs"
  shows "carries (db_tables d1) c"
proof -
  have wf1: "wf_tables (db_tables d1)" by (rule keepsD [OF keeps_QueueOutgoing q wf])
  have t: "t_chunks (db_tables d1) = t_chunks (db_tables d) @ map payload_of cs"
    "t_pending (db_tables d1) = t_pending (db_tables d) @ map (\<lambda>c. c\<lparr>pc_placed := False\<rparr>) cs"
    using QueueOutgoing_effect [OF q] by simp_all
  have "tbl_find pending_key (t_pending (db_tables d1)) (pending_key (c\<lparr>pc_placed := False\<rparr>))
      = Some (c\<lparr>pc_placed := False\<rparr>)"
    using wf1 c by (intro tbl_find_in) (auto simp: wf_tables_def t)
  moreover have "tbl_find chunk_key (t_chunks (db_tables d1)) (chunk_key (payload_of c)) = Some (payload_of c)"
    using wf1 c by (intro tbl_find_in) (auto simp: wf_tables_def t)
  ultimately show ?thesis
    by (intro carriesI [OF wf1, where p = "c\<lparr>pc_placed := False\<rparr>"])
      (auto simp add: waiting_def held_def, auto simp add: payload_of_def)
qed

text \<open>
  C6. What was queued can be delivered until its time is up: after a successful
  \<open>QueueOutgoing\<close>, and after any sequence of housekeeping steps and other traffic, each
  possibly failing, a request for one of the blocks is answered with its payload as long as
  its TTL has not run out.
\<close>

theorem queued_payload_available:
  assumes "wf_tables (db_tables d)"
    and "QueueOutgoing now uid login sender chat data sentAt cs d = (Ret (), d1)"
    and "c \<in> set cs" "pc_file c = f" and "(housekeep T f)\<^sup>*\<^sup>* d1 d2"
    and "T \<le> pc_created c + seconds (pc_ttl c)" "now' < pc_created c + seconds (pc_ttl c)"
    and "db_faults d2 = []"
  shows "GetChunk now' f (pc_index c) d2 = (Ret (Some (pc_data c)), d2)"
proof -
  have "carries (db_tables d2) c"
    using assms(5)
  proof (induction rule: rtranclp_induct)
    case base
    show ?case by (rule QueueOutgoing_carries [OF assms(1-3)])
  next
    case (step y z)
    show ?case by (rule housekeep_carries [OF step.hyps(2) step.IH assms(4,6)])
  qed
  moreover have "pending_key c = (f, pc_index c)" using assms(4) by (simp add: pending_key_def)
  ultimately show ?thesis
    using assms(7) by (auto simp: GetChunk_value [OF assms(8)] carries_def expired_def split: option.splits)
qed

lemma queued_payload_available_witness:
  "\<exists>d1 d2. DeleteChunks ''m'' d1 = (Ret (), d2) \<and> d1 \<noteq> d2
     \<and> GetChunk 5 ''m'' 1 d2 = (Ret (Some [1, 2]), d2)"
proof -
  let ?d = "\<lparr>db_tables = no_tables, db_faults = []\<rparr>"
  let ?cs = "[sample_pending 0, sample_pending 1]"
  obtain r d1 where q: "QueueOutgoing 0 ''m'' ''b'' ''a'' ''b'' [1] 0 ?cs ?d = (r, d1)" by fastforce
  have r: "r = Ret ()" using QueueOutgoing_succeeds_iff_witness q by simp
  have f1: "db_faults d1 = []"
    by (rule quietD [OF quiet_QueueOutgoing _ q]) simp
  let ?d2 = "d1\<lparr>db_tables := (db_tables d1)\<lparr>t_chunks := tbl_delete (\<lambda>r. c_file r = ''m'') (t_chunks (db_tables d1))\<rparr>\<rparr>"
  have del: "DeleteChunks ''m'' d1 = (Ret (), ?d2)"
    using f1 by (simp add: DeleteChunks_def sql_write_ok)
  have "t_chunks (db_tables d1) = map payload_of ?cs"
    using QueueOutgoing_effect [OF q [unfolded r]] by (simp add: no_tables_def)
  then have "t_chunks (db_tables ?d2) \<noteq> t_chunks (db_tables d1)"
    by (simp add: tbl_delete_def payload_of_def sample_pending_def)
  then have ne: "d1 \<noteq> ?d2" by metis
  have hk: "(housekeep 1 ''m'')\<^sup>*\<^sup>* d1 ?d2"
    by (rule r_into_rtranclp) (rule drop_held [OF del])
  have "GetChunk 5 ''m'' (pc_index (sample_pending 1)) ?d2 = (Ret (Some (pc_data (sample_pending 1))), ?d2)"
    by (rule queued_payload_available [OF _ q [unfolded r] _ _ hk])
      (simp_all add: wf_no_tables sample_pending_def seconds_def f1)
  then show ?thesis using del ne by (auto simp: sample_pending_def)
qed

section \<open>Paging\<close>

lemma page_block: "page (int n) (int (k * n)) xs = block n xs k"
  by (simp add: page_def block_eq del: of_nat_mult)

lemma map_block: "map f (block n xs k) = block n (map f xs) k"
  by (simp add: block_eq drop_map take_map)

text \<open>
  Reading a chat page by page, newest first, shows every message of the chat exactly once:
  the pages of size \<open>n\<close>, one after the other, are the history in reverse order (for messages
  of different creation times).
\<close>

theorem GetMessagesDesc_pages:
  assumes "db_faults d = []" "0 < n"
    and "distinct (map m_created (filter (\<lambda>r. m_chat r = chat) (t_messages (db_tables d))))"
    and "GetMessages chat d = (Ret all, d')"
  shows "\<exists>pages. (\<forall>k < block_count n all. GetMessagesDesc chat (int n) (int (k * n)) d = (Ret (pages ! k), d))
     \<and> length pages = block_count n all \<and> concat pages = rev all"
proof -
  let ?rows = "filter (\<lambda>r. m_chat r = chat) (t_messages (db_tables d))"
  have all: "all = map m_data (sort_key m_created ?rows)"
    using assms(1,4) by (auto simp: GetMessages_def sql_read_ok)
  have "sort_key (\<lambda>r. - m_created r) ?rows = rev (sort_key m_created ?rows)"
  proof (rule sort_key_inj_key_eq)
    show "inj_on (\<lambda>r. - m_created r) (set ?rows)" using assms(3) by (simp add: distinct_map inj_on_def)
    have "sorted (map m_created (sort_key m_created ?rows))" by (rule sorted_sort_key)
    then show "sorted (map (\<lambda>r. - m_created r) (rev (sort_key m_created ?rows)))"
      by (simp add: sorted_map sorted_wrt_rev)
  qed simp
  then have desc: "map m_data (sort_key (\<lambda>r. - m_created r) ?rows) = rev all"
    by (simp add: all rev_map)
  have pg: "GetMessagesDesc chat (int n) (int (k * n)) d = (Ret (block n (rev all) k), d)" for k
    using assms(1) by (simp add: GetMessagesDesc_def sql_read_ok page_block map_block desc del: of_nat_mult)
  have same: "block_count n (rev all) = block_count n all" by (simp add: block_count_def)
  show ?thesis
    by (rule exI [of _ "blocks n (rev all)"])
      (use pg same concat_blocks [OF assms(2), of "rev all"] in \<open>auto simp: nth_blocks simp del: of_nat_mult\<close>)
qed

definition sample_history :: tables where
  "sample_history = no_tables\<lparr>t_messages := map (\<lambda>i. \<lparr>m_uid = [char_of (nat i)], m_login = '''', m_sender = '''',
     m_chat = ''c'', m_data = [word_of_int i], m_created = i, m_updated = i\<rparr>) [3, 1, 2]\<rparr>"

lemma GetMessagesDesc_pages_witness:
  "\<exists>pages. length pages = 2 \<and> concat pages = [[3], [2], [1]] \<and>
     GetMessagesDesc ''c'' 2 0 \<lparr>db_tables = sample_history, db_faults = []\<rparr>
       = (Ret (pages ! 0), \<lparr>db_tables = sample_history, db_faults = []\<rparr>)"
proof -
  let ?d = "\<lparr>db_tables = sample_history, db_faults = []\<rparr>"
  have g: "GetMessages ''c'' ?d = (Ret [[1], [2], [3]], ?d)"
    by (simp add: GetMessages_def sql_read_ok sample_history_def)
  have "\<exists>pages. (\<forall>k < block_count 2 [[1], [2], [3 :: byte]]. GetMessagesDesc ''c'' (int 2) (int (k * 2)) ?d = (Ret (pages ! k), ?d))
     \<and> length pages = block_count 2 [[1], [2], [3 :: byte]] \<and> concat pages = rev [[1], [2], [3 :: byte]]"
    using GetMessagesDesc_pages [of ?d 2 "''c''" "[[1], [2], [3]]" ?d] g
    by (simp add: sample_history_def)
  then obtain pages where *: "\<forall>k < block_count 2 [[1], [2], [3 :: byte]]. GetMessagesDesc ''c'' (int 2) (int (k * 2)) ?d = (Ret (pages ! k), ?d)"
    "length pages = block_count 2 [[1], [2], [3 :: byte]]" "concat pages = rev [[1], [2], [3 :: byte]]" by blast
  have "block_count 2 [[1], [2], [3 :: byte]] = 2" by (simp add: block_count_def)
  then show ?thesis using * (2,3) spec [OF * (1), of 0] by (intro exI [of _ pages]) simp
qed

end
