(* ===== verification/MuninnPeer.thy ===== *)
theory MuninnPeer
  imports GoStrings
begin

text \<open>
  The peer record of \<open>internal/muninn/client.go\<close> and the key under which the program files a
  peer: the login it shows, a colon and the signature key. \<open>IDS\<close>, the ids of all devices that
  registered under the key, is filled in by the messenger.
\<close>

record Peer =
  peer_id :: string
  peer_ids :: "string list"
  peer_login :: string
  peer_enc :: string
  peer_sign :: string
  peer_seen :: int
  peer_ttl :: int
  peer_flag :: string
  peer_fake :: bool

record Signal =
  sg_from :: string
  sg_type :: string
  sg_data :: string

text \<open>What the directory is told about blocks and peers, and what it tells.\<close>

record ChunkRecord =
  cr_file :: string
  cr_index :: int
  cr_sender :: string
  cr_recipient :: string
  cr_hash :: string
  cr_peer :: string
  cr_persist :: bool
  cr_confirmed :: bool
  cr_readed :: bool
  cr_created :: int
  cr_updated :: int
  cr_ttl :: int

record RegisterChunkBatchEntry =
  be_index :: int
  be_sender :: string
  be_recipient :: string
  be_hash :: string
  be_sig :: string
  be_peer :: string
  be_persist :: bool
  be_ttl :: int

record RegisterRequest =
  rq_id :: string
  rq_login :: string
  rq_enc :: string
  rq_sign :: string
  rq_ttl :: int
  rq_flag :: string
  rq_fake :: bool

record RefreshRequest =
  rf_id :: string
  rf_login :: string
  rf_sign :: string

record ChunkReportRequest =
  cq_reporter :: string
  cq_file :: string
  cq_index :: int
  cq_hash :: string
  cq_sig :: string

record ReadChunkRequest =
  rd_recipient :: string
  rd_file :: string
  rd_sig :: string

definition DisplayLogin :: "Peer \<Rightarrow> string" where
  "DisplayLogin p =
     (let login = TrimSpace (peer_login p);
          login = (if peer_sign p \<noteq> [] then TrimSuffix login (CHR '':'' # peer_sign p) else login);
          separator = IndexByte login (CHR '':'')
      in if 0 < separator then take (nat separator) login else login)"

definition Key :: "Peer \<Rightarrow> string" where
  "Key p =
     (let login = DisplayLogin p;
          login = (if peer_fake p \<and> peer_id p \<noteq> [] then peer_id p else login)
      in if peer_sign p = [] then login else login @ CHR '':'' # peer_sign p)"

section \<open>Facts\<close>

lemma IndexByte_take: "0 \<le> IndexByte s c \<Longrightarrow> c \<notin> set (take (nat (IndexByte s c)) s)"
proof (induction s)
  case (Cons x s)
  show ?case
  proof (cases "x = c \<or> IndexByte s c < 0")
    case True
    then show ?thesis using Cons.prems by (auto simp: Let_def)
  next
    case False
    then have "nat (IndexByte s c + 1) = Suc (nat (IndexByte s c))" by linarith
    then show ?thesis using Cons.IH False by (auto simp: Let_def)
  qed
qed simp

lemma IndexByte_take': "c \<in> set (take (nat (IndexByte s c)) s) \<Longrightarrow> \<not> 0 < IndexByte s c"
  using IndexByte_take [of s c] by auto

text \<open>The shown login holds a colon only at its start, where the code leaves it.\<close>

lemma DisplayLogin_colon:
  "CHR '':'' \<in> set (DisplayLogin p) \<Longrightarrow> hd (DisplayLogin p) = CHR '':''"
proof -
  have "hd s = CHR '':''" if "CHR '':'' \<in> set s" "\<not> 0 < IndexByte s (CHR '':'')" for s
    using that IndexByte_ge [of "tl s" "CHR '':''"] by (cases s) (auto split: if_splits simp: IndexByte_neg linorder_not_le)
  then show "CHR '':'' \<in> set (DisplayLogin p) \<Longrightarrow> hd (DisplayLogin p) = CHR '':''"
    by (auto simp: DisplayLogin_def Let_def dest!: IndexByte_take' split: if_splits)
qed

lemma DisplayLogin_plain:
  assumes "\<forall>c \<in> set (peer_login p). graphic c \<and> c \<noteq> CHR '':''"
  shows "DisplayLogin p = peer_login p"
proof -
  have t: "TrimSpace (peer_login p) = peer_login p" using assms by (cases "peer_login p = []") (simp_all add: TrimSpace_graphic)
  have c: "CHR '':'' \<notin> set (peer_login p)" using assms by blast
  have "TrimSuffix (peer_login p) (CHR '':'' # peer_sign p) = peer_login p"
  proof (rule ccontr)
    assume "TrimSuffix (peer_login p) (CHR '':'' # peer_sign p) \<noteq> peer_login p"
    then have "HasSuffix (peer_login p) (CHR '':'' # peer_sign p)"
      by (auto simp: TrimSuffix_def split: if_splits)
    then have "\<exists>r. peer_login p = r @ CHR '':'' # peer_sign p"
      by (metis HasSuffix_def append_take_drop_id)
    with c show False by auto
  qed
  then show ?thesis by (simp add: DisplayLogin_def Let_def t IndexByte_absent [OF c])
qed

end
