(* ===== verification/StoreReplication.thy ===== *)
theory StoreReplication
  imports StoreMessages MuninnPeer
begin

text \<open>
  \<open>peerStore.go\<close>, \<open>groupChatStore.go\<close> and \<open>replicationStore.go\<close>: known peers, group chats, and
  the snapshot of messages, peers and groups that a device hands to another device of the same
  user. What the theorems of \<open>stateSyncStore.go\<close> and of the snapshot say about two devices
  is here as well.
\<close>

section \<open>Peers\<close>

record StoredPeer =
  sp_peer :: string
  sp_enc :: string
  sp_sign :: string
  sp_seen :: int
  sp_fake :: bool

definition getLogin :: "string \<Rightarrow> string" where
  "getLogin key = hd (Split key (CHR '':''))"

definition ToMuninnPeer :: "int \<Rightarrow> StoredPeer \<Rightarrow> Peer" where
  "ToMuninnPeer now s =
     \<lparr>peer_id = [], peer_ids = [], peer_login = getLogin (sp_peer s), peer_enc = sp_enc s,
      peer_sign = sp_sign s, peer_seen = now, peer_ttl = 0, peer_flag = [], peer_fake = sp_fake s\<rparr>"

definition stored_peer :: "peer_row \<Rightarrow> StoredPeer" where
  "stored_peer r = \<lparr>sp_peer = p_peer r, sp_enc = p_enc r, sp_sign = p_sign r, sp_seen = p_seen r, sp_fake = p_fake r\<rparr>"

definition StorePeer :: "string \<Rightarrow> string \<Rightarrow> string \<Rightarrow> string \<Rightarrow> int \<Rightarrow> bool \<Rightarrow> unit dbop" where
  "StorePeer login peerID encryptionKey signatureKey lastSeen isFake =
     sql_write (\<lambda>t. t\<lparr>t_peers := tbl_replace peer_key
       \<lparr>p_login = login, p_peer = peerID, p_enc = encryptionKey, p_sign = signatureKey,
        p_seen = lastSeen, p_fake = isFake\<rparr> (t_peers t)\<rparr>)"

text \<open>
  SQLite's \<open>LIKE\<close>: \<open>%\<close> is any run of bytes, \<open>_\<close> one UTF-8 character, letters of the ASCII
  range match in either case.
\<close>

definition skip_char :: "string \<Rightarrow> string" where
  "skip_char s = dropWhile (\<lambda>c. 128 \<le> (of_char c :: nat) \<and> (of_char c :: nat) < 192) (tl s)"

function like :: "string \<Rightarrow> string \<Rightarrow> bool" where
  "like [] s = (s = [])"
| "like (p # ps) s =
     (if p = CHR ''%'' then (if like ps s then True else if s = [] then False else like (p # ps) (tl s))
      else if s = [] then False
      else if p = CHR ''_'' then like ps (skip_char s)
      else to_lower [p] = to_lower [hd s] \<and> like ps (tl s))"
  by pat_completeness auto
termination
  by (relation "measures [\<lambda>(p, s). length s, \<lambda>(p, s). length p]")
    (auto simp: skip_char_def neq_Nil_conv less_Suc_eq_le length_dropWhile_le)

definition SearchStoredPeers :: "int \<Rightarrow> string \<Rightarrow> Peer list dbop" where
  "SearchStoredPeers now query =
     sql_read (\<lambda>t. map (\<lambda>r. ToMuninnPeer now (stored_peer r)) (sort_key (\<lambda>r. - p_seen r)
       (filter (\<lambda>r. like (CHR ''%'' # query @ ''%'') (p_peer r) \<and> \<not> p_fake r) (t_peers t))))"

definition GetStoredPeers :: "StoredPeer list dbop" where
  "GetStoredPeers =
     sql_read (\<lambda>t. map stored_peer (sort_key (\<lambda>r. - p_seen r) (filter (\<lambda>r. \<not> p_fake r) (t_peers t))))"

section \<open>Groups\<close>

definition StoreCreateGroupChat :: "GroupChat \<Rightarrow> unit dbop" where
  "StoreCreateGroupChat gc =
     sql (\<lambda>t. map_option (\<lambda>gs. ((), t\<lparr>t_groups := gs\<rparr>)) (tbl_insert g_uid gc (t_groups t)))"

definition GetGroupChats :: "GroupChat list dbop" where
  "GetGroupChats = sql_read (\<lambda>t. sort_key g_created (t_groups t))"

definition scan_row :: "'a option \<Rightarrow> 'a dbop" where
  "scan_row r = (case r of None \<Rightarrow> db_err ''sql: no rows in result set'' | Some x \<Rightarrow> db_ret x)"

definition GetGroupChatByName :: "string \<Rightarrow> GroupChat dbop" where
  "GetGroupChatByName name = db_then (sql_read (\<lambda>t. tbl_find g_name (t_groups t) name)) scan_row"

definition GetGroupChat :: "string \<Rightarrow> GroupChat dbop" where
  "GetGroupChat uid = db_then (sql_read (\<lambda>t. tbl_find g_uid (t_groups t) uid)) scan_row"

definition DeleteGroupChat :: "string \<Rightarrow> unit dbop" where
  "DeleteGroupChat uid = sql_write (\<lambda>t. t\<lparr>t_groups := tbl_delete (\<lambda>g. g_uid g = uid) (t_groups t)\<rparr>)"

section \<open>The snapshot\<close>

text \<open>A replicated peer has the columns of the table, so it is its row.\<close>

record ReplicationSnapshot =
  rs_version :: int
  rs_messages :: "ReplicatedMessage list"
  rs_peers :: "peer_row list"
  rs_groups :: "GroupChat list"

definition readReplicatedMessages :: "ReplicatedMessage list dbop" where
  "readReplicatedMessages =
     sql_read (\<lambda>t. map replicated (sort_key (\<lambda>r. (m_created r, m_uid r)) (t_messages t)))"

definition readReplicatedPeers :: "peer_row list dbop" where
  "readReplicatedPeers = sql_read (\<lambda>t. sort_key (\<lambda>r. (p_seen r, p_login r, p_sign r)) (t_peers t))"

definition readReplicatedGroups :: "GroupChat list dbop" where
  "readReplicatedGroups = sql_read (\<lambda>t. sort_key (\<lambda>g. (g_created g, g_uid g)) (t_groups t))"

definition ExportReplicationSnapshot :: "ReplicationSnapshot dbop" where
  "ExportReplicationSnapshot =
     transaction
       (db_then readReplicatedMessages (\<lambda>ms.
        db_then readReplicatedPeers (\<lambda>ps.
        db_then readReplicatedGroups (\<lambda>gs.
          db_ret \<lparr>rs_version = 1, rs_messages = ms, rs_peers = ps, rs_groups = gs\<rparr>))))"

definition upsert_message :: "message_row \<Rightarrow> tables \<Rightarrow> tables" where
  "upsert_message r t = t\<lparr>t_messages := tbl_upsert m_uid
     (\<lambda>old new. new\<lparr>m_updated := max (m_updated old) (m_updated new)\<rparr>) r (t_messages t)\<rparr>"

definition upsert_peer_row :: "peer_row \<Rightarrow> tables \<Rightarrow> tables" where
  "upsert_peer_row r t = t\<lparr>t_peers := tbl_upsert peer_key (\<lambda>old new. new) r (t_peers t)\<rparr>"

definition upsert_group :: "GroupChat \<Rightarrow> tables \<Rightarrow> tables" where
  "upsert_group g t = t\<lparr>t_groups := tbl_upsert g_uid (\<lambda>old new. new) g (t_groups t)\<rparr>"

definition ImportReplicationSnapshot :: "int \<Rightarrow> ReplicationSnapshot \<Rightarrow> unit dbop" where
  "ImportReplicationSnapshot now snapshot =
     (if rs_version snapshot \<noteq> 1 then db_err ''unsupported replication snapshot version''
      else transaction
        (db_then (db_each (\<lambda>m. sql_write (upsert_message (received_row (unix_micro now) m))) (rs_messages snapshot)) (\<lambda>_.
         db_then (db_each (\<lambda>p. sql_write (upsert_peer_row p)) (rs_peers snapshot)) (\<lambda>_.
           db_each (\<lambda>g. sql_write (upsert_group g)) (rs_groups snapshot)))))"

section \<open>The primary keys are kept\<close>

lemma keeps_StorePeer [wf_intros]: "keeps wf_tables (StorePeer l p e s at fake)"
  unfolding StorePeer_def by (rule keeps_write) (simp add: wf_tables_def pk_rules)

lemma keeps_StoreCreateGroupChat [wf_intros]: "keeps wf_tables (StoreCreateGroupChat gc)"
  unfolding StoreCreateGroupChat_def by (rule keeps_sql) (auto simp: wf_tables_def pk_insert)

lemma keeps_DeleteGroupChat [wf_intros]: "keeps wf_tables (DeleteGroupChat uid)"
  unfolding DeleteGroupChat_def by (rule keeps_write) (simp add: wf_tables_def pk_rules)

lemma wf_upserts:
  "wf_tables t \<Longrightarrow> wf_tables (upsert_message m t)"
  "wf_tables t \<Longrightarrow> wf_tables (upsert_peer_row p t)"
  "wf_tables t \<Longrightarrow> wf_tables (upsert_group g t)"
  by (simp_all add: upsert_message_def upsert_peer_row_def upsert_group_def wf_tables_def pk_rules)

lemma keeps_ImportReplicationSnapshot [wf_intros]: "keeps wf_tables (ImportReplicationSnapshot now s)"
  unfolding ImportReplicationSnapshot_def
  by (intro keeps_if keeps_err keeps_transaction keeps_then keeps_each keeps_write wf_upserts)

section \<open>State synchronisation\<close>

lemma ExportMessagesForStateSync_RetD:
  assumes "ExportMessagesForStateSync since checkpoint d = (Ret delta, d')"
  shows "md_checkpoint delta = unix_micro checkpoint \<and> md_version delta = 1
    \<and> set (md_messages delta) = replicated ` {r \<in> set (t_messages (db_tables d)).
        (if since = zero_time then 0 else unix_micro since) \<le> m_updated r
        \<and> m_updated r \<le> unix_micro checkpoint}
    \<and> db_tables d' = db_tables d"
  using assms
  by (auto simp: ExportMessagesForStateSync_def Let_def db_err_def split: if_splits dest!: sql_read_RetD)

text \<open>
  C11. No message falls between two synchronisations: if the second export starts at the
  checkpoint of the first, then every message that the database holds at the second export
  and that was changed between the start of the first interval and the end of the second is
  in one of the two deltas, provided that what was saved in between carries a time no earlier
  than the first checkpoint (the clock does not run backwards).
\<close>

theorem state_sync_no_gap:
  assumes "ExportMessagesForStateSync since c1 d1 = (Ret delta1, d1')"
    and "ExportMessagesForStateSync c1 c2 d2 = (Ret delta2, d2')"
    and "\<forall>r \<in> set (t_messages (db_tables d2)). r \<in> set (t_messages (db_tables d1)) \<or> unix_micro c1 \<le> m_updated r"
    and "r \<in> set (t_messages (db_tables d2))" "unix_micro since \<le> m_updated r" "0 \<le> m_updated r"
    and "m_updated r \<le> unix_micro c2"
  shows "replicated r \<in> set (md_messages delta1) \<union> set (md_messages delta2)"
proof -
  have c1: "c1 \<noteq> zero_time" using assms(1) by (auto simp: ExportMessagesForStateSync_def db_err_def)
  have s1: "set (md_messages delta1) = replicated ` {r \<in> set (t_messages (db_tables d1)).
      (if since = zero_time then 0 else unix_micro since) \<le> m_updated r \<and> m_updated r \<le> unix_micro c1}"
    using ExportMessagesForStateSync_RetD [OF assms(1)] by blast
  have s2: "set (md_messages delta2) = replicated ` {r \<in> set (t_messages (db_tables d2)).
      (if c1 = zero_time then 0 else unix_micro c1) \<le> m_updated r \<and> m_updated r \<le> unix_micro c2}"
    using ExportMessagesForStateSync_RetD [OF assms(2)] by blast
  show ?thesis
  proof (cases "unix_micro c1 \<le> m_updated r")
    case True
    then have "r \<in> {r \<in> set (t_messages (db_tables d2)).
      (if c1 = zero_time then 0 else unix_micro c1) \<le> m_updated r \<and> m_updated r \<le> unix_micro c2}"
      using assms(4,7) c1 by simp
    then show ?thesis unfolding s2 by blast
  next
    case False
    have "r \<in> set (t_messages (db_tables d1))" using assms(3,4) False by blast
    then have "r \<in> {r \<in> set (t_messages (db_tables d1)).
      (if since = zero_time then 0 else unix_micro since) \<le> m_updated r \<and> m_updated r \<le> unix_micro c1}"
      using assms(5,6) False by simp
    then show ?thesis unfolding s1 by blast
  qed
qed

lemma state_sync_no_gap_witness:
  "\<exists>delta1 delta2 d. fst (ExportMessagesForStateSync zero_time 2000 d) = Ret delta1
     \<and> fst (ExportMessagesForStateSync 2000 3000 d) = Ret delta2 \<and> db_tables d = sample_history
     \<and> (\<exists>r \<in> set (t_messages sample_history). m_updated r = 1
          \<and> replicated r \<in> set (md_messages delta1) \<union> set (md_messages delta2))"
proof -
  let ?d = "\<lparr>db_tables = sample_history, db_faults = []\<rparr>"
  obtain q1 d1 where e1: "ExportMessagesForStateSync zero_time 2000 ?d = (q1, d1)" by fastforce
  obtain q2 d2 where e2: "ExportMessagesForStateSync 2000 3000 ?d = (q2, d2)" by fastforce
  obtain delta1 where q1: "q1 = Ret delta1"
    using e1 by (auto simp: ExportMessagesForStateSync_def Let_def sql_read_ok zero_time_def unix_micro_def)
  obtain delta2 where q2: "q2 = Ret delta2"
    using e2 by (auto simp: ExportMessagesForStateSync_def Let_def sql_read_ok zero_time_def unix_micro_def)
  have "\<exists>r \<in> set (t_messages sample_history). m_updated r = 1" by (simp add: sample_history_def)
  then obtain r where r: "r \<in> set (t_messages sample_history)" "m_updated r = 1" by blast
  have "replicated r \<in> set (md_messages delta1) \<union> set (md_messages delta2)"
    by (rule state_sync_no_gap [OF e1 [unfolded q1] e2 [unfolded q2]])
      (use r in \<open>simp_all add: unix_micro_def zero_time_def\<close>)
  then show ?thesis
    by (intro exI [of _ delta1] exI [of _ delta2] exI [of _ ?d] conjI bexI [of _ r])
      (use e1 e2 q1 q2 r in simp_all)
qed

text \<open>The import.\<close>

fun absent :: "message_row table \<Rightarrow> ReplicatedMessage list \<Rightarrow> ReplicatedMessage list" where
  "absent t [] = []"
| "absent t (m # ms) =
     (if tbl_has m_uid (rm_uid m) t then absent t ms else m # absent (t @ [received_row 0 m]) ms)"

lemma absent_uids: "map m_uid t = map m_uid u \<Longrightarrow> absent t ms = absent u ms"
proof (induction ms arbitrary: t u)
  case (Cons m ms)
  have "tbl_has m_uid (rm_uid m) t = tbl_has m_uid (rm_uid m) u"
    using arg_cong [where f = set, OF Cons.prems] by (auto simp: tbl_has_iff image_iff set_eq_iff) metis+
  then show ?case using Cons.IH [OF Cons.prems] Cons.IH [of "t @ [received_row 0 m]" "u @ [received_row 0 m]"]
      Cons.prems by simp
qed simp

lemma m_uid_received [simp]: "m_uid (received_row at m) = rm_uid m"
  by (simp add: received_row_def)

lemma import_messages_RetD:
  "import_messages at ms d = (Ret ins, d') \<Longrightarrow> ins = absent (t_messages (db_tables d)) ms
    \<and> db_tables d' = (db_tables d)\<lparr>t_messages := t_messages (db_tables d) @ map (received_row at) ins\<rparr>"
proof (induction ms arbitrary: d ins)
  case (Cons m ms)
  obtain n d1 where a: "sql (insert_absent (received_row at m)) d = (Ret n, d1)"
    and rest: "db_then (import_messages at ms) (\<lambda>inserted. db_ret (if 0 < n then m # inserted else inserted)) d1
        = (Ret ins, d')"
    using Cons.prems by (auto elim: db_then_RetD)
  obtain ins1 where b: "import_messages at ms d1 = (Ret ins1, d')"
    and ins: "ins = (if 0 < n then m # ins1 else ins1)"
    using rest by (auto elim!: db_then_RetD simp: db_ret_def)
  note ih = Cons.IH [OF b]
  show ?case
  proof (cases "tbl_has m_uid (rm_uid m) (t_messages (db_tables d))")
    case True
    then have "n = 0 \<and> db_tables d1 = db_tables d"
      using sql_RetD [OF a] by (auto simp: insert_absent_def tbl_ignore_def)
    then show ?thesis using ih ins True by simp
  next
    case False
    then have n: "n = 1" and t: "db_tables d1 = (db_tables d)\<lparr>t_messages := t_messages (db_tables d) @ [received_row at m]\<rparr>"
      using sql_RetD [OF a] by (auto simp: insert_absent_def tbl_ignore_def)
    have "absent (t_messages (db_tables d) @ [received_row at m]) ms
        = absent (t_messages (db_tables d) @ [received_row 0 m]) ms"
      by (rule absent_uids) simp
    then show ?thesis using ih ins False n t by simp
  qed
qed (simp add: db_ret_def)

lemma absent_none: "\<forall>m \<in> set ms. tbl_has m_uid (rm_uid m) t \<Longrightarrow> absent t ms = []"
  by (induction ms) auto

lemma absent_covers: "m \<in> set ms \<Longrightarrow> tbl_has m_uid (rm_uid m) (t @ map (received_row at) (absent t ms))"
proof (induction ms arbitrary: t)
  case (Cons a ms)
  show ?case
  proof (cases "tbl_has m_uid (rm_uid a) t")
    case True
    then show ?thesis using Cons by auto
  next
    case False
    have *: "tbl_has m_uid (rm_uid m) ((t @ [received_row 0 a]) @ map (received_row at) (absent (t @ [received_row 0 a]) ms))"
      if "m \<in> set ms" using Cons.IH [OF that] .
    show ?thesis
    proof (cases "m \<in> set ms")
      case True
      then show ?thesis using * [OF True] False by (simp add: tbl_has_def)
    next
      case no: False
      then show ?thesis using Cons.prems False by (simp add: tbl_has_def)
    qed
  qed
qed simp

text \<open>
  An import of state-sync messages only adds: on success the message table is the old one,
  unchanged row by row, followed by the messages that were absent, which are exactly those
  reported as inserted; every message of the batch is then present; importing the batch
  again inserts nothing; and on failure nothing has changed.
\<close>

theorem ImportStateSyncMessages_adds_absent:
  "case ImportStateSyncMessages now ms d of (r, d') \<Rightarrow>
     (case r of
        Ret ins \<Rightarrow>
          db_tables d' = (db_tables d)\<lparr>t_messages := t_messages (db_tables d) @ map (received_row (unix_micro now)) ins\<rparr>
          \<and> ins = absent (t_messages (db_tables d)) ms
          \<and> list_all (\<lambda>m. tbl_has m_uid (rm_uid m) (t_messages (db_tables d'))) ms
          \<and> absent (t_messages (db_tables d')) ms = []
      | _ \<Rightarrow> db_tables d' = db_tables d)"
proof (cases "ImportStateSyncMessages now ms d")
  case (Pair r d')
  note run = Pair [unfolded ImportStateSyncMessages_def]
  show ?thesis
  proof (cases r)
    case (Ret ins)
    obtain d0 d1 where "db_tables d0 = db_tables d" "import_messages (unix_micro now) ms d0 = (Ret ins, d1)"
      "db_tables d' = db_tables d1"
      using run [unfolded Ret] by (rule transaction_RetD)
    then have i: "ins = absent (t_messages (db_tables d)) ms"
      and t: "db_tables d' = (db_tables d)\<lparr>t_messages := t_messages (db_tables d) @ map (received_row (unix_micro now)) ins\<rparr>"
      using import_messages_RetD by metis+
    have all: "\<forall>m \<in> set ms. tbl_has m_uid (rm_uid m) (t_messages (db_tables d'))"
      using absent_covers [of _ ms "t_messages (db_tables d)" "unix_micro now"] i t by (simp del: tbl_has_append)
    show ?thesis using i t all absent_none [OF all] Pair Ret by (simp add: list_all_iff del: tbl_has_append)
  next
    case (Err e)
    then show ?thesis using transaction_atomic [OF run] Pair by simp
  next
    case (Panic e)
    then show ?thesis using transaction_atomic [OF run] Pair by simp
  qed
qed

text \<open>
  The checkpoint of a peer never moves back, whatever instants it is set to and whatever
  fails: it is the latest of them, in whole microseconds.
\<close>

theorem state_check_monotone:
  assumes "SetLastStateCheck p at d = (r, d')" and "tbl_find fst (t_state_check (db_tables d)) q = Some (q, us)"
  shows "\<exists>us' \<ge> us. tbl_find fst (t_state_check (db_tables d')) q = Some (q, us')
     \<and> (p = q \<longrightarrow> r = Ret () \<longrightarrow> us' = max us (unix_micro at))"
proof (cases "p = [] \<or> at = zero_time")
  case True
  then have "(r, d') = (Err (if p = [] then ''peer id is empty'' else ''last state check is zero''), d)"
    using assms(1) by (auto simp: SetLastStateCheck_def db_err_def split: if_splits)
  then show ?thesis using assms(2) by simp
next
  case False
  let ?up = "\<lambda>t. t\<lparr>t_state_check := tbl_upsert fst (\<lambda>old new. (fst old, max (snd old) (snd new)))
     (p, unix_micro at) (t_state_check t)\<rparr>"
  have run: "sql_write ?up d = (r, d')" using assms(1) False by (simp add: SetLastStateCheck_def)
  have found: "tbl_find fst (t_state_check (?up (db_tables d))) q = Some (q, if p = q then max us (unix_micro at) else us)"
    using assms(2) by (cases "p = q") (simp_all add: tbl_find_upsert)
  show ?thesis
  proof (cases "r = Ret ()")
    case True
    then show ?thesis using sql_write_RetD [OF run [unfolded True]] found by auto
  next
    case no: False
    then show ?thesis using sql_write_either [OF run] found assms(2) by auto
  qed
qed

lemma state_check_monotone_witness:
  "\<exists>us' \<ge> 7. tbl_find fst (t_state_check (db_tables (snd (SetLastStateCheck ''p'' 3000
     \<lparr>db_tables = no_tables\<lparr>t_state_check := [(''p'', 7)]\<rparr>, db_faults = []\<rparr>)))) ''p'' = Some (''p'', us')"
proof -
  let ?d = "\<lparr>db_tables = no_tables\<lparr>t_state_check := [(''p'', 7)]\<rparr>, db_faults = []\<rparr>"
  obtain r d' where e: "SetLastStateCheck ''p'' 3000 ?d = (r, d')" by fastforce
  show ?thesis using state_check_monotone [OF e, of "''p''" 7] e by (auto simp: tbl_find_def)
qed

section \<open>Snapshots\<close>

lemma fold_upsert_find:
  assumes "distinct (map key rs)" and "\<And>x r. key x = key r \<Longrightarrow> key (f x r) = key r"
  shows "tbl_find key (fold (tbl_upsert key f) rs t) k =
    (case tbl_find key rs k of None \<Rightarrow> tbl_find key t k
     | Some r \<Rightarrow> (case tbl_find key t k of None \<Rightarrow> Some r | Some x \<Rightarrow> Some (f x r)))"
  using assms(1)
proof (induction rs arbitrary: t)
  case (Cons r rs)
  have up: "tbl_find key (tbl_upsert key f r t) k
     = (if k = key r then (case tbl_find key t k of None \<Rightarrow> Some r | Some x \<Rightarrow> Some (f x r)) else tbl_find key t k)"
    by (rule tbl_find_upsert) (rule assms(2))
  have rest: "tbl_find key rs k = None" if "k = key r"
    using Cons.prems that by (auto intro: tbl_find_absent)
  show ?case
    using Cons.IH [of "tbl_upsert key f r t"] Cons.prems up rest
    by (auto simp: tbl_find_Cons split: option.splits)
qed simp

lemma fold_upsert_message:
  "fold upsert_message ms t = t\<lparr>t_messages := fold (tbl_upsert m_uid
     (\<lambda>old new. new\<lparr>m_updated := max (m_updated old) (m_updated new)\<rparr>)) ms (t_messages t)\<rparr>"
  by (induction ms arbitrary: t) (simp_all add: upsert_message_def)

lemma fold_upsert_peer_row:
  "fold upsert_peer_row ps t = t\<lparr>t_peers := fold (tbl_upsert peer_key (\<lambda>old new. new)) ps (t_peers t)\<rparr>"
  by (induction ps arbitrary: t) (simp_all add: upsert_peer_row_def)

lemma fold_upsert_group:
  "fold upsert_group gs t = t\<lparr>t_groups := fold (tbl_upsert g_uid (\<lambda>old new. new)) gs (t_groups t)\<rparr>"
  by (induction gs arbitrary: t) (simp_all add: upsert_group_def)

definition imported :: "int \<Rightarrow> ReplicationSnapshot \<Rightarrow> tables \<Rightarrow> tables" where
  "imported at s t = t
     \<lparr>t_messages := fold (tbl_upsert m_uid (\<lambda>old new. new\<lparr>m_updated := max (m_updated old) (m_updated new)\<rparr>))
        (map (received_row at) (rs_messages s)) (t_messages t),
      t_peers := fold (tbl_upsert peer_key (\<lambda>old new. new)) (rs_peers s) (t_peers t),
      t_groups := fold (tbl_upsert g_uid (\<lambda>old new. new)) (rs_groups s) (t_groups t)\<rparr>"

lemma ImportReplicationSnapshot_result:
  assumes "ImportReplicationSnapshot now s d = (r, d')"
  shows "db_tables d' = (if r = Ret () then imported (unix_micro now) s (db_tables d) else db_tables d)"
proof (cases "rs_version s = 1")
  case False
  then show ?thesis using assms by (auto simp: ImportReplicationSnapshot_def db_err_def)
next
  case True
  note run = assms [unfolded ImportReplicationSnapshot_def]
  have run: "transaction
        (db_then (db_each (\<lambda>m. sql_write (upsert_message (received_row (unix_micro now) m))) (rs_messages s)) (\<lambda>_.
         db_then (db_each (\<lambda>p. sql_write (upsert_peer_row p)) (rs_peers s)) (\<lambda>_.
           db_each (\<lambda>g. sql_write (upsert_group g)) (rs_groups s)))) d = (r, d')"
    using assms True by (simp add: ImportReplicationSnapshot_def)
  show ?thesis
  proof (cases "r = Ret ()")
    case ok: True
    obtain d0 d1 where 0: "db_tables d0 = db_tables d" "db_tables d' = db_tables d1"
      and body: "db_then (db_each (\<lambda>m. sql_write (upsert_message (received_row (unix_micro now) m))) (rs_messages s)) (\<lambda>_.
         db_then (db_each (\<lambda>p. sql_write (upsert_peer_row p)) (rs_peers s)) (\<lambda>_.
           db_each (\<lambda>g. sql_write (upsert_group g)) (rs_groups s))) d0 = (Ret (), d1)"
      using run [unfolded ok] by (rule transaction_RetD)
    from body obtain u d2 where m: "db_each (\<lambda>m. sql_write (upsert_message (received_row (unix_micro now) m))) (rs_messages s) d0 = (Ret u, d2)"
      and rest: "db_then (db_each (\<lambda>p. sql_write (upsert_peer_row p)) (rs_peers s)) (\<lambda>_.
           db_each (\<lambda>g. sql_write (upsert_group g)) (rs_groups s)) d2 = (Ret (), d1)"
      by (rule db_then_RetD)
    from rest obtain v d3 where p: "db_each (\<lambda>p. sql_write (upsert_peer_row p)) (rs_peers s) d2 = (Ret v, d3)"
      and g: "db_each (\<lambda>g. sql_write (upsert_group g)) (rs_groups s) d3 = (Ret (), d1)"
      by (rule db_then_RetD)
    have "db_tables d2 = fold upsert_message (map (received_row (unix_micro now)) (rs_messages s)) (db_tables d)"
      using db_each_write_RetD [OF m] 0 by (simp add: fold_map comp_def)
    with db_each_write_RetD [OF p] db_each_write_RetD [OF g] 0 ok show ?thesis
      by (simp add: fold_upsert_message fold_upsert_peer_row fold_upsert_group imported_def)
  next
    case False
    then show ?thesis using transaction_atomic [OF run] by auto
  qed
qed

lemma ExportReplicationSnapshot_RetD:
  assumes "ExportReplicationSnapshot d = (Ret s, d')"
  shows "s = \<lparr>rs_version = 1,
      rs_messages = map replicated (sort_key (\<lambda>r. (m_created r, m_uid r)) (t_messages (db_tables d))),
      rs_peers = sort_key (\<lambda>r. (p_seen r, p_login r, p_sign r)) (t_peers (db_tables d)),
      rs_groups = sort_key (\<lambda>g. (g_created g, g_uid g)) (t_groups (db_tables d))\<rparr>"
proof -
  obtain d0 d1 where 0: "db_tables d0 = db_tables d" and body: "db_then readReplicatedMessages (\<lambda>ms.
        db_then readReplicatedPeers (\<lambda>ps.
        db_then readReplicatedGroups (\<lambda>gs.
          db_ret \<lparr>rs_version = 1, rs_messages = ms, rs_peers = ps, rs_groups = gs\<rparr>))) d0 = (Ret s, d1)"
    using assms [unfolded ExportReplicationSnapshot_def] by (rule transaction_RetD)
  from body show ?thesis
    unfolding readReplicatedMessages_def readReplicatedPeers_def readReplicatedGroups_def
    by (auto elim!: db_then_RetD dest!: sql_read_RetD simp: db_ret_def 0)
qed

lemma find_received:
  "tbl_find m_uid (map (\<lambda>m. received_row us (replicated m)) t) u = map_option (\<lambda>m. received_row us (replicated m)) (tbl_find m_uid t u)"
  by (induction t) (auto simp: tbl_find_Cons replicated_def)

lemma replicated_received:
  "replicated (received_row us (replicated m)) = replicated m"
  "replicated (received_row us (replicated m)\<lparr>m_updated := v\<rparr>) = replicated m"
  by (simp_all add: replicated_def received_row_def)

lemma imported_messages:
  assumes "pk m_uid t"
  shows "map_option replicated (tbl_find m_uid (fold (tbl_upsert m_uid (\<lambda>old new. new\<lparr>m_updated := max (m_updated old) (m_updated new)\<rparr>))
           (map (received_row us) (map replicated (sort_key h t))) base) u)
     = (case tbl_find m_uid t u of
          None \<Rightarrow> map_option replicated (tbl_find m_uid base u)
        | Some m \<Rightarrow> Some (replicated m))"
proof -
  let ?rows = "map (received_row us) (map replicated (sort_key h t))"
  have "map m_uid ?rows = map m_uid (sort_key h t)" by (simp add: replicated_def comp_def)
  then have "distinct (map m_uid ?rows)" by (simp only: pk_sort_key [OF assms, unfolded pk_def])
  moreover have "tbl_find m_uid ?rows u = map_option (\<lambda>m. received_row us (replicated m)) (tbl_find m_uid t u)"
    by (simp add: find_received tbl_find_sort_key [OF assms] comp_def)
  ultimately show ?thesis
    by (subst fold_upsert_find) (auto simp: replicated_received split: option.splits)
qed

lemma imported_rows:
  assumes "pk key t"
  shows "tbl_find key (fold (tbl_upsert key (\<lambda>old new. new)) (sort_key h t) base) k
     = (case tbl_find key t k of None \<Rightarrow> tbl_find key base k | Some x \<Rightarrow> Some x)"
  using pk_sort_key [OF assms, of h]
  by (simp add: fold_upsert_find tbl_find_sort_key [OF assms] pk_def split: option.splits)

text \<open>
  C15. A snapshot carries everything: what one device exports and another one imports holds, on
  the other, for every message, peer and group of the first exactly the first one's data (only
  the time of the last change is the importer's), leaves rows with other keys alone, and an
  import that fails leaves no trace.
\<close>

theorem snapshot_transfer:
  assumes "wf_tables (db_tables a)" and "ExportReplicationSnapshot a = (Ret s, a')"
    and "ImportReplicationSnapshot now s b = (r, b')"
  shows "if r = Ret () then
      (\<forall>u. map_option replicated (tbl_find m_uid (t_messages (db_tables b')) u) =
         (case tbl_find m_uid (t_messages (db_tables a)) u of
            None \<Rightarrow> map_option replicated (tbl_find m_uid (t_messages (db_tables b)) u)
          | Some m \<Rightarrow> Some (replicated m)))
      \<and> (\<forall>k. tbl_find peer_key (t_peers (db_tables b')) k =
         (case tbl_find peer_key (t_peers (db_tables a)) k of
            None \<Rightarrow> tbl_find peer_key (t_peers (db_tables b)) k | Some p \<Rightarrow> Some p))
      \<and> (\<forall>u. tbl_find g_uid (t_groups (db_tables b')) u =
         (case tbl_find g_uid (t_groups (db_tables a)) u of
            None \<Rightarrow> tbl_find g_uid (t_groups (db_tables b)) u | Some g \<Rightarrow> Some g))
    else db_tables b' = db_tables b"
proof (cases "r = Ret ()")
  case True
  have pks: "pk m_uid (t_messages (db_tables a))" "pk peer_key (t_peers (db_tables a))" "pk g_uid (t_groups (db_tables a))"
    using assms(1) by (simp_all add: wf_tables_def)
  show ?thesis
    using True ImportReplicationSnapshot_result [OF assms(3)]
    by (simp add: imported_def ExportReplicationSnapshot_RetD [OF assms(2)] imported_messages [OF pks(1)]
        imported_rows [OF pks(2)] imported_rows [OF pks(3)] del: map_map)
next
  case False
  then show ?thesis using ImportReplicationSnapshot_result [OF assms(3)] by simp
qed

lemma snapshot_transfer_witness:
  "\<exists>b'. ImportReplicationSnapshot 0 \<lparr>rs_version = 1, rs_messages = map replicated (sort_key (\<lambda>r. (m_created r, m_uid r))
        (t_messages sample_history)), rs_peers = [], rs_groups = []\<rparr> \<lparr>db_tables = no_tables, db_faults = []\<rparr> = (Ret (), b')
     \<and> map_option replicated (tbl_find m_uid (t_messages (db_tables b')) [CHR 0x01])
       = map_option replicated (tbl_find m_uid (t_messages sample_history) [CHR 0x01])"
proof -
  let ?a = "\<lparr>db_tables = sample_history, db_faults = []\<rparr>" and ?b = "\<lparr>db_tables = no_tables, db_faults = []\<rparr>"
  let ?s = "\<lparr>rs_version = 1, rs_messages = map replicated (sort_key (\<lambda>r. (m_created r, m_uid r))
        (t_messages sample_history)), rs_peers = [], rs_groups = []\<rparr>"
  have e: "ExportReplicationSnapshot ?a = (Ret ?s, ?a)"
    by (simp add: ExportReplicationSnapshot_def transaction_def fault_def db_then_def readReplicatedMessages_def
        readReplicatedPeers_def readReplicatedGroups_def sql_read_ok db_ret_def sample_history_def no_tables_def)
  obtain r b' where i: "ImportReplicationSnapshot 0 ?s ?b = (r, b')" by fastforce
  have r: "r = Ret ()"
    using i by (auto simp: ImportReplicationSnapshot_def transaction_def fault_def db_then_def db_each_write_ok db_ret_def)
  have wf: "wf_tables sample_history"
    by (simp add: sample_history_def wf_tables_def no_tables_def pk_def)
  have "tbl_find m_uid (t_messages sample_history) [CHR 0x01] \<noteq> None" by (simp add: sample_history_def tbl_find_def char_of_def)
  then show ?thesis
    using snapshot_transfer [OF _ e i] wf r i by (auto simp: no_tables_def)
qed

end
