(* ===== verification/StoreTrack.thy ===== *)
theory StoreTrack
  imports StoreDb
begin

text \<open>
  \<open>trackStore.go\<close>: the cursor up to which the announcements for a recipient have been read, and
  the blocks that could not be fetched and are to be tried again until their TTL is up.
  The two readers that return no error give their zero value when the query fails.
\<close>

definition or_else :: "'a \<Rightarrow> 'a dbop \<Rightarrow> db \<Rightarrow> 'a \<times> db" where
  "or_else v m d = (case m d of (Ret x, d') \<Rightarrow> (x, d') | (Err e, d') \<Rightarrow> (v, d') | (Panic e, d') \<Rightarrow> (v, d'))"

definition GetLastChunkCheck :: "string \<Rightarrow> db \<Rightarrow> int \<times> db" where
  "GetLastChunkCheck recipientID =
     or_else 0 (sql_read (\<lambda>t. case tbl_find fst (t_last_check t) recipientID of None \<Rightarrow> 0 | Some (_, v) \<Rightarrow> v))"

definition SetLastChunkCheck :: "string \<Rightarrow> int \<Rightarrow> unit dbop" where
  "SetLastChunkCheck recipientID unixTime =
     sql_write (\<lambda>t. t\<lparr>t_last_check := tbl_replace fst (recipientID, unixTime) (t_last_check t)\<rparr>)"

definition StoreFailedChunk :: "int \<Rightarrow> string \<Rightarrow> int \<Rightarrow> string \<Rightarrow> int \<Rightarrow> unit dbop" where
  "StoreFailedChunk now fileID chunkIndex recipientID ttlSeconds =
     (let ttl = (if ttlSeconds \<le> 0 then 604800 else ttlSeconds) in
      sql_write (\<lambda>t. t\<lparr>t_failed := tbl_ignore failed_key
        \<lparr>fc_file = fileID, fc_index = chunkIndex, fc_recipient = recipientID, fc_created = unix now,
         fc_ttl = ttl\<rparr> (t_failed t)\<rparr>))"

definition DeleteFailedChunk :: "string \<Rightarrow> int \<Rightarrow> unit dbop" where
  "DeleteFailedChunk fileID chunkIndex =
     sql_write (\<lambda>t. t\<lparr>t_failed := tbl_delete (\<lambda>r. fc_file r = fileID \<and> fc_index r = chunkIndex) (t_failed t)\<rparr>)"

definition IsChunkFailed :: "string \<Rightarrow> int \<Rightarrow> db \<Rightarrow> bool \<times> db" where
  "IsChunkFailed fileID chunkIndex =
     or_else False (sql_read (\<lambda>t.
       0 < length (filter (\<lambda>r. fc_file r = fileID \<and> fc_index r = chunkIndex) (t_failed t))))"

definition ListFailedChunks :: "string \<Rightarrow> FailedChunk list dbop" where
  "ListFailedChunks recipientID = sql_read (\<lambda>t. filter (\<lambda>r. fc_recipient r = recipientID) (t_failed t))"

definition DeleteExpiredFailedChunks :: "int \<Rightarrow> unit dbop" where
  "DeleteExpiredFailedChunks now =
     sql_write (\<lambda>t. t\<lparr>t_failed := tbl_delete (\<lambda>r. fc_created r + fc_ttl r \<le> now) (t_failed t)\<rparr>)"

definition DeleteFailedMessage :: "string \<Rightarrow> unit dbop" where
  "DeleteFailedMessage fileID =
     sql_write (\<lambda>t. t\<lparr>t_failed := tbl_delete (\<lambda>r. fc_file r = fileID) (t_failed t)\<rparr>)"

section \<open>Facts\<close>

lemma keeps_SetLastChunkCheck [wf_intros]: "keeps wf_tables (SetLastChunkCheck r u)"
  unfolding SetLastChunkCheck_def by (rule keeps_write) (simp add: wf_tables_def pk_rules)

lemma keeps_StoreFailedChunk [wf_intros]: "keeps wf_tables (StoreFailedChunk now f i r ttl)"
  unfolding StoreFailedChunk_def Let_def by (rule keeps_write) (simp add: wf_tables_def pk_rules)

lemma keeps_DeleteFailedChunk [wf_intros]: "keeps wf_tables (DeleteFailedChunk f i)"
  unfolding DeleteFailedChunk_def by (rule keeps_write) (simp add: wf_tables_def pk_rules)

lemma keeps_DeleteExpiredFailedChunks [wf_intros]: "keeps wf_tables (DeleteExpiredFailedChunks now)"
  unfolding DeleteExpiredFailedChunks_def by (rule keeps_write) (simp add: wf_tables_def pk_rules)

lemma keeps_DeleteFailedMessage [wf_intros]: "keeps wf_tables (DeleteFailedMessage f)"
  unfolding DeleteFailedMessage_def by (rule keeps_write) (simp add: wf_tables_def pk_rules)

text \<open>
  The retry deadline of a failed block is the one of its first failure: recording it again,
  with whatever TTL and at whatever time, changes nothing, so a block that is never found is
  given up in the end.
\<close>

theorem failed_deadline_fixed:
  assumes "StoreFailedChunk now f i rcp ttl d = (r, d')"
    and "tbl_find failed_key (t_failed (db_tables d)) (f, i) = Some c"
  shows "db_tables d' = db_tables d"
proof -
  have has: "tbl_has failed_key (f, i) (t_failed (db_tables d))" using assms(2) by (simp add: tbl_has_find)
  let ?ttl = "if ttl \<le> 0 then 604800 else ttl"
  have "db_tables d' = (db_tables d)\<lparr>t_failed := tbl_ignore failed_key
        \<lparr>fc_file = f, fc_index = i, fc_recipient = rcp, fc_created = unix now, fc_ttl = ?ttl\<rparr>
        (t_failed (db_tables d))\<rparr> \<or> db_tables d' = db_tables d"
    using sql_write_either [OF assms(1) [unfolded StoreFailedChunk_def Let_def]] .
  then show ?thesis using has by (auto simp: tbl_ignore_def failed_key_def)
qed

lemma failed_deadline_fixed_witness:
  "\<exists>d. t_failed (db_tables d) \<noteq> [] \<and> db_tables (snd (StoreFailedChunk 99 ''f'' 0 ''b'' 5 d)) = db_tables d"
proof -
  let ?c = "\<lparr>fc_file = ''f'', fc_index = 0, fc_recipient = ''b'', fc_created = 1, fc_ttl = 60\<rparr>"
  let ?d = "\<lparr>db_tables = no_tables\<lparr>t_failed := [?c]\<rparr>, db_faults = []\<rparr>"
  obtain r d' where e: "StoreFailedChunk 99 ''f'' 0 ''b'' 5 ?d = (r, d')" by fastforce
  have "db_tables d' = db_tables ?d"
    by (rule failed_deadline_fixed [OF e, where c = ?c]) (simp add: tbl_find_def failed_key_def)
  then show ?thesis using e by (intro exI [of _ ?d]) simp
qed

end
