(* ===== verification/StoreDownloads.thy ===== *)
theory StoreDownloads
  imports StoreChunks
begin

text \<open>
  \<open>fileDownloadStore.go\<close>: the state of each file download. A download is tracked, and then
  completed, stopped (its time is up), reset or cancelled. Times of the table are in seconds;
  the \<open>time.Time\<close> values the methods return are nanoseconds again.
\<close>

record FileDownloadState =
  fds_file :: string
  fds_first :: int
  fds_expires :: int
  fds_completed :: "int option"
  fds_stopped :: "int option"
  fds_cancelled :: "int option"
  fds_path :: string

definition from_unix :: "int \<Rightarrow> int" where
  "from_unix s = s * 1000000000"

definition readFileDownloadState :: "download_row option \<Rightarrow> FileDownloadState dbop" where
  "readFileDownloadState row =
     (case row of
        None \<Rightarrow> db_err ''sql: no rows in result set''
      | Some d \<Rightarrow> db_ret \<lparr>fds_file = d_file d, fds_first = from_unix (d_first d),
          fds_expires = from_unix (d_expires d), fds_completed = map_option from_unix (d_completed d),
          fds_stopped = map_option from_unix (d_stopped d),
          fds_cancelled = map_option from_unix (d_cancelled d), fds_path = d_path d\<rparr>)"

definition GetFileDownload :: "string \<Rightarrow> FileDownloadState dbop" where
  "GetFileDownload fileID =
     db_then (sql_read (\<lambda>t. tbl_find d_file (t_downloads t) fileID)) readFileDownloadState"

definition new_download :: "string \<Rightarrow> string \<Rightarrow> int \<Rightarrow> int \<Rightarrow> int \<Rightarrow> download_row" where
  "new_download fileID filename totalChunks firstSeenAt ttl =
     \<lparr>d_file = fileID, d_first = unix firstSeenAt, d_expires = unix (firstSeenAt + ttl),
      d_completed = None, d_stopped = None, d_cancelled = None, d_path = [],
      d_filename = filename, d_total = totalChunks\<rparr>"

definition retrack :: "download_row \<Rightarrow> download_row \<Rightarrow> download_row" where
  "retrack old new = old\<lparr>d_filename := (if 0 < d_total new then d_filename new else d_filename old),
                         d_total := (if 0 < d_total new then d_total new else d_total old)\<rparr>"

definition TrackFileDownload :: "string \<Rightarrow> string \<Rightarrow> int \<Rightarrow> int \<Rightarrow> int \<Rightarrow> FileDownloadState dbop" where
  "TrackFileDownload fileID filename totalChunks firstSeenAt ttl =
     (if fileID = [] then db_err ''file id is empty''
      else if ttl \<le> 0 then db_err ''file download ttl must be positive''
      else db_then
        (sql_write (\<lambda>t. t\<lparr>t_downloads := tbl_upsert d_file retrack
           (new_download fileID filename totalChunks firstSeenAt ttl) (t_downloads t)\<rparr>))
        (\<lambda>_. GetFileDownload fileID))"

definition EnsureFileDownload :: "string \<Rightarrow> int \<Rightarrow> int \<Rightarrow> FileDownloadState dbop" where
  "EnsureFileDownload fileID firstSeenAt ttl = TrackFileDownload fileID [] 0 firstSeenAt ttl"

text \<open>An \<open>UPDATE\<close> and the number of rows it affected.\<close>

definition update_downloads :: "(download_row \<Rightarrow> bool) \<Rightarrow> (download_row \<Rightarrow> download_row) \<Rightarrow> nat dbop" where
  "update_downloads P f =
     sql (\<lambda>t. Some (length (filter P (t_downloads t)), t\<lparr>t_downloads := tbl_update P f (t_downloads t)\<rparr>))"

definition completable :: "string \<Rightarrow> download_row \<Rightarrow> bool" where
  "completable fileID d = (d_file d = fileID \<and> d_cancelled d = None)"

definition MarkFileDownloadCompleted :: "string \<Rightarrow> string \<Rightarrow> int \<Rightarrow> unit dbop" where
  "MarkFileDownloadCompleted fileID localPath completedAt =
     db_then (update_downloads (completable fileID)
         (\<lambda>d. d\<lparr>d_completed := Some (unix completedAt), d_stopped := None, d_path := localPath\<rparr>))
       (\<lambda>rows. if rows = 0 then db_err ''file download not found'' else db_ret ())"

definition ErrDownloadNotActive :: string where
  "ErrDownloadNotActive = ''download is no longer active''"

definition cancellable :: "string \<Rightarrow> download_row \<Rightarrow> bool" where
  "cancellable fileID d = (d_file d = fileID \<and> d_completed d = None \<and> d_cancelled d = None)"

definition CancelFileDownload :: "string \<Rightarrow> int \<Rightarrow> unit dbop" where
  "CancelFileDownload fileID now =
     db_then (update_downloads (cancellable fileID)
         (\<lambda>d. d\<lparr>d_cancelled := Some (unix now), d_stopped := Some (unix now)\<rparr>))
       (\<lambda>count. if count = 0 then db_err ErrDownloadNotActive else db_ret ())"

record FileDownloadProgress =
  fp_file :: string
  fp_filename :: string
  fp_total :: int
  fp_received :: nat

definition active :: "int \<Rightarrow> download_row \<Rightarrow> bool" where
  "active now d = (d_completed d = None \<and> d_stopped d = None \<and> d_cancelled d = None
     \<and> d_expires d > unix now \<and> 0 < d_total d)"

definition received_count :: "chunk_row table \<Rightarrow> string \<Rightarrow> int \<Rightarrow> nat" where
  "received_count cs fileID totalChunks =
     length (filter (\<lambda>c. c_file c = fileID \<and> 0 \<le> c_index c \<and> c_index c < totalChunks) cs)"

definition ListActiveFileDownloads :: "int \<Rightarrow> FileDownloadProgress list dbop" where
  "ListActiveFileDownloads now =
     sql_read (\<lambda>t. map (\<lambda>d. \<lparr>fp_file = d_file d, fp_filename = d_filename d, fp_total = d_total d,
         fp_received = received_count (t_chunks t) (d_file d) (d_total d)\<rparr>)
       (sort_key (\<lambda>d. (d_first d, d_file d)) (filter (active now) (t_downloads t))))"

definition ResetFileDownloadCompletion :: "string \<Rightarrow> unit dbop" where
  "ResetFileDownloadCompletion fileID =
     sql_write (\<lambda>t. t\<lparr>t_downloads := tbl_update (\<lambda>d. d_file d = fileID)
       (\<lambda>d. d\<lparr>d_completed := None, d_path := []\<rparr>) (t_downloads t)\<rparr>)"

definition MarkFileDownloadStopped :: "string \<Rightarrow> int \<Rightarrow> unit dbop" where
  "MarkFileDownloadStopped fileID stoppedAt =
     sql_write (\<lambda>t. t\<lparr>t_downloads := tbl_update (\<lambda>d. d_file d = fileID \<and> d_completed d = None)
       (\<lambda>d. d\<lparr>d_stopped := Some (unix stoppedAt)\<rparr>) (t_downloads t)\<rparr>)"

section \<open>The primary keys are kept\<close>

lemma keeps_GetFileDownload [wf_intros]: "keeps I (GetFileDownload f)"
  unfolding GetFileDownload_def readFileDownloadState_def
  by (intro keeps_then keeps_read) (simp add: keeps_err keeps_ret split: option.split)

lemma keeps_TrackFileDownload [wf_intros]: "keeps wf_tables (TrackFileDownload f n c at ttl)"
  unfolding TrackFileDownload_def
  by (intro keeps_if keeps_err keeps_then keeps_GetFileDownload keeps_write)
    (simp add: wf_tables_def pk_rules retrack_def)

lemma keeps_update_downloads:
  "(\<And>d. d_file (f d) = d_file d) \<Longrightarrow> keeps wf_tables (update_downloads P f)"
  unfolding update_downloads_def by (rule keeps_sql) (auto simp: wf_tables_def pk_rules)

lemma keeps_MarkFileDownloadCompleted [wf_intros]: "keeps wf_tables (MarkFileDownloadCompleted f p at)"
  unfolding MarkFileDownloadCompleted_def
  by (intro keeps_then keeps_update_downloads keeps_if keeps_err keeps_ret) simp

lemma keeps_CancelFileDownload [wf_intros]: "keeps wf_tables (CancelFileDownload f now)"
  unfolding CancelFileDownload_def
  by (intro keeps_then keeps_update_downloads keeps_if keeps_err keeps_ret) simp

lemma keeps_ResetFileDownloadCompletion [wf_intros]: "keeps wf_tables (ResetFileDownloadCompletion f)"
  unfolding ResetFileDownloadCompletion_def by (rule keeps_write) (simp add: wf_tables_def pk_rules)

lemma keeps_MarkFileDownloadStopped [wf_intros]: "keeps wf_tables (MarkFileDownloadStopped f at)"
  unfolding MarkFileDownloadStopped_def by (rule keeps_write) (simp add: wf_tables_def pk_rules)

section \<open>The life of a download\<close>

text \<open>One method call on the download table, at whatever time and whether it fails or not.\<close>

inductive download_step :: "db \<Rightarrow> db \<Rightarrow> bool" where
  track: "TrackFileDownload f n c at ttl d = (r, d') \<Longrightarrow> download_step d d'"
| complete: "MarkFileDownloadCompleted f p at d = (r, d') \<Longrightarrow> download_step d d'"
| cancel: "CancelFileDownload f at d = (r, d') \<Longrightarrow> download_step d d'"
| reset: "ResetFileDownloadCompletion f d = (r, d') \<Longrightarrow> download_step d d'"
| stop: "MarkFileDownloadStopped f at d = (r, d') \<Longrightarrow> download_step d d'"

definition download :: "db \<Rightarrow> string \<Rightarrow> download_row option" where
  "download d f = tbl_find d_file (t_downloads (db_tables d)) f"

text \<open>What a step may do to one row.\<close>

definition row_step :: "download_row \<Rightarrow> download_row \<Rightarrow> bool" where
  "row_step a b \<longleftrightarrow>
     d_file b = d_file a \<and> d_first b = d_first a \<and> d_expires b = d_expires a
     \<and> (d_cancelled a \<noteq> None \<longrightarrow> d_cancelled b = d_cancelled a)
     \<and> (d_completed b \<noteq> None \<longrightarrow> d_completed b = d_completed a \<or> d_cancelled a = None \<and> d_cancelled b = None)
     \<and> (d_cancelled b \<noteq> None \<longrightarrow> d_cancelled b = d_cancelled a \<or> d_completed a = None \<and> d_completed b = None)"

lemma row_step_refl: "row_step a a"
  by (simp add: row_step_def)

lemma update_downloads_tables:
  "update_downloads P f d = (r, d') \<Longrightarrow>
     db_tables d' = (db_tables d)\<lparr>t_downloads := tbl_update P f (t_downloads (db_tables d))\<rparr> \<and> (\<exists>n. r = Ret n)
     \<or> db_tables d' = db_tables d \<and> (\<forall>n. r \<noteq> Ret n)"
  by (cases r) (auto simp: update_downloads_def dest: sql_RetD sql_atomic)

lemma then_tables:
  assumes "db_then m k d = (r, d')" and "\<And>x e. db_tables (snd (k x e)) = db_tables e"
  shows "db_tables d' = db_tables (snd (m d))"
proof -
  obtain q d1 where m: "m d = (q, d1)" by fastforce
  show ?thesis
  proof (cases q)
    case (Ret x)
    then have "k x d1 = (r, d')" using assms(1) m by (simp add: db_then_def)
    with assms(2) [of x d1] m show ?thesis by simp
  qed (use assms(1) m in \<open>simp_all add: db_then_def\<close>)
qed

lemma check_tables: "db_tables (snd ((if n = (0 :: nat) then db_err e else db_ret ()) d)) = db_tables d"
  by (simp add: db_err_def db_ret_def)

lemma tables_GetFileDownload: "db_tables (snd (GetFileDownload f d)) = db_tables d"
proof -
  have "db_tables (snd (readFileDownloadState row e)) = db_tables e" for row e
    by (simp add: readFileDownloadState_def db_err_def db_ret_def split: option.split)
  then have "db_tables (snd (GetFileDownload f d)) = db_tables (snd (sql_read (\<lambda>t. tbl_find d_file (t_downloads t) f) d))"
    unfolding GetFileDownload_def by (intro then_tables [OF prod.collapse [symmetric]])
  then show ?thesis by (simp add: sql_read_tables)
qed

lemma row_step_retrack: "row_step x (retrack x y)"
  by (simp add: row_step_def retrack_def)

definition moved :: "db \<Rightarrow> db \<Rightarrow> string \<Rightarrow> bool" where
  "moved d d' f \<longleftrightarrow>
     (case download d f of
        Some a \<Rightarrow> (\<exists>b. download d' f = Some b \<and> row_step a b)
      | None \<Rightarrow> (case download d' f of None \<Rightarrow> True
           | Some b \<Rightarrow> d_completed b = None \<and> d_cancelled b = None))"

lemma moved_same: "db_tables d' = db_tables d \<Longrightarrow> moved d d' f"
  by (simp add: moved_def download_def row_step_refl split: option.split)

lemma moved_cong: "db_tables d1 = db_tables d2 \<Longrightarrow> moved d d1 f = moved d d2 f"
proof -
  assume "db_tables d1 = db_tables d2"
  then have "download d1 f = download d2 f" by (simp add: download_def)
  then show ?thesis unfolding moved_def by (simp only:)
qed

lemma moved_update:
  assumes "t_downloads (db_tables d') = tbl_update P u (t_downloads (db_tables d))"
    and "\<And>x. P x \<Longrightarrow> row_step x (u x)"
  shows "moved d d' f"
proof -
  have "\<And>x. P x \<Longrightarrow> d_file (u x) = d_file x" using assms(2) by (simp add: row_step_def)
  then have "download d' f = map_option (\<lambda>x. if P x then u x else x) (download d f)"
    unfolding download_def assms(1) by (rule tbl_find_update)
  then show ?thesis using assms(2) by (simp add: moved_def row_step_refl split: option.split)
qed

lemma moved_update_downloads:
  assumes "db_then (update_downloads P u) (\<lambda>n. if n = 0 then db_err e else db_ret ()) d = (r, d')"
    and "\<And>x. P x \<Longrightarrow> row_step x (u x)"
  shows "moved d d' f"
proof -
  obtain q d1 where m: "update_downloads P u d = (q, d1)" by fastforce
  have "db_tables d' = db_tables d1"
    using then_tables [OF assms(1) check_tables] m by simp
  then show ?thesis
    using update_downloads_tables [OF m] moved_update [of d' P u d f] moved_same [of d' d f] assms(2) by auto
qed

lemma download_step_moved: "download_step d d' \<Longrightarrow> moved d d' f"
proof (induction rule: download_step.induct)
  case (track g n c at ttl d r d')
  show ?case
  proof (cases "g = [] \<or> ttl \<le> 0")
    case True
    then show ?thesis
      using track by (intro moved_same) (auto simp: TrackFileDownload_def db_err_def split: if_splits)
  next
    case False
    let ?w = "\<lambda>t. t\<lparr>t_downloads := tbl_upsert d_file retrack (new_download g n c at ttl) (t_downloads t)\<rparr>"
    have run: "db_then (sql_write ?w) (\<lambda>_. GetFileDownload g) d = (r, d')"
      using track False by (simp add: TrackFileDownload_def)
    obtain q d1 where w: "sql_write ?w d = (q, d1)" by fastforce
    have "db_tables d' = db_tables d1" using then_tables [OF run tables_GetFileDownload] w by simp
    moreover have "tbl_find d_file (t_downloads (?w (db_tables d))) f = (if f = g then
        (case download d f of None \<Rightarrow> Some (new_download g n c at ttl) | Some x \<Rightarrow> Some (retrack x (new_download g n c at ttl)))
        else download d f)"
      by (simp add: tbl_find_upsert download_def retrack_def) (simp add: new_download_def)
    then have "moved d \<lparr>db_tables = ?w (db_tables d), db_faults = []\<rparr> f"
      by (auto simp: moved_def row_step_refl row_step_retrack new_download_def download_def split: option.split)
    then have "moved d d' f" if "db_tables d' = ?w (db_tables d)"
      using that moved_cong [of d' "\<lparr>db_tables = ?w (db_tables d), db_faults = []\<rparr>" d f] by simp
    ultimately show ?thesis
      using sql_write_either [OF w] moved_same [of d' d f] by auto
  qed
next
  case (complete g p at d r d')
  then show ?case
    unfolding MarkFileDownloadCompleted_def
    by (rule moved_update_downloads) (simp add: row_step_def completable_def)
next
  case (cancel g at d r d')
  then show ?case
    unfolding CancelFileDownload_def
    by (rule moved_update_downloads) (simp add: row_step_def cancellable_def)
next
  case (reset g d r d')
  then show ?case
    using sql_write_either [OF reset [unfolded ResetFileDownloadCompletion_def]]
    by (auto intro: moved_same moved_update simp: row_step_def)
next
  case (stop g at d r d')
  then show ?case
    using sql_write_either [OF stop [unfolded MarkFileDownloadStopped_def]]
    by (auto intro: moved_same moved_update simp: row_step_def)
qed

text \<open>
  Cancelling is final: once a download is cancelled, no sequence of method calls, failing
  or not, changes the cancellation or lets the download complete; and no call moves the
  deadline a download was first given.
\<close>

theorem cancelled_is_final:
  assumes "download d f = Some a" and "download_step\<^sup>*\<^sup>* d d'"
  shows "\<exists>b. download d' f = Some b \<and> d_first b = d_first a \<and> d_expires b = d_expires a
    \<and> (d_cancelled a \<noteq> None \<longrightarrow> d_cancelled b = d_cancelled a
         \<and> (d_completed a = None \<longrightarrow> d_completed b = None))"
  using assms(2)
proof (induction rule: rtranclp_induct)
  case base
  then show ?case using assms(1) by simp
next
  case (step y z)
  obtain b where "download y f = Some b \<and> d_first b = d_first a \<and> d_expires b = d_expires a
    \<and> (d_cancelled a \<noteq> None \<longrightarrow> d_cancelled b = d_cancelled a
         \<and> (d_completed a = None \<longrightarrow> d_completed b = None))"
    using step.IH by (rule exE)
  then have b: "download y f = Some b" "d_first b = d_first a" "d_expires b = d_expires a"
    and keep: "d_cancelled a \<noteq> None \<longrightarrow> d_cancelled b = d_cancelled a \<and> (d_completed a = None \<longrightarrow> d_completed b = None)"
    by (rule conjunct1, rule conjunct1 [OF conjunct2], rule conjunct1 [OF conjunct2 [OF conjunct2]],
        rule conjunct2 [OF conjunct2 [OF conjunct2]])
  from download_step_moved [OF step.hyps(2), of f] b(1)
  obtain c where c: "download z f = Some c" "row_step b c" by (auto simp: moved_def)
  from c(2) have same: "d_first c = d_first b" "d_expires c = d_expires b"
    and can: "d_cancelled b \<noteq> None \<Longrightarrow> d_cancelled c = d_cancelled b"
    and com: "d_cancelled b \<noteq> None \<Longrightarrow> d_completed b = None \<Longrightarrow> d_completed c = None"
    unfolding row_step_def by metis+
  show ?case
    by (intro exI [of _ c] conjI impI) (use b keep same can com c(1) in simp_all)
qed

text \<open>
  No download is both completed and cancelled, in any state reached from a database
  without downloads.
\<close>

theorem completed_cancelled_exclusive:
  assumes "t_downloads (db_tables d) = []" and "download_step\<^sup>*\<^sup>* d d'" and "download d' f = Some b"
  shows "d_completed b = None \<or> d_cancelled b = None"
  using assms(2,3)
proof (induction arbitrary: b rule: rtranclp_induct)
  case base
  then show ?case using assms(1) by (simp add: download_def)
next
  case (step y z)
  show ?case
  proof (cases "download y f")
    case None
    then show ?thesis using download_step_moved [OF step.hyps(2), of f] step.prems by (simp add: moved_def)
  next
    case (Some a)
    then have "row_step a b" using download_step_moved [OF step.hyps(2), of f] step.prems by (simp add: moved_def)
    then show ?thesis using step.IH [OF Some] by (auto simp: row_step_def)
  qed
qed

definition fresh_db :: db where
  "fresh_db = \<lparr>db_tables = no_tables, db_faults = []\<rparr>"

definition tracked_db :: db where
  "tracked_db = snd (TrackFileDownload ''f'' ''a.txt'' 2 5000000000 60000000000 fresh_db)"

definition cancelled_db :: db where
  "cancelled_db = snd (CancelFileDownload ''f'' 6000000000 tracked_db)"

lemma tracked_download: "download tracked_db ''f'' = Some (new_download ''f'' ''a.txt'' 2 5000000000 60000000000)"
  by (simp add: tracked_db_def TrackFileDownload_def fresh_db_def db_then_def sql_write_ok no_tables_def
      GetFileDownload_def sql_read_ok readFileDownloadState_def db_ret_def download_def tbl_upsert_def tbl_has_def
      tbl_find_def new_download_def)

lemma tracked_steps: "download_step fresh_db tracked_db" "download_step tracked_db cancelled_db"
  unfolding tracked_db_def cancelled_db_def
  by (rule track [OF prod.collapse [symmetric]], rule cancel [OF prod.collapse [symmetric]])

lemma cancelled_download: "\<exists>b. download cancelled_db ''f'' = Some b \<and> d_cancelled b = Some 6"
proof -
  have t: "t_downloads (db_tables tracked_db) = [new_download ''f'' ''a.txt'' 2 5000000000 60000000000]"
    and q: "db_faults tracked_db = []"
    by (simp_all add: tracked_db_def TrackFileDownload_def fresh_db_def db_then_def sql_write_ok no_tables_def
      GetFileDownload_def sql_read_ok readFileDownloadState_def db_ret_def tbl_upsert_def tbl_has_def
      tbl_find_def new_download_def)
  then show ?thesis
    by (simp add: cancelled_db_def CancelFileDownload_def db_then_def update_downloads_def sql_ok download_def
        cancellable_def new_download_def tbl_update_def tbl_find_def unix_def db_ret_def)
qed

lemma cancelled_is_final_witness:
  "\<exists>b. download (snd (MarkFileDownloadCompleted ''f'' ''/x'' 7000000000 cancelled_db)) ''f'' = Some b
     \<and> d_cancelled b = Some 6"
proof -
  obtain a where a: "download cancelled_db ''f'' = Some a" "d_cancelled a = Some 6"
    using cancelled_download by blast
  have s: "download_step\<^sup>*\<^sup>* cancelled_db (snd (MarkFileDownloadCompleted ''f'' ''/x'' 7000000000 cancelled_db))"
    by (rule r_into_rtranclp) (rule complete [OF prod.collapse [symmetric]])
  show ?thesis using cancelled_is_final [OF a(1) s] a(2) by auto
qed

lemma completed_cancelled_exclusive_witness:
  "\<exists>b. download cancelled_db ''f'' = Some b \<and> d_cancelled b = Some 6 \<and> (d_completed b = None \<or> d_cancelled b = None)"
proof -
  obtain b where b: "download cancelled_db ''f'' = Some b" "d_cancelled b = Some 6"
    using cancelled_download by blast
  have "download_step\<^sup>*\<^sup>* fresh_db cancelled_db"
    using tracked_steps by (meson rtranclp.rtrancl_into_rtrancl r_into_rtranclp)
  then have "d_completed b = None \<or> d_cancelled b = None"
    by (rule completed_cancelled_exclusive [rotated]) (use b in \<open>simp_all add: fresh_db_def no_tables_def\<close>)
  with b show ?thesis by blast
qed

section \<open>Progress\<close>

lemma received_count_le:
  assumes "pk chunk_key cs"
  shows "int (received_count cs f n) \<le> max 0 n"
proof -
  let ?rs = "filter (\<lambda>c. c_file c = f \<and> 0 \<le> c_index c \<and> c_index c < n) cs"
  have "distinct (map chunk_key ?rs)" using pk_filter [OF assms] by (simp add: pk_def)
  then have "distinct (map c_index ?rs)"
    by (auto simp: distinct_map inj_on_def chunk_key_def)
  then have "length ?rs = card (c_index ` set ?rs)"
    using distinct_card [of "map c_index ?rs"] by simp
  also have "\<dots> \<le> card {0..<n}"
    by (intro card_mono) auto
  finally show ?thesis by (simp add: received_count_def)
qed

text \<open>
  Progress is never more than the whole: the listed downloads are exactly the tracked ones
  that are neither completed, stopped nor cancelled, whose deadline lies ahead and whose size
  is known; and the blocks counted as received do not exceed the total.
\<close>

theorem ListActiveFileDownloads_progress:
  assumes "wf_tables (db_tables d)" and "ListActiveFileDownloads now d = (Ret ps, d')"
  shows "set (map fp_file ps) = {f. \<exists>r. download d f = Some r \<and> active now r}
     \<and> list_all (\<lambda>p. 0 < fp_total p \<and> int (fp_received p) \<le> fp_total p) ps"
proof -
  have pk: "pk d_file (t_downloads (db_tables d))" "pk chunk_key (t_chunks (db_tables d))"
    using assms(1) by (simp_all add: wf_tables_def)
  have ps: "ps = map (\<lambda>r. \<lparr>fp_file = d_file r, fp_filename = d_filename r, fp_total = d_total r,
         fp_received = received_count (t_chunks (db_tables d)) (d_file r) (d_total r)\<rparr>)
       (sort_key (\<lambda>r. (d_first r, d_file r)) (filter (active now) (t_downloads (db_tables d))))"
    using assms(2) by (auto simp: ListActiveFileDownloads_def dest: sql_read_RetD)
  have "set (map fp_file ps) = d_file ` {r \<in> set (t_downloads (db_tables d)). active now r}"
    by (simp add: ps image_image)
  also have "\<dots> = {f. \<exists>r. download d f = Some r \<and> active now r}"
    using tbl_find_in [OF pk(1)] by (auto simp: download_def image_iff dest: tbl_find_SomeD)
  finally have files: "set (map fp_file ps) = {f. \<exists>r. download d f = Some r \<and> active now r}" .
  have "list_all (\<lambda>p. 0 < fp_total p \<and> int (fp_received p) \<le> fp_total p) ps"
    unfolding list_all_iff
  proof
    fix p assume "p \<in> set ps"
    then obtain r where r: "active now r" "fp_total p = d_total r"
        "fp_received p = received_count (t_chunks (db_tables d)) (d_file r) (d_total r)"
      by (auto simp: ps)
    then have "0 < d_total r" by (simp add: active_def)
    with r received_count_le [OF pk(2), of "d_file r" "d_total r"]
    show "0 < fp_total p \<and> int (fp_received p) \<le> fp_total p" by simp
  qed
  with files show ?thesis by blast
qed

lemma ListActiveFileDownloads_progress_witness:
  "\<exists>ps d'. ListActiveFileDownloads 0 tracked_db = (Ret ps, d') \<and> set (map fp_file ps) = {''f''}"
proof -
  have q: "db_faults tracked_db = []" and wf: "wf_tables (db_tables tracked_db)"
    by (simp_all add: tracked_db_def TrackFileDownload_def fresh_db_def db_then_def sql_write_ok no_tables_def
      GetFileDownload_def sql_read_ok readFileDownloadState_def db_ret_def tbl_upsert_def tbl_has_def
      tbl_find_def new_download_def wf_tables_def pk_def)
  obtain ps d' where e: "ListActiveFileDownloads 0 tracked_db = (Ret ps, d')"
    using q by (simp add: ListActiveFileDownloads_def sql_read_ok)
  have one: "download tracked_db f = (if f = ''f'' then Some (new_download ''f'' ''a.txt'' 2 5000000000 60000000000) else None)" for f
    by (auto simp: tracked_db_def TrackFileDownload_def fresh_db_def db_then_def sql_write_ok no_tables_def
      GetFileDownload_def sql_read_ok readFileDownloadState_def db_ret_def download_def tbl_upsert_def tbl_has_def
      tbl_find_def new_download_def)
  have "set (map fp_file ps) = {''f''}"
    using ListActiveFileDownloads_progress [OF wf e] by (auto simp: one active_def new_download_def unix_def)
  with e show ?thesis by blast
qed

end
