(* ===== verification/StoreConfig.thy ===== *)
theory StoreConfig
  imports StoreDb Crypto
begin

text \<open>
  \<open>internal/config/config.go\<close> and \<open>configStore.go\<close>: the configuration record, where its values
  come from when the program starts, and how they are kept as name/value rows. The JSON of
  the configuration file is a parameter.
\<close>

record Config =
  cfg_muninn :: string
  cfg_username :: string
  cfg_peer_id :: string
  cfg_db :: string
  cfg_ttl :: string
  cfg_flag :: string
  cfg_turn_addr :: string
  cfg_turn_user :: string
  cfg_turn_pass :: string

definition empty_config :: Config where
  "empty_config = \<lparr>cfg_muninn = [], cfg_username = [], cfg_peer_id = [], cfg_db = [], cfg_ttl = [],
     cfg_flag = [], cfg_turn_addr = [], cfg_turn_user = [], cfg_turn_pass = []\<rparr>"

definition ChunkTTLSeconds :: "string \<Rightarrow> int" where
  "ChunkTTLSeconds ttl =
     (let t = to_lower ttl in
      if t = ''1d'' then 86400 else if t = ''1w'' then 604800 else if t = ''1m'' then 2592000 else 604800)"

text \<open>
  \<open>Parse\<close>: defaults, then the configuration file (\<open>unmarshal\<close> also yields what it had filled
  in before an error, which is only reported), then the environment, then the command line
  (\<open>flag name\<close> is a value given there), then a random user name.
\<close>

definition Parse :: "(bytes \<Rightarrow> Config \<Rightarrow> Config) \<Rightarrow> bytes option \<Rightarrow> string \<Rightarrow> (string \<Rightarrow> string option) \<Rightarrow> string \<Rightarrow> Config"
  where
  "Parse unmarshal file muninnEnv flag uuid =
     (let c = empty_config\<lparr>cfg_db := ''huginn.db'', cfg_ttl := ''1w'', cfg_flag := ''thin''\<rparr>;
          c = (case file of Some data \<Rightarrow> unmarshal data c | None \<Rightarrow> c);
          addr = TrimSpace muninnEnv;
          c = (if addr \<noteq> [] then c\<lparr>cfg_muninn := addr\<rparr> else c);
          given = (\<lambda>name v. case flag name of Some x \<Rightarrow> x | None \<Rightarrow> v);
          c = c\<lparr>cfg_muninn := given ''muninn'' (cfg_muninn c),
                cfg_username := given ''username'' (cfg_username c),
                cfg_db := given ''db'' (cfg_db c),
                cfg_ttl := given ''chunk-ttl'' (cfg_ttl c),
                cfg_flag := given ''peer-flag'' (cfg_flag c)\<rparr>
      in if cfg_username c = [] then c\<lparr>cfg_username := uuid\<rparr> else c)"

text \<open>\<open>Save\<close>: the end of \<open>json.MarshalIndent\<close>, and what \<open>os.WriteFile\<close> makes of the file.\<close>

definition Save :: "(Config \<Rightarrow> bytes go) \<Rightarrow> (bytes \<Rightarrow> unit go \<times> bytes option) \<Rightarrow> Config \<Rightarrow> bytes option
    \<Rightarrow> unit go \<times> bytes option" where
  "Save marshal writeFile c file =
     (case marshal c of
        Ret data \<Rightarrow> writeFile data
      | Err e \<Rightarrow> (Err e, file)
      | Panic e \<Rightarrow> (Panic e, file))"

section \<open>Values by name\<close>

definition ErrConfigNotFound :: string where
  "ErrConfigNotFound = ''config value not found''"

definition GetConfigValue :: "string \<Rightarrow> string dbop" where
  "GetConfigValue name =
     db_then (sql_read (\<lambda>t. tbl_find fst (t_config t) name))
       (\<lambda>row. case row of None \<Rightarrow> db_err ErrConfigNotFound | Some (_, v) \<Rightarrow> db_ret v)"

definition SetConfigValue :: "string \<Rightarrow> string \<Rightarrow> unit dbop" where
  "SetConfigValue name val =
     sql_write (\<lambda>t. t\<lparr>t_config := tbl_upsert fst (\<lambda>old new. new) (name, val) (t_config t)\<rparr>)"

definition GetKeysJSON :: "string dbop" where
  "GetKeysJSON = GetConfigValue ''crypto_keys''"

definition SaveKeysJSON :: "string \<Rightarrow> unit dbop" where
  "SaveKeysJSON data = SetConfigValue ''crypto_keys'' data"

section \<open>The configuration\<close>

text \<open>The fields with the names of their rows, in the order of the code.\<close>

definition config_fields :: "(string \<times> (Config \<Rightarrow> string) \<times> (string \<Rightarrow> Config \<Rightarrow> Config)) list" where
  "config_fields =
     [(''username'', cfg_username, \<lambda>v c. c\<lparr>cfg_username := v\<rparr>),
      (''muninn'', cfg_muninn, \<lambda>v c. c\<lparr>cfg_muninn := v\<rparr>),
      (''peer_id'', cfg_peer_id, \<lambda>v c. c\<lparr>cfg_peer_id := v\<rparr>),
      (''chunk_ttl'', cfg_ttl, \<lambda>v c. c\<lparr>cfg_ttl := v\<rparr>),
      (''peer_flag'', cfg_flag, \<lambda>v c. c\<lparr>cfg_flag := v\<rparr>),
      (''turn_addr'', cfg_turn_addr, \<lambda>v c. c\<lparr>cfg_turn_addr := v\<rparr>),
      (''turn_user'', cfg_turn_user, \<lambda>v c. c\<lparr>cfg_turn_user := v\<rparr>),
      (''turn_pass'', cfg_turn_pass, \<lambda>v c. c\<lparr>cfg_turn_pass := v\<rparr>)]"

text \<open>An error of a single value, whatever it is, counts as its absence.\<close>

fun load_fields ::
    "(string \<times> (Config \<Rightarrow> string) \<times> (string \<Rightarrow> Config \<Rightarrow> Config)) list \<Rightarrow> Config \<Rightarrow> bool \<Rightarrow> db \<Rightarrow> (Config \<times> bool) \<times> db"
  where
  "load_fields [] cfg hasValue d = ((cfg, hasValue), d)"
| "load_fields ((name, getf, setf) # fs) cfg hasValue d =
     (case GetConfigValue name d of
        (Ret v, d') \<Rightarrow> load_fields fs (setf v cfg) True d'
      | (Err e, d') \<Rightarrow> load_fields fs cfg hasValue d'
      | (Panic e, d') \<Rightarrow> load_fields fs cfg hasValue d')"

definition LoadAppConfig :: "Config dbop" where
  "LoadAppConfig d =
     (case load_fields config_fields empty_config False d of
        ((cfg, hasValue), d') \<Rightarrow> if hasValue then (Ret cfg, d') else (Err ErrConfigNotFound, d'))"

definition SaveAppConfig :: "Config \<Rightarrow> unit dbop" where
  "SaveAppConfig cfg =
     db_each (\<lambda>(name, getf, setf). if getf cfg \<noteq> [] then SetConfigValue name (getf cfg) else db_ret ()) config_fields"

text \<open>\<open>ImportLegacyFiles\<close>: \<open>readFile\<close> reads a file of the database directory.\<close>

definition import_keys :: "(string \<Rightarrow> bytes option) \<Rightarrow> unit dbop" where
  "import_keys readFile d =
     (case GetConfigValue ''crypto_keys'' d of
        (Err e, d') \<Rightarrow>
          if e \<noteq> ErrConfigNotFound then (Ret (), d')
          else (case readFile ''keys.conf'' of
             None \<Rightarrow> (Ret (), d')
           | Some data \<Rightarrow> SaveKeysJSON (string_of data) d')
      | (r, d') \<Rightarrow> (Ret (), d'))"

definition import_config :: "(bytes \<Rightarrow> Config option) \<Rightarrow> (string \<Rightarrow> bytes option) \<Rightarrow> unit dbop" where
  "import_config unmarshal readFile d =
     (case LoadAppConfig d of
        (Err e, d') \<Rightarrow>
          if e \<noteq> ErrConfigNotFound then (Ret (), d')
          else (case readFile ''config.conf'' of
             None \<Rightarrow> (Ret (), d')
           | Some data \<Rightarrow> (case unmarshal data of
                None \<Rightarrow> (Err ''parse config.conf'', d')
              | Some cfg \<Rightarrow> SaveAppConfig cfg d'))
      | (r, d') \<Rightarrow> (Ret (), d'))"

definition ImportLegacyFiles :: "(bytes \<Rightarrow> Config option) \<Rightarrow> (string \<Rightarrow> bytes option) \<Rightarrow> unit dbop" where
  "ImportLegacyFiles unmarshal readFile =
     db_then (import_keys readFile) (\<lambda>_. import_config unmarshal readFile)"

section \<open>Facts\<close>

definition config_value :: "tables \<Rightarrow> string \<Rightarrow> string option" where
  "config_value t name = map_option snd (tbl_find fst (t_config t) name)"

lemma keeps_SetConfigValue [wf_intros]: "keeps wf_tables (SetConfigValue n v)"
  unfolding SetConfigValue_def by (rule keeps_write) (simp add: wf_tables_def pk_rules)

lemma keeps_SaveAppConfig [wf_intros]: "keeps wf_tables (SaveAppConfig cfg)"
  unfolding SaveAppConfig_def by (intro keeps_each) (auto intro: keeps_SetConfigValue keeps_ret)

lemma GetConfigValue_ok:
  "db_faults d = [] \<Longrightarrow> GetConfigValue n d =
     ((case config_value (db_tables d) n of None \<Rightarrow> Err ErrConfigNotFound | Some v \<Rightarrow> Ret v), d)"
  by (auto simp: GetConfigValue_def db_then_def sql_read_ok config_value_def db_err_def db_ret_def split: option.split)

lemma config_value_upsert:
  "config_value (t\<lparr>t_config := tbl_upsert fst (\<lambda>old new. new) (n, v) (t_config t)\<rparr>) m
     = (if m = n then Some v else config_value t m)"
  by (simp add: config_value_def tbl_find_upsert split: option.split)

lemma load_fields_ok:
  "db_faults d = [] \<Longrightarrow> load_fields fs cfg b d =
     ((fold (\<lambda>(n, g, s) c. case config_value (db_tables d) n of None \<Rightarrow> c | Some v \<Rightarrow> s v c) fs cfg,
       b \<or> list_ex (\<lambda>(n, g, s). config_value (db_tables d) n \<noteq> None) fs), d)"
  by (induction fs arbitrary: cfg b) (auto simp: GetConfigValue_ok split: option.split)

lemma save_fields_ok:
  "db_faults d = [] \<Longrightarrow> distinct (map fst fs) \<Longrightarrow>
   \<exists>t. db_each (\<lambda>(n, g, s). if g cfg \<noteq> [] then SetConfigValue n (g cfg) else db_ret ()) fs d
        = (Ret (), d\<lparr>db_tables := t\<rparr>)
     \<and> (\<forall>m. config_value t m = (case map_of fs m of
          Some (g, s) \<Rightarrow> if g cfg \<noteq> [] then Some (g cfg) else config_value (db_tables d) m
        | None \<Rightarrow> config_value (db_tables d) m))"
proof (induction fs arbitrary: d)
  case Nil
  then show ?case by (intro exI [of _ "db_tables d"]) (simp add: db_ret_def)
next
  case (Cons f fs)
  obtain n g s where f: "f = (n, g, s)" by (cases f)
  define u where "u = (if g cfg \<noteq> [] then (db_tables d)\<lparr>t_config := tbl_upsert fst (\<lambda>old new. new) (n, g cfg) (t_config (db_tables d))\<rparr>
     else db_tables d)"
  have first: "(if g cfg \<noteq> [] then SetConfigValue n (g cfg) else db_ret ()) d = (Ret (), d\<lparr>db_tables := u\<rparr>)"
    using Cons.prems by (simp add: SetConfigValue_def sql_write_ok db_ret_def u_def)
  have "db_faults (d\<lparr>db_tables := u\<rparr>) = []" "distinct (map fst fs)" using Cons.prems by simp_all
  from Cons.IH [OF this] obtain t where
    "db_each (\<lambda>(n, g, s). if g cfg \<noteq> [] then SetConfigValue n (g cfg) else db_ret ()) fs (d\<lparr>db_tables := u\<rparr>)
        = (Ret (), (d\<lparr>db_tables := u\<rparr>)\<lparr>db_tables := t\<rparr>)
     \<and> (\<forall>m. config_value t m = (case map_of fs m of
          Some (g, s) \<Rightarrow> if g cfg \<noteq> [] then Some (g cfg) else config_value (db_tables (d\<lparr>db_tables := u\<rparr>)) m
        | None \<Rightarrow> config_value (db_tables (d\<lparr>db_tables := u\<rparr>)) m))"
    by (rule exE)
  then have rest: "db_each (\<lambda>(n, g, s). if g cfg \<noteq> [] then SetConfigValue n (g cfg) else db_ret ()) fs (d\<lparr>db_tables := u\<rparr>)
        = (Ret (), d\<lparr>db_tables := t\<rparr>)"
    and v: "\<And>m. config_value t m = (case map_of fs m of
          Some (g, s) \<Rightarrow> if g cfg \<noteq> [] then Some (g cfg) else config_value u m
        | None \<Rightarrow> config_value u m)"
    by (simp_all split: option.split)
  have no: "map_of fs n = None" using Cons.prems f by (simp add: map_of_eq_None_iff)
  have "config_value u m = (if m = n \<and> g cfg \<noteq> [] then Some (g cfg) else config_value (db_tables d) m)" for m
    by (simp add: config_value_upsert u_def)
  with first rest v no show ?case
    by (intro exI [of _ t]) (auto simp: f db_then_def split: option.split)
qed

lemma set_field:
  "(case x of None \<Rightarrow> c | Some v \<Rightarrow> c\<lparr>cfg_username := v\<rparr>) = c\<lparr>cfg_username := (case x of None \<Rightarrow> cfg_username c | Some v \<Rightarrow> v)\<rparr>"
  "(case x of None \<Rightarrow> c | Some v \<Rightarrow> c\<lparr>cfg_muninn := v\<rparr>) = c\<lparr>cfg_muninn := (case x of None \<Rightarrow> cfg_muninn c | Some v \<Rightarrow> v)\<rparr>"
  "(case x of None \<Rightarrow> c | Some v \<Rightarrow> c\<lparr>cfg_peer_id := v\<rparr>) = c\<lparr>cfg_peer_id := (case x of None \<Rightarrow> cfg_peer_id c | Some v \<Rightarrow> v)\<rparr>"
  "(case x of None \<Rightarrow> c | Some v \<Rightarrow> c\<lparr>cfg_ttl := v\<rparr>) = c\<lparr>cfg_ttl := (case x of None \<Rightarrow> cfg_ttl c | Some v \<Rightarrow> v)\<rparr>"
  "(case x of None \<Rightarrow> c | Some v \<Rightarrow> c\<lparr>cfg_flag := v\<rparr>) = c\<lparr>cfg_flag := (case x of None \<Rightarrow> cfg_flag c | Some v \<Rightarrow> v)\<rparr>"
  "(case x of None \<Rightarrow> c | Some v \<Rightarrow> c\<lparr>cfg_turn_addr := v\<rparr>) = c\<lparr>cfg_turn_addr := (case x of None \<Rightarrow> cfg_turn_addr c | Some v \<Rightarrow> v)\<rparr>"
  "(case x of None \<Rightarrow> c | Some v \<Rightarrow> c\<lparr>cfg_turn_user := v\<rparr>) = c\<lparr>cfg_turn_user := (case x of None \<Rightarrow> cfg_turn_user c | Some v \<Rightarrow> v)\<rparr>"
  "(case x of None \<Rightarrow> c | Some v \<Rightarrow> c\<lparr>cfg_turn_pass := v\<rparr>) = c\<lparr>cfg_turn_pass := (case x of None \<Rightarrow> cfg_turn_pass c | Some v \<Rightarrow> v)\<rparr>"
  by (cases x; simp)+

text \<open>
  A configuration that was saved to the file is the one the program starts with, but for the database
  path, which is not part of the file, when neither the environment nor the command line says
  otherwise. \<open>peer_id\<close> is left out of the file when it is empty.
\<close>

lemma Parse_saved:
  assumes "Save marshal (\<lambda>data. (Ret (), Some data)) c old = (Ret (), file)" "cfg_username c \<noteq> []"
    and "\<And>data c0. marshal c = Ret data \<Longrightarrow> cfg_peer_id c0 = [] \<Longrightarrow> unmarshal data c0 = c\<lparr>cfg_db := cfg_db c0\<rparr>"
  shows "Parse unmarshal file [] (\<lambda>_. None) uuid = c\<lparr>cfg_db := ''huginn.db''\<rparr>"
proof -
  obtain data where data: "marshal c = Ret data" "file = Some data"
    using assms(1) by (auto simp: Save_def split: go.splits)
  then show ?thesis using data assms(2) assms(3) [OF data(1)] by (simp add: Parse_def empty_config_def)
qed

text \<open>
  Saving and loading the configuration is a merge: after a save on a working database,
  loading yields, field by field, the saved value where it is not empty, else the value stored
  before, else the empty string; the database path is not stored.
\<close>

theorem config_save_load:
  assumes "db_faults d = []" and "SaveAppConfig cfg d = (r, d1)" and "LoadAppConfig d1 = (Ret c, d2)"
  shows "r = Ret () \<and> cfg_db c = [] \<and>
     list_all (\<lambda>(n, g, s). g c = (if g cfg \<noteq> [] then g cfg
        else (case config_value (db_tables d) n of None \<Rightarrow> [] | Some v \<Rightarrow> v))) config_fields"
proof -
  have "distinct (map fst config_fields)" by (simp add: config_fields_def)
  from save_fields_ok [OF assms(1) this, of cfg] obtain t where
    save: "SaveAppConfig cfg d = (Ret (), d\<lparr>db_tables := t\<rparr>)"
    and v: "\<forall>m. config_value t m = (case map_of config_fields m of
          Some (g, s) \<Rightarrow> if g cfg \<noteq> [] then Some (g cfg) else config_value (db_tables d) m
        | None \<Rightarrow> config_value (db_tables d) m)"
    unfolding SaveAppConfig_def by blast
  have d1: "r = Ret ()" "d1 = d\<lparr>db_tables := t\<rparr>" using save assms(2) by simp_all
  have c: "c = fold (\<lambda>(n, g, s) c. case config_value t n of None \<Rightarrow> c | Some v \<Rightarrow> s v c) config_fields empty_config"
    using assms(1,3) by (auto simp: LoadAppConfig_def load_fields_ok d1 split: if_splits)
  have merged: "(case config_value t n of None \<Rightarrow> [] | Some v \<Rightarrow> v) = (if g cfg \<noteq> [] then g cfg
        else (case config_value (db_tables d) n of None \<Rightarrow> [] | Some v \<Rightarrow> v))"
    if "map_of config_fields n = Some (g, s)" for n g s
    using v that by simp
  have fields: "cfg_db c = [] \<and> list_all (\<lambda>(n, g, s). g c = (case config_value t n of None \<Rightarrow> [] | Some v \<Rightarrow> v)) config_fields"
    unfolding c by (simp add: config_fields_def empty_config_def set_field cong: option.case_cong)
  have look: "list_all (\<lambda>(n, g, s). map_of config_fields n = Some (g, s)) config_fields"
    by (simp add: config_fields_def)
  have "g c = (if g cfg \<noteq> [] then g cfg else (case config_value (db_tables d) n of None \<Rightarrow> [] | Some v \<Rightarrow> v))"
    if "(n, g, s) \<in> set config_fields" for n g s
  proof -
    have "g c = (case config_value t n of None \<Rightarrow> [] | Some v \<Rightarrow> v)" and "map_of config_fields n = Some (g, s)"
      using that fields look by (auto simp: list_all_iff)
    with merged show ?thesis by simp
  qed
  then show ?thesis using fields d1(1) by (auto simp: list_all_iff)
qed

lemma config_save_load_witness:
  "\<exists>c d2. LoadAppConfig (snd (SaveAppConfig (empty_config\<lparr>cfg_username := ''ann''\<rparr>) \<lparr>db_tables = no_tables, db_faults = []\<rparr>)) = (Ret c, d2)
     \<and> cfg_db c = []"
proof -
  let ?d = "\<lparr>db_tables = no_tables, db_faults = []\<rparr>"
  let ?cfg = "empty_config\<lparr>cfg_username := ''ann''\<rparr>"
  obtain r d1 where a: "SaveAppConfig ?cfg ?d = (r, d1)" by fastforce
  have "db_tables d1 = no_tables\<lparr>t_config := [(''username'', ''ann'')]\<rparr>" "db_faults d1 = []"
    using a by (auto simp: SaveAppConfig_def config_fields_def empty_config_def SetConfigValue_def db_then_def
        sql_write_ok db_ret_def tbl_upsert_def tbl_has_def no_tables_def)
  then have "list_ex (\<lambda>(n, g, s). config_value (db_tables d1) n \<noteq> None) config_fields" "db_faults d1 = []"
    by (simp_all add: config_fields_def config_value_def tbl_find_def)
  then have "\<exists>c. LoadAppConfig d1 = (Ret c, d1)"
    by (simp add: LoadAppConfig_def load_fields_ok)
  then obtain c where b: "LoadAppConfig d1 = (Ret c, d1)" by blast
  show ?thesis using config_save_load [OF _ a b] a b by auto
qed

end
