(* ===== verification/WebRTC.thy ===== *)
theory WebRTC
  imports GoStrings
begin

text \<open>
  \<open>internal/webrtc\<close>: the frames peers exchange, the manager that keeps one connection and one
  data channel per peer, and the confirmed delivery of chunk batches.

  The WebRTC library is outside: a peer connection is an identity (a number, fresh for every
  connection made), a data channel belongs to a connection, and which channels are open
  (\<open>rtc_open\<close>), which sends fail (the schedule \<open>rtc_faults\<close>, one entry per send, none failing
  once it is used up) and how the library's calls end (the arguments \<open>ok\<close>) are inputs. What
  the manager hands to open channels is the trace \<open>rtc_sent\<close>. A frame that is not JSON is
  dropped by \<open>onMessage\<close>, so a frame here is its decoded content.
\<close>

section \<open>Frames\<close>

record RtcChat =
  rc_from :: string
  rc_text :: string
  rc_time :: int
  rc_msg :: string

record ChunkStoreRequest =
  cs_file :: string
  cs_index :: int
  cs_data :: bytes
  cs_sender :: string
  cs_recipient :: string
  cs_hash :: string
  cs_sig :: string
  cs_ttl :: int

record ChunkStoreBatchRequest =
  cb_request :: string
  cb_chunks :: "ChunkStoreRequest list"

record ChunkStoreAck =
  ca_request :: string
  ca_error :: string

record ChunkGetRequest =
  cg_file :: string
  cg_index :: int

record ReloginResponse =
  rr_keys :: string
  rr_transfer :: string
  rr_count :: int
  rr_sha :: string
  rr_error :: string

record ReloginChunk =
  rk_transfer :: string
  rk_index :: int
  rk_data :: bytes

record StateSyncManifest =
  sm_transfer :: string
  sm_checkpoint :: int
  sm_count :: int
  sm_sha :: string
  sm_error :: string

record StateSyncChunk =
  sk_transfer :: string
  sk_index :: int
  sk_data :: bytes

record StateSyncAck =
  sa_transfer :: string
  sa_checkpoint :: int
  sa_error :: string

datatype frame =
    ChatFrame RtcChat
  | ChunkStoreFrame ChunkStoreRequest
  | ChunkStoreBatchFrame ChunkStoreBatchRequest
  | ChunkStoreAckFrame ChunkStoreAck
  | ChunkGetFrame ChunkGetRequest
  | ChunkDataFrame ChunkStoreRequest
  | ReloginRequestFrame string
  | ReloginResponseFrame ReloginResponse
  | ReloginChunkFrame ReloginChunk
  | StateSyncRequestFrame
  | StateSyncManifestFrame StateSyncManifest
  | StateSyncChunkFrame StateSyncChunk
  | StateSyncAckFrame StateSyncAck

section \<open>The manager\<close>

datatype channel = Channel (chan_pc: nat) (chan_no: nat)

record chunkStoreWaiter =
  w_peer :: string
  w_result :: "ChunkStoreAck option"

record Manager =
  rtc_local :: string
  rtc_conns :: "string \<Rightarrow> nat option"
  rtc_chans :: "string \<Rightarrow> channel option"
  rtc_next :: nat
  rtc_open :: "channel set"
  rtc_closed :: "nat list"
  rtc_remote :: "(nat \<times> string) list"
  rtc_chat :: "RtcChat list"
  rtc_acks :: "string \<Rightarrow> chunkStoreWaiter option"
  rtc_faults :: "bool list"
  rtc_sent :: "(string \<times> frame) list"

definition NewManager :: "string \<Rightarrow> Manager" where
  "NewManager localID =
     \<lparr>rtc_local = localID, rtc_conns = (\<lambda>_. None), rtc_chans = (\<lambda>_. None), rtc_next = 0, rtc_open = {},
      rtc_closed = [], rtc_remote = [], rtc_chat = [], rtc_acks = (\<lambda>_. None), rtc_faults = [], rtc_sent = []\<rparr>"

definition IsConnected :: "Manager \<Rightarrow> string \<Rightarrow> bool" where
  "IsConnected m remoteID =
     (case rtc_chans m remoteID of None \<Rightarrow> False | Some dc \<Rightarrow> dc \<in> rtc_open m)"

definition HasConnection :: "Manager \<Rightarrow> string \<Rightarrow> bool" where
  "HasConnection m remoteID = (rtc_conns m remoteID \<noteq> None)"

text \<open>\<open>dc.Send\<close>: fails on a channel that is not open, and whenever the schedule says so.\<close>

definition dc_send :: "string \<Rightarrow> channel \<Rightarrow> frame \<Rightarrow> Manager \<Rightarrow> unit go \<times> Manager" where
  "dc_send remoteID dc f m =
     (let failing = (case rtc_faults m of [] \<Rightarrow> False | b # _ \<Rightarrow> b);
          m1 = m\<lparr>rtc_faults := tl (rtc_faults m)\<rparr>
      in if failing \<or> dc \<notin> rtc_open m then (Err ''send'', m1)
         else (Ret (), m1\<lparr>rtc_sent := rtc_sent m @ [(remoteID, f)]\<rparr>))"

definition sendEnvelope :: "string \<Rightarrow> frame \<Rightarrow> Manager \<Rightarrow> unit go \<times> Manager" where
  "sendEnvelope remoteID f m =
     (case rtc_chans m remoteID of
        None \<Rightarrow> (Err (''no data channel to '' @ remoteID), m)
      | Some dc \<Rightarrow>
         if dc \<notin> rtc_open m then (Err (''data channel to '' @ remoteID @ '' is not open''), m)
         else dc_send remoteID dc f m)"

text \<open>\<open>SendMessage\<close>, \<open>SendChunkStore\<close>, \<open>SendChunkStoreBatch\<close> and \<open>SendChunkGet\<close> leave the check of
  the channel's state to the library.\<close>

definition send_unchecked :: "string \<Rightarrow> frame \<Rightarrow> Manager \<Rightarrow> unit go \<times> Manager" where
  "send_unchecked remoteID f m =
     (case rtc_chans m remoteID of
        None \<Rightarrow> (Err (''no data channel to '' @ remoteID), m)
      | Some dc \<Rightarrow> dc_send remoteID dc f m)"

definition RtcSendMessage :: "string \<Rightarrow> string \<Rightarrow> int \<Rightarrow> string \<Rightarrow> Manager \<Rightarrow> unit go \<times> Manager" where
  "RtcSendMessage remoteID txt timestamp msgID m =
     send_unchecked remoteID
       (ChatFrame \<lparr>rc_from = rtc_local m, rc_text = txt, rc_time = timestamp, rc_msg = msgID\<rparr>) m"

definition SendChunkStore :: "string \<Rightarrow> ChunkStoreRequest \<Rightarrow> Manager \<Rightarrow> unit go \<times> Manager" where
  "SendChunkStore remoteID req m = send_unchecked remoteID (ChunkStoreFrame req) m"

definition SendChunkStoreBatch :: "string \<Rightarrow> ChunkStoreBatchRequest \<Rightarrow> Manager \<Rightarrow> unit go \<times> Manager" where
  "SendChunkStoreBatch remoteID batch m = send_unchecked remoteID (ChunkStoreBatchFrame batch) m"

definition SendChunkGet :: "string \<Rightarrow> ChunkGetRequest \<Rightarrow> Manager \<Rightarrow> unit go \<times> Manager" where
  "SendChunkGet remoteID req m = send_unchecked remoteID (ChunkGetFrame req) m"

text \<open>\<open>BufferedAmount\<close>: the bytes waiting on the channel are the library's \<open>amount\<close>.\<close>

definition BufferedAmount :: "(channel \<Rightarrow> nat) \<Rightarrow> Manager \<Rightarrow> string \<Rightarrow> nat option" where
  "BufferedAmount amount m remoteID =
     (case rtc_chans m remoteID of
        None \<Rightarrow> None
      | Some dc \<Rightarrow> if dc \<in> rtc_open m then Some (amount dc) else None)"

section \<open>Connections\<close>

definition Close :: "string \<Rightarrow> Manager \<Rightarrow> Manager" where
  "Close remoteID m =
     (let pc = rtc_conns m remoteID;
          m1 = m\<lparr>rtc_conns := (rtc_conns m)(remoteID := None), rtc_chans := (rtc_chans m)(remoteID := None)\<rparr>
      in case pc of None \<Rightarrow> m1 | Some p \<Rightarrow> m1\<lparr>rtc_closed := rtc_closed m @ [p]\<rparr>)"

definition CloseAll :: "nat list \<Rightarrow> Manager \<Rightarrow> Manager" where
  "CloseAll connections m =
     m\<lparr>rtc_conns := (\<lambda>_. None), rtc_chans := (\<lambda>_. None), rtc_closed := rtc_closed m @ connections\<rparr>"

text \<open>The two places where a new connection and the channel of an offer are entered, under the lock.\<close>

definition enter_connection :: "string \<Rightarrow> Manager \<Rightarrow> Manager" where
  [simp]: "enter_connection remoteID m =
     m\<lparr>rtc_conns := (rtc_conns m)(remoteID \<mapsto> rtc_next m), rtc_next := Suc (rtc_next m)\<rparr>"

definition enter_channel :: "string \<Rightarrow> nat \<Rightarrow> Manager \<Rightarrow> Manager" where
  [simp]: "enter_channel remoteID pc m =
     (if rtc_conns m remoteID = Some pc then m\<lparr>rtc_chans := (rtc_chans m)(remoteID \<mapsto> Channel pc 0)\<rparr> else m)"

definition NewPeerConnection :: "bool \<Rightarrow> string \<Rightarrow> Manager \<Rightarrow> nat go \<times> Manager" where
  "NewPeerConnection ok remoteID m =
     (let m1 = Close remoteID m in
      if \<not> ok then (Err ''new pc'', m1)
      else (Ret (rtc_next m1), enter_connection remoteID m1))"

text \<open>The callbacks a connection and its channels make, whenever they come.\<close>

definition OnDataChannel :: "string \<Rightarrow> nat \<Rightarrow> nat \<Rightarrow> Manager \<Rightarrow> Manager" where
  "OnDataChannel remoteID pc no m =
     (if rtc_conns m remoteID = Some pc
      then m\<lparr>rtc_chans := (rtc_chans m)(remoteID \<mapsto> Channel pc no)\<rparr> else m)"

datatype conn_state = ConnNew | Connecting | Connected | Disconnected | Failed | Closed

definition OnConnectionStateChange :: "string \<Rightarrow> nat \<Rightarrow> conn_state \<Rightarrow> Manager \<Rightarrow> Manager \<times> bool" where
  "OnConnectionStateChange remoteID pc s m =
     (if s = Disconnected \<or> s = Failed \<or> s = Closed then
        (if rtc_conns m remoteID = Some pc
         then m\<lparr>rtc_conns := (rtc_conns m)(remoteID := None), rtc_chans := (rtc_chans m)(remoteID := None)\<rparr>
         else m, True)
      else (m, False))"

definition CreateOffer :: "(nat \<Rightarrow> bool) \<Rightarrow> string \<Rightarrow> string \<Rightarrow> Manager \<Rightarrow> string go \<times> Manager" where
  "CreateOffer ok sdp remoteID m =
     (case NewPeerConnection (ok 0) remoteID m of
        (Ret pc, m1) \<Rightarrow>
          if \<not> ok 1 then (Err ''create dc'', Close remoteID m1)
          else (let m2 = enter_channel remoteID pc m1
                in if \<not> ok 2 then (Err ''create offer'', Close remoteID m2)
                   else if \<not> ok 3 then (Err ''set local desc'', Close remoteID m2)
                   else (Ret sdp, m2))
      | (Err e, m1) \<Rightarrow> (Err e, m1)
      | (Panic e, m1) \<Rightarrow> (Panic e, m1))"

text \<open>\<open>pc.SetRemoteDescription\<close>, on a connection: the descriptions given to each are \<open>rtc_remote\<close>.\<close>

definition describe :: "nat \<Rightarrow> string \<Rightarrow> Manager \<Rightarrow> Manager" where
  "describe pc desc m = m\<lparr>rtc_remote := rtc_remote m @ [(pc, desc)]\<rparr>"

definition HandleOffer :: "(nat \<Rightarrow> bool) \<Rightarrow> string \<Rightarrow> string \<Rightarrow> string \<Rightarrow> Manager \<Rightarrow> string go \<times> Manager" where
  "HandleOffer ok sdp remoteID offer m =
     (case NewPeerConnection (ok 0) remoteID m of
        (Ret pc, m1) \<Rightarrow>
          if \<not> ok 1 then (Err ''set remote'', Close remoteID m1)
          else (let m2 = describe pc offer m1 in
                if \<not> ok 2 then (Err ''create answer'', Close remoteID m2)
                else if \<not> ok 3 then (Err ''set local answer'', Close remoteID m2)
                else (Ret sdp, m2))
      | (Err e, m1) \<Rightarrow> (Err e, m1)
      | (Panic e, m1) \<Rightarrow> (Panic e, m1))"

definition SetRemoteDescription :: "bool \<Rightarrow> string \<Rightarrow> string \<Rightarrow> Manager \<Rightarrow> unit go \<times> Manager" where
  "SetRemoteDescription ok remoteID desc m =
     (case rtc_conns m remoteID of
        None \<Rightarrow> (Err (''no connection for '' @ remoteID), m)
      | Some pc \<Rightarrow> if ok then (Ret (), describe pc desc m) else (Err ''set remote description'', m))"

definition AddICECandidate :: "bool \<Rightarrow> string \<Rightarrow> Manager \<Rightarrow> unit go" where
  "AddICECandidate ok remoteID m =
     (case rtc_conns m remoteID of
        None \<Rightarrow> Err (''no connection for '' @ remoteID)
      | Some pc \<Rightarrow> if ok then Ret () else Err ''add ice candidate'')"

section \<open>What runs when a frame arrives\<close>

text \<open>
  \<open>onMessage\<close> calls the messenger back, on the goroutine of the channel (\<open>Direct\<close>) or through
  the worker pool (\<open>Async\<close>). A chat message goes into a channel of 100 and is dropped when it
  is full; an acknowledgement goes to the waiter inside the manager.
\<close>

datatype callback =
    OnChunkStore ChunkStoreRequest
  | OnChunkStoreBatch ChunkStoreBatchRequest
  | OnChunkGet ChunkGetRequest
  | OnReloginRequest string
  | OnReloginResponse ReloginResponse
  | OnReloginChunk ReloginChunk
  | OnStateSyncRequest
  | OnStateSyncManifest StateSyncManifest
  | OnStateSyncChunk StateSyncChunk
  | OnStateSyncAck StateSyncAck
  | OnPeerConnected
  | OnPeerDisconnected

datatype calling = NoCall | Direct callback | Async callback

definition chat_queue_size :: nat where
  "chat_queue_size = 100"

definition acceptChunkStoreAck :: "string \<Rightarrow> ChunkStoreAck \<Rightarrow> Manager \<Rightarrow> Manager" where
  "acceptChunkStoreAck peerID ack m =
     (case rtc_acks m (ca_request ack) of
        None \<Rightarrow> m
      | Some waiter \<Rightarrow>
         if w_peer waiter \<noteq> peerID then m
         else (case w_result waiter of
             Some _ \<Rightarrow> m
           | None \<Rightarrow> m\<lparr>rtc_acks := (rtc_acks m)(ca_request ack \<mapsto> waiter\<lparr>w_result := Some ack\<rparr>)\<rparr>))"

fun onMessage :: "string \<Rightarrow> frame \<Rightarrow> Manager \<Rightarrow> Manager \<times> calling" where
  "onMessage remoteID (ChatFrame chat) m =
     (if length (rtc_chat m) < chat_queue_size
      then m\<lparr>rtc_chat := rtc_chat m @ [chat\<lparr>rc_from := remoteID\<rparr>]\<rparr> else m, NoCall)"
| "onMessage remoteID (ChunkStoreFrame req) m = (m, Async (OnChunkStore req))"
| "onMessage remoteID (ChunkStoreBatchFrame batch) m = (m, Async (OnChunkStoreBatch batch))"
| "onMessage remoteID (ChunkStoreAckFrame ack) m = (acceptChunkStoreAck remoteID ack m, NoCall)"
| "onMessage remoteID (ChunkGetFrame req) m = (m, Direct (OnChunkGet req))"
| "onMessage remoteID (ChunkDataFrame req) m = (m, Async (OnChunkStore req))"
| "onMessage remoteID (ReloginRequestFrame sig) m = (m, Async (OnReloginRequest sig))"
| "onMessage remoteID (ReloginResponseFrame resp) m = (m, Direct (OnReloginResponse resp))"
| "onMessage remoteID (ReloginChunkFrame c) m = (m, Direct (OnReloginChunk c))"
| "onMessage remoteID StateSyncRequestFrame m = (m, Async OnStateSyncRequest)"
| "onMessage remoteID (StateSyncManifestFrame manifest) m = (m, Direct (OnStateSyncManifest manifest))"
| "onMessage remoteID (StateSyncChunkFrame c) m = (m, Direct (OnStateSyncChunk c))"
| "onMessage remoteID (StateSyncAckFrame ack) m = (m, Async (OnStateSyncAck ack))"

text \<open>The answer to a \<open>chunk_get\<close> whose callback found the block.\<close>

definition answer_chunk_get :: "string \<Rightarrow> ChunkGetRequest \<Rightarrow> bytes option \<Rightarrow> Manager \<Rightarrow> Manager" where
  "answer_chunk_get remoteID req result m =
     (case result of
        None \<Rightarrow> m
      | Some data \<Rightarrow> snd (sendEnvelope remoteID (ChunkDataFrame
           \<lparr>cs_file = cg_file req, cs_index = cg_index req, cs_data = data, cs_sender = [], cs_recipient = [],
            cs_hash = [], cs_sig = [], cs_ttl = 0\<rparr>) m))"

section \<open>Confirmed chunk batches\<close>

text \<open>
  The receiving side stores the chunks in order, stops at the first that fails, and answers
  when the batch carries a request id. The store is the callback \<open>chunkStore\<close>, on a state of
  the caller's.
\<close>

fun store_all :: "(ChunkStoreRequest \<Rightarrow> 's \<Rightarrow> unit go \<times> 's) \<Rightarrow> ChunkStoreRequest list \<Rightarrow> 's \<Rightarrow> string \<times> 's" where
  "store_all chunkStore [] s = ([], s)"
| "store_all chunkStore (req # reqs) s =
     (case chunkStore req s of
        (Ret _, s') \<Rightarrow> store_all chunkStore reqs s'
      | (_, s') \<Rightarrow> (''chunk storage failed'', s'))"

definition storeChunkBatch ::
    "(ChunkStoreRequest \<Rightarrow> 's \<Rightarrow> unit go \<times> 's) \<Rightarrow> ChunkStoreBatchRequest \<Rightarrow> 's \<Rightarrow> ChunkStoreAck option \<times> 's" where
  "storeChunkBatch chunkStore batch s =
     (case store_all chunkStore (cb_chunks batch) s of (e, s') \<Rightarrow>
        (if cb_request batch = [] then None
         else Some \<lparr>ca_request = cb_request batch, ca_error = e\<rparr>, s'))"

text \<open>
  The sending side: register a waiter under a new request id, send, wait. The frames that
  arrive during the wait are \<open>arrivals\<close>, in order; \<open>ended\<close> is what the wait ends with when no
  acknowledgement came (the timer, or the messenger's end), or when \<open>race\<close> is set and both
  came, as \<open>select\<close> may take either.
\<close>

definition SendChunkStoreBatchConfirmed ::
    "string \<Rightarrow> (string \<times> ChunkStoreAck) list \<Rightarrow> bool \<Rightarrow> string \<Rightarrow> string \<Rightarrow> ChunkStoreBatchRequest \<Rightarrow> Manager
      \<Rightarrow> unit go \<times> Manager" where
  "SendChunkStoreBatchConfirmed request arrivals race ended peerID batch m =
     (let batch = batch\<lparr>cb_request := request\<rparr>;
          m1 = m\<lparr>rtc_acks := (rtc_acks m)(request \<mapsto> \<lparr>w_peer = peerID, w_result = None\<rparr>)\<rparr>;
          forget = (\<lambda>m. m\<lparr>rtc_acks := (rtc_acks m)(request := None)\<rparr>)
      in case sendEnvelope peerID (ChunkStoreBatchFrame batch) m1 of
           (Ret _, m2) \<Rightarrow>
             (let m3 = fold (\<lambda>(p, ack). acceptChunkStoreAck p ack) arrivals m2 in
              case rtc_acks m3 request of
                Some w \<Rightarrow>
                  (case w_result w of
                     Some ack \<Rightarrow>
                       if race then (Err ended, forget m3)
                       else if ca_error ack \<noteq> [] then (Err ''storage peer rejected chunk batch'', forget m3)
                       else (Ret (), forget m3)
                   | None \<Rightarrow> (Err ended, forget m3))
              | None \<Rightarrow> (Err ended, forget m3))
         | (Err e, m2) \<Rightarrow> (Err e, forget m2)
         | (Panic e, m2) \<Rightarrow> (Panic e, forget m2))"

section \<open>Connections and their channels\<close>

text \<open>
  Everything that changes the two maps: calls and callbacks, in any order. \<open>CreateOffer\<close> and
  \<open>HandleOffer\<close> hold the lock of the manager only for parts of their work, so that other calls
  and callbacks run in between: beside the calls as a whole there are their parts, each by itself
  (the removal of the old connection, which is also what ends a call that fails, is \<open>close\<close>).
  The lock on negotiating with one peer is held throughout, so a new connection is entered
  where the peer has none; the connection whose channel is entered, or that is given a
  description, may be any.
\<close>

inductive rtc_step :: "Manager \<Rightarrow> Manager \<Rightarrow> bool" where
  offer: "CreateOffer ok sdp p m = (r, m') \<Longrightarrow> rtc_step m m'"
| answer: "HandleOffer ok sdp p off m = (r, m') \<Longrightarrow> rtc_step m m'"
| entering: "rtc_conns m p = None \<Longrightarrow> rtc_step m (enter_connection p m)"
| channel: "rtc_step m (enter_channel p pc m)"
| description: "rtc_step m (describe pc desc m)"
| remote: "SetRemoteDescription ok p desc m = (r, m') \<Longrightarrow> rtc_step m m'"
| close: "rtc_step m (Close p m)"
| close_all: "set pcs = ran (rtc_conns m) \<Longrightarrow> rtc_step m (CloseAll pcs m)"
| data_channel: "rtc_step m (OnDataChannel p pc no m)"
| conn_state: "OnConnectionStateChange p pc s m = (m', b) \<Longrightarrow> rtc_step m m'"
| frame_in: "onMessage p f m = (m', c) \<Longrightarrow> rtc_step m m'"
| frame_out: "sendEnvelope p f m = (r, m') \<Longrightarrow> rtc_step m m'"
| environment: "rtc_step m (m\<lparr>rtc_open := S\<rparr>)"

definition rtc_ok :: "Manager \<Rightarrow> bool" where
  "rtc_ok m \<longleftrightarrow>
     (\<forall>p dc. rtc_chans m p = Some dc \<longrightarrow> rtc_conns m p = Some (chan_pc dc))
     \<and> (\<forall>p q pc. rtc_conns m p = Some pc \<longrightarrow> rtc_conns m q = Some pc \<longrightarrow> p = q)
     \<and> (\<forall>p pc. rtc_conns m p = Some pc \<longrightarrow> pc < rtc_next m \<and> pc \<notin> set (rtc_closed m))
     \<and> (\<forall>pc \<in> set (rtc_closed m). pc < rtc_next m)"


lemma rtc_ok_new: "rtc_ok (NewManager p)"
  by (simp add: rtc_ok_def NewManager_def)

lemma rtc_ok_Close: "rtc_ok m \<Longrightarrow> rtc_ok (Close p m)"
  by (cases "rtc_conns m p") (auto simp: rtc_ok_def Close_def)

lemma Close_none [simp]: "rtc_conns (Close p m) p = None"
  by (simp add: Close_def Let_def split: option.split)

lemma rtc_ok_NewPeerConnection: "rtc_ok m \<Longrightarrow> rtc_ok (snd (NewPeerConnection ok p m))"
proof -
  assume "rtc_ok m"
  then have "rtc_ok (Close p m)" by (rule rtc_ok_Close)
  moreover have "rtc_chans (Close p m) p = None" by (simp add: Close_def Let_def split: option.split)
  ultimately show ?thesis
    unfolding rtc_ok_def NewPeerConnection_def Let_def by (auto simp: less_Suc_eq split: if_splits)
qed

lemma NewPeerConnection_Ret:
  "NewPeerConnection ok p m = (Ret pc, m') \<Longrightarrow> rtc_conns m' p = Some pc"
  by (auto simp: NewPeerConnection_def Let_def split: if_splits)

lemma rtc_ok_channel: "rtc_ok m \<Longrightarrow> rtc_conns m p = Some pc \<Longrightarrow> rtc_ok (m\<lparr>rtc_chans := (rtc_chans m)(p \<mapsto> Channel pc no)\<rparr>)"
  by (auto simp: rtc_ok_def)

lemma rtc_ok_CreateOffer: "rtc_ok m \<Longrightarrow> rtc_ok (snd (CreateOffer ok sdp p m))"
proof -
  assume m: "rtc_ok m"
  obtain r m1 where n: "NewPeerConnection (ok 0) p m = (r, m1)" by fastforce
  then have m1: "rtc_ok m1" using rtc_ok_NewPeerConnection [OF m, of "ok 0" p] by simp
  show ?thesis
  proof (cases r)
    case (Ret pc)
    then have c: "rtc_conns m1 p = Some pc" using n by (simp add: NewPeerConnection_Ret)
    show ?thesis
      using m1 rtc_ok_channel [OF m1 c, of 0] by (simp add: CreateOffer_def n Ret c Let_def rtc_ok_Close)
  qed (simp_all add: CreateOffer_def n m1)
qed

lemma same_describe: "rtc_ok (describe pc d m) = rtc_ok m"
  by (simp add: describe_def rtc_ok_def)

lemma rtc_ok_HandleOffer: "rtc_ok m \<Longrightarrow> rtc_ok (snd (HandleOffer ok sdp p off m))"
proof -
  assume m: "rtc_ok m"
  obtain r m1 where n: "NewPeerConnection (ok 0) p m = (r, m1)" by fastforce
  then have m1: "rtc_ok m1" using rtc_ok_NewPeerConnection [OF m, of "ok 0" p] by simp
  show ?thesis by (cases r) (simp_all add: HandleOffer_def n m1 rtc_ok_Close same_describe Let_def)
qed

text \<open>What leaves the connections alone.\<close>

definition same_conns :: "Manager \<Rightarrow> Manager \<Rightarrow> bool" where
  "same_conns m m' \<longleftrightarrow> rtc_conns m' = rtc_conns m \<and> rtc_chans m' = rtc_chans m
     \<and> rtc_next m' = rtc_next m \<and> rtc_closed m' = rtc_closed m"

lemma same_conns_ok: "same_conns m m' \<Longrightarrow> rtc_ok m' = rtc_ok m"
  by (simp add: same_conns_def rtc_ok_def)

lemma same_conns_send: "sendEnvelope p f m = (r, m') \<Longrightarrow> same_conns m m'"
  by (auto simp: sendEnvelope_def dc_send_def Let_def same_conns_def split: option.splits if_splits)

lemma same_conns_ack: "same_conns m (acceptChunkStoreAck p ack m)"
  by (simp add: acceptChunkStoreAck_def same_conns_def split: option.split)

lemma same_conns_onMessage: "onMessage p f m = (m', c) \<Longrightarrow> same_conns m m'"
  by (cases f) (auto simp: same_conns_ack, auto simp: same_conns_def split: if_splits)

lemma rtc_step_ok: "rtc_step m m' \<Longrightarrow> rtc_ok m \<Longrightarrow> rtc_ok m'"
proof (induction rule: rtc_step.induct)
  case (offer ok sdp p m r m')
  then show ?case using rtc_ok_CreateOffer [of m ok sdp p] by simp
next
  case (answer ok sdp p off m r m')
  then show ?case using rtc_ok_HandleOffer [of m ok sdp p off] by simp
next
  case (remote ok p desc m r m')
  then show ?case by (auto simp: SetRemoteDescription_def same_describe split: option.splits if_splits)
next
  case (entering m p)
  then have "rtc_chans m p = None" by (cases "rtc_chans m p") (auto simp: rtc_ok_def)
  with entering show ?case by (auto simp: rtc_ok_def less_Suc_eq)
next
  case (channel m p pc)
  then show ?case by (simp add: rtc_ok_channel)
next
  case (description m pc desc)
  then show ?case by (simp add: same_describe)
next
  case (close_all pcs m)
  then show ?case by (auto simp: rtc_ok_def CloseAll_def ran_def)
next
  case (data_channel m p pc no)
  then show ?case by (simp add: OnDataChannel_def rtc_ok_channel)
next
  case (conn_state p pc s m m' b)
  then show ?case by (auto simp: OnConnectionStateChange_def rtc_ok_def split: if_splits)
next
  case (frame_in p f m m' c)
  then show ?case using same_conns_ok [OF same_conns_onMessage] by blast
next
  case (frame_out p f m r m')
  then show ?case using same_conns_ok [OF same_conns_send] by blast
qed (simp_all add: rtc_ok_Close, simp add: rtc_ok_def)

lemma rtc_steps_ok: "rtc_step\<^sup>*\<^sup>* m m' \<Longrightarrow> rtc_ok m \<Longrightarrow> rtc_ok m'"
  by (induction rule: rtranclp_induct) (auto intro: rtc_step_ok)

text \<open>A connection that was closed never comes back, as numbers are not used twice.\<close>

lemma closed_kept: "rtc_step m m' \<Longrightarrow> rtc_ok m \<Longrightarrow> set (rtc_closed m) \<subseteq> set (rtc_closed m')"
proof (induction rule: rtc_step.induct)
  case (offer ok sdp p m r m')
  then show ?case
    by (auto simp: CreateOffer_def NewPeerConnection_def Close_def Let_def
        split: go.splits if_splits option.splits)
next
  case (answer ok sdp p off m r m')
  then show ?case
    by (auto simp: HandleOffer_def NewPeerConnection_def Close_def describe_def Let_def
        split: go.splits if_splits option.splits)
next
  case (frame_in p f m m' c)
  then show ?case using same_conns_onMessage [of p f m m' c] by (simp add: same_conns_def)
next
  case (frame_out p f m r m')
  then show ?case using same_conns_send [of p f m r m'] by (simp add: same_conns_def)
next
  case (remote ok p desc m r m')
  then show ?case by (auto simp: SetRemoteDescription_def describe_def split: option.splits if_splits)
qed (auto simp: Close_def Let_def CloseAll_def OnDataChannel_def OnConnectionStateChange_def describe_def
    split: option.splits if_splits)

lemma closed_steps: "rtc_step\<^sup>*\<^sup>* m m' \<Longrightarrow> rtc_ok m \<Longrightarrow> set (rtc_closed m) \<subseteq> set (rtc_closed m')"
proof (induction rule: rtranclp_induct)
  case (step y z)
  then show ?case using closed_kept rtc_steps_ok by blast
qed simp

text \<open>
  C8. A data channel is only ever kept under a peer together with the connection it belongs
  to, and no connection serves two peers: whatever calls and callbacks come in whatever
  order, what is sent to a peer goes out on a channel of that peer's current connection.
\<close>

theorem channels_belong_to_current:
  assumes "rtc_step\<^sup>*\<^sup>* (NewManager me) m" and "rtc_chans m p = Some dc"
  shows "rtc_conns m p = Some (chan_pc dc) \<and> (\<forall>q. q \<noteq> p \<longrightarrow> rtc_conns m q \<noteq> Some (chan_pc dc))"
  using rtc_steps_ok [OF assms(1) rtc_ok_new] assms(2) unfolding rtc_ok_def by blast

lemma channels_belong_to_current_witness:
  "\<exists>m :: Manager. rtc_chans m ''p'' = Some (Channel 0 0) \<and>
     (rtc_conns m ''p'' = Some (chan_pc (Channel 0 0)) \<and> (\<forall>q. q \<noteq> ''p'' \<longrightarrow> rtc_conns m q \<noteq> Some (chan_pc (Channel 0 0))))"
proof -
  define m where "m = snd (CreateOffer (\<lambda>_. True) ''sdp'' ''p'' (NewManager ''a''))"
  have s: "rtc_step (NewManager ''a'') m" unfolding m_def by (rule offer [OF prod.collapse [symmetric]])
  have c: "rtc_chans m ''p'' = Some (Channel 0 0)" unfolding m_def by code_simp
  show ?thesis
    by (rule exI [of _ m], rule conjI [OF c channels_belong_to_current [OF r_into_rtranclp [where r = rtc_step, OF s] c]])
qed

text \<open>
  Callbacks that come late do no harm: once a connection of a peer has been closed or
  replaced, nothing its channels or its state do changes which connection and channel the
  peer has, however much has happened since.
\<close>

theorem late_callbacks_ignored:
  assumes "rtc_step\<^sup>*\<^sup>* (NewManager me) m" and "pc \<in> set (rtc_closed m)" and "rtc_step\<^sup>*\<^sup>* m m'"
  shows "OnDataChannel p pc no m' = m' \<and> fst (OnConnectionStateChange p pc s m') = m'"
proof -
  have ok: "rtc_ok m" using rtc_steps_ok [OF assms(1) rtc_ok_new] .
  then have "pc \<in> set (rtc_closed m')" and "rtc_ok m'"
    using closed_steps [OF assms(3) ok] rtc_steps_ok [OF assms(3) ok] assms(2) by auto
  then have "rtc_conns m' p \<noteq> Some pc" unfolding rtc_ok_def by blast
  then show ?thesis by (simp add: OnDataChannel_def OnConnectionStateChange_def)
qed

lemma late_callbacks_ignored_witness:
  "\<exists>m. rtc_conns m ''p'' = Some 1 \<and> OnDataChannel ''p'' 0 7 m = m \<and>
     fst (OnConnectionStateChange ''p'' 0 Failed m) = m"
proof -
  define m1 where "m1 = snd (CreateOffer (\<lambda>_. True) ''sdp'' ''p'' (NewManager ''a''))"
  define m where "m = snd (HandleOffer (\<lambda>_. True) ''sdp'' ''p'' ''offer'' m1)"
  have s1: "rtc_step (NewManager ''a'') m1" unfolding m1_def by (rule offer [OF prod.collapse [symmetric]])
  have s2: "rtc_step m1 m" unfolding m_def by (rule answer [OF prod.collapse [symmetric]])
  have s: "rtc_step\<^sup>*\<^sup>* (NewManager ''a'') m" by (rule rtranclp.rtrancl_into_rtrancl [where r = rtc_step, OF r_into_rtranclp [where r = rtc_step, OF s1] s2])
  have c1: "0 \<in> set (rtc_closed m)" unfolding m_def m1_def by code_simp
  have c2: "rtc_conns m ''p'' = Some 1" unfolding m_def m1_def by code_simp
  show ?thesis
    by (rule exI [of _ m], rule conjI [OF c2 late_callbacks_ignored [OF s c1 rtranclp.rtrancl_refl]])
qed

section \<open>What a confirmation means\<close>

text \<open>The acknowledgements of a request that come from the peer it was sent to.\<close>

definition answers :: "string \<Rightarrow> string \<Rightarrow> (string \<times> ChunkStoreAck) list \<Rightarrow> ChunkStoreAck list" where
  "answers peerID request arrivals =
     map snd (filter (\<lambda>(p, ack). p = peerID \<and> ca_request ack = request) arrivals)"

lemma accept_other: "ca_request ack \<noteq> request \<Longrightarrow> rtc_acks (acceptChunkStoreAck p ack m) request = rtc_acks m request"
  by (simp add: acceptChunkStoreAck_def split: option.split)

lemma accept_acks:
  assumes "rtc_acks m request = Some \<lparr>w_peer = peerID, w_result = r\<rparr>"
  shows "rtc_acks (fold (\<lambda>(p, ack). acceptChunkStoreAck p ack) arrivals m) request =
     Some \<lparr>w_peer = peerID, w_result = (case r of Some a \<Rightarrow> Some a
       | None \<Rightarrow> (case answers peerID request arrivals of [] \<Rightarrow> None | a # _ \<Rightarrow> Some a))\<rparr>"
  using assms
proof (induction arrivals arbitrary: m r)
  case Nil
  then show ?case by (simp add: answers_def split: option.split)
next
  case (Cons x arrivals)
  obtain p ack where x: "x = (p, ack)" by fastforce
  show ?case
  proof (cases "ca_request ack = request \<and> p = peerID \<and> r = None")
    case True
    then have "rtc_acks (acceptChunkStoreAck p ack m) request = Some \<lparr>w_peer = peerID, w_result = Some ack\<rparr>"
      using Cons.prems by (simp add: acceptChunkStoreAck_def)
    from Cons.IH [OF this] True show ?thesis by (simp add: x answers_def)
  next
    case False
    then have "rtc_acks (acceptChunkStoreAck p ack m) request = Some \<lparr>w_peer = peerID, w_result = r\<rparr>"
      using Cons.prems by (cases "ca_request ack = request")
        (auto simp: accept_other, auto simp: acceptChunkStoreAck_def split: option.split)
    from Cons.IH [OF this] False show ?thesis by (auto simp: x answers_def split: option.split)
  qed
qed

lemma send_acks: "sendEnvelope p f m = (r, m') \<Longrightarrow> rtc_acks m' = rtc_acks m"
  by (auto simp: sendEnvelope_def dc_send_def Let_def split: option.splits if_splits)

lemma sendEnvelope_Ret: "sendEnvelope p f m = (Ret u, m') \<Longrightarrow> rtc_sent m' = rtc_sent m @ [(p, f)] \<and> IsConnected m p"
  by (auto simp: sendEnvelope_def dc_send_def IsConnected_def Let_def split: option.splits if_splits)

lemma sendEnvelope_not_Ret: "sendEnvelope p f m = (r, m') \<Longrightarrow> r \<noteq> Ret () \<Longrightarrow> rtc_sent m' = rtc_sent m"
  by (auto simp: sendEnvelope_def dc_send_def Let_def split: option.splits if_splits)

lemma sendEnvelope_sent: "sendEnvelope p f m = (r, m') \<Longrightarrow>
    rtc_sent m' = rtc_sent m @ (if r = Ret () then [(p, f)] else [])"
  by (cases r) (auto dest: sendEnvelope_Ret sendEnvelope_not_Ret)

lemma accepts_sent: "rtc_sent (fold (\<lambda>(p, ack). acceptChunkStoreAck p ack) arrivals m) = rtc_sent m"
proof (induction arrivals arbitrary: m)
  case (Cons x arrivals)
  have "rtc_sent (acceptChunkStoreAck p ack m) = rtc_sent m" for p ack
    by (simp add: acceptChunkStoreAck_def split: option.split)
  then show ?case using Cons by (cases x) simp
qed simp

lemma confirmed_cases:
  "case SendChunkStoreBatchConfirmed request arrivals race ended p batch m of (r, m') \<Rightarrow>
   case sendEnvelope p (ChunkStoreBatchFrame (batch\<lparr>cb_request := request\<rparr>))
          (m\<lparr>rtc_acks := (rtc_acks m)(request \<mapsto> \<lparr>w_peer = p, w_result = None\<rparr>)\<rparr>) of (s, m1) \<Rightarrow>
     (r = Ret () \<longleftrightarrow>
        s = Ret () \<and> (\<exists>ack rest. answers p request arrivals = ack # rest \<and> ca_error ack = []) \<and> \<not> race)
     \<and> rtc_acks m' request = None \<and> rtc_sent m' = rtc_sent m1"
proof -
  let ?m1 = "m\<lparr>rtc_acks := (rtc_acks m)(request \<mapsto> \<lparr>w_peer = p, w_result = None\<rparr>)\<rparr>"
  let ?f = "ChunkStoreBatchFrame (batch\<lparr>cb_request := request\<rparr>)"
  obtain s m2 where s: "sendEnvelope p ?f ?m1 = (s, m2)" by fastforce
  show ?thesis
  proof (cases s)
    case (Ret u)
    have "rtc_acks m2 request = Some \<lparr>w_peer = p, w_result = None\<rparr>"
      using send_acks [OF s] by simp
    note a = accept_acks [OF this, of arrivals]
    show ?thesis
      using s Ret a by (auto simp: SendChunkStoreBatchConfirmed_def accepts_sent Let_def split: list.splits)
  qed (use s in \<open>simp_all add: SendChunkStoreBatchConfirmed_def\<close>)
qed

text \<open>
  C7. A batch counts as confirmed exactly when it could be put on an open channel of the peer
  and the first acknowledgement with its request id that came from that very peer, in
  time, carries no error. Acknowledgements of other peers or other requests change nothing;
  whatever the outcome, no waiter stays behind.
\<close>

theorem batch_confirmed_iff:
  "case SendChunkStoreBatchConfirmed request arrivals race ended p batch m of (r, m') \<Rightarrow>
   case sendEnvelope p (ChunkStoreBatchFrame (batch\<lparr>cb_request := request\<rparr>))
          (m\<lparr>rtc_acks := (rtc_acks m)(request \<mapsto> \<lparr>w_peer = p, w_result = None\<rparr>)\<rparr>) of (s, m1) \<Rightarrow>
     (r = Ret () \<longleftrightarrow>
        s = Ret () \<and> (\<exists>ack rest. answers p request arrivals = ack # rest \<and> ca_error ack = []) \<and> \<not> race)
     \<and> rtc_acks m' request = None \<and> rtc_sent m' = rtc_sent m1"
  by (rule confirmed_cases)

text \<open>The storing side says no error only when every chunk was stored, in order.\<close>

lemma store_all_ok:
  "store_all f (reqs @ [req]) s = ([], s') \<longleftrightarrow> (\<exists>s1. store_all f reqs s = ([], s1) \<and> f req s1 = (Ret (), s'))"
  by (induction reqs arbitrary: s) (auto split: prod.splits go.splits)

lemma store_all_error: "fst (store_all f reqs s) \<in> {[], ''chunk storage failed''}"
  by (induction reqs arbitrary: s) (auto split: prod.splits go.splits)
end
