(* ===== verification/BlockTransfer.thy ===== *)
theory BlockTransfer
  imports Prelude
begin

text \<open>
  The part that relogin (\<open>relogin_replication.go\<close>) and state sync (\<open>state_replication.go\<close>)
  share: the sender cuts a payload into blocks of 32 KiB, the receiver collects them in a
  slice with one slot per block and a counter of the slots it has filled. A slot that is nil
  is free; as copying an empty block gives a nil slice, an empty block leaves its slot free
  and is counted each time it comes.

  The locale states what a collector of blocks promises; the theorem of its clients is that
  blocks sent in order and received in any order, with repetitions, complete the collector
  exactly when each has come once, and that the payload is then what was cut.
\<close>

definition reloginChunkSize :: nat where
  "reloginChunkSize = 32 * 1024"

lemma reloginChunkSize_pos [simp]: "0 < reloginChunkSize"
  by (simp add: reloginChunkSize_def)

record slots =
  sl_chunks :: "bytes list"
  sl_received :: nat

definition no_slots :: "nat \<Rightarrow> slots" where
  "no_slots n = \<lparr>sl_chunks = replicate n [], sl_received = 0\<rparr>"

definition fill_slot :: "nat \<Rightarrow> bytes \<Rightarrow> slots \<Rightarrow> slots" where
  "fill_slot i data s =
     (if sl_chunks s ! i = []
      then s\<lparr>sl_chunks := (sl_chunks s)[i := data], sl_received := Suc (sl_received s)\<rparr> else s)"

definition all_received :: "slots \<Rightarrow> bool" where
  "all_received s = (sl_received s = length (sl_chunks s))"

definition join_slots :: "slots \<Rightarrow> bytes" where
  "join_slots s = concat (sl_chunks s)"

section \<open>Collectors of blocks\<close>

locale reassembly =
  fixes start :: "nat \<Rightarrow> 's" and put :: "nat \<Rightarrow> bytes \<Rightarrow> 's \<Rightarrow> 's"
    and full :: "'s \<Rightarrow> bool" and join :: "'s \<Rightarrow> bytes"
    and good :: "'s \<Rightarrow> bool" and width :: "'s \<Rightarrow> nat" and slot :: "'s \<Rightarrow> nat \<Rightarrow> bytes"
  assumes good_start: "good (start n)" and width_start: "width (start n) = n"
    and slot_start: "i < n \<Longrightarrow> slot (start n) i = []"
    and good_put: "good s \<Longrightarrow> i < width s \<Longrightarrow> data \<noteq> [] \<Longrightarrow> good (put i data s)"
    and width_put: "width (put i data s) = width s"
    and slot_put: "good s \<Longrightarrow> i < width s \<Longrightarrow> j < width s \<Longrightarrow>
        slot (put i data s) j = (if j = i \<and> slot s i = [] then data else slot s j)"
    and full_iff: "good s \<Longrightarrow> full s \<longleftrightarrow> (\<forall>i < width s. slot s i \<noteq> [])"
    and join_slot: "join s = concat (map (slot s) [0..<width s])"
begin

definition collect :: "(nat \<times> bytes) list \<Rightarrow> 's \<Rightarrow> 's" where
  "collect arrivals s = fold (\<lambda>(i, data). put i data) arrivals s"

lemma collect_state:
  assumes "good s" "\<forall>(i, data) \<in> set arrivals. i < width s \<and> data = f i \<and> data \<noteq> []"
    and "\<forall>j < width s. slot s j \<in> {[], f j}"
  shows "good (collect arrivals s) \<and> width (collect arrivals s) = width s \<and>
     (\<forall>j < width s. slot (collect arrivals s) j = (if j \<in> fst ` set arrivals then f j else slot s j))"
  using assms
proof (induction arrivals arbitrary: s)
  case Nil
  then show ?case by (simp add: collect_def)
next
  case (Cons x arrivals)
  obtain i data where x: "x = (i, data)" by fastforce
  have i: "i < width s" "data = f i" "data \<noteq> []" using Cons.prems(2) x by auto
  let ?s = "put i data s"
  have w: "width ?s = width s" by (rule width_put)
  have sl: "slot ?s j = (if j = i then f i else slot s j)" if "j < width s" for j
    using Cons.prems(1,3) i that slot_put [of s i j data] by auto
  have "good (collect arrivals ?s) \<and> width (collect arrivals ?s) = width ?s \<and>
     (\<forall>j < width ?s. slot (collect arrivals ?s) j = (if j \<in> fst ` set arrivals then f j else slot ?s j))"
    using Cons.prems i w sl by (intro Cons.IH) (auto simp: good_put)
  moreover have "collect (x # arrivals) s = collect arrivals ?s" by (simp add: collect_def x)
  ultimately show ?case by (auto simp: w sl x)
qed

lemma collect_blocks:
  assumes k: "0 < k" and a: "set arrivals \<subseteq> (\<lambda>i. (i, block k payload i)) ` {..<block_count k payload}"
  shows "full (collect arrivals (start (block_count k payload)))
       \<longleftrightarrow> {..<block_count k payload} \<subseteq> fst ` set arrivals"
    and "full (collect arrivals (start (block_count k payload)))
       \<Longrightarrow> join (collect arrivals (start (block_count k payload))) = payload"
proof -
  let ?n = "block_count k payload" and ?s = "collect arrivals (start (block_count k payload))"
  have st: "good ?s \<and> width ?s = ?n \<and>
     (\<forall>j < ?n. slot ?s j = (if j \<in> fst ` set arrivals then block k payload j else []))"
  proof -
    have "\<forall>(i, data) \<in> set arrivals. i < width (start ?n) \<and> data = block k payload i \<and> data \<noteq> []"
      using a block_nonempty [OF k, of _ payload] by (fastforce simp: width_start)
    from collect_state [OF good_start this] show ?thesis by (simp add: width_start slot_start)
  qed
  then have full: "full ?s \<longleftrightarrow> (\<forall>j < ?n. slot ?s j \<noteq> [])" by (simp add: full_iff)
  also have "\<dots> \<longleftrightarrow> (\<forall>j < ?n. j \<in> fst ` set arrivals)"
    using st by (metis block_nonempty [OF k])
  finally show all: "full ?s \<longleftrightarrow> {..<?n} \<subseteq> fst ` set arrivals" by blast
  assume "full ?s"
  then have "\<forall>j < ?n. slot ?s j = block k payload j" using all st by auto
  then have "map (slot ?s) [0..<?n] = map (block k payload) [0..<?n]" by simp
  then show "join ?s = payload"
    using st concat_blocks_upto [OF k, of payload] by (simp only: join_slot)
qed

end

section \<open>The collector of the code\<close>

text \<open>The counter counts the slots that are filled, as long as no empty block was put.\<close>

definition slots_ok :: "slots \<Rightarrow> bool" where
  "slots_ok s = (sl_received s = length (filter (\<lambda>c. c \<noteq> []) (sl_chunks s)))"

lemma filter_update: "i < length xs \<Longrightarrow> xs ! i = [] \<Longrightarrow> data \<noteq> [] \<Longrightarrow>
    length (filter (\<lambda>c. c \<noteq> []) (xs[i := data])) = Suc (length (filter (\<lambda>c. c \<noteq> []) xs))"
proof (induction xs arbitrary: i)
  case (Cons x xs)
  then show ?case by (cases i) auto
qed simp

lemma filter_all: "length (filter P xs) = length xs \<longleftrightarrow> (\<forall>i < length xs. P (xs ! i))"
proof -
  have "length (filter P xs) = length xs \<longleftrightarrow> (\<forall>x \<in> set xs. P x)"
  proof (induction xs)
    case (Cons x xs)
    have "length (filter P xs) \<noteq> Suc (length xs)"
      using length_filter_le [of P xs] by linarith
    then show ?case using Cons.IH by auto
  qed simp
  then show ?thesis by (simp add: all_set_conv_all_nth)
qed

interpretation code: reassembly no_slots fill_slot all_received join_slots slots_ok
    "\<lambda>s. length (sl_chunks s)" "\<lambda>s i. sl_chunks s ! i"
proof (unfold_locales)
  fix s :: slots
  show "slots_ok s \<Longrightarrow> all_received s \<longleftrightarrow> (\<forall>i < length (sl_chunks s). sl_chunks s ! i \<noteq> [])"
    by (simp add: all_received_def slots_ok_def filter_all)
  show "join_slots s = concat (map (\<lambda>i. sl_chunks s ! i) [0..<length (sl_chunks s)])"
    by (simp add: join_slots_def map_nth)
qed (auto simp: slots_ok_def no_slots_def fill_slot_def filter_update nth_list_update)

end
