(* ===== verification/FilePath.thy ===== *)
theory FilePath
  imports GoStrings
begin

text \<open>
  The functions of Go's \<open>path/filepath\<close> (on Unix) that decide where files go: \<open>Clean\<close>,
  \<open>Join\<close>, \<open>Dir\<close> and \<open>Base\<close>. Paths are resolved lexically, as in Go.
\<close>

definition dots :: string where
  "dots = ''..''"

text \<open>The elements kept so far are in reverse.\<close>

fun resolve :: "bool \<Rightarrow> string list \<Rightarrow> string list \<Rightarrow> string list" where
  "resolve rooted acc [] = rev acc"
| "resolve rooted acc (c # cs) =
     (if c = [] \<or> c = ''.'' then resolve rooted acc cs
      else if c = dots then
        (case acc of
           [] \<Rightarrow> resolve rooted (if rooted then [] else [dots]) cs
         | x # xs \<Rightarrow> if x = dots then resolve rooted (dots # acc) cs else resolve rooted xs cs)
      else resolve rooted (c # acc) cs)"

fun slashed :: "string list \<Rightarrow> string" where
  "slashed [] = []"
| "slashed [c] = c"
| "slashed (c # cs) = c @ ''/'' @ slashed cs"

definition Clean :: "string \<Rightarrow> string" where
  "Clean path =
     (if path = [] then ''.''
      else let rooted = (hd path = CHR ''/'');
               out = (if rooted then ''/'' else []) @ slashed (resolve rooted [] (Split path (CHR ''/'')))
           in if out = [] then ''.'' else out)"

definition Join :: "string list \<Rightarrow> string" where
  "Join elems = (case dropWhile (\<lambda>e. e = []) elems of [] \<Rightarrow> [] | es \<Rightarrow> Clean (slashed es))"

definition up_to_slash :: "string \<Rightarrow> string" where
  "up_to_slash path = rev (dropWhile (\<lambda>c. c \<noteq> CHR ''/'') (rev path))"

definition Dir :: "string \<Rightarrow> string" where
  "Dir path = Clean (up_to_slash path)"

definition Base :: "string \<Rightarrow> string" where
  "Base path =
     (if path = [] then ''.''
      else let p = rev (dropWhile (\<lambda>c. c = CHR ''/'') (rev path));
               b = rev (takeWhile (\<lambda>c. c \<noteq> CHR ''/'') (rev p))
           in if b = [] then ''/'' else b)"

section \<open>Facts\<close>

text \<open>A name that is a single path element.\<close>

definition plain_name :: "string \<Rightarrow> bool" where
  "plain_name n \<longleftrightarrow> n \<noteq> [] \<and> n \<noteq> ''.'' \<and> n \<noteq> dots \<and> CHR ''/'' \<notin> set n"

lemma Split_snoc: "c \<notin> set n \<Longrightarrow> Split (a @ c # n) c = Split a c @ [n]"
proof (induction a)
  case (Cons x a)
  then show ?case by (cases "Split a c") (auto simp: Split_absent)
qed (simp add: Split_absent)

lemma resolve_snoc: "plain_name n \<Longrightarrow> resolve rooted acc (cs @ [n]) = resolve rooted acc cs @ [n]"
  by (induction rooted acc cs rule: resolve.induct) (auto simp: plain_name_def split: list.split)

lemma slashed_snoc: "cs \<noteq> [] \<Longrightarrow> slashed (cs @ [n]) = slashed cs @ ''/'' @ n"
  by (induction cs rule: slashed.induct) auto

text \<open>Joined to a rooted directory, a plain name stays in it.\<close>

lemma Join_plain:
  assumes "hd d = CHR ''/''" "d \<noteq> []" "plain_name n"
  shows "\<exists>r. Join [d, n] = Clean d @ r @ n \<and> (r = ''/'' \<or> Clean d = ''/'' \<and> r = [])"
proof -
  have s: "Split (d @ CHR ''/'' # n) (CHR ''/'') = Split d (CHR ''/'') @ [n]"
    using assms(3) by (intro Split_snoc) (simp add: plain_name_def)
  let ?r = "resolve True [] (Split d (CHR ''/''))"
  have "Join [d, n] = ''/'' @ slashed (?r @ [n])"
    using assms s resolve_snoc [OF assms(3), of True "[]"]
    by (simp add: Join_def Clean_def Let_def plain_name_def)
  moreover have "Clean d = ''/'' @ slashed ?r" using assms(1,2) by (simp add: Clean_def)
  ultimately show ?thesis
    by (cases "?r = []") (simp_all add: slashed_snoc)
qed

lemma Join_escapes: "Join [''/home/u/downloads/huginn'', ''../../.bashrc''] = ''/home/u/.bashrc''"
  by code_simp

lemma Base_plain: "\<exists>c \<in> set path. c \<noteq> CHR ''/'' \<Longrightarrow> CHR ''/'' \<notin> set (Base path) \<and> Base path \<noteq> []"
proof -
  assume "\<exists>c \<in> set path. c \<noteq> CHR ''/''"
  then have ne: "dropWhile (\<lambda>c. c = CHR ''/'') (rev path) \<noteq> []" and "path \<noteq> []" by (auto simp: dropWhile_eq_Nil_conv)
  moreover have "hd (dropWhile (\<lambda>c. c = CHR ''/'') (rev path)) \<noteq> CHR ''/''"
    using hd_dropWhile [OF ne] by simp
  moreover obtain x xs where "dropWhile (\<lambda>c. c = CHR ''/'') (rev path) = x # xs" using ne by (cases "dropWhile (\<lambda>c. c = CHR ''/'') (rev path)") auto
  ultimately show ?thesis by (auto simp: Base_def Let_def dest: set_takeWhileD)
qed

end
