(* ===== verification/Messenger.thy ===== *)
theory Messenger
  imports StoreReplication StoreTrack StoreDownloads StoreConfig Chunk WebRTC BlockTransfer FilePath
begin

text \<open>
  \<open>internal/messenger/messenger.go\<close>: the state of a running messenger, the record all of the
  package's components work on, and the ways they reach the store, the connections and the
  worker pool.

  Goroutines take turns at their locks; an operation here is what one goroutine does between
  two points where others may come in. Work handed to the pool (\<open>async_pool.go\<close>) is an entry
  of \<open>ms_jobs\<close>: \<open>submit\<close> waits for room, so it only fails once the messenger is shut down;
  \<open>trySubmit\<close> also fails when 128 jobs wait. Pointers that the code compares are numbers.

  JSON and gzip are the parameter \<open>codec\<close>; what the code relies on, that a value survives
  being encoded and decoded, is a hypothesis of the theorems on the values they are about.
\<close>

section \<open>Messages and files\<close>

record FileMeta =
  f_id :: string
  f_hash :: string
  f_key :: string
  f_total :: int
  f_name :: string
  f_path :: string
  f_source :: string

record ChatMessage =
  cm_from :: string
  cm_chat :: string
  cm_text :: string
  cm_time :: int
  cm_id :: string
  cm_files :: "FileMeta list"

record MessagePayload =
  mp_text :: string
  mp_time :: int
  mp_files :: "FileMeta list"

record FileReadyEvent =
  fe_file :: string
  fe_path :: string
  fe_name :: string
  fe_sender :: string

record pendingFileDownload =
  pd_meta :: FileMeta
  pd_sender :: string
  pd_preferred :: string

definition withoutLocalFilePaths :: "FileMeta list \<Rightarrow> FileMeta list" where
  "withoutLocalFilePaths files = map (\<lambda>f. f\<lparr>f_path := []\<rparr>) files"

text \<open>The invitation of \<open>groups.go\<close>.\<close>

record groupInvitePayload =
  gi_uid :: string
  gi_name :: string
  gi_enc_private :: string
  gi_enc_public :: string
  gi_sign_private :: string
  gi_sign_public :: string

record codec =
  enc_msg :: "ChatMessage \<Rightarrow> bytes"
  dec_msg :: "bytes \<Rightarrow> ChatMessage option"
  enc_payload :: "MessagePayload \<Rightarrow> bytes"
  dec_payload :: "bytes \<Rightarrow> MessagePayload option"
  enc_envelope :: "Envelope \<Rightarrow> bytes"
  dec_envelope :: "bytes \<Rightarrow> Envelope option"
  enc_delta :: "MessageReplicationDelta \<Rightarrow> bytes"
  dec_delta :: "bytes \<Rightarrow> MessageReplicationDelta option"
  enc_snapshot :: "ReplicationSnapshot \<Rightarrow> bytes"
  dec_snapshot :: "bytes \<Rightarrow> ReplicationSnapshot option"
  enc_keys :: "KeyFile \<Rightarrow> bytes"
  dec_keys :: "bytes \<Rightarrow> KeyFile option"
  enc_invite :: "groupInvitePayload \<Rightarrow> string"
  dec_invite :: "string \<Rightarrow> groupInvitePayload option"
  gzip :: "bytes \<Rightarrow> bytes"
  gunzip :: "bytes \<Rightarrow> bytes option"

section \<open>Transfers\<close>

record stateSyncIncomingTransfer =
  in_ref :: nat
  in_transfer :: string
  in_checkpoint :: int
  in_sha :: string
  in_slots :: slots
  in_processing :: bool

record stateSyncOutgoingTransfer =
  out_ref :: nat
  out_transfer :: string
  out_checkpoint :: int

record reloginResult =
  res_keys :: string
  res_snapshot :: ReplicationSnapshot
  res_err :: "string option"

record reloginTransferState =
  rt_peer :: string
  rt_transfer :: string
  rt_keys :: string
  rt_sha :: string
  rt_slots :: slots
  rt_processing :: bool
  rt_completed :: bool
  rt_result :: "reloginResult option"

section \<open>The messenger\<close>

datatype job =
    FinishStateSync string stateSyncIncomingTransfer
  | FinishRelogin nat
  | ProcessFile FileMeta string string
  | CheckPendingFiles
  | RefreshReplicas
  | ReportChunk string string int string
  | FetchFrom string ChunkGetRequest "nat option"
  | AwaitPeer string ChunkGetRequest "nat option"
  | Dial string "nat option"
  | CheckPendingMessages
  | Deliver ChatMessage Peer "PendingChunk list"
  | ResumeDownloads
  | Callback string callback

datatype event =
    MessageEvent ChatMessage
  | FileReady FileReadyEvent
  | PeersChanged

record Messenger =
  ms_id :: string
  ms_key :: string
  ms_user :: string
  ms_keys :: parsed_keys
  ms_store :: db
  ms_rtc :: Manager
  ms_peersMap :: "(string \<times> Peer) list"
  ms_peers :: "Peer list"
  ms_connecting :: "string set"
  ms_registered :: "string set"
  ms_closed :: bool
  ms_jobs :: "job list"
  ms_pending :: "string \<Rightarrow> pendingFileDownload option"
  ms_downloads :: "string \<Rightarrow> nat option"
  ms_cancelled :: "nat set"
  ms_processing :: "string set"
  ms_config :: Config
  ms_heap :: "nat \<Rightarrow> reloginTransferState option"
  ms_relogin :: "nat option"
  ms_next :: nat
  ms_requested :: "string set"
  ms_incoming :: "string \<Rightarrow> stateSyncIncomingTransfer option"
  ms_outgoing :: "string \<Rightarrow> stateSyncOutgoingTransfer option"
  ms_replicas :: "string set"
  ms_events :: "event list"
  ms_signals :: "(string \<times> Signal) list"
  ms_disk :: "string \<Rightarrow> bytes option"
  ms_dir :: string
  ms_delivering :: bool
  ms_flag :: string
  ms_adverts :: "(string \<times> RegisterChunkBatchEntry list) list"
  ms_registrations :: "RegisterRequest list"

text \<open>
  What the world answers while an operation runs: the clock, fresh UUIDs and random bytes,
  Muninn's replies (\<open>None\<close> for an error), whether a signal gets through over the websocket or
  else over HTTP, how the WebRTC library's calls for a peer end and which session description
  they yield, what becomes of the connections while a peer is waited for, what comes in while a
  batch of blocks awaits its acknowledgement (request id, frames, whether the wait ends at the
  same moment, and how), and whether a file can be written and renamed.
\<close>

record net =
  n_now :: int
  n_uuid :: "nat \<Rightarrow> string"
  n_get :: "string \<Rightarrow> Peer option"
  n_all :: "string \<Rightarrow> string \<Rightarrow> Peer list option"
  n_signal :: "string \<Rightarrow> bool"
  n_pion :: "string \<Rightarrow> nat \<Rightarrow> bool"
  n_sdp :: "string \<Rightarrow> string"
  n_sdp_ok :: "string \<Rightarrow> bool"
  n_capacity :: "nat \<Rightarrow> nat option list"
  n_random :: "nat \<Rightarrow> nat \<Rightarrow> bytes option"
  n_list :: "Peer list option"
  n_best :: "Peer list option"
  n_thick :: "Peer list option"
  n_records :: "string \<Rightarrow> ChunkRecord list option"
  n_for :: "string \<Rightarrow> int \<Rightarrow> ChunkRecord list option"
  n_place :: "string \<Rightarrow> RegisterChunkBatchEntry list \<Rightarrow> bool"
  n_register :: "RegisterRequest \<Rightarrow> string option"
  n_refresh :: "RefreshRequest \<Rightarrow> string option"
  n_heartbeat :: "string \<Rightarrow> int \<Rightarrow> string option"
  n_read :: "ReadChunkRequest \<Rightarrow> bool"
  n_meet :: "string \<Rightarrow> Manager \<Rightarrow> Manager"
  n_confirm :: "string \<Rightarrow> string \<Rightarrow> nat \<Rightarrow> string \<times> (string \<times> ChunkStoreAck) list \<times> bool \<times> string"
  n_temp :: bool
  n_rename :: bool

section \<open>Reaching the store, the connections and the pool\<close>

definition store :: "'a dbop \<Rightarrow> Messenger \<Rightarrow> 'a go \<times> Messenger" where
  "store f m = (case f (ms_store m) of (r, d) \<Rightarrow> (r, m\<lparr>ms_store := d\<rparr>))"

definition rtc :: "(Manager \<Rightarrow> 'a \<times> Manager) \<Rightarrow> Messenger \<Rightarrow> 'a \<times> Messenger" where
  "rtc f m = (case f (ms_rtc m) of (r, w) \<Rightarrow> (r, m\<lparr>ms_rtc := w\<rparr>))"

definition send :: "string \<Rightarrow> frame \<Rightarrow> Messenger \<Rightarrow> unit go \<times> Messenger" where
  "send peerID f = rtc (sendEnvelope peerID f)"

definition notify :: "event \<Rightarrow> Messenger \<Rightarrow> Messenger" where
  "notify e m = m\<lparr>ms_events := ms_events m @ [e]\<rparr>"

definition IsPeerConnected :: "Messenger \<Rightarrow> string \<Rightarrow> bool" where
  "IsPeerConnected m peerID = IsConnected (ms_rtc m) peerID"

definition asyncQueueSize :: nat where
  "asyncQueueSize = 128"

definition submit :: "job \<Rightarrow> Messenger \<Rightarrow> bool \<times> Messenger" where
  "submit j m = (if ms_closed m then (False, m) else (True, m\<lparr>ms_jobs := ms_jobs m @ [j]\<rparr>))"

definition trySubmit :: "job \<Rightarrow> Messenger \<Rightarrow> bool \<times> Messenger" where
  "trySubmit j m =
     (if ms_closed m \<or> asyncQueueSize \<le> length (ms_jobs m) then (False, m)
      else (True, m\<lparr>ms_jobs := ms_jobs m @ [j]\<rparr>))"

text \<open>\<open>waitForReloginSendCapacity\<close>: waits while more than 512 KiB are buffered. The amounts it
  sees are \<open>amounts\<close>, \<open>None\<close> once the channel is closed; \<open>None\<close> at the end is shutdown.\<close>

definition reloginMaxBufferedAmount :: nat where
  "reloginMaxBufferedAmount = 512 * 1024"

fun wait_capacity :: "nat option list \<Rightarrow> unit go" where
  "wait_capacity [] = Err ''context canceled''"
| "wait_capacity (None # as) = Err ''data channel closed''"
| "wait_capacity (Some a # as) = (if a \<le> reloginMaxBufferedAmount then Ret () else wait_capacity as)"


text \<open>
  The messenger that \<open>New\<close> makes, once keys and configuration are settled. It looks at no file of the
  disk by then: what other programs leave there is a step of \<open>messenger_step\<close>.
\<close>

definition new_messenger :: "string \<Rightarrow> string \<Rightarrow> parsed_keys \<Rightarrow> db \<Rightarrow> Config \<Rightarrow> string \<Rightarrow> Messenger" where
  "new_messenger peerID username keys st cfg peerFlag =
     (let oldUsername = (if username = [] then peerID else username) in
     \<lparr>ms_id = peerID, ms_key = oldUsername @ '':'' @ EncodeKey (k_sign_public keys), ms_user = oldUsername,
      ms_keys = keys, ms_store = st, ms_rtc = NewManager peerID, ms_peersMap = [], ms_peers = [],
      ms_connecting = {}, ms_registered = {}, ms_closed = False, ms_jobs = [], ms_pending = (\<lambda>_. None),
      ms_downloads = (\<lambda>_. None), ms_cancelled = {}, ms_processing = {}, ms_config = cfg\<lparr>cfg_peer_id := peerID\<rparr>,
      ms_heap = (\<lambda>_. None), ms_relogin = None, ms_next = 0, ms_requested = {}, ms_incoming = (\<lambda>_. None),
      ms_outgoing = (\<lambda>_. None), ms_replicas = {}, ms_events = [], ms_signals = [],
      ms_disk = (\<lambda>_. None), ms_dir = Join [Dir (cfg_db cfg), ''downloads'', ''huginn''], ms_delivering = False,
      ms_flag = peerFlag, ms_adverts = [], ms_registrations = []\<rparr>)"

section \<open>Concrete instances\<close>

definition sample_messenger :: "string \<Rightarrow> string \<Rightarrow> db \<Rightarrow> Messenger" where
  "sample_messenger peerID user d =
     new_messenger peerID user
       \<lparr>k_sign_public = replicate 32 5, k_sign_private = replicate 64 5, k_enc_private = replicate 32 7,
        k_enc_public = 0 # replicate 32 7\<rparr> d
       \<lparr>cfg_muninn = [], cfg_username = user, cfg_peer_id = peerID, cfg_db = ''/h/db'', cfg_ttl = [], cfg_flag = [],
        cfg_turn_addr = [], cfg_turn_user = [], cfg_turn_pass = []\<rparr> []"

definition sample_net :: net where
  "sample_net = \<lparr>n_now = 0, n_uuid = (\<lambda>i. ''uuid''), n_get = (\<lambda>_. None), n_all = (\<lambda>_ _. None),
     n_signal = (\<lambda>_. True), n_pion = (\<lambda>_ _. True), n_sdp = (\<lambda>p. p), n_sdp_ok = (\<lambda>_. True),
     n_capacity = (\<lambda>_. [Some 0]), n_random = (\<lambda>_ _. Some (replicate 32 1)), n_list = None, n_best = None, n_thick = None,
     n_records = (\<lambda>_. None), n_for = (\<lambda>_ _. None), n_place = (\<lambda>_ _. True), n_register = (\<lambda>_. None),
     n_refresh = (\<lambda>_. None),
     n_heartbeat = (\<lambda>_ _. None), n_read = (\<lambda>_. True), n_meet = (\<lambda>_ w. w), n_confirm = (\<lambda>_ _ _. (''r'', [], False, [])), n_temp = True, n_rename = True\<rparr>"

text \<open>With an open channel to a peer.\<close>

definition linked :: "string \<Rightarrow> Messenger \<Rightarrow> Messenger" where
  "linked p m = m\<lparr>ms_rtc := (ms_rtc m)\<lparr>rtc_conns := (rtc_conns (ms_rtc m))(p \<mapsto> 0),
     rtc_chans := (rtc_chans (ms_rtc m))(p \<mapsto> Channel 0 0), rtc_open := {Channel 0 0}, rtc_next := 1\<rparr>\<rparr>"

definition sample_codec :: codec where
  "sample_codec = \<lparr>enc_msg = (\<lambda>_. []), dec_msg = (\<lambda>_. None), enc_payload = (\<lambda>_. []), dec_payload = (\<lambda>_. None),
     enc_envelope = (\<lambda>_. []), dec_envelope = (\<lambda>_. None), enc_delta = (\<lambda>_. []), dec_delta = (\<lambda>_. None),
     enc_snapshot = (\<lambda>_. []), dec_snapshot = (\<lambda>_. None), enc_keys = (\<lambda>_. []), dec_keys = (\<lambda>_. None),
     enc_invite = (\<lambda>_. []), dec_invite = (\<lambda>_. None),
     gzip = (\<lambda>b. b), gunzip = (\<lambda>b. Some b)\<rparr>"

lemma sample_simps [simp]:
  "ms_id (sample_messenger p u d) = p" "ms_store (sample_messenger p u d) = d"
  "ms_rtc (sample_messenger p u d) = NewManager p" "ms_connecting (sample_messenger p u d) = {}"
  "ms_signals (sample_messenger p u d) = []"
  "ms_closed (sample_messenger p u d) = False" "ms_requested (sample_messenger p u d) = {}"
  by (simp_all add: sample_messenger_def new_messenger_def Let_def)
end
