(* ===== verification/Signals.thy ===== *)
theory Signals
  imports Messenger
begin

text \<open>
  \<open>internal/messenger/signals.go\<close> and \<open>ConnectPeer\<close> of \<open>peers.go\<close>: how two messengers come to a
  connection. The one that dials makes an offer and sends it through Muninn; the other
  answers it. When both dial at the same time, both see the other's offer, and the smaller
  id keeps its own.

  \<open>ConnectPeer\<close> notes the peer in \<open>ms_connecting\<close> while it makes and sends the offer, which
  takes time: \<open>dial_start\<close> and \<open>dial_end\<close> are its two ends. Session descriptions are strings,
  \<open>n_sdp_ok\<close> tells which parse.
\<close>

definition dial_start :: "string \<Rightarrow> Messenger \<Rightarrow> Messenger" where
  "dial_start p m = m\<lparr>ms_connecting := insert p (ms_connecting m)\<rparr>"

definition dial_end :: "string \<Rightarrow> Messenger \<Rightarrow> Messenger" where
  "dial_end p m = m\<lparr>ms_connecting := ms_connecting m - {p}\<rparr>"

definition send_signal :: "net \<Rightarrow> string \<Rightarrow> string \<Rightarrow> string \<Rightarrow> Messenger \<Rightarrow> unit go \<times> Messenger" where
  "send_signal net p typ data m =
     (if n_signal net p
      then (Ret (), m\<lparr>ms_signals := ms_signals m @
              [(p, \<lparr>sg_from = ms_id m, sg_type = typ, sg_data = data\<rparr>)]\<rparr>)
      else (Err ''send signal'', m))"

definition dial :: "net \<Rightarrow> string \<Rightarrow> Messenger \<Rightarrow> unit go \<times> Messenger" where
  "dial net p m =
     (case rtc (CreateOffer (n_pion net p) (n_sdp net p) p) m of
        (Ret offer, m1) \<Rightarrow> send_signal net p ''offer'' offer m1
      | (Err e, m1) \<Rightarrow> (Err (''create offer: '' @ e), m1)
      | (Panic e, m1) \<Rightarrow> (Panic e, m1))"

definition ConnectPeer :: "net \<Rightarrow> string \<Rightarrow> Messenger \<Rightarrow> unit go \<times> Messenger" where
  "ConnectPeer net toPeerID m =
     (if HasConnection (ms_rtc m) toPeerID then (Ret (), m)
      else if toPeerID \<in> ms_connecting m then (Ret (), m)
      else (case dial net toPeerID (dial_start toPeerID m) of (r, m1) \<Rightarrow> (r, dial_end toPeerID m1)))"

definition DisconnectPeer :: "string \<Rightarrow> Messenger \<Rightarrow> Messenger" where
  "DisconnectPeer toPeerID m = m\<lparr>ms_rtc := Close toPeerID (ms_rtc m)\<rparr>"

definition handleSignal :: "net \<Rightarrow> Signal \<Rightarrow> Messenger \<Rightarrow> Messenger" where
  "handleSignal net sig m =
     (let from = sg_from sig in
      if sg_type sig = ''offer'' then
        (let dialing = (from \<in> ms_connecting m) in
         if IsConnected (ms_rtc m) from then m
         else if (dialing \<or> HasConnection (ms_rtc m) from) \<and> ms_id m < from then m
         else if \<not> n_sdp_ok net (sg_data sig) then m
         else (case rtc (HandleOffer (n_pion net from) (n_sdp net from) from (sg_data sig)) m of
             (Ret answer, m1) \<Rightarrow> snd (send_signal net from ''answer'' answer m1)
           | (_, m1) \<Rightarrow> m1))
      else if sg_type sig = ''answer'' then
        (if n_sdp_ok net (sg_data sig)
         then snd (rtc (SetRemoteDescription (n_pion net from 4) from (sg_data sig)) m) else m)
      else m)"

text \<open>The signals polled from Muninn, when polling is on, and then those the websocket delivered.\<close>

definition processPendingSignals :: "net \<Rightarrow> Signal list option \<Rightarrow> Signal list \<Rightarrow> bool \<Rightarrow> Messenger \<Rightarrow> Messenger" where
  "processPendingSignals net polled delivered pollSignal m =
     (if pollSignal then
        (case polled of
           None \<Rightarrow> m
         | Some sigs \<Rightarrow> fold (handleSignal net) delivered (fold (handleSignal net) sigs m))
      else fold (handleSignal net) delivered m)"

section \<open>One connection from two offers\<close>

lemma answer_Ret:
  assumes "\<And>i. n_pion net p i"
  shows "\<exists>w. rtc (HandleOffer (n_pion net p) sdp p offer) m = (Ret sdp, m\<lparr>ms_rtc := w\<rparr>) \<and>
     rtc_conns w p = Some (rtc_next (ms_rtc m)) \<and> rtc_chans w p = None"
  using assms
  by (auto simp: rtc_def HandleOffer_def describe_def NewPeerConnection_def Close_def Let_def split: option.split)

text \<open>
  C9. When two messengers dial each other at once, each gets the other's offer while its own
  is out: exactly the one with the smaller id keeps its offer and stays as it is, and the
  other drops its own, makes a fresh connection for the peer and answers.
\<close>

theorem colliding_offers:
  assumes "ms_id a < ms_id b"
    and "ms_id b \<in> ms_connecting a \<or> HasConnection (ms_rtc a) (ms_id b)"
    and "\<not> IsConnected (ms_rtc b) (ms_id a)"
    and "n_sdp_ok net oa" and "\<And>i. n_pion net (ms_id a) i" and "n_signal net (ms_id a)"
  shows "handleSignal net \<lparr>sg_from = ms_id b, sg_type = ''offer'', sg_data = ob\<rparr> a = a \<and>
     (\<exists>b'. handleSignal net \<lparr>sg_from = ms_id a, sg_type = ''offer'', sg_data = oa\<rparr> b = b' \<and>
        rtc_conns (ms_rtc b') (ms_id a) = Some (rtc_next (ms_rtc b)) \<and>
        ms_signals b' = ms_signals b @ [(ms_id a, \<lparr>sg_from = ms_id b, sg_type = ''answer'',
          sg_data = n_sdp net (ms_id a)\<rparr>)])"
proof
  show "handleSignal net \<lparr>sg_from = ms_id b, sg_type = ''offer'', sg_data = ob\<rparr> a = a"
    using assms(1,2) by (auto simp: handleSignal_def Let_def)
  have "\<not> ms_id b < ms_id a" using assms(1) by simp
  then show "\<exists>b'. handleSignal net \<lparr>sg_from = ms_id a, sg_type = ''offer'', sg_data = oa\<rparr> b = b' \<and>
        rtc_conns (ms_rtc b') (ms_id a) = Some (rtc_next (ms_rtc b)) \<and>
        ms_signals b' = ms_signals b @ [(ms_id a, \<lparr>sg_from = ms_id b, sg_type = ''answer'',
          sg_data = n_sdp net (ms_id a)\<rparr>)]"
    using assms(3,4,6) answer_Ret [OF assms(5), of "n_sdp net (ms_id a)" oa b]
    by (auto simp: handleSignal_def Let_def send_signal_def)
qed


lemma colliding_offers_witness:
  "handleSignal sample_net \<lparr>sg_from = ''b'', sg_type = ''offer'', sg_data = ''x''\<rparr>
      (dial_start ''b'' (sample_messenger ''a'' ''ann'' fresh_db)) = dial_start ''b'' (sample_messenger ''a'' ''ann'' fresh_db)
   \<and> (\<exists>b'. handleSignal sample_net \<lparr>sg_from = ''a'', sg_type = ''offer'', sg_data = ''y''\<rparr>
          (dial_start ''a'' (sample_messenger ''b'' ''bob'' fresh_db)) = b'
        \<and> rtc_conns (ms_rtc b') ''a'' = Some 0)"
  using colliding_offers [of "dial_start ''b'' (sample_messenger ''a'' ''ann'' fresh_db)"
      "dial_start ''a'' (sample_messenger ''b'' ''bob'' fresh_db)" sample_net "''y''" "''x''"]
  by (simp add: dial_start_def sample_net_def NewManager_def IsConnected_def)

lemma ConnectPeer_offers:
  assumes "\<not> HasConnection (ms_rtc m) p" and "p \<notin> ms_connecting m"
    and "\<And>i. n_pion net p i" and "n_signal net p"
  shows "\<exists>w. ConnectPeer net p m = (Ret (), m\<lparr>ms_rtc := w,
       ms_signals := ms_signals m @ [(p, \<lparr>sg_from = ms_id m, sg_type = ''offer'', sg_data = n_sdp net p\<rparr>)]\<rparr>) \<and>
     rtc_conns w p = Some (rtc_next (ms_rtc m)) \<and> rtc_chans w p = Some (Channel (rtc_next (ms_rtc m)) 0) \<and>
     rtc_remote w = rtc_remote (ms_rtc m)"
proof -
  have "ms_connecting m - {p} = ms_connecting m" using assms(2) by blast
  then show ?thesis
    using assms
    by (intro exI [where x = "ms_rtc m\<lparr>rtc_conns := (rtc_conns (ms_rtc m))(p \<mapsto> rtc_next (ms_rtc m)),
        rtc_next := Suc (rtc_next (ms_rtc m)),
        rtc_chans := (rtc_chans (ms_rtc m))(p \<mapsto> Channel (rtc_next (ms_rtc m)) 0)\<rparr>"])
      (simp add: ConnectPeer_def dial_def dial_start_def dial_end_def send_signal_def rtc_def CreateOffer_def
        NewPeerConnection_def Close_def HasConnection_def Let_def)
qed

text \<open>
  C10. Dialing works: when a messenger dials a peer that is not dialing it, the offer it sends,
  handled by the peer, and the answer the peer sends back, handled by the dialer, leave both
  with a connection for each other, each of them described by what the other one sent.
\<close>

theorem dial_and_answer:
  assumes a: "\<not> HasConnection (ms_rtc a) (ms_id b)" "ms_id b \<notin> ms_connecting a"
    and b: "\<not> HasConnection (ms_rtc b) (ms_id a)" "ms_id a \<notin> ms_connecting b"
      "\<not> IsConnected (ms_rtc b) (ms_id a)"
    and na: "\<And>i. n_pion na (ms_id b) i" "n_signal na (ms_id b)" "\<And>s. n_sdp_ok na s"
    and nb: "\<And>i. n_pion nb (ms_id a) i" "n_signal nb (ms_id a)" "\<And>s. n_sdp_ok nb s"
  shows "\<exists>a1 offer b1 answer a2 ca cb.
     ConnectPeer na (ms_id b) a = (Ret (), a1) \<and> ms_signals a1 = ms_signals a @ [(ms_id b, offer)] \<and>
     handleSignal nb offer b = b1 \<and> ms_signals b1 = ms_signals b @ [(ms_id a, answer)] \<and>
     handleSignal na answer a1 = a2 \<and>
     rtc_conns (ms_rtc a2) (ms_id b) = Some ca \<and> (ca, sg_data answer) \<in> set (rtc_remote (ms_rtc a2)) \<and>
     rtc_conns (ms_rtc b1) (ms_id a) = Some cb \<and> (cb, sg_data offer) \<in> set (rtc_remote (ms_rtc b1))"
proof -
  let ?offer = "\<lparr>sg_from = ms_id a, sg_type = ''offer'', sg_data = n_sdp na (ms_id b)\<rparr>"
  let ?answer = "\<lparr>sg_from = ms_id b, sg_type = ''answer'', sg_data = n_sdp nb (ms_id a)\<rparr>"
  obtain w where w: "ConnectPeer na (ms_id b) a = (Ret (), a\<lparr>ms_rtc := w, ms_signals := ms_signals a @ [(ms_id b, ?offer)]\<rparr>)"
      "rtc_conns w (ms_id b) = Some (rtc_next (ms_rtc a))"
    using ConnectPeer_offers [OF a na(1,2)] by blast
  obtain v where v: "rtc (HandleOffer (n_pion nb (ms_id a)) (n_sdp nb (ms_id a)) (ms_id a) (sg_data ?offer)) b
        = (Ret (n_sdp nb (ms_id a)), b\<lparr>ms_rtc := v\<rparr>)"
      "rtc_conns v (ms_id a) = Some (rtc_next (ms_rtc b))" "(rtc_next (ms_rtc b), sg_data ?offer) \<in> set (rtc_remote v)"
    using nb(1)
    by (auto simp: rtc_def HandleOffer_def describe_def NewPeerConnection_def Close_def Let_def split: option.split)
  have hb: "handleSignal nb ?offer b
      = b\<lparr>ms_rtc := v, ms_signals := ms_signals b @ [(ms_id a, ?answer)]\<rparr>"
    using b nb v(1) by (simp add: handleSignal_def send_signal_def Let_def)
  have ha: "handleSignal na ?answer (a\<lparr>ms_rtc := w, ms_signals := ms_signals a @ [(ms_id b, ?offer)]\<rparr>)
      = a\<lparr>ms_rtc := describe (rtc_next (ms_rtc a)) (sg_data ?answer) w,
          ms_signals := ms_signals a @ [(ms_id b, ?offer)]\<rparr>"
    using na w(2) by (simp add: handleSignal_def SetRemoteDescription_def rtc_def Let_def)
  let ?a1 = "a\<lparr>ms_rtc := w, ms_signals := ms_signals a @ [(ms_id b, ?offer)]\<rparr>"
  let ?b1 = "b\<lparr>ms_rtc := v, ms_signals := ms_signals b @ [(ms_id a, ?answer)]\<rparr>"
  let ?a2 = "a\<lparr>ms_rtc := describe (rtc_next (ms_rtc a)) (sg_data ?answer) w,
          ms_signals := ms_signals a @ [(ms_id b, ?offer)]\<rparr>"
  have sa: "ms_signals ?a1 = ms_signals a @ [(ms_id b, ?offer)]"
    and sb: "ms_signals ?b1 = ms_signals b @ [(ms_id a, ?answer)]"
    and ca: "rtc_conns (ms_rtc ?a2) (ms_id b) = Some (rtc_next (ms_rtc a))"
      "(rtc_next (ms_rtc a), sg_data ?answer) \<in> set (rtc_remote (ms_rtc ?a2))"
    and cb: "rtc_conns (ms_rtc ?b1) (ms_id a) = Some (rtc_next (ms_rtc b))"
      "(rtc_next (ms_rtc b), sg_data ?offer) \<in> set (rtc_remote (ms_rtc ?b1))"
    using w(2) v(2,3) by (simp_all add: describe_def)
  show ?thesis
    by (intro exI conjI) (rule w(1), rule sa, rule hb, rule sb, rule ha, rule ca, rule ca, rule cb, rule cb)
qed

lemma dial_and_answer_witness:
  "\<exists>a1 offer b1 answer a2 ca cb.
     ConnectPeer sample_net ''b'' (sample_messenger ''a'' ''ann'' fresh_db) = (Ret (), a1) \<and>
     ms_signals a1 = [(''b'', offer)] \<and>
     handleSignal sample_net offer (sample_messenger ''b'' ''bob'' fresh_db) = b1 \<and> ms_signals b1 = [(''a'', answer)] \<and>
     handleSignal sample_net answer a1 = a2 \<and>
     rtc_conns (ms_rtc a2) ''b'' = Some ca \<and> (ca, sg_data answer) \<in> set (rtc_remote (ms_rtc a2)) \<and>
     rtc_conns (ms_rtc b1) ''a'' = Some cb \<and> (cb, sg_data offer) \<in> set (rtc_remote (ms_rtc b1))"
  using dial_and_answer [of "sample_messenger ''a'' ''ann'' fresh_db" "sample_messenger ''b'' ''bob'' fresh_db"
      sample_net sample_net]
  by (simp add: sample_net_def NewManager_def IsConnected_def HasConnection_def)
end
