(* ===== verification/StateSync.thy ===== *)
theory StateSync
  imports Signals
begin

text \<open>
  \<open>internal/messenger/state_replication.go\<close>: two devices that registered under the same key
  keep each other's history complete. The device that connects asks for the messages since
  the last checkpoint, the other exports them, compressed, as a manifest and blocks of 32 KiB;
  the receiver checks, imports and acknowledges, and only then does the sender move the
  checkpoint of that peer.

  \<open>now\<close> is \<open>n_now net\<close>; the capacity of the link before the \<open>i\<close>-th block is \<open>n_capacity net i\<close>.
\<close>

definition stateSyncVersion :: int where
  "stateSyncVersion = 1"

definition stateSyncMaxChunkCount :: int where
  "stateSyncMaxChunkCount = 4096"

definition stateSyncMaxDecodedSize :: int where
  "stateSyncMaxDecodedSize = 256 * 1024 * 1024"

section \<open>Who is a replica\<close>

definition is_live_replica :: "net \<Rightarrow> Messenger \<Rightarrow> Peer \<Rightarrow> bool" where
  "is_live_replica net m p =
     (\<not> peer_fake p \<and> Key p = ms_key m \<and> 0 < peer_ttl p
      \<and> n_now net < peer_seen p + seconds (peer_ttl p))"

definition isAuthorizedReplicaPeer :: "net \<Rightarrow> string \<Rightarrow> Messenger \<Rightarrow> bool \<times> Messenger" where
  "isAuthorizedReplicaPeer net peerID m =
     (if peerID = [] \<or> peerID = ms_id m then (False, m)
      else if peerID \<in> ms_replicas m then (True, m)
      else (case n_get net peerID of
          None \<Rightarrow> (False, m)
        | Some peer \<Rightarrow>
           if peer_id peer = peerID \<and> is_live_replica net m peer
           then (True, m\<lparr>ms_replicas := insert peerID (ms_replicas m)\<rparr>) else (False, m)))"

definition handlePeerConnected :: "net \<Rightarrow> string \<Rightarrow> Messenger \<Rightarrow> Messenger" where
  "handlePeerConnected net peerID m =
     (case isAuthorizedReplicaPeer net peerID m of (authorized, m1) \<Rightarrow>
        if \<not> authorized then m1
        else if peerID \<in> ms_requested m1 then m1
        else (case send peerID StateSyncRequestFrame (m1\<lparr>ms_requested := insert peerID (ms_requested m1)\<rparr>) of
            (Ret _, m2) \<Rightarrow> m2
          | (_, m2) \<Rightarrow> m2\<lparr>ms_requested := ms_requested m2 - {peerID}\<rparr>))"

definition handlePeerDisconnected :: "string \<Rightarrow> Messenger \<Rightarrow> Messenger" where
  "handlePeerDisconnected peerID m =
     (if IsPeerConnected m peerID then m
      else m\<lparr>ms_requested := ms_requested m - {peerID}, ms_incoming := (ms_incoming m)(peerID := None),
             ms_outgoing := (ms_outgoing m)(peerID := None)\<rparr>)"

text \<open>The loop over the peers found under the own key; \<open>seen\<close> are the ids met before.\<close>

fun connect_replicas :: "net \<Rightarrow> string set \<Rightarrow> Peer list \<Rightarrow> Messenger \<Rightarrow> Messenger" where
  "connect_replicas net seen [] m = m"
| "connect_replicas net seen (peer # peers) m =
     (if peer_id peer = [] \<or> peer_id peer = ms_id m \<or> \<not> is_live_replica net m peer \<or> peer_id peer \<in> seen
      then connect_replicas net seen peers m
      else (let m1 = m\<lparr>ms_replicas := insert (peer_id peer) (ms_replicas m)\<rparr>;
                m2 = (if IsPeerConnected m1 (peer_id peer) then handlePeerConnected net (peer_id peer) m1
                      else snd (ConnectPeer net (peer_id peer) m1))
            in connect_replicas net (insert (peer_id peer) seen) peers m2))"

definition refreshReplicaConnections :: "net \<Rightarrow> Messenger \<Rightarrow> Messenger" where
  "refreshReplicaConnections net m =
     (if ms_user m = [] \<or> k_sign_public (ms_keys m) = [] then m
      else (case n_all net (ms_user m) (EncodeKey (k_sign_public (ms_keys m))) of
          None \<Rightarrow> m
        | Some peers \<Rightarrow> connect_replicas net {} peers m))"

section \<open>Sending\<close>

definition sanitize_files :: "string \<Rightarrow> FileMeta list \<Rightarrow> FileMeta list" where
  "sanitize_files me files = map (\<lambda>f. f\<lparr>f_source := me\<rparr>) (withoutLocalFilePaths files)"

definition sanitize_message :: "codec \<Rightarrow> string \<Rightarrow> ReplicatedMessage \<Rightarrow> ReplicatedMessage go" where
  "sanitize_message c me r =
     (case dec_msg c (rm_data r) of
        None \<Rightarrow> Err (''decode state sync message '' @ rm_uid r)
      | Some message \<Rightarrow>
         Ret (r\<lparr>rm_data := enc_msg c (message\<lparr>cm_files := sanitize_files me (cm_files message)\<rparr>)\<rparr>))"

definition sanitizeStateSyncMessages :: "codec \<Rightarrow> string \<Rightarrow> ReplicatedMessage list \<Rightarrow> ReplicatedMessage list go" where
  "sanitizeStateSyncMessages c me messages = go_map (sanitize_message c me) messages"

definition hex_encode :: "bytes \<Rightarrow> string" where
  "hex_encode b = concat (map hex_byte b)"

definition digest_of :: "crypto_lib \<Rightarrow> bytes \<Rightarrow> string" where
  "digest_of L data = hex_encode (lib_sha256 L data)"

definition encodeStateSyncDelta :: "codec \<Rightarrow> crypto_lib \<Rightarrow> MessageReplicationDelta \<Rightarrow> bytes \<times> string" where
  "encodeStateSyncDelta c L delta =
     (let compressed = gzip c (enc_delta c delta) in (compressed, digest_of L compressed))"

definition decodeStateSyncDelta :: "codec \<Rightarrow> bytes \<Rightarrow> MessageReplicationDelta go" where
  "decodeStateSyncDelta c compressed =
     (case gunzip c compressed of
        None \<Rightarrow> Err ''decompress state sync delta''
      | Some raw \<Rightarrow>
         if stateSyncMaxDecodedSize < int (length raw) then Err ''state sync delta exceeds the maximum''
         else (case dec_delta c raw of
             None \<Rightarrow> Err ''decode state sync delta''
           | Some delta \<Rightarrow>
              if md_version delta \<noteq> stateSyncVersion then Err ''unsupported state sync version''
              else Ret delta))"

text \<open>The blocks, each after waiting for the link; the first failure ends the sending.\<close>

fun send_blocks :: "net \<Rightarrow> string \<Rightarrow> (nat \<Rightarrow> frame) \<Rightarrow> nat list \<Rightarrow> Messenger \<Rightarrow> unit go \<times> Messenger" where
  "send_blocks net peerID f [] m = (Ret (), m)"
| "send_blocks net peerID f (i # is) m =
     (case wait_capacity (n_capacity net i) of
        Ret _ \<Rightarrow>
          (case send peerID (f i) m of
             (Ret _, m1) \<Rightarrow> send_blocks net peerID f is m1
           | (e, m1) \<Rightarrow> (e, m1))
      | e \<Rightarrow> (e, m))"

definition sync_chunk :: "string \<Rightarrow> bytes \<Rightarrow> nat \<Rightarrow> frame" where
  "sync_chunk transferID compressed i =
     StateSyncChunkFrame \<lparr>sk_transfer = transferID, sk_index = int i, sk_data = block reloginChunkSize compressed i\<rparr>"

text \<open>The deferred clean-up: only the transfer this call started is taken back.\<close>

definition drop_outgoing :: "string \<Rightarrow> nat \<Rightarrow> Messenger \<Rightarrow> Messenger" where
  "drop_outgoing peerID ref m =
     (case ms_outgoing m peerID of
        None \<Rightarrow> m
      | Some t \<Rightarrow> if out_ref t = ref then m\<lparr>ms_outgoing := (ms_outgoing m)(peerID := None)\<rparr> else m)"

definition start_outgoing :: "string \<Rightarrow> string \<Rightarrow> int \<Rightarrow> Messenger \<Rightarrow> Messenger" where
  "start_outgoing peerID transferID checkpoint m =
     m\<lparr>ms_outgoing := (ms_outgoing m)(peerID \<mapsto>
         \<lparr>out_ref = ms_next m, out_transfer = transferID, out_checkpoint = checkpoint\<rparr>),
       ms_next := Suc (ms_next m)\<rparr>"

definition transmit :: "net \<Rightarrow> string \<Rightarrow> string \<Rightarrow> int \<Rightarrow> bytes \<Rightarrow> string \<Rightarrow> Messenger \<Rightarrow> unit go \<times> Messenger" where
  "transmit net peerID transferID checkpoint compressed digest m =
     (case send peerID (StateSyncManifestFrame
         \<lparr>sm_transfer = transferID, sm_checkpoint = checkpoint, sm_count = int (block_count reloginChunkSize compressed),
          sm_sha = digest, sm_error = []\<rparr>) m of
        (Ret _, m1) \<Rightarrow>
          send_blocks net peerID (sync_chunk transferID compressed) [0..<block_count reloginChunkSize compressed] m1
      | (e, m1) \<Rightarrow> (e, m1))"

definition sendStateSync :: "codec \<Rightarrow> crypto_lib \<Rightarrow> net \<Rightarrow> string \<Rightarrow> Messenger \<Rightarrow> unit go \<times> Messenger" where
  "sendStateSync c L net peerID m =
     (case store (GetLastStateCheck peerID) m of
        (Ret since, m1) \<Rightarrow>
          (case store (ExportMessagesForStateSync since (n_now net)) m1 of
             (Ret delta, m2) \<Rightarrow>
               (case sanitizeStateSyncMessages c (ms_id m) (md_messages delta) of
                  Ret messages \<Rightarrow>
                    (case encodeStateSyncDelta c L (delta\<lparr>md_messages := messages\<rparr>) of (compressed, digest) \<Rightarrow>
                       let chunkCount = int (block_count reloginChunkSize compressed) in
                       if chunkCount \<le> 0 \<or> stateSyncMaxChunkCount < chunkCount
                       then (Err ''state sync requires invalid chunk count'', m2)
                       else (let ref = ms_next m2 in
                         case transmit net peerID (n_uuid net 0) (md_checkpoint delta) compressed digest
                                (start_outgoing peerID (n_uuid net 0) (md_checkpoint delta) m2) of
                           (Ret _, m3) \<Rightarrow> (Ret (), m3)
                         | (e, m3) \<Rightarrow> (e, drop_outgoing peerID ref m3)))
                | Err e \<Rightarrow> (Err e, m2)
                | Panic e \<Rightarrow> (Panic e, m2))
           | (Err e, m2) \<Rightarrow> (Err e, m2)
           | (Panic e, m2) \<Rightarrow> (Panic e, m2))
      | (Err e, m1) \<Rightarrow> (Err e, m1)
      | (Panic e, m1) \<Rightarrow> (Panic e, m1))"

definition error_manifest :: "string \<Rightarrow> frame" where
  "error_manifest e = StateSyncManifestFrame
     \<lparr>sm_transfer = [], sm_checkpoint = 0, sm_count = 0, sm_sha = [], sm_error = e\<rparr>"

definition handleStateSyncRequest :: "codec \<Rightarrow> crypto_lib \<Rightarrow> net \<Rightarrow> string \<Rightarrow> Messenger \<Rightarrow> Messenger" where
  "handleStateSyncRequest c L net peerID m =
     (case isAuthorizedReplicaPeer net peerID m of (authorized, m1) \<Rightarrow>
        if \<not> authorized then m1
        else (case sendStateSync c L net peerID m1 of
            (Ret _, m2) \<Rightarrow> m2
          | (_, m2) \<Rightarrow> snd (send peerID (error_manifest ''build or send state sync'') m2)))"


section \<open>Receiving\<close>

definition end_sync :: "string \<Rightarrow> Messenger \<Rightarrow> Messenger" where
  "end_sync peerID m = m\<lparr>ms_requested := ms_requested m - {peerID}, ms_incoming := (ms_incoming m)(peerID := None)\<rparr>"

definition handleStateSyncManifest :: "string \<Rightarrow> StateSyncManifest \<Rightarrow> Messenger \<Rightarrow> Messenger" where
  "handleStateSyncManifest peerID manifest m =
     (if peerID \<notin> ms_requested m then m
      else if sm_error manifest \<noteq> [] then end_sync peerID m
      else if sm_transfer manifest = [] \<or> sm_checkpoint manifest \<le> 0 \<or> sm_count manifest \<le> 0
          \<or> stateSyncMaxChunkCount < sm_count manifest \<or> sm_sha manifest = [] then end_sync peerID m
      else m\<lparr>ms_incoming := (ms_incoming m)(peerID \<mapsto>
               \<lparr>in_ref = ms_next m, in_transfer = sm_transfer manifest, in_checkpoint = sm_checkpoint manifest,
                in_sha = sm_sha manifest, in_slots = no_slots (nat (sm_count manifest)), in_processing = False\<rparr>),
             ms_next := Suc (ms_next m)\<rparr>)"

text \<open>\<open>clearIncomingStateSync\<close> compares pointers: it leaves a newer transfer alone.\<close>

definition clearIncomingStateSync :: "string \<Rightarrow> stateSyncIncomingTransfer \<Rightarrow> Messenger \<Rightarrow> Messenger" where
  "clearIncomingStateSync peerID transfer m =
     (case ms_incoming m peerID of
        None \<Rightarrow> m
      | Some t \<Rightarrow> if in_ref t = in_ref transfer then end_sync peerID m else m)"

definition sync_ack :: "stateSyncIncomingTransfer \<Rightarrow> string \<Rightarrow> frame" where
  "sync_ack transfer e =
     StateSyncAckFrame \<lparr>sa_transfer = in_transfer transfer, sa_checkpoint = in_checkpoint transfer, sa_error = e\<rparr>"

definition failStateSyncImport :: "string \<Rightarrow> stateSyncIncomingTransfer \<Rightarrow> string \<Rightarrow> Messenger \<Rightarrow> Messenger" where
  "failStateSyncImport peerID transfer syncErr m =
     snd (send peerID (sync_ack transfer syncErr) (clearIncomingStateSync peerID transfer m))"

definition handleStateSyncChunk :: "string \<Rightarrow> StateSyncChunk \<Rightarrow> Messenger \<Rightarrow> Messenger" where
  "handleStateSyncChunk peerID chunk m =
     (case ms_incoming m peerID of
        None \<Rightarrow> m
      | Some transfer \<Rightarrow>
         if in_transfer transfer \<noteq> sk_transfer chunk \<or> in_processing transfer then m
         else if sk_index chunk < 0 \<or> int (length (sl_chunks (in_slots transfer))) \<le> sk_index chunk
             \<or> reloginChunkSize < length (sk_data chunk)
         then snd (send peerID (sync_ack transfer ''invalid state sync chunk'') (end_sync peerID m))
         else (let t1 = transfer\<lparr>in_slots := fill_slot (nat (sk_index chunk)) (sk_data chunk) (in_slots transfer)\<rparr> in
           if \<not> all_received (in_slots t1) then m\<lparr>ms_incoming := (ms_incoming m)(peerID \<mapsto> t1)\<rparr>
           else (let t2 = t1\<lparr>in_processing := True\<rparr>;
                     m1 = m\<lparr>ms_incoming := (ms_incoming m)(peerID \<mapsto> t2)\<rparr>
             in case submit (FinishStateSync peerID t2) m1 of (ok, m2) \<Rightarrow>
                  if ok then m2 else failStateSyncImport peerID t2 ''messenger is shutting down'' m2)))"

text \<open>
  \<open>queueFileDownloads\<close> of \<open>relogin_replication.go\<close>: the files named by imported messages are
  noted as pending and handed to the pool.
\<close>

definition file_sender :: "string \<Rightarrow> string \<Rightarrow> string \<Rightarrow> ChatMessage \<Rightarrow> string" where
  "file_sender myKey login sourceUsername message =
     (if cm_from message = sourceUsername \<or> HasPrefix (cm_from message) (sourceUsername @ '':'') then myKey else login)"

fun queue_files :: "string \<Rightarrow> string \<Rightarrow> FileMeta list \<Rightarrow> Messenger \<Rightarrow> Messenger" where
  "queue_files senderID sourcePeerID [] m = m"
| "queue_files senderID sourcePeerID (file # files) m =
     (if f_id file = [] \<or> f_total file \<le> 0 \<or> f_path file \<noteq> [] then queue_files senderID sourcePeerID files m
      else (let preferred = (if f_source file = [] then sourcePeerID else f_source file);
                m1 = m\<lparr>ms_pending := (ms_pending m)(f_id file \<mapsto>
                       \<lparr>pd_meta = file, pd_sender = senderID, pd_preferred = preferred\<rparr>)\<rparr>
            in queue_files senderID sourcePeerID files (snd (trySubmit (ProcessFile file senderID preferred) m1))))"

fun queueFileDownloads :: "codec \<Rightarrow> ReplicatedMessage list \<Rightarrow> string \<Rightarrow> string \<Rightarrow> Messenger \<Rightarrow> Messenger" where
  "queueFileDownloads c [] sourcePeerID sourceUsername m = m"
| "queueFileDownloads c (record # records) sourcePeerID sourceUsername m =
     (case dec_msg c (rm_data record) of
        None \<Rightarrow> queueFileDownloads c records sourcePeerID sourceUsername m
      | Some message \<Rightarrow>
         queueFileDownloads c records sourcePeerID sourceUsername
           (queue_files (file_sender (ms_key m) (rm_login record) sourceUsername message) sourcePeerID
              (cm_files message) m))"

definition finishStateSyncImport ::
    "codec \<Rightarrow> crypto_lib \<Rightarrow> net \<Rightarrow> string \<Rightarrow> stateSyncIncomingTransfer \<Rightarrow> Messenger \<Rightarrow> Messenger" where
  "finishStateSyncImport c L net peerID transfer m =
     (let compressed = join_slots (in_slots transfer) in
      if digest_of L compressed \<noteq> in_sha transfer
      then failStateSyncImport peerID transfer ''state sync checksum mismatch'' m
      else (case decodeStateSyncDelta c compressed of
          Err e \<Rightarrow> failStateSyncImport peerID transfer e m
        | Panic e \<Rightarrow> m
        | Ret delta \<Rightarrow>
           if md_checkpoint delta \<noteq> in_checkpoint transfer
           then failStateSyncImport peerID transfer ''state sync checkpoint mismatch'' m
           else (case store (ImportStateSyncMessages (n_now net) (md_messages delta)) m of
               (Err e, m1) \<Rightarrow> failStateSyncImport peerID transfer e m1
             | (Panic e, m1) \<Rightarrow> m1
             | (Ret inserted, m1) \<Rightarrow>
                (let m2 = (if inserted \<noteq> [] then queueFileDownloads c inserted peerID (ms_user m1) m1 else m1)
                 in snd (send peerID (sync_ack transfer []) (clearIncomingStateSync peerID transfer m2))))))"

section \<open>Being acknowledged\<close>

definition handleStateSyncAck :: "string \<Rightarrow> StateSyncAck \<Rightarrow> Messenger \<Rightarrow> Messenger" where
  "handleStateSyncAck peerID ack m =
     (case ms_outgoing m peerID of
        None \<Rightarrow> m
      | Some transfer \<Rightarrow>
         if out_transfer transfer \<noteq> sa_transfer ack \<or> out_checkpoint transfer \<noteq> sa_checkpoint ack then m
         else if sa_error ack \<noteq> [] then m\<lparr>ms_outgoing := (ms_outgoing m)(peerID := None)\<rparr>
         else (case store (SetLastStateCheck peerID (sa_checkpoint ack * 1000)) m of
             (Ret _, m1) \<Rightarrow> drop_outgoing peerID (out_ref transfer) m1
           | (_, m1) \<Rightarrow> m1))"


section \<open>What the operations leave alone\<close>

lemma send_state:
  assumes "send p f m = (r, m')"
  shows "\<exists>w. m' = m\<lparr>ms_rtc := w\<rparr> \<and>
     rtc_sent w = rtc_sent (ms_rtc m) @ (if r = Ret () then [(p, f)] else [])"
proof -
  obtain r' w where s: "sendEnvelope p f (ms_rtc m) = (r', w)" by fastforce
  then have "r' = r" "m' = m\<lparr>ms_rtc := w\<rparr>" using assms by (simp_all add: send_def rtc_def)
  then show ?thesis using sendEnvelope_sent [OF s] by blast
qed

lemma send_others [simp]:
  "ms_store (snd (send p f m)) = ms_store m" "ms_replicas (snd (send p f m)) = ms_replicas m"
  "ms_requested (snd (send p f m)) = ms_requested m" "ms_incoming (snd (send p f m)) = ms_incoming m"
  "ms_outgoing (snd (send p f m)) = ms_outgoing m" "ms_jobs (snd (send p f m)) = ms_jobs m"
  "ms_key (snd (send p f m)) = ms_key m" "ms_id (snd (send p f m)) = ms_id m"
  "ms_next (snd (send p f m)) = ms_next m" "ms_closed (snd (send p f m)) = ms_closed m"
  "ms_user (snd (send p f m)) = ms_user m" "ms_pending (snd (send p f m)) = ms_pending m"
  by (simp_all add: send_def rtc_def split: prod.split)

lemma store_others [simp]:
  "ms_rtc (snd (store f m)) = ms_rtc m" "ms_replicas (snd (store f m)) = ms_replicas m"
  "ms_requested (snd (store f m)) = ms_requested m" "ms_incoming (snd (store f m)) = ms_incoming m"
  "ms_outgoing (snd (store f m)) = ms_outgoing m" "ms_jobs (snd (store f m)) = ms_jobs m"
  "ms_key (snd (store f m)) = ms_key m" "ms_id (snd (store f m)) = ms_id m"
  "ms_next (snd (store f m)) = ms_next m" "ms_user (snd (store f m)) = ms_user m"
  by (simp_all add: store_def split: prod.split)

lemma store_result: "store f m = (r, m') \<Longrightarrow> \<exists>d. f (ms_store m) = (r, d) \<and> m' = m\<lparr>ms_store := d\<rparr>"
  by (cases "f (ms_store m)") (auto simp: store_def)

lemma queue_files_others [simp]:
  "ms_store (queue_files s p fs m) = ms_store m" "ms_rtc (queue_files s p fs m) = ms_rtc m"
  "ms_replicas (queue_files s p fs m) = ms_replicas m" "ms_key (queue_files s p fs m) = ms_key m"
  "ms_incoming (queue_files s p fs m) = ms_incoming m" "ms_outgoing (queue_files s p fs m) = ms_outgoing m"
  "ms_requested (queue_files s p fs m) = ms_requested m" "ms_id (queue_files s p fs m) = ms_id m"
  by (induction fs arbitrary: m) (simp_all add: Let_def trySubmit_def)

lemma queueFileDownloads_others [simp]:
  "ms_store (queueFileDownloads c rs p u m) = ms_store m" "ms_rtc (queueFileDownloads c rs p u m) = ms_rtc m"
  "ms_replicas (queueFileDownloads c rs p u m) = ms_replicas m" "ms_key (queueFileDownloads c rs p u m) = ms_key m"
  "ms_incoming (queueFileDownloads c rs p u m) = ms_incoming m"
  "ms_outgoing (queueFileDownloads c rs p u m) = ms_outgoing m"
  "ms_requested (queueFileDownloads c rs p u m) = ms_requested m" "ms_id (queueFileDownloads c rs p u m) = ms_id m"
  by (induction rs arbitrary: m) (simp_all split: option.split)

lemma end_sync_others [simp]:
  "ms_store (end_sync p m) = ms_store m" "ms_rtc (end_sync p m) = ms_rtc m"
  "ms_replicas (end_sync p m) = ms_replicas m" "ms_key (end_sync p m) = ms_key m"
  "ms_outgoing (end_sync p m) = ms_outgoing m" "ms_id (end_sync p m) = ms_id m" "ms_jobs (end_sync p m) = ms_jobs m"
  by (simp_all add: end_sync_def)

lemma clear_others [simp]:
  "ms_store (clearIncomingStateSync p t m) = ms_store m" "ms_rtc (clearIncomingStateSync p t m) = ms_rtc m"
  "ms_replicas (clearIncomingStateSync p t m) = ms_replicas m" "ms_key (clearIncomingStateSync p t m) = ms_key m"
  "ms_outgoing (clearIncomingStateSync p t m) = ms_outgoing m" "ms_id (clearIncomingStateSync p t m) = ms_id m"
  "ms_jobs (clearIncomingStateSync p t m) = ms_jobs m"
  by (simp_all add: clearIncomingStateSync_def split: option.split)

text \<open>The frames an operation put on the channels.\<close>

definition emitted :: "Messenger \<Rightarrow> Messenger \<Rightarrow> (string \<times> frame) list" where
  "emitted m m' = drop (length (rtc_sent (ms_rtc m))) (rtc_sent (ms_rtc m'))"

lemma emitted_send: "emitted m (snd (send p f m)) = (if fst (send p f m) = Ret () then [(p, f)] else [])"
proof -
  obtain r m' where s: "send p f m = (r, m')" by fastforce
  obtain w where "m' = m\<lparr>ms_rtc := w\<rparr>"
    "rtc_sent w = rtc_sent (ms_rtc m) @ (if r = Ret () then [(p, f)] else [])"
    using send_state [OF s] by blast
  then show ?thesis using s by (simp add: emitted_def)
qed

lemma emitted_same: "rtc_sent (ms_rtc m') = rtc_sent (ms_rtc m) \<Longrightarrow> emitted m m' = []"
  by (simp add: emitted_def)

lemma emitted_after: "ms_rtc m = ms_rtc m1 \<Longrightarrow> emitted m m' = emitted m1 m'"
  by (simp add: emitted_def)

section \<open>The acknowledgement\<close>

definition has_message :: "db \<Rightarrow> string \<Rightarrow> bool" where
  "has_message d uid = tbl_has m_uid uid (t_messages (db_tables d))"

lemma transaction_error: "transaction f d = (Err e, d') \<Longrightarrow> (\<And>d x e. f d = (Err e, x) \<Longrightarrow> e \<noteq> []) \<Longrightarrow> e \<noteq> []"
  by (auto simp: transaction_def split: prod.splits go.splits if_splits)

lemma sql_error: "sql f d = (Err e, d') \<Longrightarrow> e \<noteq> []"
  by (auto simp: sql_def split: prod.splits if_splits option.splits)

lemma import_error: "import_messages at ms d = (Err e, d') \<Longrightarrow> e \<noteq> []"
proof (induction ms arbitrary: d d' e)
  case (Cons r ms)
  then show ?case
    by (auto simp: db_then_def db_ret_def split: prod.splits go.splits dest: sql_error)
qed (simp add: db_ret_def)

lemma ImportStateSyncMessages_error: "ImportStateSyncMessages now ms d = (Err e, d') \<Longrightarrow> e \<noteq> []"
  unfolding ImportStateSyncMessages_def by (erule transaction_error) (rule import_error)

lemma ImportStateSyncMessages_has:
  assumes "ImportStateSyncMessages now ms d = (Ret ins, d')" "r \<in> set ms"
  shows "has_message d' (rm_uid r)"
proof -
  obtain d0 d1 where "import_messages (unix_micro now) ms d0 = (Ret ins, d1)" "db_tables d1 = db_tables d'"
    "db_tables d0 = db_tables d"
    using assms(1) unfolding ImportStateSyncMessages_def transaction_def
    by (auto split: prod.splits go.splits if_splits)
  note i = this
  have "ins = absent (t_messages (db_tables d)) ms"
    and "db_tables d' = (db_tables d)\<lparr>t_messages := t_messages (db_tables d) @ map (received_row (unix_micro now)) ins\<rparr>"
    using import_messages_RetD [OF i(1)] i(2,3) by simp_all
  then have "t_messages (db_tables d') = t_messages (db_tables d)
      @ map (received_row (unix_micro now)) (absent (t_messages (db_tables d)) ms)"
    by simp
  then show ?thesis
    using absent_covers [OF assms(2), of "t_messages (db_tables d)" "unix_micro now"]
    by (simp only: has_message_def)
qed

lemma emitted_fail:
  "emitted m (failStateSyncImport p t e m1) \<in> {[], [(p, sync_ack t e)]}" if "ms_rtc m1 = ms_rtc m"
proof -
  have "emitted m (failStateSyncImport p t e m1)
      = emitted (clearIncomingStateSync p t m1) (snd (send p (sync_ack t e) (clearIncomingStateSync p t m1)))"
    unfolding failStateSyncImport_def using that by (intro emitted_after) simp
  then show ?thesis by (simp add: emitted_send)
qed

lemma decode_error: "decodeStateSyncDelta c b = Err e \<Longrightarrow> e \<noteq> []"
  by (auto simp: decodeStateSyncDelta_def split: option.splits if_splits)

text \<open>What the import of a delta leaves behind, however it ends.\<close>

lemma store_import_cases:
  assumes "store (ImportStateSyncMessages now ms) m = (r, m1)"
  obtains d where "m1 = m\<lparr>ms_store := d\<rparr>" "(\<forall>ins. r \<noteq> Ret ins) \<longrightarrow> db_tables d = db_tables (ms_store m)"
    "\<forall>e. r = Err e \<longrightarrow> e \<noteq> []"
proof -
  obtain d where d: "ImportStateSyncMessages now ms (ms_store m) = (r, d)" "m1 = m\<lparr>ms_store := d\<rparr>"
    using store_result [OF assms] by blast
  have "db_tables d = db_tables (ms_store m)" if "\<forall>ins. r \<noteq> Ret ins"
    using d(1) that unfolding ImportStateSyncMessages_def by (cases r) (auto dest: transaction_atomic)
  moreover have "e \<noteq> []" if "r = Err e" for e using d(1) that ImportStateSyncMessages_error by blast
  ultimately show ?thesis using that [OF d(2)] by blast
qed

lemma finish_cases:
  assumes "m' = finishStateSyncImport c L net p t m"
  obtains (success) delta m1 m2 where
      "digest_of L (join_slots (in_slots t)) = in_sha t"
      "decodeStateSyncDelta c (join_slots (in_slots t)) = Ret delta" "md_checkpoint delta = in_checkpoint t"
      "ms_rtc m2 = ms_rtc m" "ms_store m2 = ms_store m1" "ms_key m2 = ms_key m" "ms_replicas m2 = ms_replicas m"
      "\<exists>ins. store (ImportStateSyncMessages (n_now net) (md_messages delta)) m = (Ret ins, m1)"
      "m' = snd (send p (sync_ack t []) (clearIncomingStateSync p t m2))"
  | (failed) e m1 where "e \<noteq> []" "ms_rtc m1 = ms_rtc m" "db_tables (ms_store m1) = db_tables (ms_store m)"
      "ms_replicas m1 = ms_replicas m" "ms_key m1 = ms_key m" "m' = failStateSyncImport p t e m1"
  | (panicked) m1 where "ms_rtc m1 = ms_rtc m" "ms_replicas m1 = ms_replicas m" "ms_key m1 = ms_key m"
      "db_tables (ms_store m1) = db_tables (ms_store m)" "m' = m1"
proof (cases "digest_of L (join_slots (in_slots t)) = in_sha t")
  case False
  then show ?thesis
    using assms by (intro failed [of "''state sync checksum mismatch''" m]) (simp_all add: finishStateSyncImport_def)
next
  case hash: True
  show ?thesis
  proof (cases "decodeStateSyncDelta c (join_slots (in_slots t))")
    case (Err e)
    then show ?thesis
      using assms hash by (intro failed [of e m]) (simp_all add: finishStateSyncImport_def decode_error)
  next
    case (Panic e)
    then show ?thesis using assms hash by (intro panicked [of m]) (simp_all add: finishStateSyncImport_def)
  next
    case (Ret delta)
    show ?thesis
    proof (cases "md_checkpoint delta = in_checkpoint t")
      case False
      then show ?thesis
        using assms hash Ret
        by (intro failed [of "''state sync checkpoint mismatch''" m]) (simp_all add: finishStateSyncImport_def)
    next
      case check: True
      obtain r m1 where s: "store (ImportStateSyncMessages (n_now net) (md_messages delta)) m = (r, m1)"
        by fastforce
      obtain d where d: "m1 = m\<lparr>ms_store := d\<rparr>" "(\<forall>ins. r \<noteq> Ret ins) \<longrightarrow> db_tables d = db_tables (ms_store m)"
        "\<forall>e. r = Err e \<longrightarrow> e \<noteq> []"
        by (rule store_import_cases [OF s])
      note result = assms hash Ret check s
      show ?thesis
      proof (cases r)
        case ins: (Ret ins)
        show ?thesis
          by (rule success [OF hash Ret check, of "if ins \<noteq> [] then queueFileDownloads c ins p (ms_user m1) m1 else m1" m1])
            (use result ins d(1) in \<open>simp_all add: finishStateSyncImport_def Let_def\<close>)
      next
        case (Err e)
        then show ?thesis
          using result d by (intro failed [of e m1]) (simp_all add: finishStateSyncImport_def)
      next
        case (Panic e)
        then show ?thesis
          using result d by (intro panicked [of m1]) (simp_all add: finishStateSyncImport_def)
      qed
    qed
  qed
qed

text \<open>
  An acknowledgement without error tells the truth: when finishing a transfer sends one,
  the blocks hash to what the manifest announced, they decode to a delta of the announced
  checkpoint, and every message of the delta is in the store. Nothing else is sent.
\<close>

theorem clean_ack_means_imported:
  assumes "m' = finishStateSyncImport c L net p t m"
    and "(q, StateSyncAckFrame ack) \<in> set (emitted m m')" and "sa_error ack = []"
  shows "\<exists>delta. q = p \<and> sa_transfer ack = in_transfer t \<and> sa_checkpoint ack = md_checkpoint delta
     \<and> digest_of L (join_slots (in_slots t)) = in_sha t
     \<and> decodeStateSyncDelta c (join_slots (in_slots t)) = Ret delta
     \<and> list_all (\<lambda>r. has_message (ms_store m') (rm_uid r)) (md_messages delta)"
  using assms(1)
proof (cases rule: finish_cases)
  case (success delta m1 m2)
  then obtain ins d where imp: "ImportStateSyncMessages (n_now net) (md_messages delta) (ms_store m) = (Ret ins, d)"
      "m1 = m\<lparr>ms_store := d\<rparr>"
    using store_result by blast
  have "emitted m m' = emitted (clearIncomingStateSync p t m2) m'"
    using success by (intro emitted_after) simp
  then have "q = p \<and> ack = \<lparr>sa_transfer = in_transfer t, sa_checkpoint = in_checkpoint t, sa_error = []\<rparr>"
    using assms(2) success(9) by (auto simp: emitted_send sync_ack_def split: if_splits)
  moreover have "ms_store m' = d" using success(5,9) imp(2) by simp
  ultimately show ?thesis
    using success imp(1) by (auto simp: list_all_iff intro!: exI [of _ delta] ImportStateSyncMessages_has)
next
  case (failed e m1)
  then have False
    using emitted_fail [of m1 m p t e] assms(2,3) by (auto simp: sync_ack_def)
  then show ?thesis ..
next
  case (panicked m1)
  then show ?thesis using assms(2) by (simp add: emitted_same)
qed

section \<open>From export to import\<close>

lemma send_blocks_Ret:
  "send_blocks net p f is m = (Ret (), m') \<Longrightarrow>
     \<exists>w. m' = m\<lparr>ms_rtc := w\<rparr> \<and> rtc_sent w = rtc_sent (ms_rtc m) @ map (\<lambda>i. (p, f i)) is"
proof (induction "is" arbitrary: m)
  case Nil
  then show ?case by (intro exI [of _ "ms_rtc m"]) simp
next
  case (Cons i "is")
  obtain u m1 where s: "send p (f i) m = (Ret u, m1)" and rest: "send_blocks net p f is m1 = (Ret (), m')"
    using Cons.prems by (auto split: go.splits prod.splits)
  obtain w1 where w1: "m1 = m\<lparr>ms_rtc := w1\<rparr>" "rtc_sent w1 = rtc_sent (ms_rtc m) @ [(p, f i)]"
    using send_state [OF s] by auto
  obtain w where "m' = m1\<lparr>ms_rtc := w\<rparr>" "rtc_sent w = rtc_sent (ms_rtc m1) @ map (\<lambda>i. (p, f i)) is"
    using Cons.IH [OF rest] by blast
  then show ?case using w1 by (intro exI [of _ w]) simp
qed

lemma transmit_Ret:
  assumes "transmit net p tid cp z dig m = (Ret (), m')"
  shows "\<exists>w. m' = m\<lparr>ms_rtc := w\<rparr> \<and> rtc_sent w = rtc_sent (ms_rtc m) @
     (p, StateSyncManifestFrame \<lparr>sm_transfer = tid, sm_checkpoint = cp, sm_count = int (block_count reloginChunkSize z),
        sm_sha = dig, sm_error = []\<rparr>) # map (\<lambda>i. (p, sync_chunk tid z i)) [0..<block_count reloginChunkSize z]"
proof -
  obtain u m1 where s: "send p (StateSyncManifestFrame \<lparr>sm_transfer = tid, sm_checkpoint = cp,
         sm_count = int (block_count reloginChunkSize z), sm_sha = dig, sm_error = []\<rparr>) m = (Ret u, m1)"
    and rest: "send_blocks net p (sync_chunk tid z) [0..<block_count reloginChunkSize z] m1 = (Ret (), m')"
    using assms by (auto simp: transmit_def split: go.splits prod.splits)
  obtain w1 where w1: "m1 = m\<lparr>ms_rtc := w1\<rparr>" "rtc_sent w1 = rtc_sent (ms_rtc m) @ [(p, StateSyncManifestFrame
      \<lparr>sm_transfer = tid, sm_checkpoint = cp, sm_count = int (block_count reloginChunkSize z), sm_sha = dig, sm_error = []\<rparr>)]"
    using send_state [OF s] by auto
  obtain w where "m' = m1\<lparr>ms_rtc := w\<rparr>"
    "rtc_sent w = rtc_sent (ms_rtc m1) @ map (\<lambda>i. (p, sync_chunk tid z i)) [0..<block_count reloginChunkSize z]"
    using send_blocks_Ret [OF rest] by blast
  then show ?thesis using w1 by (intro exI [of _ w]) simp
qed

lemma GetLastStateCheck_tables: "GetLastStateCheck p d = (Ret s, d') \<Longrightarrow> db_tables d' = db_tables d"
  by (auto simp: GetLastStateCheck_def db_err_def elim!: db_then_RetD split: if_splits option.splits
      simp: db_ret_def dest!: sql_read_RetD)

text \<open>What a successful \<open>sendStateSync\<close> has done.\<close>

lemma sendStateSync_Ret:
  assumes "sendStateSync c L net p m = (Ret (), m')"
  obtains since delta messages z dig w d1 d2 d3 where
    "GetLastStateCheck p (ms_store m) = (Ret since, d1)" "db_tables d1 = db_tables (ms_store m)"
    "ExportMessagesForStateSync since (n_now net) d1 = (Ret delta, d2)"
    "sanitizeStateSyncMessages c (ms_id m) (md_messages delta) = Ret messages"
    "encodeStateSyncDelta c L (delta\<lparr>md_messages := messages\<rparr>) = (z, dig)"
    "0 < block_count reloginChunkSize z" "int (block_count reloginChunkSize z) \<le> stateSyncMaxChunkCount"
    "emitted m m' = (p, StateSyncManifestFrame \<lparr>sm_transfer = n_uuid net 0, sm_checkpoint = md_checkpoint delta,
        sm_count = int (block_count reloginChunkSize z), sm_sha = dig, sm_error = []\<rparr>)
      # map (\<lambda>i. (p, sync_chunk (n_uuid net 0) z i)) [0..<block_count reloginChunkSize z]"
    "ms_outgoing m' p = Some \<lparr>out_ref = ms_next m, out_transfer = n_uuid net 0, out_checkpoint = md_checkpoint delta\<rparr>"
proof -
  obtain since m1 where g: "store (GetLastStateCheck p) m = (Ret since, m1)"
    using assms by (auto simp: sendStateSync_def split: go.splits prod.splits)
  obtain delta m2 where x: "store (ExportMessagesForStateSync since (n_now net)) m1 = (Ret delta, m2)"
    using assms g by (auto simp: sendStateSync_def split: go.splits prod.splits)
  obtain messages where s: "sanitizeStateSyncMessages c (ms_id m) (md_messages delta) = Ret messages"
    using assms g x by (auto simp: sendStateSync_def split: go.splits prod.splits)
  obtain z dig where e: "encodeStateSyncDelta c L (delta\<lparr>md_messages := messages\<rparr>) = (z, dig)" by fastforce
  obtain d1 where d1: "GetLastStateCheck p (ms_store m) = (Ret since, d1)" "m1 = m\<lparr>ms_store := d1\<rparr>"
    using store_result [OF g] by blast
  obtain d2 where d2: "ExportMessagesForStateSync since (n_now net) d1 = (Ret delta, d2)" "m2 = m1\<lparr>ms_store := d2\<rparr>"
    using store_result [OF x] d1(2) by auto
  have n: "0 < block_count reloginChunkSize z \<and> int (block_count reloginChunkSize z) \<le> stateSyncMaxChunkCount
      \<and> transmit net p (n_uuid net 0) (md_checkpoint delta) z dig
           (start_outgoing p (n_uuid net 0) (md_checkpoint delta) m2) = (Ret (), m')"
    using assms g x s e by (auto simp: sendStateSync_def Let_def split: go.splits prod.splits if_splits)
  have rtc_started: "ms_rtc (start_outgoing p t cp m2) = ms_rtc m2" for t cp by (simp add: start_outgoing_def)
  obtain w where w: "m' = (start_outgoing p (n_uuid net 0) (md_checkpoint delta) m2)\<lparr>ms_rtc := w\<rparr>"
    "rtc_sent w = rtc_sent (ms_rtc m2) @ (p, StateSyncManifestFrame \<lparr>sm_transfer = n_uuid net 0,
        sm_checkpoint = md_checkpoint delta, sm_count = int (block_count reloginChunkSize z), sm_sha = dig, sm_error = []\<rparr>)
      # map (\<lambda>i. (p, sync_chunk (n_uuid net 0) z i)) [0..<block_count reloginChunkSize z]"
    using transmit_Ret [OF n [THEN conjunct2, THEN conjunct2]] by (auto simp only: rtc_started)
  show ?thesis
    by (rule that [OF d1(1) GetLastStateCheck_tables [OF d1(1)] d2(1) s e])
      (use n w d1(2) d2(2) in \<open>simp_all add: emitted_def start_outgoing_def\<close>)
qed

text \<open>
  The receiving side: what the blocks of a payload do to a fresh transfer, in any order, with
  repetitions, before and after the transfer is complete.
\<close>

definition sync_block :: "string \<Rightarrow> bytes \<Rightarrow> nat \<Rightarrow> StateSyncChunk" where
  "sync_block tid z i = \<lparr>sk_transfer = tid, sk_index = int i, sk_data = block reloginChunkSize z i\<rparr>"

definition collected :: "bytes \<Rightarrow> nat list \<Rightarrow> slots" where
  "collected z is = code.collect (map (\<lambda>i. (i, block reloginChunkSize z i)) is) (no_slots (block_count reloginChunkSize z))"

lemma collected_snoc: "collected z (is @ [i]) = fill_slot i (block reloginChunkSize z i) (collected z is)"
  by (simp add: collected_def code.collect_def)

lemma collected_width: "length (sl_chunks (collected z is)) = block_count reloginChunkSize z"
  by (induction "is" rule: rev_induct)
    (simp_all add: collected_snoc code.width_put, simp add: collected_def code.collect_def no_slots_def)

lemma collected_full:
  assumes "set is \<subseteq> {..<block_count reloginChunkSize z}"
  shows "all_received (collected z is) \<longleftrightarrow> {..<block_count reloginChunkSize z} \<subseteq> set is"
    and "all_received (collected z is) \<Longrightarrow> join_slots (collected z is) = z"
proof -
  have a: "set (map (\<lambda>i. (i, block reloginChunkSize z i)) is)
      \<subseteq> (\<lambda>i. (i, block reloginChunkSize z i)) ` {..<block_count reloginChunkSize z}"
    using assms by auto
  have f: "fst ` set (map (\<lambda>i. (i, block reloginChunkSize z i)) is) = set is" by force
  show "all_received (collected z is) \<longleftrightarrow> {..<block_count reloginChunkSize z} \<subseteq> set is"
    using code.collect_blocks(1) [OF reloginChunkSize_pos a] unfolding collected_def f .
  show "all_received (collected z is) \<Longrightarrow> join_slots (collected z is) = z"
    using code.collect_blocks(2) [OF reloginChunkSize_pos a] by (simp add: collected_def)
qed

lemma collected_good: "set is \<subseteq> {..<block_count reloginChunkSize z} \<Longrightarrow> slots_ok (collected z is)"
proof (induction "is" rule: rev_induct)
  case Nil
  then show ?case by (simp add: collected_def code.collect_def code.good_start)
next
  case (snoc i "is")
  then show ?case
    by (simp add: collected_snoc code.good_put collected_width block_nonempty)
qed

text \<open>
  A run of the arrival of blocks, whatever the state they arrive in: \<open>going s\<close> is the state with slots
  \<open>s\<close> to be filled, \<open>complete s\<close> the one after the last of them was. Blocks after that change nothing.
\<close>

definition full_slots :: "bytes \<Rightarrow> slots \<Rightarrow> bool" where
  "full_slots z s \<longleftrightarrow> join_slots s = z \<and> length (sl_chunks s) = block_count reloginChunkSize z \<and> all_received s
     \<and> (\<forall>j < length (sl_chunks s). sl_chunks s ! j \<noteq> [])"

lemma full_slots_fill: "full_slots z s \<Longrightarrow> i < block_count reloginChunkSize z \<Longrightarrow> fill_slot i d s = s"
  by (simp add: full_slots_def fill_slot_def)

lemma collected_complete:
  assumes "set is \<subseteq> {..<block_count reloginChunkSize z}" "all_received (collected z is)"
  shows "full_slots z (collected z is)"
  using assms collected_full [OF assms(1)] code.full_iff [OF collected_good [OF assms(1)]]
  by (simp add: full_slots_def collected_width)

lemma arrivals:
  assumes n: "0 < block_count reloginChunkSize z" and start: "going (no_slots (block_count reloginChunkSize z)) = m"
    and fills: "\<And>is i. i < block_count reloginChunkSize z \<Longrightarrow> f i (going (collected z is))
      = (if all_received (collected z (is @ [i])) then complete (collected z (is @ [i])) else going (collected z (is @ [i])))"
    and stays: "\<And>s i. i < block_count reloginChunkSize z \<Longrightarrow> full_slots z s \<Longrightarrow> f i (complete s) = complete s"
    and "set is \<subseteq> {..<block_count reloginChunkSize z}"
  shows "if {..<block_count reloginChunkSize z} \<subseteq> set is
     then \<exists>s. full_slots z s \<and> fold f is m = complete s else fold f is m = going (collected z is)"
  using assms(5)
proof (induction "is" rule: rev_induct)
  case Nil
  then show ?case using n start by (auto simp: collected_def code.collect_def)
next
  case (snoc i "is")
  let ?n = "block_count reloginChunkSize z"
  have i: "i < ?n" and sub: "set is \<subseteq> {..<?n}" using snoc.prems by auto
  show ?case
  proof (cases "{..<?n} \<subseteq> set is")
    case True
    moreover have "{..<?n} \<subseteq> set (is @ [i])" using True by auto
    ultimately show ?thesis using snoc.IH [OF sub] stays [OF i] by auto
  next
    case False
    then have "fold f (is @ [i]) m = f i (going (collected z is))" using snoc.IH [OF sub] by simp
    then show ?thesis
      using fills [OF i] collected_full [OF snoc.prems] collected_complete [OF snoc.prems] by auto
  qed
qed

lemma chunks_collected:
  assumes "ms_incoming m q = Some t" "in_transfer t = tid" "\<not> in_processing t"
    and "in_slots t = no_slots (block_count reloginChunkSize z)" "0 < block_count reloginChunkSize z"
    and "\<not> ms_closed m"
    and "set is \<subseteq> {..<block_count reloginChunkSize z}"
  shows "if {..<block_count reloginChunkSize z} \<subseteq> set is
     then \<exists>s. full_slots z s \<and> fold (\<lambda>i. handleStateSyncChunk q (sync_block tid z i)) is m
        = m\<lparr>ms_incoming := (ms_incoming m)(q \<mapsto> t\<lparr>in_slots := s, in_processing := True\<rparr>),
            ms_jobs := ms_jobs m @ [FinishStateSync q (t\<lparr>in_slots := s, in_processing := True\<rparr>)]\<rparr>
     else fold (\<lambda>i. handleStateSyncChunk q (sync_block tid z i)) is m
        = m\<lparr>ms_incoming := (ms_incoming m)(q \<mapsto> t\<lparr>in_slots := collected z is\<rparr>)\<rparr>"
proof (rule arrivals [OF assms(5) _ _ _ assms(7)])
  have "(ms_incoming m)(q \<mapsto> t\<lparr>in_slots := no_slots (block_count reloginChunkSize z)\<rparr>) = ms_incoming m"
    using assms(1,4) by auto
  then show "m\<lparr>ms_incoming := (ms_incoming m)(q \<mapsto> t\<lparr>in_slots := no_slots (block_count reloginChunkSize z)\<rparr>)\<rparr> = m" by simp
next
  fix "is" i
  assume i: "i < block_count reloginChunkSize z"
  have len: "\<not> reloginChunkSize < length (block reloginChunkSize z i)"
    using length_block [of reloginChunkSize z i] by simp
  show "handleStateSyncChunk q (sync_block tid z i) (m\<lparr>ms_incoming := (ms_incoming m)(q \<mapsto> t\<lparr>in_slots := collected z is\<rparr>)\<rparr>)
      = (if all_received (collected z (is @ [i]))
         then m\<lparr>ms_incoming := (ms_incoming m)(q \<mapsto> t\<lparr>in_slots := collected z (is @ [i]), in_processing := True\<rparr>),
                ms_jobs := ms_jobs m @ [FinishStateSync q (t\<lparr>in_slots := collected z (is @ [i]), in_processing := True\<rparr>)]\<rparr>
         else m\<lparr>ms_incoming := (ms_incoming m)(q \<mapsto> t\<lparr>in_slots := collected z (is @ [i])\<rparr>)\<rparr>)"
    using assms(2,3,6) i len
    by (simp add: handleStateSyncChunk_def sync_block_def collected_width collected_snoc submit_def Let_def)
qed (simp add: handleStateSyncChunk_def)

lemma import_ok: "db_faults d = [] \<Longrightarrow> \<exists>ins d'. import_messages at ms d = (Ret ins, d') \<and> db_faults d' = []"
proof (induction ms arbitrary: d)
  case (Cons r ms)
  have "sql (insert_absent (received_row at r)) d = (Ret (fst (the (insert_absent (received_row at r) (db_tables d)))),
      d\<lparr>db_tables := snd (the (insert_absent (received_row at r) (db_tables d)))\<rparr>)"
    using Cons.prems by (simp add: sql_ok insert_absent_def)
  moreover obtain ins d' where "import_messages at ms
      (d\<lparr>db_tables := snd (the (insert_absent (received_row at r) (db_tables d)))\<rparr>) = (Ret ins, d')" "db_faults d' = []"
    using Cons.IH [of "d\<lparr>db_tables := snd (the (insert_absent (received_row at r) (db_tables d)))\<rparr>"] Cons.prems
    by auto
  ultimately show ?case by (simp add: db_then_def db_ret_def)
qed (simp add: db_ret_def)

lemma ImportStateSyncMessages_ok:
  "db_faults d = [] \<Longrightarrow> \<exists>ins d'. ImportStateSyncMessages now ms d = (Ret ins, d')"
  using import_ok [of d "unix_micro now" ms]
  by (auto simp: ImportStateSyncMessages_def intro: transaction_ok)

lemma hex_encode_nonempty: "b \<noteq> [] \<Longrightarrow> hex_encode b \<noteq> []"
  by (cases b) (simp_all add: hex_encode_def hex_byte_def)

lemma digest_nonempty: "crypto_lawful L \<Longrightarrow> digest_of L z \<noteq> []"
proof -
  assume "crypto_lawful L"
  then have "length (lib_sha256 L z) = 32" unfolding crypto_lawful_def by blast
  then have "lib_sha256 L z \<noteq> []" by (cases "lib_sha256 L z") simp_all
  then show ?thesis unfolding digest_of_def by (rule hex_encode_nonempty)
qed

lemma sanitize_uids: "sanitizeStateSyncMessages c me rs = Ret rs' \<Longrightarrow> map rm_uid rs' = map rm_uid rs"
proof -
  assume "sanitizeStateSyncMessages c me rs = Ret rs'"
  then have "list_all2 (\<lambda>x y. sanitize_message c me x = Ret y) rs rs'"
    unfolding sanitizeStateSyncMessages_def by (rule go_map_RetD)
  then show ?thesis by (induction rule: list_all2_induct) (auto simp: sanitize_message_def split: option.splits)
qed

text \<open>That a delta survives its journey through JSON and gzip, within the receiver's limit.\<close>

definition delta_survives :: "codec \<Rightarrow> MessageReplicationDelta \<Rightarrow> bool" where
  "delta_survives c d \<longleftrightarrow>
     gunzip c (gzip c (enc_delta c d)) = Some (enc_delta c d) \<and> dec_delta c (enc_delta c d) = Some d
     \<and> int (length (enc_delta c d)) \<le> stateSyncMaxDecodedSize"

definition history_survives :: "codec \<Rightarrow> net \<Rightarrow> Messenger \<Rightarrow> bool" where
  "history_survives c net m \<longleftrightarrow>
     (\<forall>rs rs'. set rs \<subseteq> replicated ` set (t_messages (db_tables (ms_store m))) \<longrightarrow>
        distinct (map rm_uid rs) \<longrightarrow> sanitizeStateSyncMessages c (ms_id m) rs = Ret rs' \<longrightarrow>
        delta_survives c \<lparr>md_version = 1, md_checkpoint = unix_micro (n_now net), md_messages = rs'\<rparr>)"

lemma export_distinct:
  assumes "ExportMessagesForStateSync since at d = (Ret delta, d')" "wf_tables (db_tables d)"
  shows "distinct (map rm_uid (md_messages delta))"
proof -
  have "map rm_uid (map replicated rs) = map m_uid rs" for rs by (simp add: replicated_def)
  moreover have "distinct (map m_uid (sort_key k (filter P (t_messages (db_tables d)))))" for k :: "_ \<Rightarrow> int \<times> string" and P
    using assms(2) by (simp add: wf_tables_def pk_def distinct_map inj_on_def)
  ultimately show ?thesis
    using assms(1)
    by (auto simp: ExportMessagesForStateSync_def Let_def db_err_def simp del: map_map split: if_splits
        dest!: sql_read_RetD)
qed

lemma decode_encoded:
  "delta_survives c d \<Longrightarrow> md_version d = 1 \<Longrightarrow> encodeStateSyncDelta c L d = (z, dig) \<Longrightarrow>
     decodeStateSyncDelta c z = Ret d \<and> dig = digest_of L z"
  by (auto simp: delta_survives_def encodeStateSyncDelta_def decodeStateSyncDelta_def stateSyncVersion_def Let_def)

lemma finish_imports:
  assumes "digest_of L (join_slots (in_slots t)) = in_sha t"
    and "decodeStateSyncDelta c (join_slots (in_slots t)) = Ret delta" and "md_checkpoint delta = in_checkpoint t"
    and "db_faults (ms_store m) = []" and "r \<in> set (md_messages delta)"
  shows "has_message (ms_store (finishStateSyncImport c L net q t m)) (rm_uid r)"
proof -
  obtain ins d where d: "ImportStateSyncMessages (n_now net) (md_messages delta) (ms_store m) = (Ret ins, d)"
    using ImportStateSyncMessages_ok [OF assms(4)] by blast
  then have "ms_store (finishStateSyncImport c L net q t m) = d"
    using assms by (simp add: finishStateSyncImport_def store_def Let_def)
  then show ?thesis using ImportStateSyncMessages_has [OF d assms(5)] by simp
qed

lemma handleStateSyncManifest_fresh:
  assumes "q \<in> ms_requested m" "sm_error man = []" "sm_transfer man \<noteq> []" "0 < sm_checkpoint man"
    "0 < sm_count man" "sm_count man \<le> stateSyncMaxChunkCount" "sm_sha man \<noteq> []"
  shows "handleStateSyncManifest q man m = m\<lparr>ms_incoming := (ms_incoming m)(q \<mapsto>
      \<lparr>in_ref = ms_next m, in_transfer = sm_transfer man, in_checkpoint = sm_checkpoint man, in_sha = sm_sha man,
       in_slots = no_slots (nat (sm_count man)), in_processing = False\<rparr>), ms_next := Suc (ms_next m)\<rparr>"
  using assms by (simp add: handleStateSyncManifest_def)

lemma fold_map_frames: "fold (handleStateSyncChunk q) (map (sync_block tid z) is) m
    = fold (\<lambda>i. handleStateSyncChunk q (sync_block tid z i)) is m"
  by (simp add: fold_map comp_def)

lemma order_indices:
  assumes "set order = set (map (sync_block tid z) [0..<n])"
  shows "\<exists>is. order = map (sync_block tid z) is \<and> set is = {..<n}"
proof -
  have x: "x = sync_block tid z (nat (sk_index x)) \<and> nat (sk_index x) < n" if "x \<in> set order" for x
    using that assms by (auto simp: sync_block_def)
  then have "order = map (sync_block tid z) (map (\<lambda>k. nat (sk_index k)) order)"
    by (induction order) auto
  moreover have "(\<lambda>k. nat (sk_index k)) ` set order = {..<n}"
    unfolding assms by (auto simp: sync_block_def image_iff)
  ultimately show ?thesis by (intro exI [of _ "map (\<lambda>k. nat (sk_index k)) order"]) simp
qed


text \<open>What is sent: a manifest and the blocks of a delta that holds the window.\<close>

lemma sync_sent:
  assumes sent: "sendStateSync c L na p A = (Ret (), A')" and wf: "wf_tables (db_tables (ms_store A))"
    and survive: "history_survives c na A"
  obtains since d1 delta messages z where
      "GetLastStateCheck p (ms_store A) = (Ret since, d1)" "md_checkpoint delta = unix_micro (n_now na)"
    and "(if since = zero_time then 0 else unix_micro since) \<le> unix_micro (n_now na)"
    and "set (md_messages delta) = replicated ` {r \<in> set (t_messages (db_tables (ms_store A))).
        (if since = zero_time then 0 else unix_micro since) \<le> m_updated r \<and> m_updated r \<le> unix_micro (n_now na)}"
    and "sanitizeStateSyncMessages c (ms_id A) (md_messages delta) = Ret messages"
    and "decodeStateSyncDelta c z = Ret (delta\<lparr>md_messages := messages\<rparr>)"
    and "0 < block_count reloginChunkSize z" "int (block_count reloginChunkSize z) \<le> stateSyncMaxChunkCount"
    and "ms_outgoing A' p = Some \<lparr>out_ref = ms_next A, out_transfer = n_uuid na 0, out_checkpoint = md_checkpoint delta\<rparr>"
    and "emitted A A' = (p, StateSyncManifestFrame \<lparr>sm_transfer = n_uuid na 0, sm_checkpoint = md_checkpoint delta,
        sm_count = int (block_count reloginChunkSize z), sm_sha = digest_of L z, sm_error = []\<rparr>)
      # map (\<lambda>k. (p, StateSyncChunkFrame k)) (map (sync_block (n_uuid na 0) z) [0..<block_count reloginChunkSize z])"
proof -
  obtain since delta messages z dig w d1 d2 d3 where
      g: "GetLastStateCheck p (ms_store A) = (Ret since, d1)" "db_tables d1 = db_tables (ms_store A)"
    and x: "ExportMessagesForStateSync since (n_now na) d1 = (Ret delta, d2)"
    and s: "sanitizeStateSyncMessages c (ms_id A) (md_messages delta) = Ret messages"
    and e: "encodeStateSyncDelta c L (delta\<lparr>md_messages := messages\<rparr>) = (z, dig)"
    and n: "0 < block_count reloginChunkSize z" "int (block_count reloginChunkSize z) \<le> stateSyncMaxChunkCount"
    and og: "ms_outgoing A' p = Some \<lparr>out_ref = ms_next A, out_transfer = n_uuid na 0, out_checkpoint = md_checkpoint delta\<rparr>"
    and em: "emitted A A' = (p, StateSyncManifestFrame \<lparr>sm_transfer = n_uuid na 0, sm_checkpoint = md_checkpoint delta,
        sm_count = int (block_count reloginChunkSize z), sm_sha = dig, sm_error = []\<rparr>)
      # map (\<lambda>i. (p, sync_chunk (n_uuid na 0) z i)) [0..<block_count reloginChunkSize z]"
    by (rule sendStateSync_Ret [OF sent])
  have delta: "md_checkpoint delta = unix_micro (n_now na)" "md_version delta = 1"
      "set (md_messages delta) = replicated ` {r \<in> set (t_messages (db_tables (ms_store A))).
        (if since = zero_time then 0 else unix_micro since) \<le> m_updated r \<and> m_updated r \<le> unix_micro (n_now na)}"
    using ExportMessagesForStateSync_RetD [OF x] unfolding g(2) by blast+
  have window: "(if since = zero_time then 0 else unix_micro since) \<le> unix_micro (n_now na)"
    using x by (auto simp: ExportMessagesForStateSync_def Let_def db_err_def split: if_splits)
  have "set (md_messages delta) \<subseteq> replicated ` set (t_messages (db_tables (ms_store A)))" unfolding delta(3) by blast
  moreover have "distinct (map rm_uid (md_messages delta))" using export_distinct [OF x] wf g(2) by simp
  ultimately have "delta_survives c \<lparr>md_version = 1, md_checkpoint = unix_micro (n_now na), md_messages = messages\<rparr>"
    using survive s unfolding history_survives_def by blast
  moreover have "delta\<lparr>md_messages := messages\<rparr> = \<lparr>md_version = 1, md_checkpoint = unix_micro (n_now na), md_messages = messages\<rparr>"
    using delta(1,2) by simp
  ultimately have dec: "decodeStateSyncDelta c z = Ret (delta\<lparr>md_messages := messages\<rparr>)" "dig = digest_of L z"
    using decode_encoded [OF _ _ e] delta(2) by simp_all
  show ?thesis
    by (rule that [OF g(1) delta(1) window delta(3) s dec(1) n og])
      (use em dec(2) in \<open>simp add: sync_chunk_def sync_block_def comp_def\<close>)
qed

text \<open>What a device that asked makes of a manifest and its blocks, in any order: one job.\<close>

lemma sync_received:
  assumes man: "man = \<lparr>sm_transfer = tid, sm_checkpoint = cp, sm_count = int (block_count reloginChunkSize z),
      sm_sha = digest_of L z, sm_error = []\<rparr>"
    and z: "0 < block_count reloginChunkSize z" "int (block_count reloginChunkSize z) \<le> stateSyncMaxChunkCount"
    and lib: "crypto_lawful L" and "tid \<noteq> []" "0 < cp" and B: "q \<in> ms_requested B" "\<not> ms_closed B"
    and ord: "set order = set (map (sync_block tid z) [0..<block_count reloginChunkSize z])"
    and B1: "B1 = fold (handleStateSyncChunk q) order (handleStateSyncManifest q man B)"
  obtains t where "join_slots (in_slots t) = z" "in_sha t = digest_of L z" "in_checkpoint t = cp"
    "ms_jobs B1 = ms_jobs B @ [FinishStateSync q t]" "ms_store B1 = ms_store B"
proof -
  obtain "is" where i: "order = map (sync_block tid z) is" "set is = {..<block_count reloginChunkSize z}"
    using order_indices [OF ord] by blast
  let ?B = "handleStateSyncManifest q man B"
  let ?t = "\<lparr>in_ref = ms_next B, in_transfer = tid, in_checkpoint = cp, in_sha = digest_of L z,
     in_slots = no_slots (block_count reloginChunkSize z), in_processing = False\<rparr>"
  have h: "?B = B\<lparr>ms_incoming := (ms_incoming B)(q \<mapsto> ?t), ms_next := Suc (ms_next B)\<rparr>"
    using handleStateSyncManifest_fresh [of q B man] B(1) z digest_nonempty [OF lib, of z] assms(5,6) by (simp add: man)
  obtain sl where sl: "join_slots sl = z" "fold (handleStateSyncChunk q) order ?B =
      ?B\<lparr>ms_incoming := (ms_incoming ?B)(q \<mapsto> ?t\<lparr>in_slots := sl, in_processing := True\<rparr>),
         ms_jobs := ms_jobs ?B @ [FinishStateSync q (?t\<lparr>in_slots := sl, in_processing := True\<rparr>)]\<rparr>"
    using chunks_collected [of ?B q ?t tid z "is"] h i B(2) z(1)
    unfolding i(1) fold_map_frames by (auto simp: full_slots_def)
  have "ms_jobs B1 = ms_jobs B @ [FinishStateSync q (?t\<lparr>in_slots := sl, in_processing := True\<rparr>)]" "ms_store B1 = ms_store B"
    unfolding B1 unfolding sl(2) unfolding h by simp_all
  then show ?thesis
    by (intro that [of "?t\<lparr>in_slots := sl, in_processing := True\<rparr>"]) (simp_all add: sl(1))
qed

text \<open>
  A round of state sync delivers: when \<open>sendStateSync\<close> returns without error, it has sent a
  manifest and blocks such that a peer which asked for them and gets the blocks in any order,
  with any repetitions, makes exactly one import job of them; and that job leaves in the
  peer's store every message the sender's window holds.
\<close>

lemma sync_delivers:
  assumes sent: "sendStateSync c L na p A = (Ret (), A')" and wf: "wf_tables (db_tables (ms_store A))"
    and survive: "history_survives c na A" and lib: "crypto_lawful L"
    and clock: "0 < unix_micro (n_now na)" and uuid: "n_uuid na 0 \<noteq> []"
    and B: "q \<in> ms_requested B" "\<not> ms_closed B" "db_faults (ms_store B) = []"
  shows "\<exists>since d1 man chunks. GetLastStateCheck p (ms_store A) = (Ret since, d1) \<and>
     emitted A A' = (p, StateSyncManifestFrame man) # map (\<lambda>k. (p, StateSyncChunkFrame k)) chunks \<and>
     sm_checkpoint man = unix_micro (n_now na) \<and>
     (if since = zero_time then 0 else unix_micro since) \<le> unix_micro (n_now na) \<and>
     map_option (\<lambda>x. (out_transfer x, out_checkpoint x)) (ms_outgoing A' p) = Some (sm_transfer man, sm_checkpoint man) \<and>
     (\<forall>order. set order = set chunks \<longrightarrow>
        (\<exists>t. let B1 = fold (handleStateSyncChunk q) order (handleStateSyncManifest q man B) in
           ms_jobs B1 = ms_jobs B @ [FinishStateSync q t] \<and> ms_store B1 = ms_store B \<and>
           (\<forall>r \<in> set (t_messages (db_tables (ms_store A))).
              (if since = zero_time then 0 else unix_micro since) \<le> m_updated r
                \<and> m_updated r \<le> unix_micro (n_now na) \<longrightarrow>
              has_message (ms_store (finishStateSyncImport c L nb q t B1)) (m_uid r))))"
proof -
  obtain since d1 delta messages z where g: "GetLastStateCheck p (ms_store A) = (Ret since, d1)"
    and delta: "md_checkpoint delta = unix_micro (n_now na)"
    and window: "(if since = zero_time then 0 else unix_micro since) \<le> unix_micro (n_now na)"
    and msgs: "set (md_messages delta) = replicated ` {r \<in> set (t_messages (db_tables (ms_store A))).
        (if since = zero_time then 0 else unix_micro since) \<le> m_updated r \<and> m_updated r \<le> unix_micro (n_now na)}"
    and s: "sanitizeStateSyncMessages c (ms_id A) (md_messages delta) = Ret messages"
    and dec: "decodeStateSyncDelta c z = Ret (delta\<lparr>md_messages := messages\<rparr>)"
    and n: "0 < block_count reloginChunkSize z" "int (block_count reloginChunkSize z) \<le> stateSyncMaxChunkCount"
    and og: "ms_outgoing A' p = Some \<lparr>out_ref = ms_next A, out_transfer = n_uuid na 0, out_checkpoint = md_checkpoint delta\<rparr>"
    and frames: "emitted A A' = (p, StateSyncManifestFrame \<lparr>sm_transfer = n_uuid na 0, sm_checkpoint = md_checkpoint delta,
        sm_count = int (block_count reloginChunkSize z), sm_sha = digest_of L z, sm_error = []\<rparr>)
      # map (\<lambda>k. (p, StateSyncChunkFrame k)) (map (sync_block (n_uuid na 0) z) [0..<block_count reloginChunkSize z])"
    by (rule sync_sent [OF sent wf survive])
  let ?man = "\<lparr>sm_transfer = n_uuid na 0, sm_checkpoint = md_checkpoint delta, sm_count = int (block_count reloginChunkSize z),
     sm_sha = digest_of L z, sm_error = []\<rparr>"
  have deliver: "\<exists>t. let B1 = fold (handleStateSyncChunk q) order (handleStateSyncManifest q ?man B) in
           ms_jobs B1 = ms_jobs B @ [FinishStateSync q t] \<and> ms_store B1 = ms_store B \<and>
           (\<forall>r \<in> set (t_messages (db_tables (ms_store A))).
              (if since = zero_time then 0 else unix_micro since) \<le> m_updated r
                \<and> m_updated r \<le> unix_micro (n_now na) \<longrightarrow>
              has_message (ms_store (finishStateSyncImport c L nb q t B1)) (m_uid r))"
    if ord: "set order = set (map (sync_block (n_uuid na 0) z) [0..<block_count reloginChunkSize z])" for order
  proof -
    obtain t where t: "join_slots (in_slots t) = z" "in_sha t = digest_of L z" "in_checkpoint t = md_checkpoint delta"
      and jobs: "ms_jobs (fold (handleStateSyncChunk q) order (handleStateSyncManifest q ?man B)) = ms_jobs B @ [FinishStateSync q t]"
        "ms_store (fold (handleStateSyncChunk q) order (handleStateSyncManifest q ?man B)) = ms_store B"
      by (rule sync_received [OF refl n lib uuid _ B(1,2) ord refl]) (use clock delta in auto)
    have "has_message (ms_store (finishStateSyncImport c L nb q t (fold (handleStateSyncChunk q) order (handleStateSyncManifest q ?man B)))) (m_uid r)"
      if r: "replicated r \<in> set (md_messages delta)" for r
    proof -
      have "rm_uid (replicated r) \<in> set (map rm_uid (md_messages delta))" using r by simp
      then have "m_uid r \<in> set (map rm_uid messages)"
        unfolding sanitize_uids [OF s] by (simp add: replicated_def)
      then obtain r' where r': "r' \<in> set (md_messages (delta\<lparr>md_messages := messages\<rparr>))" "rm_uid r' = m_uid r" by auto
      then show ?thesis
        using finish_imports [of L t c, OF _ _ _ _ r'(1)] t dec jobs(2) B(3) by simp
    qed
    then show ?thesis using jobs unfolding Let_def msgs by blast
  qed
  show ?thesis
    by (intro exI conjI) (rule g, rule frames, use delta og window deliver in auto)
qed


definition sample_row :: message_row where
  "sample_row = \<lparr>m_uid = ''u'', m_login = ''l'', m_sender = ''s'', m_chat = ''c'', m_data = [7], m_created = 3, m_updated = 3\<rparr>"

definition history_db :: db where
  "history_db = \<lparr>db_tables = no_tables\<lparr>t_messages := [sample_row]\<rparr>, db_faults = []\<rparr>"

definition sync_codec :: codec where
  "sync_codec = sample_codec
     \<lparr>dec_msg := (\<lambda>_. Some \<lparr>cm_from = ''s'', cm_chat = ''c'', cm_text = [], cm_time = 0, cm_id = ''u'', cm_files = []\<rparr>),
      enc_delta := (\<lambda>d. replicate (Suc (length (md_messages d))) 1),
      dec_delta := (\<lambda>b. Some \<lparr>md_version = 1, md_checkpoint = 5, md_messages =
        replicate (length b - 1) ((replicated sample_row)\<lparr>rm_data := []\<rparr>)\<rparr>)\<rparr>"

definition sync_sender :: Messenger where
  "sync_sender = linked ''b'' (sample_messenger ''a'' ''ann'' history_db)"

definition sync_receiver :: Messenger where
  "sync_receiver = (linked ''a'' (sample_messenger ''b'' ''ann'' fresh_db))\<lparr>ms_requested := {''a''}\<rparr>"

definition sync_net :: net where
  "sync_net = sample_net\<lparr>n_now := 5000\<rparr>"

lemma sync_codec_survives: "history_survives sync_codec sync_net sync_sender"
proof -
  have t: "t_messages (db_tables (ms_store sync_sender)) = [sample_row]"
    by (simp add: sync_sender_def linked_def history_db_def)
  have "delta_survives sync_codec \<lparr>md_version = 1, md_checkpoint = unix_micro (n_now sync_net), md_messages = rs'\<rparr>"
    if rs: "set rs \<subseteq> {replicated sample_row}" "distinct (map rm_uid rs)"
      "sanitizeStateSyncMessages sync_codec (ms_id sync_sender) rs = Ret rs'" for rs rs'
  proof -
    have "rs = [] \<or> rs = [replicated sample_row]"
    proof (cases rs)
      case (Cons x xs)
      then have "xs = []" using rs(1,2) by (cases xs) auto
      then show ?thesis using Cons rs(1) by simp
    qed simp
    then have "rs' = [] \<or> rs' = [(replicated sample_row)\<lparr>rm_data := []\<rparr>]"
      using rs(3) by (auto simp: sanitizeStateSyncMessages_def sanitize_message_def sync_codec_def sample_codec_def)
    then show ?thesis
      by (auto simp: delta_survives_def sync_codec_def sample_codec_def stateSyncMaxDecodedSize_def
          sync_net_def unix_micro_def)
  qed
  then show ?thesis unfolding history_survives_def t by simp
qed

lemma sync_send_ok:
  assumes net: "n_now net = 5000" "\<And>i. n_capacity net i = [Some 0]"
    and m: "ms_store m = history_db" "ms_rtc m = ms_rtc sync_sender"
  shows "fst (sendStateSync sync_codec toy_lib net ''b'' m) = Ret ()"
proof -
  have same: "m\<lparr>ms_store := history_db\<rparr> = m" using m(1) by (simp flip: m(1))
  have g: "store (GetLastStateCheck ''b'') m = (Ret zero_time, m)"
    using same by (simp add: store_def GetLastStateCheck_def m(1) history_db_def db_then_def sql_read_ok
        no_tables_def db_ret_def tbl_find_def)
  have x: "store (ExportMessagesForStateSync zero_time 5000) m
      = (Ret \<lparr>md_version = 1, md_checkpoint = 5, md_messages = [replicated sample_row]\<rparr>, m)"
    using same by (simp add: store_def ExportMessagesForStateSync_def m(1) history_db_def sql_read_ok
        no_tables_def unix_micro_def zero_time_def sample_row_def)
  have n: "block_count reloginChunkSize [1, 1 :: byte] = 1"
    by (simp add: block_count_def reloginChunkSize_def)
  have san: "sanitizeStateSyncMessages sync_codec me [replicated sample_row]
      = Ret [(replicated sample_row)\<lparr>rm_data := []\<rparr>]" for me
    by (simp add: sanitizeStateSyncMessages_def sanitize_message_def sync_codec_def sample_codec_def)
  have enc: "encodeStateSyncDelta sync_codec toy_lib (\<lparr>md_version = 1, md_checkpoint = 5, md_messages = [a]\<rparr>)
      = ([1, 1], digest_of toy_lib [1, 1])" for a
    by (simp add: encodeStateSyncDelta_def sync_codec_def sample_codec_def numeral_2_eq_2 Let_def)
  have tr: "fst (transmit net ''b'' tid cp [1, 1] dig (start_outgoing ''b'' tid cp m)) = Ret ()" for tid cp dig
    by (simp add: n net m(2) transmit_def start_outgoing_def sync_sender_def linked_def send_def rtc_def sendEnvelope_def
        dc_send_def NewManager_def Let_def reloginMaxBufferedAmount_def)
  obtain w where w: "transmit net ''b'' (n_uuid net 0) 5 [1, 1] (digest_of toy_lib [1, 1])
      (start_outgoing ''b'' (n_uuid net 0) 5 m) = (Ret (), w)"
    using tr by (metis prod.collapse)
  show ?thesis
    by (simp add: sendStateSync_def g x net san enc n w stateSyncMaxChunkCount_def Let_def)
qed

definition sync_transfer :: stateSyncIncomingTransfer where
  "sync_transfer = \<lparr>in_ref = 0, in_transfer = ''t'', in_checkpoint = 5, in_sha = digest_of toy_lib [1, 1],
     in_slots = \<lparr>sl_chunks = [[1, 1]], sl_received = 1\<rparr>, in_processing = True\<rparr>"

lemma clean_ack_means_imported_witness:
  "\<exists>delta. decodeStateSyncDelta sync_codec [1, 1] = Ret delta \<and> md_messages delta \<noteq> [] \<and>
     list_all (\<lambda>r. has_message (ms_store (finishStateSyncImport sync_codec toy_lib sync_net ''a'' sync_transfer sync_receiver))
       (rm_uid r)) (md_messages delta)"
proof -
  let ?m' = "finishStateSyncImport sync_codec toy_lib sync_net ''a'' sync_transfer sync_receiver"
  let ?d = "\<lparr>md_version = 1, md_checkpoint = 5, md_messages = [(replicated sample_row)\<lparr>rm_data := []\<rparr>]\<rparr>"
  have j: "join_slots (in_slots sync_transfer) = [1, 1]" by (simp add: sync_transfer_def join_slots_def)
  have d: "decodeStateSyncDelta sync_codec [1, 1] = Ret ?d"
    by (simp add: decodeStateSyncDelta_def sync_codec_def sample_codec_def stateSyncMaxDecodedSize_def stateSyncVersion_def)
  have "db_faults (ms_store sync_receiver) = []" by (simp add: sync_receiver_def linked_def fresh_db_def)
  then obtain ins e where i: "ImportStateSyncMessages (n_now sync_net) (md_messages ?d) (ms_store sync_receiver) = (Ret ins, e)"
    using ImportStateSyncMessages_ok by blast
  have "(''a'', sync_ack sync_transfer []) \<in> set (emitted sync_receiver ?m')"
  proof -
    define m2 where "m2 = clearIncomingStateSync ''a'' sync_transfer
          (if ins \<noteq> [] then queueFileDownloads sync_codec ins ''a'' (ms_user sync_receiver) (sync_receiver\<lparr>ms_store := e\<rparr>)
           else sync_receiver\<lparr>ms_store := e\<rparr>)"
    have fin: "?m' = snd (send ''a'' (sync_ack sync_transfer []) m2)"
      using i d j unfolding m2_def by (simp add: finishStateSyncImport_def store_def Let_def) (simp add: sync_transfer_def)
    have r: "ms_rtc m2 = ms_rtc sync_receiver" by (simp add: m2_def)
    have ok: "fst (send ''a'' (sync_ack sync_transfer []) m2) = Ret ()"
      by (simp add: send_def rtc_def r) (simp add: sendEnvelope_def dc_send_def sync_receiver_def linked_def NewManager_def Let_def)
    show ?thesis
      unfolding fin using emitted_after [OF r [symmetric]] by (simp only: emitted_send ok) simp
  qed
  then obtain delta where "decodeStateSyncDelta sync_codec [1, 1] = Ret delta"
      "list_all (\<lambda>r. has_message (ms_store ?m') (rm_uid r)) (md_messages delta)"
    using clean_ack_means_imported [OF refl, of "''a''" _ sync_receiver sync_codec toy_lib sync_net "''a''" sync_transfer] j
    unfolding sync_ack_def by fastforce
  then show ?thesis using d by auto
qed
end
