(* ===== verification/Peers.thy ===== *)
theory Peers
  imports Signals "HOL-Library.AList"
begin

text \<open>
  \<open>internal/messenger/peers.go\<close>: the peers a messenger knows, filed under their key, with the
  ids of all devices met under it; how they are found, in memory or at Muninn; and which of
  them count as online.

  The map \<open>peersMap\<close> is an association list. Go leaves the order in which a map is read open;
  here it is the order in which the keys came in.
\<close>

definition PeerSlice :: "Messenger \<Rightarrow> Peer list" where
  "PeerSlice m = map snd (ms_peersMap m)"

definition upsertPeer ::
    "string \<Rightarrow> string \<Rightarrow> string \<Rightarrow> string \<Rightarrow> string \<Rightarrow> int \<Rightarrow> int \<Rightarrow> bool \<Rightarrow> Messenger \<Rightarrow> Messenger" where
  "upsertPeer peerID peerKey login encryptionKey signatureKey lastSeen ttlSeconds isFake m =
     (let login = DisplayLogin \<lparr>peer_id = peerID, peer_ids = [], peer_login = login, peer_enc = [],
            peer_sign = signatureKey, peer_seen = 0, peer_ttl = 0, peer_flag = [], peer_fake = isFake\<rparr>;
          m1 = (case map_of (ms_peersMap m) peerKey of
             Some peer \<Rightarrow> m\<lparr>ms_peersMap := AList.update peerKey
               (peer\<lparr>peer_ids := (if peerID \<in> set (peer_ids peer) then peer_ids peer else peer_ids peer @ [peerID]),
                     peer_id := peerID, peer_login := login, peer_enc := encryptionKey, peer_sign := signatureKey,
                     peer_seen := lastSeen, peer_ttl := ttlSeconds, peer_fake := isFake\<rparr>) (ms_peersMap m)\<rparr>
           | None \<Rightarrow> snd (store (StorePeer login peerKey encryptionKey signatureKey lastSeen isFake)
               (m\<lparr>ms_peersMap := AList.update peerKey
                 \<lparr>peer_id = peerID, peer_ids = [peerID], peer_login = login, peer_enc = encryptionKey,
                  peer_sign = signatureKey, peer_seen = lastSeen, peer_ttl = ttlSeconds, peer_flag = [],
                  peer_fake = isFake\<rparr> (ms_peersMap m)\<rparr>)))
      in notify PeersChanged (m1\<lparr>ms_peers := PeerSlice m1\<rparr>))"

definition upsert_found :: "Peer \<Rightarrow> Messenger \<Rightarrow> Messenger" where
  "upsert_found p = upsertPeer (peer_id p) (Key p) (peer_login p) (peer_enc p) (peer_sign p) (peer_seen p)
     (peer_ttl p) (peer_fake p)"

definition GetPeers :: "Messenger \<Rightarrow> Peer list" where
  "GetPeers m = filter (\<lambda>p. Key p \<noteq> ms_key m) (ms_peers m)"

definition getConnectedPeers :: "Messenger \<Rightarrow> Peer list" where
  "getConnectedPeers m =
     filter (\<lambda>p. list_ex (\<lambda>pid. pid \<noteq> ms_id m \<and> IsPeerConnected m pid) (peer_ids p)) (ms_peers m)"

definition live_peer :: "int \<Rightarrow> Peer \<Rightarrow> bool" where
  "live_peer now p = (now < peer_seen p + seconds (peer_ttl p))"

text \<open>The first peer that answers to the id and is neither fake nor without a TTL decides.\<close>

definition IsPeerOnline :: "int \<Rightarrow> Messenger \<Rightarrow> string \<Rightarrow> bool" where
  "IsPeerOnline now m peerID =
     (case find (\<lambda>p. peerID \<in> set (peer_ids p) \<and> \<not> peer_fake p \<and> 0 < peer_ttl p) (ms_peers m) of
        None \<Rightarrow> False | Some p \<Rightarrow> live_peer now p)"

definition IsPeerOnlineByKey :: "int \<Rightarrow> Messenger \<Rightarrow> string \<Rightarrow> bool" where
  "IsPeerOnlineByKey now m key =
     (case find (\<lambda>p. Key p = key \<and> \<not> peer_fake p \<and> 0 < peer_ttl p) (ms_peers m) of
        None \<Rightarrow> False | Some p \<Rightarrow> live_peer now p)"

text \<open>\<open>-p.TTLSeconds/2\<close> negates first, and Go's division rounds towards zero.\<close>

definition half_back :: "int \<Rightarrow> int" where
  "half_back ttl = (if 0 \<le> ttl then - (ttl div 2) else (- ttl) div 2)"

definition getOnlinePeers :: "int \<Rightarrow> Messenger \<Rightarrow> Peer list" where
  "getOnlinePeers now m =
     filter (\<lambda>p. list_ex (\<lambda>pid. pid \<noteq> ms_id m) (peer_ids p) \<and> now + seconds (half_back (peer_ttl p)) < peer_seen p)
       (ms_peers m)"

definition with_id :: "string \<Rightarrow> Messenger \<Rightarrow> Peer option" where
  "with_id i m = find (\<lambda>p. i \<in> set (peer_ids p)) (ms_peers m)"

definition findPeerByID :: "net \<Rightarrow> string \<Rightarrow> Messenger \<Rightarrow> Peer option \<times> Messenger" where
  "findPeerByID net i m =
     (case with_id i m of
        Some p \<Rightarrow> (Some p, m)
      | None \<Rightarrow>
         (case n_get net i of
            None \<Rightarrow> (None, m)
          | Some stored \<Rightarrow> (let m1 = upsert_found stored m in (with_id i m1, m1))))"

definition findPeerByKey :: "net \<Rightarrow> string \<Rightarrow> Messenger \<Rightarrow> Peer option \<times> Messenger" where
  "findPeerByKey net key m =
     (let keySplit = Split key (CHR '':'') in
      if length keySplit < 2 then (None, m)
      else (case map_of (ms_peersMap m) key of
          Some peer \<Rightarrow>
            if peer_id peer \<noteq> [] then (Some peer, m)
            else (case n_all net (keySplit ! 0) (keySplit ! 1) of
                None \<Rightarrow> (None, m)
              | Some stored \<Rightarrow> (let m1 = fold upsert_found stored m in (map_of (ms_peersMap m1) key, m1)))
        | None \<Rightarrow>
            (case n_all net (keySplit ! 0) (keySplit ! 1) of
               None \<Rightarrow> (None, m)
             | Some stored \<Rightarrow> (let m1 = fold upsert_found stored m in (map_of (ms_peersMap m1) key, m1)))))"

text \<open>\<open>reloadReplicatedPeers\<close> of \<open>relogin_replication.go\<close>: the peers of the store, with the ids known.\<close>

definition reload_one :: "int \<Rightarrow> StoredPeer \<Rightarrow> (string \<times> Peer) list \<Rightarrow> (string \<times> Peer) list" where
  "reload_one now sp ps =
     (let peer = ToMuninnPeer now sp;
          k = Key peer
      in AList.update k (case map_of ps k of
           None \<Rightarrow> peer
         | Some existing \<Rightarrow> peer\<lparr>peer_id := peer_id existing, peer_ids := peer_ids existing,
             peer_ttl := peer_ttl existing\<rparr>) ps)"

definition reloadReplicatedPeers :: "int \<Rightarrow> Messenger \<Rightarrow> Messenger" where
  "reloadReplicatedPeers now m =
     (case store GetStoredPeers m of
        (Ret peers, m1) \<Rightarrow>
          (let m2 = m1\<lparr>ms_peersMap := fold (reload_one now) peers (ms_peersMap m1)\<rparr>
           in notify PeersChanged (m2\<lparr>ms_peers := PeerSlice m2\<rparr>))
      | (_, m1) \<Rightarrow> m1)"

end
