(* ===== verification/Relogin.thy ===== *)
theory Relogin
  imports StateSync Peers
begin

text \<open>
  \<open>internal/messenger/relogin.go\<close> and the rest of \<open>relogin_replication.go\<close>: a new device takes
  over an account. The old device shows a text with a challenge it signed; the new device
  checks it against the key Muninn has, connects and sends the text back; the old device
  checks its own signature and answers with the private keys and, in blocks, a compressed
  snapshot of its store.

  \<open>ApplyReloginSignature\<close> waits twice, for the connection and for the result, while other
  goroutines run. It is cut there: \<open>relogin_connect\<close>, then \<open>relogin_start\<close>, then
  \<open>relogin_finish\<close>. The transfer it allocates is shared by pointer with the callbacks and with
  the job that finishes it; transfers live in \<open>ms_heap\<close>, and \<open>ms_relogin\<close> is the pointer
  \<open>m.reloginTransfer\<close>.
\<close>

definition reloginSnapshotVersion :: int where
  "reloginSnapshotVersion = 1"

section \<open>The signature text\<close>

definition relogin_text :: "string \<Rightarrow> bytes \<Rightarrow> bytes \<Rightarrow> string" where
  "relogin_text i challenge sig = i @ '':'' @ EncodeKey challenge @ ''.'' @ EncodeKey sig"

definition GenerateReloginSignature :: "crypto_lib \<Rightarrow> bytes option \<Rightarrow> Messenger \<Rightarrow> string go" where
  "GenerateReloginSignature L random m =
     (case read_full 32 random of
        Err e \<Rightarrow> Err (''generate challenge: '' @ e)
      | Panic e \<Rightarrow> Panic e
      | Ret challenge \<Rightarrow>
         (case Sign L (k_sign_private (ms_keys m)) challenge of
            Err e \<Rightarrow> Err e
          | Panic e \<Rightarrow> Panic e
          | Ret sig \<Rightarrow> Ret (relogin_text (ms_id m) challenge sig)))"

text \<open>Both ends take the text apart in the same way.\<close>

definition parse_relogin :: "string \<Rightarrow> (string \<times> bytes \<times> bytes) go" where
  "parse_relogin signature =
     (let parts = SplitN2 signature (CHR '':'') in
      if length parts \<noteq> 2 then Err ''invalid signature: missing peer ID''
      else (let dataParts = SplitN2 (parts ! 1) (CHR ''.'') in
        if length dataParts \<noteq> 2 then Err ''invalid signature: missing challenge or signature''
        else (case b64_decode (dataParts ! 0) of
            None \<Rightarrow> Err ''decode challenge''
          | Some challenge \<Rightarrow>
             (case b64_decode (dataParts ! 1) of
                None \<Rightarrow> Err ''decode signature''
              | Some sig \<Rightarrow> Ret (parts ! 0, challenge, sig)))))"

section \<open>The old device\<close>

definition sanitize_replica :: "codec \<Rightarrow> string \<Rightarrow> ReplicatedMessage \<Rightarrow> ReplicatedMessage go" where
  "sanitize_replica c me r =
     (case dec_msg c (rm_data r) of
        None \<Rightarrow> Err (''decode message '' @ rm_uid r)
      | Some message \<Rightarrow>
         Ret (r\<lparr>rm_data := enc_msg c (message\<lparr>cm_files := sanitize_files me (cm_files message)\<rparr>)\<rparr>))"

definition buildReloginReplica :: "codec \<Rightarrow> crypto_lib \<Rightarrow> Messenger \<Rightarrow> (bytes \<times> string) go \<times> Messenger" where
  "buildReloginReplica c L m =
     (case store ExportReplicationSnapshot m of
        (Err e, m1) \<Rightarrow> (Err e, m1)
      | (Panic e, m1) \<Rightarrow> (Panic e, m1)
      | (Ret snapshot, m1) \<Rightarrow>
         (case go_map (sanitize_replica c (ms_id m1)) (rs_messages snapshot) of
            Err e \<Rightarrow> (Err e, m1)
          | Panic e \<Rightarrow> (Panic e, m1)
          | Ret messages \<Rightarrow>
             (let compressed = gzip c (enc_snapshot c (snapshot\<lparr>rs_messages := messages\<rparr>))
              in (Ret (compressed, digest_of L compressed), m1))))"

definition relogin_chunk :: "string \<Rightarrow> bytes \<Rightarrow> nat \<Rightarrow> frame" where
  "relogin_chunk transferID replica i =
     ReloginChunkFrame \<lparr>rk_transfer = transferID, rk_index = int i, rk_data = block reloginChunkSize replica i\<rparr>"

definition relogin_error :: "string \<Rightarrow> frame" where
  "relogin_error e = ReloginResponseFrame \<lparr>rr_keys = [], rr_transfer = [], rr_count = 0, rr_sha = [], rr_error = e\<rparr>"

definition relogin_answer :: "string \<Rightarrow> string \<Rightarrow> bytes \<Rightarrow> string \<Rightarrow> frame" where
  "relogin_answer keysData transferID replica digest =
     ReloginResponseFrame \<lparr>rr_keys = keysData, rr_transfer = transferID,
       rr_count = int (block_count reloginChunkSize replica), rr_sha = digest, rr_error = []\<rparr>"

text \<open>Everything after the signature is found to be good.\<close>

definition send_replica :: "codec \<Rightarrow> crypto_lib \<Rightarrow> net \<Rightarrow> string \<Rightarrow> Messenger \<Rightarrow> Messenger" where
  "send_replica c L net peerID m =
     (case store GetKeysJSON m of
        (Ret keysData, m1) \<Rightarrow>
          (case buildReloginReplica c L m1 of
             (Ret (replica, replicaHash), m2) \<Rightarrow>
               (let transferID = n_uuid net 0 in
                case send peerID (relogin_answer keysData transferID replica replicaHash) m2 of
                  (Ret _, m3) \<Rightarrow>
                    snd (send_blocks net peerID (relogin_chunk transferID replica)
                           [0..<block_count reloginChunkSize replica] m3)
                | (_, m3) \<Rightarrow> m3)
           | (_, m2) \<Rightarrow> snd (send peerID (relogin_error ''build replication snapshot'') m2))
      | (_, m1) \<Rightarrow> snd (send peerID (relogin_error ''read source keys'') m1))"

text \<open>\<open>Panic\<close> is the panic of \<open>ed25519.Verify\<close> on an own public key of another length.\<close>

definition handleReloginRequest ::
    "codec \<Rightarrow> crypto_lib \<Rightarrow> net \<Rightarrow> string \<Rightarrow> string \<Rightarrow> Messenger \<Rightarrow> unit go \<times> Messenger" where
  "handleReloginRequest c L net peerID signature m =
     (case parse_relogin signature of
        Ret (i, challenge, sig) \<Rightarrow>
          (case Verify L (k_sign_public (ms_keys m)) challenge sig of
             Ret True \<Rightarrow> (Ret (), send_replica c L net peerID m)
           | Ret False \<Rightarrow> (Ret (), m)
           | Err e \<Rightarrow> (Ret (), m)
           | Panic e \<Rightarrow> (Panic e, m))
      | _ \<Rightarrow> (Ret (), m))"

section \<open>The transfer on the new device\<close>

definition put_transfer :: "nat \<Rightarrow> reloginTransferState \<Rightarrow> Messenger \<Rightarrow> Messenger" where
  "put_transfer ref t m = m\<lparr>ms_heap := (ms_heap m)(ref \<mapsto> t)\<rparr>"

definition empty_snapshot :: ReplicationSnapshot where
  "empty_snapshot = \<lparr>rs_version = 0, rs_messages = [], rs_peers = [], rs_groups = []\<rparr>"

definition failed_result :: "string \<Rightarrow> reloginResult" where
  "failed_result e = \<lparr>res_keys = [], res_snapshot = empty_snapshot, res_err = Some e\<rparr>"

text \<open>The result channel holds one value; a value that finds it full is dropped.\<close>

definition completeReloginTransfer :: "nat \<Rightarrow> reloginResult \<Rightarrow> Messenger \<Rightarrow> Messenger" where
  "completeReloginTransfer ref result m =
     (case ms_heap m ref of
        None \<Rightarrow> m
      | Some t \<Rightarrow>
         if ms_relogin m \<noteq> Some ref \<or> rt_completed t then m
         else put_transfer ref (t\<lparr>rt_completed := True,
                rt_result := (case rt_result t of None \<Rightarrow> Some result | Some r \<Rightarrow> Some r)\<rparr>) m)"

definition clearReloginTransfer :: "nat \<Rightarrow> Messenger \<Rightarrow> Messenger" where
  "clearReloginTransfer ref m = (if ms_relogin m = Some ref then m\<lparr>ms_relogin := None\<rparr> else m)"

text \<open>The transfer the callbacks work on, if it is one of that peer and not over.\<close>

definition open_transfer :: "string \<Rightarrow> Messenger \<Rightarrow> (nat \<times> reloginTransferState) option" where
  "open_transfer peerID m =
     (case ms_relogin m of
        None \<Rightarrow> None
      | Some ref \<Rightarrow>
         (case ms_heap m ref of
            None \<Rightarrow> None
          | Some t \<Rightarrow> if rt_peer t \<noteq> peerID \<or> rt_completed t then None else Some (ref, t)))"

text \<open>A second response replaces the blocks but leaves the counter of the blocks received.\<close>

definition acceptReloginResponse :: "string \<Rightarrow> ReloginResponse \<Rightarrow> Messenger \<Rightarrow> Messenger" where
  "acceptReloginResponse peerID response m =
     (case open_transfer peerID m of
        None \<Rightarrow> m
      | Some (ref, t) \<Rightarrow>
         if rr_error response \<noteq> [] then
           completeReloginTransfer ref (failed_result (''relogin source: '' @ rr_error response)) m
         else if rr_keys response = [] then
           completeReloginTransfer ref (failed_result ''relogin source returned empty keys'') m
         else if rr_transfer response = [] \<or> rr_count response = 0 then
           completeReloginTransfer ref
             \<lparr>res_keys = rr_keys response, res_snapshot = empty_snapshot, res_err = None\<rparr> m
         else if rr_count response < 0 \<or> 1000000 < rr_count response then
           completeReloginTransfer ref (failed_result ''invalid replication chunk count'') m
         else put_transfer ref (t\<lparr>rt_transfer := rr_transfer response, rt_keys := rr_keys response,
                rt_sha := rr_sha response,
                rt_slots := (rt_slots t)\<lparr>sl_chunks := sl_chunks (no_slots (nat (rr_count response)))\<rparr>\<rparr>) m)"

definition acceptReloginChunk :: "string \<Rightarrow> ReloginChunk \<Rightarrow> Messenger \<Rightarrow> Messenger" where
  "acceptReloginChunk peerID chunk m =
     (case open_transfer peerID m of
        None \<Rightarrow> m
      | Some (ref, t) \<Rightarrow>
         if rt_transfer t \<noteq> rk_transfer chunk then m
         else if rk_index chunk < 0 \<or> int (length (sl_chunks (rt_slots t))) \<le> rk_index chunk then
           completeReloginTransfer ref (failed_result ''invalid replication chunk index'') m
         else (let t1 = t\<lparr>rt_slots := fill_slot (nat (rk_index chunk)) (rk_data chunk) (rt_slots t)\<rparr> in
           if \<not> all_received (rt_slots t1) \<or> rt_processing t1 then put_transfer ref t1 m
           else (case submit (FinishRelogin ref) (put_transfer ref (t1\<lparr>rt_processing := True\<rparr>) m) of (ok, m1) \<Rightarrow>
             if ok then m1
             else completeReloginTransfer ref (failed_result ''messenger is shutting down'') m1)))"

definition decodeReloginReplica :: "codec \<Rightarrow> bytes \<Rightarrow> ReplicationSnapshot go" where
  "decodeReloginReplica c compressed =
     (case gunzip c compressed of
        None \<Rightarrow> Err ''decompress replication snapshot''
      | Some raw \<Rightarrow>
         (case dec_snapshot c raw of
            None \<Rightarrow> Err ''decode replication snapshot''
          | Some snapshot \<Rightarrow>
             if rs_version snapshot \<noteq> reloginSnapshotVersion
             then Err ''unsupported replication snapshot version'' else Ret snapshot))"

text \<open>The job \<open>FinishRelogin\<close>.\<close>

definition finishReloginTransfer :: "codec \<Rightarrow> crypto_lib \<Rightarrow> net \<Rightarrow> nat \<Rightarrow> Messenger \<Rightarrow> Messenger" where
  "finishReloginTransfer c L net ref m =
     (case ms_heap m ref of
        None \<Rightarrow> m
      | Some t \<Rightarrow>
         (let compressed = join_slots (rt_slots t) in
          if rt_sha t = [] \<or> digest_of L compressed \<noteq> rt_sha t
          then completeReloginTransfer ref (failed_result ''replication snapshot checksum mismatch'') m
          else (case decodeReloginReplica c compressed of
              Err e \<Rightarrow> completeReloginTransfer ref (failed_result e) m
            | Panic e \<Rightarrow> m
            | Ret snapshot \<Rightarrow>
               (case store (ImportReplicationSnapshot (n_now net) snapshot) m of
                  (Ret _, m1) \<Rightarrow> completeReloginTransfer ref
                      \<lparr>res_keys = rt_keys t, res_snapshot = snapshot, res_err = None\<rparr> m1
                | (Err e, m1) \<Rightarrow> completeReloginTransfer ref (failed_result e) m1
                | (Panic e, m1) \<Rightarrow> m1))))"

section \<open>ApplyReloginSignature\<close>

text \<open>Up to the wait for the connection: the text is checked and the old device dialled.\<close>

definition relogin_connect ::
    "crypto_lib \<Rightarrow> net \<Rightarrow> string \<Rightarrow> Messenger \<Rightarrow> (string \<times> Peer) go \<times> Messenger" where
  "relogin_connect L net signature m =
     (case parse_relogin signature of
        Err e \<Rightarrow> (Err e, m)
      | Panic e \<Rightarrow> (Panic e, m)
      | Ret (peerID, challenge, sig) \<Rightarrow>
         (case findPeerByID net peerID m of
            (None, m1) \<Rightarrow> (Err ''peer not found'', m1)
          | (Some peer, m1) \<Rightarrow>
             (case DecodeKey (peer_sign peer) of
                Err e \<Rightarrow> (Err (''decode peer sign key: '' @ e), m1)
              | Panic e \<Rightarrow> (Panic e, m1)
              | Ret peerSignKey \<Rightarrow>
                 (case Verify L peerSignKey challenge sig of
                    Err e \<Rightarrow> (Err e, m1)
                  | Panic e \<Rightarrow> (Panic e, m1)
                  | Ret authorized \<Rightarrow>
                     if \<not> authorized then (Err ''invalid signature: not authorized'', m1)
                     else if IsPeerConnected m1 peerID then (Ret (peerID, peer), m1)
                     else (case ConnectPeer net peerID m1 of
                         (Ret _, m2) \<Rightarrow> (Ret (peerID, peer), m2)
                       | (Err e, m2) \<Rightarrow> (Err (''connect: '' @ e), m2)
                       | (Panic e, m2) \<Rightarrow> (Panic e, m2))))))"

text \<open>After the wait: the transfer is allocated and the text sent. Its reference is returned.\<close>

definition new_relogin :: "string \<Rightarrow> reloginTransferState" where
  "new_relogin peerID = \<lparr>rt_peer = peerID, rt_transfer = [], rt_keys = [], rt_sha = [], rt_slots = no_slots 0,
     rt_processing = False, rt_completed = False, rt_result = None\<rparr>"

definition relogin_start :: "string \<Rightarrow> string \<Rightarrow> Messenger \<Rightarrow> nat go \<times> Messenger" where
  "relogin_start peerID signature m =
     (if \<not> IsPeerConnected m peerID then (Err ''timed out waiting for WebRTC connection'', m)
      else if ms_relogin m \<noteq> None then (Err ''relogin is already in progress'', m)
      else (let ref = ms_next m in
        case send peerID (ReloginRequestFrame signature)
            (put_transfer ref (new_relogin peerID) (m\<lparr>ms_relogin := Some ref, ms_next := Suc ref\<rparr>)) of
          (Ret _, m1) \<Rightarrow> (Ret ref, m1)
        | (Err e, m1) \<Rightarrow> (Err (''send relogin request: '' @ e), clearReloginTransfer ref m1)
        | (Panic e, m1) \<Rightarrow> (Panic e, clearReloginTransfer ref m1)))"

text \<open>What the second wait ends with; a result is the one the transfer's channel holds.\<close>

datatype awaited = Answered | TimedOut | Stopped

definition no_keys :: parsed_keys where
  "no_keys = \<lparr>k_sign_public = [], k_sign_private = [], k_enc_private = [], k_enc_public = []\<rparr>"

text \<open>
  Taking over the account. The keys are assigned before the error of \<open>ParseKeyFile\<close> is looked
  at, so a failed parse leaves the messenger with nil keys.
\<close>

definition take_over :: "codec \<Rightarrow> net \<Rightarrow> string \<Rightarrow> Peer \<Rightarrow> reloginResult \<Rightarrow> Messenger \<Rightarrow> unit go \<times> Messenger" where
  "take_over c net peerID peer result m =
     (case store (SaveKeysJSON (res_keys result)) m of
        (Err e, m1) \<Rightarrow> (Err (''save keys: '' @ e), m1)
      | (Panic e, m1) \<Rightarrow> (Panic e, m1)
      | (Ret _, m1) \<Rightarrow>
         (case ParseKeyFile (dec_keys c) (bytes_of (res_keys result)) of
            Panic e \<Rightarrow> (Panic e, m1)
          | Err e \<Rightarrow> (Err (''parse relogin keys: '' @ e), m1\<lparr>ms_keys := no_keys\<rparr>)
          | Ret keys \<Rightarrow>
             (let m2 = m1\<lparr>ms_keys := keys, ms_key := Key peer, ms_user := peer_login peer,
                    ms_config := (ms_config m1)\<lparr>cfg_username := peer_login peer, cfg_peer_id := ms_id m1\<rparr>\<rparr>
              in case store (SaveAppConfig (ms_config m2)) m2 of
                 (Err e, m3) \<Rightarrow> (Err (''save config: '' @ e), m3)
               | (Panic e, m3) \<Rightarrow> (Panic e, m3)
               | (Ret _, m3) \<Rightarrow>
                  (let m4 = reloadReplicatedPeers (n_now net) m3 in
                   (Ret (), if rs_version (res_snapshot result) = reloginSnapshotVersion
                      then queueFileDownloads c (rs_messages (res_snapshot result)) peerID (peer_login peer) m4
                      else m4)))))"

definition relogin_finish ::
    "codec \<Rightarrow> net \<Rightarrow> string \<Rightarrow> Peer \<Rightarrow> nat \<Rightarrow> awaited \<Rightarrow> Messenger \<Rightarrow> unit go \<times> Messenger" where
  "relogin_finish c net peerID peer ref w m =
     (case (case w of
          TimedOut \<Rightarrow> (Err ''relogin: timed out waiting for replication'', m)
        | Stopped \<Rightarrow> (Err ''relogin: context canceled'', m)
        | Answered \<Rightarrow>
           (case Option.bind (ms_heap m ref) rt_result of
              None \<Rightarrow> (Err ''relogin: timed out waiting for replication'', m)
            | Some result \<Rightarrow>
               (case res_err result of
                  Some e \<Rightarrow> (Err e, m)
                | None \<Rightarrow> if res_keys result = [] then (Err ''relogin: source returned empty keys'', m)
                   else take_over c net peerID peer result m)))
      of (r, m1) \<Rightarrow> (r, clearReloginTransfer ref m1))"

section \<open>The signature text\<close>

lemma parse_relogin_text: "CHR '':'' \<notin> set i \<Longrightarrow> parse_relogin (relogin_text i challenge sig) = Ret (i, challenge, sig)"
proof -
  assume i: "CHR '':'' \<notin> set i"
  have dot: "CHR ''.'' \<notin> set (b64_encode b)" for b using b64_encode_char [of _ b] by (auto simp: b64_char_def)
  show ?thesis
    using SplitN2_append [OF i, of "EncodeKey challenge @ ''.'' @ EncodeKey sig"]
      SplitN2_append [OF dot, of challenge "EncodeKey sig"]
    by (simp add: parse_relogin_def relogin_text_def EncodeKey_def)
qed

text \<open>
  A generated signature text is taken apart into the id of the device, a challenge of 32
  bytes and a signature of it that its own public key verifies.
\<close>

theorem relogin_text_roundtrip:
  assumes "sign_pair L (k_sign_public (ms_keys m)) (k_sign_private (ms_keys m))"
    and "CHR '':'' \<notin> set (ms_id m)" and "GenerateReloginSignature L random m = Ret shown"
  shows "\<exists>challenge sig. parse_relogin shown = Ret (ms_id m, challenge, sig) \<and> length challenge = 32
     \<and> Verify L (k_sign_public (ms_keys m)) challenge sig = Ret True"
proof -
  obtain challenge sig where "read_full 32 random = Ret challenge" and
    s: "Sign L (k_sign_private (ms_keys m)) challenge = Ret sig" "shown = relogin_text (ms_id m) challenge sig"
    using assms(3) by (auto simp: GenerateReloginSignature_def split: go.splits)
  then have "length challenge = 32" using read_full_length by blast
  then show ?thesis
    using s parse_relogin_text [OF assms(2)] Sign_Verify [OF assms(1) s(1)] by auto
qed

lemma relogin_text_roundtrip_witness:
  "\<exists>shown challenge sig. GenerateReloginSignature toy_lib (Some (replicate 32 9)) (sample_messenger ''a'' ''ann'' fresh_db)
       = Ret shown \<and> parse_relogin shown = Ret (''a'', challenge, sig) \<and> length challenge = 32
     \<and> Verify toy_lib (replicate 32 5) challenge sig = Ret True"
proof -
  let ?m = "sample_messenger ''a'' ''ann'' fresh_db"
  have keys: "ms_keys ?m = \<lparr>k_sign_public = replicate 32 5, k_sign_private = replicate 64 5,
      k_enc_private = replicate 32 7, k_enc_public = 0 # replicate 32 7\<rparr>"
    by (simp add: sample_messenger_def new_messenger_def Let_def)
  have pair: "sign_pair toy_lib (replicate 32 5) (replicate 64 5)"
    using toy_sign_pair [of "replicate 32 5"] by (simp add: replicate_add [symmetric])
  obtain shown where t: "GenerateReloginSignature toy_lib (Some (replicate 32 9)) ?m = Ret shown"
    by (simp add: GenerateReloginSignature_def read_full_def Sign_def keys)
  show ?thesis
    using relogin_text_roundtrip [of toy_lib ?m, OF _ _ t] t pair by (simp add: keys)
qed

section \<open>Who gets the keys\<close>

definition link_up :: "net \<Rightarrow> string \<Rightarrow> Messenger \<Rightarrow> bool" where
  "link_up net p m \<longleftrightarrow> IsPeerConnected m p \<and> rtc_faults (ms_rtc m) = [] \<and> (\<forall>i. wait_capacity (n_capacity net i) = Ret ())"

lemma send_up:
  assumes "link_up net p m"
  shows "\<exists>w. send p f m = (Ret (), m\<lparr>ms_rtc := w\<rparr>) \<and> link_up net p (m\<lparr>ms_rtc := w\<rparr>)
     \<and> rtc_sent w = rtc_sent (ms_rtc m) @ [(p, f)]"
proof -
  obtain dc where dc: "rtc_chans (ms_rtc m) p = Some dc" "dc \<in> rtc_open (ms_rtc m)" "rtc_faults (ms_rtc m) = []"
      "\<forall>i. wait_capacity (n_capacity net i) = Ret ()"
    using assms by (auto simp: link_up_def IsPeerConnected_def IsConnected_def split: option.splits)
  define w where "w = snd (sendEnvelope p f (ms_rtc m))"
  have w: "sendEnvelope p f (ms_rtc m) = (Ret (), w)" "rtc_chans w p = Some dc" "dc \<in> rtc_open w" "rtc_faults w = []"
    using dc by (simp_all add: w_def sendEnvelope_def dc_send_def Let_def)
  have "link_up net p (m\<lparr>ms_rtc := w\<rparr>)"
    using dc(4) w by (simp add: link_up_def IsPeerConnected_def IsConnected_def)
  then show ?thesis
    using w(1) sendEnvelope_Ret [OF w(1)] by (intro exI [of _ w]) (simp add: send_def rtc_def)
qed

lemma send_blocks_up:
  "link_up net p m \<Longrightarrow> \<exists>w. send_blocks net p f is m = (Ret (), m\<lparr>ms_rtc := w\<rparr>)
     \<and> rtc_sent w = rtc_sent (ms_rtc m) @ map (\<lambda>i. (p, f i)) is"
proof (induction "is" arbitrary: m)
  case Nil
  then show ?case by (intro exI [of _ "ms_rtc m"]) simp
next
  case (Cons i "is")
  obtain w1 where w1: "send p (f i) m = (Ret (), m\<lparr>ms_rtc := w1\<rparr>)" "link_up net p (m\<lparr>ms_rtc := w1\<rparr>)"
    "rtc_sent w1 = rtc_sent (ms_rtc m) @ [(p, f i)]"
    using send_up [OF Cons.prems] by blast
  obtain w where w: "send_blocks net p f is (m\<lparr>ms_rtc := w1\<rparr>) = (Ret (), m\<lparr>ms_rtc := w1\<rparr>\<lparr>ms_rtc := w\<rparr>)"
    "rtc_sent w = rtc_sent w1 @ map (\<lambda>i. (p, f i)) is"
    using Cons.IH [OF w1(2)] by auto
  then show ?case using w1 Cons.prems by (intro exI [of _ w]) (simp add: link_up_def)
qed

lemma buildReloginReplica_state: "buildReloginReplica c L m = (r, m') \<Longrightarrow> \<exists>d. m' = m\<lparr>ms_store := d\<rparr>"
  by (auto simp: buildReloginReplica_def Let_def dest!: store_result split: prod.splits go.splits)

lemma link_up_store [simp]: "link_up net p (m\<lparr>ms_store := d\<rparr>) = link_up net p m"
  by (simp add: link_up_def IsPeerConnected_def)

lemma send_replica_up:
  assumes up: "link_up net p m" and keys: "GetKeysJSON (ms_store m) = (Ret keysData, d)"
    and build: "fst (buildReloginReplica c L (m\<lparr>ms_store := d\<rparr>)) = Ret (z, dig)"
  shows "emitted m (send_replica c L net p m) = (p, relogin_answer keysData (n_uuid net 0) z dig)
     # map (\<lambda>i. (p, relogin_chunk (n_uuid net 0) z i)) [0..<block_count reloginChunkSize z]"
proof -
  obtain m2 where b: "buildReloginReplica c L (m\<lparr>ms_store := d\<rparr>) = (Ret (z, dig), m2)"
    using build by (cases "buildReloginReplica c L (m\<lparr>ms_store := d\<rparr>)") simp
  obtain d2 where m2: "m2 = m\<lparr>ms_store := d2\<rparr>" using buildReloginReplica_state [OF b] by auto
  have up2: "link_up net p m2" using up m2 by simp
  obtain w1 where w1: "send p (relogin_answer keysData (n_uuid net 0) z dig) m2 = (Ret (), m2\<lparr>ms_rtc := w1\<rparr>)"
    "link_up net p (m2\<lparr>ms_rtc := w1\<rparr>)"
    "rtc_sent w1 = rtc_sent (ms_rtc m2) @ [(p, relogin_answer keysData (n_uuid net 0) z dig)]"
    using send_up [OF up2] by blast
  obtain w where w: "send_blocks net p (relogin_chunk (n_uuid net 0) z) [0..<block_count reloginChunkSize z]
      (m2\<lparr>ms_rtc := w1\<rparr>) = (Ret (), m2\<lparr>ms_rtc := w1\<rparr>\<lparr>ms_rtc := w\<rparr>)"
    "rtc_sent w = rtc_sent w1 @ map (\<lambda>i. (p, relogin_chunk (n_uuid net 0) z i)) [0..<block_count reloginChunkSize z]"
    using send_blocks_up [OF w1(2)] by auto
  have "store GetKeysJSON m = (Ret keysData, m\<lparr>ms_store := d\<rparr>)" using keys by (simp add: store_def)
  then have "send_replica c L net p m = m2\<lparr>ms_rtc := w1\<rparr>\<lparr>ms_rtc := w\<rparr>"
    using b w1(1) w(1) by (simp add: send_replica_def Let_def)
  then show ?thesis using w(2) w1(3) m2 by (simp add: emitted_def)
qed

text \<open>The frames of \<open>m'\<close> beyond those of \<open>m\<close> go to \<open>p\<close>.\<close>

definition only_to :: "string \<Rightarrow> Messenger \<Rightarrow> Messenger \<Rightarrow> bool" where
  "only_to p m m' \<longleftrightarrow> (\<exists>fs. rtc_sent (ms_rtc m') = rtc_sent (ms_rtc m) @ map (Pair p) fs)"

lemma only_to_trans: "only_to p a b \<Longrightarrow> only_to p b c \<Longrightarrow> only_to p a c"
  unfolding only_to_def by (metis append.assoc map_append)

lemma only_to_same: "ms_rtc m' = ms_rtc m \<Longrightarrow> only_to p m m'"
  unfolding only_to_def by (rule exI [of _ "[]"]) simp

lemma only_to_send: "only_to p m (snd (send p f m))"
proof -
  obtain r m' where s: "send p f m = (r, m')" by fastforce
  obtain w where "m' = m\<lparr>ms_rtc := w\<rparr>" "rtc_sent w = rtc_sent (ms_rtc m) @ (if r = Ret () then [(p, f)] else [])"
    using send_state [OF s] by blast
  then show ?thesis
    using s unfolding only_to_def by (intro exI [of _ "if r = Ret () then [f] else []"]) simp
qed

lemma only_to_blocks: "only_to p m (snd (send_blocks net p f is m))"
proof (induction "is" arbitrary: m)
  case (Cons i "is")
  obtain r m1 where s: "send p (f i) m = (r, m1)" by fastforce
  have "only_to p m m1" using only_to_send [of p m "f i"] s by simp
  then show ?case using s Cons.IH [of m1] by (auto simp: only_to_same intro: only_to_trans split: go.splits)
qed (simp add: only_to_same)

lemma only_to_emitted: "only_to p m m' \<Longrightarrow> list_all (\<lambda>(q, f). q = p) (emitted m m')"
  by (auto simp: only_to_def emitted_def list_all_iff)

lemma only_to_replica: "only_to p m (send_replica c L net p m)"
proof -
  obtain r m1 where g: "store GetKeysJSON m = (r, m1)" by fastforce
  obtain r2 m2 where b: "buildReloginReplica c L m1 = (r2, m2)" by fastforce
  have 1: "only_to p m m1" using store_result [OF g] by (auto intro: only_to_same)
  have 2: "only_to p m m2" using 1 buildReloginReplica_state [OF b] only_to_trans [OF 1 only_to_same [of m2]] by auto
  have 3: "only_to p m (snd (send p f m2))" "only_to p m (snd (send p f m1))" for f
    using 1 2 only_to_send only_to_trans by blast+
  have 4: "only_to p m (snd (send_blocks net p f is m3))" if "send p a m2 = (x, m3)" for f "is" a x m3
    using 3(1) [of a] that only_to_blocks only_to_trans by fastforce
  show ?thesis
    using g b 3 by (auto simp: send_replica_def Let_def 4 split: go.split prod.split) (metis 3(1) snd_conv)+
qed

text \<open>
  C28. A request changes nothing, and nothing is sent, unless its text holds a challenge and a
  signature that verify under the device's own public key; what is then sent, the keys among
  it, goes to the peer that asked and to nobody else.
\<close>

theorem relogin_request_authorised:
  "let m' = snd (handleReloginRequest c L net p signature m) in
   if (case parse_relogin signature of
         Ret (i, challenge, sig) \<Rightarrow> Verify L (k_sign_public (ms_keys m)) challenge sig = Ret True | _ \<Rightarrow> False)
   then list_all (\<lambda>(q, f). q = p) (emitted m m') else m' = m"
proof (cases "parse_relogin signature")
  case (Ret x)
  obtain i challenge sig where x: "x = (i, challenge, sig)" by (cases x)
  show ?thesis
  proof (cases "Verify L (k_sign_public (ms_keys m)) challenge sig = Ret True")
    case True
    then show ?thesis
      using Ret x only_to_emitted [OF only_to_replica] by (simp add: handleReloginRequest_def)
  next
    case False
    then show ?thesis
      using Ret x by (auto simp: handleReloginRequest_def split: go.split bool.split)
  qed
qed (simp_all add: handleReloginRequest_def)

text \<open>
  C29. The challenge is not tied to a relogin, nor to a time: every envelope the user ever
  signed, that is every chunk of a message or a file it sent, is also a relogin request. Whoever
  holds one and has a data channel to the device is sent the user's private keys and a copy of
  its store.
\<close>

theorem relogin_accepts_envelopes:
  assumes "verify_envelope L (k_sign_public (ms_keys m)) env = Ret ()" and "link_up net p m"
    and "GetKeysJSON (ms_store m) = (Ret keysData, d)"
    and "fst (buildReloginReplica c L (m\<lparr>ms_store := d\<rparr>)) = Ret (z, dig)"
  shows "emitted m (snd (handleReloginRequest c L net p (''x:'' @ EncodeKey (envelopeBytes env) @ ''.'' @ env_sig env) m))
     = (p, relogin_answer keysData (n_uuid net 0) z dig)
       # map (\<lambda>i. (p, relogin_chunk (n_uuid net 0) z i)) [0..<block_count reloginChunkSize z]"
proof -
  obtain sig where sig: "b64_decode (env_sig env) = Some sig"
      "lib_verify L (k_sign_public (ms_keys m)) (envelopeBytes env) sig" "length (k_sign_public (ms_keys m)) = 32"
    using assms(1) by (auto simp: verify_envelope_Ret)
  have dot: "CHR ''.'' \<notin> set (b64_encode b)" for b using b64_encode_char [of _ b] by (auto simp: b64_char_def)
  have "parse_relogin (''x:'' @ EncodeKey (envelopeBytes env) @ ''.'' @ env_sig env) = Ret (''x'', envelopeBytes env, sig)"
    using SplitN2_append [of "CHR '':''" "''x''"] SplitN2_append [OF dot, of "envelopeBytes env" "env_sig env"] sig(1)
    by (simp add: parse_relogin_def EncodeKey_def)
  then show ?thesis
    using sig(2,3) send_replica_up [OF assms(2-4)] by (simp add: handleReloginRequest_def Verify_def)
qed

definition keys_db :: db where
  "keys_db = \<lparr>db_tables = no_tables\<lparr>t_config := [(''crypto_keys'', ''K'')], t_messages := [sample_row]\<rparr>, db_faults = []\<rparr>"

definition relogin_codec :: codec where
  "relogin_codec = sync_codec\<lparr>enc_snapshot := (\<lambda>s. [1, 2]),
     dec_snapshot := (\<lambda>b. Some \<lparr>rs_version = 1, rs_messages = [(replicated sample_row)\<lparr>rm_data := []\<rparr>],
       rs_peers = [], rs_groups = []\<rparr>),
     dec_keys := (\<lambda>b. Some \<lparr>kf_sign_public = [], kf_sign_private = [], kf_enc_private = [], kf_enc_public = []\<rparr>)\<rparr>"

definition relogin_source :: Messenger where
  "relogin_source = linked ''b'' (sample_messenger ''a'' ''ann'' keys_db)"

lemma relogin_source_build:
  "GetKeysJSON (ms_store relogin_source) = (Ret ''K'', keys_db)"
  "ms_store relogin_source = keys_db"
  "fst (buildReloginReplica relogin_codec L (relogin_source\<lparr>ms_store := keys_db\<rparr>)) = Ret ([1, 2], digest_of L [1, 2])"
  "link_up sample_net ''b'' relogin_source"
proof -
  show st: "ms_store relogin_source = keys_db" by (simp add: relogin_source_def linked_def)
  show "GetKeysJSON (ms_store relogin_source) = (Ret ''K'', keys_db)"
    by (simp add: st GetKeysJSON_def GetConfigValue_ok keys_db_def config_value_def no_tables_def tbl_find_def)
  have "ExportReplicationSnapshot keys_db = (Ret \<lparr>rs_version = 1, rs_messages = [replicated sample_row], rs_peers = [],
      rs_groups = []\<rparr>, keys_db)"
    by (simp add: ExportReplicationSnapshot_def transaction_ok db_then_def db_ret_def keys_db_def sql_read_ok no_tables_def
        readReplicatedMessages_def readReplicatedPeers_def readReplicatedGroups_def)
  then show "fst (buildReloginReplica relogin_codec L (relogin_source\<lparr>ms_store := keys_db\<rparr>)) = Ret ([1, 2], digest_of L [1, 2])"
    by (simp add: buildReloginReplica_def store_def sanitize_replica_def relogin_codec_def sync_codec_def sample_codec_def Let_def)
  show "link_up sample_net ''b'' relogin_source"
    by (simp add: link_up_def IsPeerConnected_def IsConnected_def relogin_source_def linked_def NewManager_def sample_net_def
        reloginMaxBufferedAmount_def)
qed

lemma relogin_accepts_envelopes_witness:
  "hd (emitted relogin_source (snd (handleReloginRequest relogin_codec strict_lib sample_net ''b''
      (''x:'' @ EncodeKey (envelopeBytes sample_envelope) @ ''.'') relogin_source)))
   = (''b'', relogin_answer ''K'' (n_uuid sample_net 0) [1, 2] (digest_of strict_lib [1, 2]))"
proof -
  have "k_sign_public (ms_keys relogin_source) = replicate 32 5"
    by (simp add: relogin_source_def linked_def sample_messenger_def new_messenger_def Let_def)
  moreover have "b64_decode '''' = Some []" by code_simp
  ultimately have "verify_envelope strict_lib (k_sign_public (ms_keys relogin_source)) sample_envelope = Ret ()"
    by (simp add: verify_envelope_Ret strict_lib_def sample_envelope_def)
  from relogin_accepts_envelopes [OF this relogin_source_build(4) relogin_source_build(1), of relogin_codec "[1, 2]"]
  show ?thesis using relogin_source_build(3) [of strict_lib] by (simp add: sample_envelope_def)
qed

section \<open>The transfer, from request to result\<close>

definition relogin_block :: "string \<Rightarrow> bytes \<Rightarrow> nat \<Rightarrow> ReloginChunk" where
  "relogin_block tid z i = \<lparr>rk_transfer = tid, rk_index = int i, rk_data = block reloginChunkSize z i\<rparr>"

lemma chunks_accepted:
  assumes "ms_relogin m = Some ref" "ms_heap m ref = Some t" "rt_peer t = q" "\<not> rt_completed t" "\<not> rt_processing t"
    and "rt_transfer t = tid" "rt_slots t = no_slots (block_count reloginChunkSize z)" "0 < block_count reloginChunkSize z"
    and "\<not> ms_closed m" and "set is \<subseteq> {..<block_count reloginChunkSize z}"
  shows "if {..<block_count reloginChunkSize z} \<subseteq> set is
     then \<exists>s. full_slots z s \<and> fold (\<lambda>i. acceptReloginChunk q (relogin_block tid z i)) is m
        = put_transfer ref (t\<lparr>rt_slots := s, rt_processing := True\<rparr>) m\<lparr>ms_jobs := ms_jobs m @ [FinishRelogin ref]\<rparr>
     else fold (\<lambda>i. acceptReloginChunk q (relogin_block tid z i)) is m
        = put_transfer ref (t\<lparr>rt_slots := collected z is\<rparr>) m"
proof (rule arrivals [OF assms(8) _ _ _ assms(10)])
  show "put_transfer ref (t\<lparr>rt_slots := no_slots (block_count reloginChunkSize z)\<rparr>) m = m"
    using assms(2,7) by (simp add: put_transfer_def fun_upd_idem)
next
  fix "is" i
  assume i: "i < block_count reloginChunkSize z"
  show "acceptReloginChunk q (relogin_block tid z i) (put_transfer ref (t\<lparr>rt_slots := collected z is\<rparr>) m) =
      (if all_received (collected z (is @ [i]))
       then put_transfer ref (t\<lparr>rt_slots := collected z (is @ [i]), rt_processing := True\<rparr>) m\<lparr>ms_jobs := ms_jobs m @ [FinishRelogin ref]\<rparr>
       else put_transfer ref (t\<lparr>rt_slots := collected z (is @ [i])\<rparr>) m)"
    using assms(1,3,4,5,6,9) i
    by (simp add: acceptReloginChunk_def open_transfer_def put_transfer_def relogin_block_def collected_width
        collected_snoc submit_def Let_def)
next
  fix s i
  assume i: "i < block_count reloginChunkSize z" and s: "full_slots z s"
  have fill: "fill_slot i d s = s" for d using full_slots_fill [OF s i] .
  show "acceptReloginChunk q (relogin_block tid z i)
      (put_transfer ref (t\<lparr>rt_slots := s, rt_processing := True\<rparr>) m\<lparr>ms_jobs := ms_jobs m @ [FinishRelogin ref]\<rparr>)
    = put_transfer ref (t\<lparr>rt_slots := s, rt_processing := True\<rparr>) m\<lparr>ms_jobs := ms_jobs m @ [FinishRelogin ref]\<rparr>"
    using s i assms(1,3,4,6)
    by (cases m; cases t)
      (simp add: full_slots_def acceptReloginChunk_def open_transfer_def put_transfer_def relogin_block_def fill Let_def)
qed

definition snapshot_survives :: "codec \<Rightarrow> ReplicationSnapshot \<Rightarrow> bool" where
  "snapshot_survives c s \<longleftrightarrow>
     gunzip c (gzip c (enc_snapshot c s)) = Some (enc_snapshot c s) \<and> dec_snapshot c (enc_snapshot c s) = Some s"

definition sent_snapshot :: "codec \<Rightarrow> Messenger \<Rightarrow> ReplicationSnapshot go" where
  "sent_snapshot c m =
     (case ExportReplicationSnapshot (ms_store m) of
        (Ret s, d) \<Rightarrow>
          (case go_map (sanitize_replica c (ms_id m)) (rs_messages s) of
             Ret ms \<Rightarrow> Ret (s\<lparr>rs_messages := ms\<rparr>) | Err e \<Rightarrow> Err e | Panic e \<Rightarrow> Panic e)
      | (Err e, d) \<Rightarrow> Err e
      | (Panic e, d) \<Rightarrow> Panic e)"

lemma buildReloginReplica_Ret:
  "fst (buildReloginReplica c L m) = Ret (z, dig) \<longleftrightarrow>
     (\<exists>s. sent_snapshot c m = Ret s \<and> z = gzip c (enc_snapshot c s) \<and> dig = digest_of L z)"
  by (auto simp: buildReloginReplica_def sent_snapshot_def store_def Let_def split: prod.splits go.splits)

lemma sent_snapshot_version: "sent_snapshot c m = Ret s \<Longrightarrow> rs_version s = 1"
  by (auto simp: sent_snapshot_def split: prod.splits go.splits dest!: ExportReplicationSnapshot_RetD)

lemma ImportReplicationSnapshot_ok:
  "db_faults d = [] \<Longrightarrow> rs_version s = 1 \<Longrightarrow> \<exists>d'. ImportReplicationSnapshot now s d = (Ret (), d')"
  by (auto simp: ImportReplicationSnapshot_def db_then_def db_each_write_ok intro!: transaction_ok)

lemma relogin_order_indices:
  assumes "set order = set (map (relogin_block tid z) [0..<n])"
  shows "\<exists>is. order = map (relogin_block tid z) is \<and> set is = {..<n}"
proof -
  have x: "x = relogin_block tid z (nat (rk_index x)) \<and> nat (rk_index x) < n" if "x \<in> set order" for x
    using that assms by (auto simp: relogin_block_def)
  then have "order = map (relogin_block tid z) (map (\<lambda>k. nat (rk_index k)) order)"
    by (induction order) auto
  moreover have "(\<lambda>k. nat (rk_index k)) ` set order = {..<n}"
    unfolding assms by (auto simp: relogin_block_def image_iff)
  ultimately show ?thesis by (intro exI [of _ "map (\<lambda>k. nat (rk_index k)) order"]) simp
qed

text \<open>The new device once it has the answer: the blocks in any order complete the transfer.\<close>

definition answered :: "string \<Rightarrow> string \<Rightarrow> string \<Rightarrow> string \<Rightarrow> nat \<Rightarrow> reloginTransferState" where
  "answered q tid keysData sha n =
     (new_relogin q)\<lparr>rt_transfer := tid, rt_keys := keysData, rt_sha := sha, rt_slots := no_slots n\<rparr>"

lemma acceptReloginResponse_opens:
  assumes "ms_relogin B = Some ref" "ms_heap B ref = Some (new_relogin q)" "keysData \<noteq> []" "tid \<noteq> []"
    "0 < n" "n \<le> 1000000"
  shows "acceptReloginResponse q \<lparr>rr_keys = keysData, rr_transfer = tid, rr_count = int n, rr_sha = sha, rr_error = []\<rparr> B
     = put_transfer ref (answered q tid keysData sha n) B"
  using assms by (simp add: acceptReloginResponse_def open_transfer_def new_relogin_def no_slots_def answered_def)

lemma relogin_completes:
  assumes z: "z \<noteq> []" "decodeReloginReplica c z = Ret s" "rs_version s = 1" and lib: "crypto_lawful L"
    and B: "ms_relogin B = Some ref" "\<not> ms_closed B" "db_faults (ms_store B) = []"
    and ord: "set order = set (map (relogin_block tid z) [0..<block_count reloginChunkSize z])"
  shows "let B1 = fold (acceptReloginChunk q) order
               (put_transfer ref (answered q tid keysData (digest_of L z) (block_count reloginChunkSize z)) B);
             B2 = finishReloginTransfer c L nb ref B1
         in ms_jobs B1 = ms_jobs B @ [FinishRelogin ref]
          \<and> Option.bind (ms_heap B2 ref) rt_result = Some \<lparr>res_keys = keysData, res_snapshot = s, res_err = None\<rparr>
          \<and> db_tables (ms_store B2) = imported (unix_micro (n_now nb)) s (db_tables (ms_store B))"
proof -
  let ?n = "block_count reloginChunkSize z" and ?dig = "digest_of L z"
  let ?t = "answered q tid keysData ?dig ?n"
  have n: "0 < ?n" by (rule block_count_pos [OF reloginChunkSize_pos z(1)])
  obtain d' where d': "ImportReplicationSnapshot (n_now nb) s (ms_store B) = (Ret (), d')"
    using ImportReplicationSnapshot_ok [OF B(3) z(3)] by blast
  obtain "is" where i: "order = map (relogin_block tid z) is" "set is = {..<?n}"
    using relogin_order_indices [OF ord] by blast
  have t: "ms_relogin (put_transfer ref ?t B) = Some ref" "ms_heap (put_transfer ref ?t B) ref = Some ?t"
      "rt_peer ?t = q" "\<not> rt_completed ?t" "\<not> rt_processing ?t" "rt_transfer ?t = tid" "rt_slots ?t = no_slots ?n"
      "\<not> ms_closed (put_transfer ref ?t B)"
    using B(1,2) by (simp_all add: put_transfer_def new_relogin_def answered_def)
  define B1 where "B1 = fold (acceptReloginChunk q) order (put_transfer ref ?t B)"
  have "B1 = fold (\<lambda>i. acceptReloginChunk q (relogin_block tid z i)) is (put_transfer ref ?t B)"
    by (simp add: B1_def i(1) fold_map comp_def)
  then obtain sl where sl: "join_slots sl = z" "B1 = put_transfer ref (?t\<lparr>rt_slots := sl, rt_processing := True\<rparr>)
        (put_transfer ref ?t B)\<lparr>ms_jobs := ms_jobs (put_transfer ref ?t B) @ [FinishRelogin ref]\<rparr>"
    using chunks_accepted [OF t(1-7) n t(8), of "is"] i(2) by (auto simp: full_slots_def)
  have B1: "ms_heap B1 ref = Some (?t\<lparr>rt_slots := sl, rt_processing := True\<rparr>)" "ms_relogin B1 = Some ref"
      "ms_store B1 = ms_store B" "ms_jobs B1 = ms_jobs B @ [FinishRelogin ref]"
    unfolding sl(2) using B(1) by (simp_all add: put_transfer_def)
  have "finishReloginTransfer c L nb ref B1 = completeReloginTransfer ref
      \<lparr>res_keys = keysData, res_snapshot = s, res_err = None\<rparr> (B1\<lparr>ms_store := d'\<rparr>)"
    using B1 sl(1) z(2) d' digest_nonempty [OF lib, of z]
    by (simp add: finishReloginTransfer_def store_def Let_def new_relogin_def answered_def)
  then have "Option.bind (ms_heap (finishReloginTransfer c L nb ref B1) ref) rt_result
        = Some \<lparr>res_keys = keysData, res_snapshot = s, res_err = None\<rparr>"
      "ms_store (finishReloginTransfer c L nb ref B1) = d'"
    using B1 by (simp_all add: completeReloginTransfer_def new_relogin_def put_transfer_def answered_def)
  then show ?thesis
    using B1(4) ImportReplicationSnapshot_result [OF d'] unfolding B1_def [symmetric] Let_def by simp
qed

text \<open>
  C30. Taking over an account: the answer of the old device and its blocks, in any order and with
  any repetitions, make the new device submit one job; that job imports exactly the snapshot the
  old device sent and completes the transfer with its keys.
\<close>

theorem relogin_delivers:
  assumes A: "link_up na p A" "GetKeysJSON (ms_store A) = (Ret keysData, d)" "keysData \<noteq> []"
      "sent_snapshot c (A\<lparr>ms_store := d\<rparr>) = Ret s" "n_uuid na 0 \<noteq> []"
    and codec: "snapshot_survives c s" "gzip c (enc_snapshot c s) \<noteq> []"
      "block_count reloginChunkSize (gzip c (enc_snapshot c s)) \<le> 1000000"
    and lib: "crypto_lawful L"
    and B: "ms_relogin B = Some ref" "ms_heap B ref = Some (new_relogin q)" "\<not> ms_closed B" "db_faults (ms_store B) = []"
  shows "\<exists>answer chunks. emitted A (send_replica c L na p A)
        = (p, ReloginResponseFrame answer) # map (\<lambda>k. (p, ReloginChunkFrame k)) chunks \<and>
     (\<forall>order. set order = set chunks \<longrightarrow>
        (let B1 = fold (acceptReloginChunk q) order (acceptReloginResponse q answer B);
             B2 = finishReloginTransfer c L nb ref B1
         in ms_jobs B1 = ms_jobs B @ [FinishRelogin ref]
          \<and> Option.bind (ms_heap B2 ref) rt_result = Some \<lparr>res_keys = keysData, res_snapshot = s, res_err = None\<rparr>
          \<and> db_tables (ms_store B2) = imported (unix_micro (n_now nb)) s (db_tables (ms_store B))))"
proof -
  define z where "z = gzip c (enc_snapshot c s)"
  let ?tid = "n_uuid na 0" and ?n = "block_count reloginChunkSize z" and ?dig = "digest_of L z"
  let ?answer = "\<lparr>rr_keys = keysData, rr_transfer = ?tid, rr_count = int ?n, rr_sha = ?dig, rr_error = []\<rparr>"
  let ?chunks = "map (relogin_block ?tid z) [0..<?n]"
  have z: "z \<noteq> []" "0 < ?n" "?n \<le> 1000000" using codec(2,3) block_count_pos [OF reloginChunkSize_pos] by (simp_all add: z_def)
  have version: "rs_version s = 1" by (rule sent_snapshot_version [OF A(4)])
  have build: "fst (buildReloginReplica c L (A\<lparr>ms_store := d\<rparr>)) = Ret (z, ?dig)"
    using A(4) by (auto simp: buildReloginReplica_Ret z_def)
  have frames: "emitted A (send_replica c L na p A) = (p, ReloginResponseFrame ?answer) # map (\<lambda>k. (p, ReloginChunkFrame k)) ?chunks"
    unfolding send_replica_up [OF A(1,2) build]
    by (simp add: relogin_answer_def relogin_chunk_def relogin_block_def comp_def)
  have dec: "decodeReloginReplica c z = Ret s"
    using codec(1) version by (simp add: decodeReloginReplica_def snapshot_survives_def z_def reloginSnapshotVersion_def)
  have resp: "acceptReloginResponse q ?answer B = put_transfer ref (answered q ?tid keysData ?dig ?n) B"
    by (rule acceptReloginResponse_opens [OF B(1,2) A(3,5) z(2,3)])
  note deliver = relogin_completes [OF z(1) dec version lib B(1,3,4), where tid = ?tid and q = q and keysData = keysData and nb = nb]
  show ?thesis
    by (intro exI [of _ ?answer] exI [of _ ?chunks] conjI frames allI impI) (unfold resp, rule deliver)
qed

definition relogin_target :: Messenger where
  "relogin_target = put_transfer 0 (new_relogin ''a'') ((sample_messenger ''b'' ''bob'' fresh_db)\<lparr>ms_relogin := Some 0, ms_next := 1\<rparr>)"

lemma relogin_delivers_witness:
  "\<exists>answer k. emitted relogin_source (send_replica relogin_codec toy_lib sample_net ''b'' relogin_source)
      = [(''b'', ReloginResponseFrame answer), (''b'', ReloginChunkFrame k)] \<and>
     (let B2 = finishReloginTransfer relogin_codec toy_lib sync_net 0
        (fold (acceptReloginChunk ''a'') [k, k] (acceptReloginResponse ''a'' answer relogin_target))
      in map m_uid (t_messages (db_tables (ms_store B2))) = [''u''])"
proof -
  let ?s = "\<lparr>rs_version = 1, rs_messages = [(replicated sample_row)\<lparr>rm_data := []\<rparr>], rs_peers = [], rs_groups = []\<rparr>"
  have store: "relogin_source\<lparr>ms_store := keys_db\<rparr> = relogin_source" by (simp flip: relogin_source_build(2))
  have x: "ExportReplicationSnapshot keys_db = (Ret \<lparr>rs_version = 1, rs_messages = [replicated sample_row], rs_peers = [],
      rs_groups = []\<rparr>, keys_db)"
    by (simp add: ExportReplicationSnapshot_def transaction_ok db_then_def db_ret_def keys_db_def sql_read_ok no_tables_def
        readReplicatedMessages_def readReplicatedPeers_def readReplicatedGroups_def)
  have s: "sent_snapshot relogin_codec (relogin_source\<lparr>ms_store := keys_db\<rparr>) = Ret ?s"
    unfolding store
    by (simp add: sent_snapshot_def relogin_source_build(2) x sanitize_replica_def relogin_codec_def sync_codec_def sample_codec_def)
  have one: "block_count reloginChunkSize [1, 2 :: byte] = 1" by (simp add: block_count_def reloginChunkSize_def)
  have z: "gzip relogin_codec (enc_snapshot relogin_codec ?s) = [1, 2]"
    by (simp add: relogin_codec_def sync_codec_def sample_codec_def)
  have surv: "snapshot_survives relogin_codec ?s"
    by (simp add: snapshot_survives_def relogin_codec_def sync_codec_def sample_codec_def)
  have tgt: "ms_relogin relogin_target = Some 0" "ms_heap relogin_target 0 = Some (new_relogin ''a'')"
    "\<not> ms_closed relogin_target" "db_faults (ms_store relogin_target) = []" "db_tables (ms_store relogin_target) = no_tables"
    by (simp_all add: relogin_target_def put_transfer_def fresh_db_def)
  have uuid: "n_uuid sample_net 0 \<noteq> []" by (simp add: sample_net_def)
  have keys: "''K'' \<noteq> []" by simp
  have bound: "block_count reloginChunkSize (gzip relogin_codec (enc_snapshot relogin_codec ?s)) \<le> 1000000"
    "gzip relogin_codec (enc_snapshot relogin_codec ?s) \<noteq> []" by (simp_all add: z one)
  obtain answer chunks where em: "emitted relogin_source (send_replica relogin_codec toy_lib sample_net ''b'' relogin_source)
        = (''b'', ReloginResponseFrame answer) # map (\<lambda>k. (''b'', ReloginChunkFrame k)) chunks"
    and del: "\<forall>order. set order = set chunks \<longrightarrow>
        (let B1 = fold (acceptReloginChunk ''a'') order (acceptReloginResponse ''a'' answer relogin_target);
             B2 = finishReloginTransfer relogin_codec toy_lib sync_net 0 B1
         in ms_jobs B1 = ms_jobs relogin_target @ [FinishRelogin 0]
          \<and> Option.bind (ms_heap B2 0) rt_result = Some \<lparr>res_keys = ''K'', res_snapshot = ?s, res_err = None\<rparr>
          \<and> db_tables (ms_store B2) = imported (unix_micro (n_now sync_net)) ?s (db_tables (ms_store relogin_target)))"
    using relogin_delivers [OF relogin_source_build(4,1) keys s uuid surv bound(2,1) toy_lib_lawful tgt(1-4), of sync_net]
    by blast
  have build: "fst (buildReloginReplica relogin_codec toy_lib (relogin_source\<lparr>ms_store := keys_db\<rparr>))
      = Ret ([1, 2], digest_of toy_lib [1, 2])" by (rule relogin_source_build(3))
  have "length (emitted relogin_source (send_replica relogin_codec toy_lib sample_net ''b'' relogin_source)) = 2"
    unfolding send_replica_up [OF relogin_source_build(4,1) build] one by simp
  then obtain k where k: "chunks = [k]" using em by (cases chunks) auto
  have "map m_uid (t_messages (imported (unix_micro (n_now sync_net)) ?s no_tables)) = [''u'']"
    by (simp add: imported_def upsert_message_def received_row_def no_tables_def tbl_upsert_def tbl_has_def replicated_def
        sample_row_def)
  then show ?thesis
    using em del [rule_format, of "[k, k]"] tgt(5) unfolding k Let_def by auto
qed

lemma SaveKeysJSON_ok:
  assumes "db_faults d = []"
  shows "\<exists>t. SaveKeysJSON k d = (Ret (), d\<lparr>db_tables := t\<rparr>) \<and> config_value t ''crypto_keys'' = Some k"
proof -
  define f :: "tables \<Rightarrow> tables" where "f = (\<lambda>t. t\<lparr>t_config := tbl_upsert fst (\<lambda>old new. new) (''crypto_keys'', k) (t_config t)\<rparr>)"
  have "SaveKeysJSON k d = (Ret (), d\<lparr>db_tables := f (db_tables d)\<rparr>)"
    unfolding SaveKeysJSON_def SetConfigValue_def f_def using assms by (rule sql_write_ok)
  moreover have "config_value (f (db_tables d)) ''crypto_keys'' = Some k"
    unfolding f_def config_value_upsert by simp
  ultimately show ?thesis by blast
qed

lemma SaveAppConfig_keys: "db_faults d = [] \<Longrightarrow>
    \<exists>t. SaveAppConfig cfg d = (Ret (), d\<lparr>db_tables := t\<rparr>)
      \<and> config_value t ''crypto_keys'' = config_value (db_tables d) ''crypto_keys''"
proof -
  assume d: "db_faults d = []"
  have "distinct (map fst config_fields)" by (simp add: config_fields_def)
  then obtain t where t: "SaveAppConfig cfg d = (Ret (), d\<lparr>db_tables := t\<rparr>)"
      "\<forall>m. config_value t m = (case map_of config_fields m of
          Some (g, s) \<Rightarrow> if g cfg \<noteq> [] then Some (g cfg) else config_value (db_tables d) m
        | None \<Rightarrow> config_value (db_tables d) m)"
    using save_fields_ok [OF d, of config_fields cfg] unfolding SaveAppConfig_def by blast
  moreover have "map_of config_fields ''crypto_keys'' = None" by (simp add: config_fields_def)
  ultimately show ?thesis by auto
qed

lemma reload_others [simp]:
  "ms_keys (reloadReplicatedPeers now m) = ms_keys m" "ms_user (reloadReplicatedPeers now m) = ms_user m"
  "ms_key (reloadReplicatedPeers now m) = ms_key m" "ms_id (reloadReplicatedPeers now m) = ms_id m"
  by (auto simp: reloadReplicatedPeers_def store_def notify_def Let_def split: prod.split go.split)

lemma GetStoredPeers_tables: "GetStoredPeers d = (r, d') \<Longrightarrow> db_tables d' = db_tables d"
  using sql_read_tables unfolding GetStoredPeers_def by (metis snd_conv)

lemma reload_tables [simp]: "db_tables (ms_store (reloadReplicatedPeers now m)) = db_tables (ms_store m)"
proof -
  obtain r d where g: "GetStoredPeers (ms_store m) = (r, d)" by fastforce
  then show ?thesis
    using GetStoredPeers_tables [OF g] by (simp add: reloadReplicatedPeers_def store_def notify_def Let_def split: go.split)
qed

lemma queue_files_keys [simp]:
  "ms_keys (queue_files s p fs m) = ms_keys m" "ms_user (queue_files s p fs m) = ms_user m"
  by (induction fs arbitrary: m) (simp_all add: Let_def trySubmit_def)

lemma queueFileDownloads_keys [simp]:
  "ms_keys (queueFileDownloads c rs p u m) = ms_keys m" "ms_user (queueFileDownloads c rs p u m) = ms_user m"
  by (induction rs arbitrary: m) (simp_all split: option.split)

lemma take_over_installs:
  assumes s: "store (SaveKeysJSON (res_keys result)) m = (Ret (), m1)" "ms_id m1 = ms_id m"
    and m1: "config_value (db_tables (ms_store m1)) ''crypto_keys'' = Some (res_keys result)" "db_faults (ms_store m1) = []"
    and keys: "ParseKeyFile (dec_keys c) (bytes_of (res_keys result)) = Ret keys"
  shows "\<exists>m'. take_over c net q peer result m = (Ret (), m') \<and> ms_keys m' = keys \<and> ms_user m' = peer_login peer
    \<and> ms_key m' = Key peer \<and> ms_id m' = ms_id m
    \<and> config_value (db_tables (ms_store m')) ''crypto_keys'' = Some (res_keys result)"
proof -
  define m2 where "m2 = m1\<lparr>ms_keys := keys, ms_key := Key peer, ms_user := peer_login peer,
     ms_config := (ms_config m1)\<lparr>cfg_username := peer_login peer, cfg_peer_id := ms_id m1\<rparr>\<rparr>"
  have m2: "ms_keys m2 = keys" "ms_user m2 = peer_login peer" "ms_key m2 = Key peer" "ms_id m2 = ms_id m"
    "ms_store m2 = ms_store m1"
    by (simp_all add: m2_def s(2))
  obtain u where u: "SaveAppConfig (ms_config m2) (ms_store m2) = (Ret (), (ms_store m2)\<lparr>db_tables := u\<rparr>)"
      "config_value u ''crypto_keys'' = Some (res_keys result)"
    using SaveAppConfig_keys [of "ms_store m2" "ms_config m2"] m1 m2(5) by auto
  define m3 where "m3 = m2\<lparr>ms_store := (ms_store m2)\<lparr>db_tables := u\<rparr>\<rparr>"
  have cfg: "store (SaveAppConfig (ms_config m2)) m2 = (Ret (), m3)" using u(1) by (simp add: store_def m3_def)
  define m4 where "m4 = (if rs_version (res_snapshot result) = reloginSnapshotVersion
      then queueFileDownloads c (rs_messages (res_snapshot result)) q (peer_login peer) (reloadReplicatedPeers (n_now net) m3)
      else reloadReplicatedPeers (n_now net) m3)"
  have "take_over c net q peer result m = (Ret (), m4)"
    unfolding take_over_def s(1) prod.case go.case keys m2_def [symmetric] Let_def cfg m4_def ..
  then show ?thesis using m2 u(2) by (intro exI [of _ m4]) (simp add: m4_def m3_def)
qed

text \<open>
  C31. Applying a result: keys that parse are installed with the name and the key of the old
  device. Keys that do not parse are stored all the same, over the working ones, and the
  messenger is left with nil keys: the next signature it makes panics.
\<close>

theorem relogin_installs_keys:
  assumes "db_faults (ms_store m) = []"
  shows "\<exists>m'. config_value (db_tables (ms_store m')) ''crypto_keys'' = Some (res_keys result) \<and>
     (case ParseKeyFile (dec_keys c) (bytes_of (res_keys result)) of
        Ret keys \<Rightarrow> take_over c net q peer result m = (Ret (), m') \<and> ms_keys m' = keys
          \<and> ms_user m' = peer_login peer \<and> ms_key m' = Key peer \<and> ms_id m' = ms_id m
      | Err e \<Rightarrow> take_over c net q peer result m = (Err (''parse relogin keys: '' @ e), m')
          \<and> (\<forall>data. Sign L (k_sign_private (ms_keys m')) data = Panic ''bad private key length'')
      | Panic e \<Rightarrow> take_over c net q peer result m = (Panic e, m'))"
proof -
  obtain t where t: "SaveKeysJSON (res_keys result) (ms_store m) = (Ret (), (ms_store m)\<lparr>db_tables := t\<rparr>)"
      "config_value t ''crypto_keys'' = Some (res_keys result)"
    using SaveKeysJSON_ok [OF assms] by blast
  define m1 where "m1 = m\<lparr>ms_store := (ms_store m)\<lparr>db_tables := t\<rparr>\<rparr>"
  have s: "store (SaveKeysJSON (res_keys result)) m = (Ret (), m1)" "ms_id m1 = ms_id m"
    using t by (simp_all add: store_def m1_def)
  have v1: "config_value (db_tables (ms_store m1)) ''crypto_keys'' = Some (res_keys result)"
    "db_faults (ms_store m1) = []"
    using t(2) assms by (simp_all add: m1_def)
  show ?thesis
  proof (cases "ParseKeyFile (dec_keys c) (bytes_of (res_keys result))")
    case (Ret keys)
    then show ?thesis using take_over_installs [OF s v1 Ret, of net q peer] by (simp, blast)
  next
    case (Err e)
    have "take_over c net q peer result m = (Err (''parse relogin keys: '' @ e), m1\<lparr>ms_keys := no_keys\<rparr>)"
      using s Err by (simp add: take_over_def)
    then show ?thesis
      using Err v1 by (intro exI [of _ "m1\<lparr>ms_keys := no_keys\<rparr>"]) (simp add: no_keys_def Sign_def)
  next
    case (Panic e)
    have "take_over c net q peer result m = (Panic e, m1)" using s Panic by (simp add: take_over_def)
    then show ?thesis using Panic v1 by (intro exI [of _ m1]) simp
  qed
qed

definition relogin_peer :: Peer where
  "relogin_peer = \<lparr>peer_id = ''a'', peer_ids = [''a''], peer_login = ''ann'', peer_enc = [], peer_sign = [], peer_seen = 0,
     peer_ttl = 120, peer_flag = [], peer_fake = False\<rparr>"

lemma relogin_installs_keys_witness:
  "\<exists>m'. take_over sample_codec sample_net ''a'' relogin_peer \<lparr>res_keys = ''K'', res_snapshot = empty_snapshot, res_err = None\<rparr>
      (sample_messenger ''b'' ''bob'' fresh_db) = (Err ''parse relogin keys: json'', m')
    \<and> config_value (db_tables (ms_store m')) ''crypto_keys'' = Some ''K''"
proof -
  let ?r = "\<lparr>res_keys = ''K'', res_snapshot = empty_snapshot, res_err = None\<rparr>"
  have p: "ParseKeyFile (dec_keys sample_codec) (bytes_of (res_keys ?r)) = Err ''json''"
    by (simp add: ParseKeyFile_def sample_codec_def)
  have f: "db_faults (ms_store (sample_messenger ''b'' ''bob'' fresh_db)) = []" by (simp add: fresh_db_def)
  show ?thesis
    using relogin_installs_keys [OF f, of ?r sample_codec sample_net "''a''" relogin_peer toy_lib]
    unfolding p go.case append.simps by auto
qed

end
