(* ===== verification/StateSyncSafety.thy ===== *)
theory StateSyncSafety
  imports Relogin
begin

text \<open>
  State sync and relogin under every order of events: the steps a messenger takes for them, who
  gets to see the history, and when the checkpoint of a peer moves.
\<close>

section \<open>To whom an operation shows the history\<close>

text \<open>
  The history is sent in two ways: to another device of the user, in the frames of state sync, and
  to a device that takes over the account, in those of relogin, together with the keys.
\<close>

datatype shown = ToReplica | ToRelogin

fun shows_history :: "frame \<Rightarrow> shown option" where
  "shows_history (StateSyncManifestFrame man) = Some ToReplica"
| "shows_history (StateSyncChunkFrame k) = Some ToReplica"
| "shows_history (ReloginResponseFrame a) = Some ToRelogin"
| "shows_history (ReloginChunkFrame k) = Some ToRelogin"
| "shows_history f = None"

definition history_recipients :: "Messenger \<Rightarrow> (string \<times> shown) set" where
  "history_recipients m = {(p, k). \<exists>f. (p, f) \<in> set (rtc_sent (ms_rtc m)) \<and> shows_history f = Some k}"

text \<open>
  The replicas and the key are as before, and the history was shown to peers of \<open>W\<close> only, in the
  way noted there.
\<close>

definition shows_to :: "(string \<times> shown) set \<Rightarrow> Messenger \<Rightarrow> Messenger \<Rightarrow> bool" where
  "shows_to W m m' \<longleftrightarrow>
     history_recipients m' \<subseteq> history_recipients m \<union> W \<and> ms_replicas m' = ms_replicas m \<and> ms_key m' = ms_key m"

definition may_show :: "(string \<times> shown) set \<Rightarrow> string \<Rightarrow> frame \<Rightarrow> bool" where
  "may_show W p f \<longleftrightarrow> (\<forall>k. shows_history f = Some k \<longrightarrow> (p, k) \<in> W)"

lemma may_show_simps [simp]:
  "may_show W p StateSyncRequestFrame" "may_show W p (StateSyncAckFrame a)" "may_show W p (ReloginRequestFrame sig)"
  "may_show W p (StateSyncManifestFrame man) = ((p, ToReplica) \<in> W)" "may_show W p (StateSyncChunkFrame k) = ((p, ToReplica) \<in> W)"
  "may_show W p (ReloginResponseFrame r) = ((p, ToRelogin) \<in> W)" "may_show W p (ReloginChunkFrame x) = ((p, ToRelogin) \<in> W)"
  by (simp_all add: may_show_def)

lemma shows_to_trans: "shows_to W a b \<Longrightarrow> shows_to W b c \<Longrightarrow> shows_to W a c"
  by (auto simp: shows_to_def)

lemma shows_to_quiet:
  "ms_rtc m' = ms_rtc m \<Longrightarrow> ms_replicas m' = ms_replicas m \<Longrightarrow> ms_key m' = ms_key m \<Longrightarrow> shows_to W m m'"
  by (auto simp: shows_to_def history_recipients_def)

lemma shows_to_refl [simp]: "shows_to W m m"
  by (simp add: shows_to_def)

lemma shows_to_send: "send p f m = (r, m') \<Longrightarrow> may_show W p f \<Longrightarrow> shows_to W m m'"
  by (drule send_state) (auto simp: shows_to_def history_recipients_def may_show_def split: if_splits)

lemma shows_to_send' [simp]: "may_show W p f \<Longrightarrow> shows_to W m (snd (send p f m))"
  by (rule shows_to_send [OF prod.collapse [symmetric]])

lemma shows_to_store: "store f m = (r, m') \<Longrightarrow> shows_to W m m'"
  by (auto dest!: store_result intro: shows_to_quiet)

lemma shows_to_blocks:
  assumes "\<And>i. may_show W p (f i)"
  shows "send_blocks net p f is m = (r, m') \<Longrightarrow> shows_to W m m'"
proof (induction "is" arbitrary: m)
  case (Cons i "is")
  obtain r1 m1 where s: "send p (f i) m = (r1, m1)" by fastforce
  have s1: "shows_to W m m1" by (rule shows_to_send [OF s assms])
  show ?case
  proof (cases "wait_capacity (n_capacity net i) = Ret () \<and> r1 = Ret ()")
    case True
    then have "send_blocks net p f is m1 = (r, m')" using Cons.prems s by simp
    then show ?thesis using Cons.IH s1 shows_to_trans by blast
  next
    case False
    then have "m' = m \<or> m' = m1" using Cons.prems s by (auto split: go.splits)
    then show ?thesis using s1 by auto
  qed
qed simp

lemma shows_to_transmit: "transmit net p tid cp z dig m = (r, m') \<Longrightarrow> shows_to {(p, ToReplica)} m m'"
proof -
  assume t: "transmit net p tid cp z dig m = (r, m')"
  obtain r1 m1 where s: "send p (StateSyncManifestFrame \<lparr>sm_transfer = tid, sm_checkpoint = cp,
      sm_count = int (block_count reloginChunkSize z), sm_sha = dig, sm_error = []\<rparr>) m = (r1, m1)" by fastforce
  have s1: "shows_to {(p, ToReplica)} m m1" by (rule shows_to_send [OF s]) simp
  show ?thesis
    using t s s1 shows_to_blocks [of "{(p, ToReplica)}" p "sync_chunk tid z"] shows_to_trans
    by (cases r1) (auto simp: transmit_def sync_chunk_def)
qed

lemma shows_to_drop: "shows_to W m (drop_outgoing q ref m)"
  by (rule shows_to_quiet) (simp_all add: drop_outgoing_def split: option.split)

lemma shows_to_attempt:
  assumes a: "shows_to {(p, ToReplica)} m1 m2" and t: "transmit net p t cp z dig (start_outgoing p t cp m2) = (r2, m3)"
  shows "shows_to {(p, ToReplica)} m1 m3 \<and> shows_to {(p, ToReplica)} m1 (drop_outgoing p ref m3)"
proof -
  have "shows_to {(p, ToReplica)} m2 (start_outgoing p t cp m2)" by (rule shows_to_quiet) (simp_all add: start_outgoing_def)
  then have "shows_to {(p, ToReplica)} m1 m3" using a shows_to_transmit [OF t] shows_to_trans by blast
  then show ?thesis using shows_to_drop shows_to_trans by blast
qed

lemma shows_to_sendStateSync:
  assumes run: "sendStateSync c L net p m = (r, m')"
  shows "shows_to {(p, ToReplica)} m m'"
proof -
  obtain r1 m1 where g: "store (GetLastStateCheck p) m = (r1, m1)" by fastforce
  have s1: "shows_to {(p, ToReplica)} m m1" by (rule shows_to_store [OF g])
  show ?thesis
  proof (cases r1)
    case (Ret since)
    obtain r2 m2 where x: "store (ExportMessagesForStateSync since (n_now net)) m1 = (r2, m2)" by fastforce
    have s2: "shows_to {(p, ToReplica)} m m2" using s1 shows_to_store [OF x] shows_to_trans by blast
    show ?thesis
    proof (cases r2)
      case r2: (Ret delta)
      show ?thesis
        using run g Ret x r2 s2
        by (auto simp: sendStateSync_def Let_def split: go.splits prod.splits if_splits dest!: shows_to_attempt [OF s2])
    qed (use run g Ret x s2 in \<open>auto simp: sendStateSync_def\<close>)
  qed (use run g s1 in \<open>auto simp: sendStateSync_def\<close>)
qed

lemma shows_to_fail: "shows_to {} m (failStateSyncImport p t e m)"
  unfolding failStateSyncImport_def
  by (rule shows_to_trans [of _ _ "clearIncomingStateSync p t m"]) (simp_all add: shows_to_quiet sync_ack_def)

lemma shows_to_finish: "m' = finishStateSyncImport c L net p t m \<Longrightarrow> shows_to {} m m'"
proof (erule finish_cases)
  fix e m1
  assume "ms_rtc m1 = ms_rtc m" "ms_replicas m1 = ms_replicas m" "ms_key m1 = ms_key m" "m' = failStateSyncImport p t e m1"
  then show ?thesis using shows_to_fail shows_to_quiet shows_to_trans by metis
next
  fix m2
  assume "ms_rtc m2 = ms_rtc m" "ms_replicas m2 = ms_replicas m" "ms_key m2 = ms_key m"
    "m' = snd (send p (sync_ack t []) (clearIncomingStateSync p t m2))"
  then show ?thesis
    using shows_to_trans [of "{}" m "clearIncomingStateSync p t m2" m'] by (simp add: shows_to_quiet sync_ack_def)
qed (simp_all add: shows_to_quiet)

lemma shows_to_chunk: "shows_to {} m (handleStateSyncChunk p k m)"
proof -
  have "shows_to {} m (snd (send p (sync_ack t e) (end_sync p m)))" for t e
    by (rule shows_to_trans [of _ _ "end_sync p m"]) (simp_all add: shows_to_quiet sync_ack_def)
  moreover have "shows_to {} m (failStateSyncImport p t e (m\<lparr>ms_incoming := X\<rparr>))" for t e X
    using shows_to_fail by (rule shows_to_trans [rotated]) (simp add: shows_to_quiet)
  ultimately show ?thesis
    unfolding handleStateSyncChunk_def
    by (auto simp: Let_def submit_def shows_to_quiet split: option.split)
qed

lemma shows_to_manifest: "shows_to {} m (handleStateSyncManifest p man m)"
  by (rule shows_to_quiet) (simp_all add: handleStateSyncManifest_def)

lemma shows_to_ack: "shows_to {} m (handleStateSyncAck p a m)"
proof -
  have "shows_to {} m (drop_outgoing p x m1)" if "store f m = (r, m1)" for x r m1 and f :: "unit dbop"
    using shows_to_store [OF that] shows_to_drop by (rule shows_to_trans)
  then show ?thesis
    unfolding handleStateSyncAck_def
    by (auto simp: shows_to_quiet split: option.split prod.split go.split dest: shows_to_store)
qed

lemma shows_to_send_replica: "shows_to {(p, ToRelogin)} m (send_replica c L net p m)"
proof -
  let ?W = "{(p, ToRelogin)}"
  obtain r1 m1 where k: "store GetKeysJSON m = (r1, m1)" by fastforce
  have s1: "shows_to ?W m m1" by (rule shows_to_store [OF k])
  have e: "shows_to ?W m (snd (send p (relogin_error x) n))" if "shows_to ?W m n" for x n
    using that by (rule shows_to_trans) (simp add: relogin_error_def)
  show ?thesis
  proof (cases r1)
    case (Ret keys)
    obtain r2 m2 where b: "buildReloginReplica c L m1 = (r2, m2)" by fastforce
    have "shows_to ?W m1 m2"
      using b by (auto simp: buildReloginReplica_def Let_def split: prod.splits go.splits dest: shows_to_store)
    then have s2: "shows_to ?W m m2" using s1 shows_to_trans by blast
    show ?thesis
    proof (cases r2)
      case r2: (Ret x)
      obtain replica dig where x: "x = (replica, dig)" by (cases x)
      obtain r3 m3 where s: "send p (relogin_answer keys (n_uuid net 0) replica dig) m2 = (r3, m3)" by fastforce
      have s3: "shows_to ?W m m3"
        using shows_to_trans [OF s2 shows_to_send [OF s]] by (simp add: relogin_answer_def)
      moreover have "shows_to ?W m3 (snd (send_blocks net p (relogin_chunk (n_uuid net 0) replica) is m3))" for "is"
        by (rule shows_to_blocks [OF _ prod.collapse [symmetric]]) (simp add: relogin_chunk_def)
      ultimately have "shows_to ?W m (snd (send_blocks net p (relogin_chunk (n_uuid net 0) replica) is m3))" for "is"
        using shows_to_trans by blast
      then show ?thesis using k Ret b r2 x s s3 by (cases r3) (simp_all add: send_replica_def Let_def)
    qed (use k Ret b s2 e in \<open>simp_all add: send_replica_def\<close>)
  qed (use k s1 e in \<open>simp_all add: send_replica_def\<close>)
qed

lemma shows_to_relogin_start: "relogin_start p sig m = (r, m') \<Longrightarrow> shows_to {} m m'"
proof -
  let ?m = "put_transfer (ms_next m) (new_relogin p) (m\<lparr>ms_relogin := Some (ms_next m), ms_next := Suc (ms_next m)\<rparr>)"
  assume run: "relogin_start p sig m = (r, m')"
  have 1: "shows_to {} m ?m" by (rule shows_to_quiet) (simp_all add: put_transfer_def)
  obtain r1 m1 where s: "send p (ReloginRequestFrame sig) ?m = (r1, m1)" by fastforce
  have 2: "shows_to {} m m1" using shows_to_trans [OF 1 shows_to_send [OF s]] by simp
  have "shows_to {} m1 (clearReloginTransfer ref m1)" for ref by (rule shows_to_quiet) (simp_all add: clearReloginTransfer_def)
  with 2 shows_to_trans have "shows_to {} m (clearReloginTransfer ref m1)" for ref by blast
  with run s 2 show ?thesis by (auto simp: relogin_start_def Let_def split: if_splits go.splits)
qed

lemma complete_quiet:
  "ms_rtc (completeReloginTransfer ref x m) = ms_rtc m" "ms_replicas (completeReloginTransfer ref x m) = ms_replicas m"
  "ms_key (completeReloginTransfer ref x m) = ms_key m"
  by (simp_all add: completeReloginTransfer_def put_transfer_def split: option.split)

lemma shows_to_relogin_callbacks:
  "shows_to {} m (acceptReloginResponse p resp m)" "shows_to {} m (acceptReloginChunk p k m)"
  "shows_to {} m (finishReloginTransfer c L net ref m)"
proof -
  show "shows_to {} m (acceptReloginResponse p resp m)"
    by (rule shows_to_quiet) (simp_all add: acceptReloginResponse_def complete_quiet put_transfer_def Let_def split: option.split prod.split)
  show "shows_to {} m (acceptReloginChunk p k m)"
    by (rule shows_to_quiet)
      (simp_all add: acceptReloginChunk_def complete_quiet put_transfer_def submit_def Let_def split: option.split prod.split)
  have st: "ms_rtc m' = ms_rtc n" "ms_replicas m' = ms_replicas n" "ms_key m' = ms_key n" if "store g n = (r, m')" for g :: "unit dbop" and n r m'
    using that by (auto dest!: store_result)
  show "shows_to {} m (finishReloginTransfer c L net ref m)"
    by (rule shows_to_quiet)
      (simp_all add: finishReloginTransfer_def complete_quiet Let_def st split: option.split go.split prod.split)
qed

lemma shows_to_disconnected: "shows_to {} m (handlePeerDisconnected p m)"
  by (rule shows_to_quiet) (simp_all add: handlePeerDisconnected_def)

section \<open>The steps\<close>

text \<open>
  What state sync does with a messenger, in whatever order it happens. Muninn's answers in a
  step name as live replicas only peers of \<open>V\<close>.
\<close>

definition vouches :: "string set \<Rightarrow> net \<Rightarrow> string \<Rightarrow> bool" where
  "vouches V net k \<longleftrightarrow>
     (\<forall>m p peer. ms_key m = k \<longrightarrow> n_get net p = Some peer \<longrightarrow> peer_id peer = p \<longrightarrow> is_live_replica net m peer \<longrightarrow> p \<in> V)
     \<and> (\<forall>m l s peers peer. ms_key m = k \<longrightarrow> n_all net l s = Some peers \<longrightarrow> peer \<in> set peers
          \<longrightarrow> is_live_replica net m peer \<longrightarrow> peer_id peer \<in> V)"

text \<open>A text that is presented proves the right to take over when the own key verifies it.\<close>

definition proves :: "crypto_lib \<Rightarrow> string \<Rightarrow> Messenger \<Rightarrow> bool" where
  "proves L signature m \<longleftrightarrow>
     (\<exists>i challenge sig. parse_relogin signature = Ret (i, challenge, sig) \<and> length (k_sign_public (ms_keys m)) = 32
        \<and> lib_verify L (k_sign_public (ms_keys m)) challenge sig)"

text \<open>
  The steps, in whatever order: those of state sync, those of relogin on either device, and
  whatever else the messenger does, as long as it names no replica and sends no frame of these
  kinds. A peer that presents a text that proves its right is in \<open>U\<close>.
\<close>

inductive sync_step :: "string set \<Rightarrow> string set \<Rightarrow> Messenger \<Rightarrow> Messenger \<Rightarrow> bool" for V U where
  refresh: "vouches V net (ms_key m) \<Longrightarrow> sync_step V U m (refreshReplicaConnections net m)"
| connected: "vouches V net (ms_key m) \<Longrightarrow> sync_step V U m (handlePeerConnected net p m)"
| disconnected: "sync_step V U m (handlePeerDisconnected p m)"
| requested: "vouches V net (ms_key m) \<Longrightarrow> sync_step V U m (handleStateSyncRequest c L net p m)"
| manifest: "sync_step V U m (handleStateSyncManifest p man m)"
| block: "sync_step V U m (handleStateSyncChunk p k m)"
| finish: "sync_step V U m (finishStateSyncImport c L net p t m)"
| ack: "sync_step V U m (handleStateSyncAck p a m)"
| relogin: "(proves L signature m \<longrightarrow> p \<in> U) \<Longrightarrow> handleReloginRequest c L net p signature m = (r, m') \<Longrightarrow> sync_step V U m m'"
| relogin_dial: "relogin_connect L net signature m = (r, m') \<Longrightarrow> sync_step V U m m'"
| relogin_asks: "relogin_start p signature m = (r, m') \<Longrightarrow> sync_step V U m m'"
| relogin_answer: "sync_step V U m (acceptReloginResponse p resp m)"
| relogin_block: "sync_step V U m (acceptReloginChunk p chunk m)"
| relogin_import: "sync_step V U m (finishReloginTransfer c L net ref m)"
| relogin_end: "relogin_finish c net p peer ref w m = (r, m') \<Longrightarrow> sync_step V U m m'"
| other: "shows_to {} m m' \<Longrightarrow> sync_step V U m m'"

definition entitled :: "string set \<Rightarrow> string set \<Rightarrow> (string \<times> shown) set" where
  "entitled V U = V \<times> {ToReplica} \<union> U \<times> {ToRelogin}"

definition guarded :: "string set \<Rightarrow> string set \<Rightarrow> Messenger \<Rightarrow> bool" where
  "guarded V U m \<longleftrightarrow> ms_replicas m \<subseteq> V \<and> history_recipients m \<subseteq> entitled V U"

lemma guarded_shows: "shows_to W m m' \<Longrightarrow> W \<subseteq> entitled V U \<Longrightarrow> guarded V U m \<Longrightarrow> guarded V U m' \<and> ms_key m' = ms_key m"
  by (auto simp: guarded_def shows_to_def)

lemma guarded_nothing: "shows_to {} m m' \<Longrightarrow> guarded V U m \<Longrightarrow> guarded V U m'"
  using guarded_shows [of "{}" m m' V U] by simp

lemma guarded_same:
  "rtc_sent (ms_rtc m') = rtc_sent (ms_rtc m) \<Longrightarrow> ms_replicas m' = ms_replicas m \<Longrightarrow> guarded V U m' = guarded V U m"
  by (simp add: guarded_def history_recipients_def)

lemma guarded_replica: "guarded V U m \<Longrightarrow> p \<in> V \<Longrightarrow> guarded V U (m\<lparr>ms_replicas := insert p (ms_replicas m)\<rparr>)"
  by (simp add: guarded_def history_recipients_def)

lemma authorized_guarded:
  assumes "isAuthorizedReplicaPeer net p m = (b, m1)" "vouches V net (ms_key m)" "guarded V U m"
  shows "guarded V U m1 \<and> ms_key m1 = ms_key m \<and> (b \<longrightarrow> p \<in> V)"
proof (cases "\<exists>peer. n_get net p = Some peer \<and> peer_id peer = p \<and> is_live_replica net m peer")
  case True
  then have "p \<in> V" using assms(2) unfolding vouches_def by blast
  then show ?thesis
    using assms(1,3) guarded_replica by (auto simp: isAuthorizedReplicaPeer_def split: if_splits option.splits)
next
  case False
  then show ?thesis
    using assms(1,3) by (auto simp: isAuthorizedReplicaPeer_def guarded_def split: if_splits option.splits)
qed

lemma guarded_connected:
  assumes "vouches V net (ms_key m)" "guarded V U m"
  shows "guarded V U (handlePeerConnected net p m) \<and> ms_key (handlePeerConnected net p m) = ms_key m"
proof -
  obtain b m1 where a: "isAuthorizedReplicaPeer net p m = (b, m1)" by fastforce
  note g = authorized_guarded [OF a assms]
  let ?m1 = "m1\<lparr>ms_requested := insert p (ms_requested m1)\<rparr>"
  obtain r m2 where s: "send p StateSyncRequestFrame ?m1 = (r, m2)" by fastforce
  have "shows_to {} m1 ?m1" by (rule shows_to_quiet) simp_all
  then have s1: "shows_to {} m1 m2" using shows_to_send [OF s, of "{}"] shows_to_trans by auto
  moreover have "shows_to {} m2 (m2\<lparr>ms_requested := X\<rparr>)" for X by (rule shows_to_quiet) simp_all
  ultimately have "shows_to {} m1 (m2\<lparr>ms_requested := X\<rparr>)" for X using shows_to_trans by blast
  then have "shows_to {} m1 (handlePeerConnected net p m)"
    using s1 by (auto simp: handlePeerConnected_def a s split: go.split)
  then show ?thesis using g guarded_shows [of "{}" m1 _ V U] by auto
qed

lemma connect_rtc: "ConnectPeer net p m = (r, m') \<Longrightarrow>
    rtc_sent (ms_rtc m') = rtc_sent (ms_rtc m) \<and> ms_replicas m' = ms_replicas m \<and> ms_key m' = ms_key m"
  by (auto simp: ConnectPeer_def dial_def dial_start_def dial_end_def rtc_def send_signal_def CreateOffer_def
      NewPeerConnection_def Close_def Let_def split: if_splits prod.splits go.splits option.splits)

lemma guarded_connects:
  assumes "vouches V net (ms_key m)" "guarded V U m" "\<forall>peer \<in> set peers. is_live_replica net m peer \<longrightarrow> peer_id peer \<in> V"
  shows "guarded V U (connect_replicas net seen peers m) \<and> ms_key (connect_replicas net seen peers m) = ms_key m"
  using assms
proof (induction peers arbitrary: seen m)
  case (Cons peer peers)
  show ?case
  proof (cases "peer_id peer = [] \<or> peer_id peer = ms_id m \<or> \<not> is_live_replica net m peer \<or> peer_id peer \<in> seen")
    case True
    then show ?thesis using Cons by auto
  next
    case False
    let ?m1 = "m\<lparr>ms_replicas := insert (peer_id peer) (ms_replicas m)\<rparr>"
    let ?m2 = "if IsPeerConnected ?m1 (peer_id peer) then handlePeerConnected net (peer_id peer) ?m1
                      else snd (ConnectPeer net (peer_id peer) ?m1)"
    have m1: "guarded V U ?m1" "ms_key ?m1 = ms_key m"
      using Cons.prems False by (auto simp: guarded_def history_recipients_def)
    have "guarded V U (snd (ConnectPeer net (peer_id peer) ?m1)) \<and> ms_key (snd (ConnectPeer net (peer_id peer) ?m1)) = ms_key m"
      using connect_rtc [OF prod.collapse [symmetric], of net "peer_id peer" ?m1] m1
      by (simp add: guarded_def history_recipients_def)
    moreover have "guarded V U (handlePeerConnected net (peer_id peer) ?m1) \<and>
        ms_key (handlePeerConnected net (peer_id peer) ?m1) = ms_key m"
      using guarded_connected [of V net ?m1 U] Cons.prems(1) m1 by simp
    ultimately have m2: "guarded V U ?m2" "ms_key ?m2 = ms_key m" by auto
    have live: "is_live_replica net ?m2 x = is_live_replica net m x" for x
      using m2(2) by (simp add: is_live_replica_def)
    have "connect_replicas net seen (peer # peers) m = connect_replicas net (insert (peer_id peer) seen) peers ?m2"
      using False by (simp add: Let_def)
    then show ?thesis
      using Cons.IH [of ?m2 "insert (peer_id peer) seen"] Cons.prems m2 live by simp
  qed
qed simp

lemma upsert_quiet:
  "ms_rtc (upsertPeer i k l e s at ttl fake m) = ms_rtc m" "ms_replicas (upsertPeer i k l e s at ttl fake m) = ms_replicas m"
  by (simp_all add: upsertPeer_def notify_def store_def Let_def split: option.split prod.split)

lemma relogin_connect_quiet:
  assumes "relogin_connect L net signature m = (r, m')"
  shows "rtc_sent (ms_rtc m') = rtc_sent (ms_rtc m)" "ms_replicas m' = ms_replicas m"
proof -
  have f: "ms_rtc m1 = ms_rtc m \<and> ms_replicas m1 = ms_replicas m" if "findPeerByID net i m = (x, m1)" for i x m1
    using that by (auto simp: findPeerByID_def upsert_found_def upsert_quiet Let_def split: option.splits)
  have "rtc_sent (ms_rtc m') = rtc_sent (ms_rtc m) \<and> ms_replicas m' = ms_replicas m"
    using assms by (auto simp: relogin_connect_def split: go.splits prod.splits option.splits if_splits dest!: f connect_rtc)
  then show "rtc_sent (ms_rtc m') = rtc_sent (ms_rtc m)" "ms_replicas m' = ms_replicas m" by blast+
qed

lemma relogin_finish_quiet:
  assumes "relogin_finish c net p peer ref w m = (r, m')"
  shows "rtc_sent (ms_rtc m') = rtc_sent (ms_rtc m)" "ms_replicas m' = ms_replicas m"
proof -
  have st: "ms_rtc n' = ms_rtc n \<and> ms_replicas n' = ms_replicas n" if "store g n = (x, n')" for g :: "unit dbop" and n x n'
    using that by (auto dest!: store_result)
  have rl: "ms_rtc (reloadReplicatedPeers now n) = ms_rtc n \<and> ms_replicas (reloadReplicatedPeers now n) = ms_replicas n" for now n
    by (auto simp: reloadReplicatedPeers_def notify_def Let_def split: prod.split go.split dest!: store_result)
  have "ms_rtc (snd (take_over c net p peer x n)) = ms_rtc n \<and> ms_replicas (snd (take_over c net p peer x n)) = ms_replicas n" for x n
    by (auto simp: take_over_def Let_def rl split: prod.split go.split dest!: st)
  then have "ms_rtc m' = ms_rtc m \<and> ms_replicas m' = ms_replicas m"
    using assms by (auto simp: relogin_finish_def clearReloginTransfer_def split: prod.splits awaited.splits option.splits if_splits)
      (metis snd_conv)+
  then show "rtc_sent (ms_rtc m') = rtc_sent (ms_rtc m)" "ms_replicas m' = ms_replicas m" by simp_all
qed

lemma guarded_step: "sync_step V U m m' \<Longrightarrow> guarded V U m \<Longrightarrow> guarded V U m'"
proof (induction rule: sync_step.induct)
  case (refresh net m)
  then show ?case
    using guarded_connects [of V net m U _ "{}"] unfolding refreshReplicaConnections_def vouches_def
    by (auto split: option.split)
next
  case (connected net m p)
  then show ?case using guarded_connected by blast
next
  case (requested net m c L p)
  obtain b m1 where a: "isAuthorizedReplicaPeer net p m = (b, m1)" by fastforce
  note g = authorized_guarded [OF a requested]
  obtain r m2 where s: "sendStateSync c L net p m1 = (r, m2)" by fastforce
  have s1: "shows_to {(p, ToReplica)} m1 m2" by (rule shows_to_sendStateSync [OF s])
  have "shows_to {(p, ToReplica)} m2 (snd (send p (error_manifest e) m2))" for e by (simp add: error_manifest_def)
  then have "shows_to {(p, ToReplica)} m1 (snd (send p (error_manifest e) m2))" for e using s1 shows_to_trans by blast
  then have "b \<Longrightarrow> shows_to {(p, ToReplica)} m1 (handleStateSyncRequest c L net p m)"
    using s1 by (auto simp: handleStateSyncRequest_def a s split: go.split)
  moreover have "\<not> b \<Longrightarrow> handleStateSyncRequest c L net p m = m1" by (simp add: handleStateSyncRequest_def a)
  ultimately show ?case using g guarded_shows [of "{(p, ToReplica)}" m1 _ V U] by (auto simp: entitled_def)
next
  case (relogin L signature m p c net r m')
  have "m' = m \<or> (m' = send_replica c L net p m \<and> proves L signature m)"
    using relogin(2) by (auto simp: handleReloginRequest_def proves_def Verify_def split: go.splits prod.splits bool.splits if_splits)
  then show ?case
    using relogin guarded_shows [OF shows_to_send_replica, of p V U m] by (auto simp: entitled_def)
next
  case (relogin_dial L net signature m r m')
  then show ?case using guarded_same [OF relogin_connect_quiet [OF relogin_dial(1)]] by simp
next
  case (relogin_asks p signature m r m')
  then show ?case using guarded_shows [OF shows_to_relogin_start] by blast
next
  case (relogin_end c net p peer ref w m r m')
  then show ?case using relogin_finish_quiet guarded_same by metis
qed (blast intro: guarded_nothing shows_to_disconnected shows_to_manifest shows_to_chunk shows_to_finish [OF refl]
    shows_to_ack shows_to_relogin_callbacks)+

text \<open>
  C13. Who gets the history. Whatever happens, in whatever order, the frames of state sync that
  show it go to no peer but those Muninn named, at some point, as live devices registered under the
  messenger's own key; and the answer to a relogin, with the private keys and the snapshot, to
  no peer but those that presented a text with a signature that the messenger's own key, as it was
  then, verifies.
\<close>

theorem history_only_to_entitled:
  assumes "(sync_step V U)\<^sup>*\<^sup>* m m'" and "ms_replicas m = {}" and "rtc_sent (ms_rtc m) = []"
    and "(p, f) \<in> set (rtc_sent (ms_rtc m'))" and "shows_history f = Some k"
  shows "case k of ToReplica \<Rightarrow> p \<in> V | ToRelogin \<Rightarrow> p \<in> U"
proof -
  have "guarded V U m" using assms(2,3) by (simp add: guarded_def history_recipients_def)
  with assms(1) have "guarded V U m'"
    by (induction rule: rtranclp_induct) (use guarded_step in blast)+
  moreover have "(p, k) \<in> history_recipients m'" using assms(4,5) by (auto simp: history_recipients_def)
  ultimately show ?thesis by (auto simp: guarded_def entitled_def split: shown.split)
qed

definition sync_peer :: Peer where
  "sync_peer = \<lparr>peer_id = ''b'', peer_ids = [], peer_login = ''ann'', peer_enc = [],
     peer_sign = EncodeKey (replicate 32 5), peer_seen = 5000, peer_ttl = 60, peer_flag = [], peer_fake = False\<rparr>"

lemma sync_sender_fields:
  "ms_replicas sync_sender = {}" "rtc_sent (ms_rtc sync_sender) = []" "ms_id sync_sender = ''a''"
  "ms_key sync_sender = ''ann:'' @ EncodeKey (replicate 32 5)"
  by (simp_all add: sync_sender_def linked_def NewManager_def sample_messenger_def new_messenger_def Let_def)

lemma sync_peer_live: "is_live_replica sync_net sync_sender sync_peer"
proof -
  have "DisplayLogin sync_peer = ''ann''"
    using DisplayLogin_plain [of sync_peer] by (simp add: sync_peer_def graphic_def)
  moreover have "EncodeKey (replicate 32 5) \<noteq> []" by code_simp
  ultimately have "Key sync_peer = ms_key sync_sender" by (simp add: Key_def sync_peer_def sync_sender_fields)
  then show ?thesis
    by (simp add: is_live_replica_def sync_net_def sync_peer_def seconds_def sample_net_def)
qed

lemma sent_prefix: "emitted m m' = x # xs \<Longrightarrow> x \<in> set (rtc_sent (ms_rtc m'))"
  by (metis emitted_def in_set_dropD list.set_intros(1))

lemma history_only_to_entitled_witness:
  "\<exists>m' man. (''b'', StateSyncManifestFrame man) \<in> set (rtc_sent (ms_rtc m')) \<and> ''b'' \<in> {''b''}
     \<and> (sync_step {''b''} {})\<^sup>*\<^sup>* sync_sender m'"
proof -
  define net where "net = sync_net\<lparr>n_get := (\<lambda>p. if p = ''b'' then Some sync_peer else None)\<rparr>"
  define m' where "m' = handleStateSyncRequest sync_codec toy_lib net ''b'' sync_sender"
  have "vouches {''b''} net (ms_key sync_sender)"
    by (simp add: vouches_def net_def sync_net_def sample_net_def)
  then have step: "(sync_step {''b''} {})\<^sup>*\<^sup>* sync_sender m'"
    unfolding m'_def by (intro r_into_rtranclp [where r = "sync_step {''b''} {}"] requested)
  have "\<exists>man. (''b'', StateSyncManifestFrame man) \<in> set (rtc_sent (ms_rtc m'))"
  proof -
    let ?m = "sync_sender\<lparr>ms_replicas := {''b''}\<rparr>"
    have net: "n_now net = 5000" "\<And>i. n_capacity net i = [Some 0]" "n_get net ''b'' = Some sync_peer"
      by (simp_all add: net_def sync_net_def sample_net_def)
    have "is_live_replica net sync_sender sync_peer"
      using sync_peer_live by (simp add: is_live_replica_def net_def)
    then have a: "isAuthorizedReplicaPeer net ''b'' sync_sender = (True, ?m)"
      by (simp add: isAuthorizedReplicaPeer_def net sync_sender_fields sync_peer_def)
    have "fst (sendStateSync sync_codec toy_lib net ''b'' ?m) = Ret ()"
      by (rule sync_send_ok) (simp_all add: net, simp add: sync_sender_def linked_def)
    then obtain m2 where s: "sendStateSync sync_codec toy_lib net ''b'' ?m = (Ret (), m2)" by (metis prod.collapse)
    then have "m' = m2" by (simp add: m'_def handleStateSyncRequest_def a)
    show ?thesis unfolding \<open>m' = m2\<close> by (rule sendStateSync_Ret [OF s]) (auto dest: sent_prefix)
  qed
  then obtain man where f: "(''b'', StateSyncManifestFrame man) \<in> set (rtc_sent (ms_rtc m'))" by blast
  have "case ToReplica of ToReplica \<Rightarrow> ''b'' \<in> {''b''} | ToRelogin \<Rightarrow> ''b'' \<in> {}"
    by (rule history_only_to_entitled [OF step _ _ f]) (simp_all add: sync_sender_fields)
  then show ?thesis using f step by auto
qed

section \<open>The checkpoint\<close>

definition last_check :: "tables \<Rightarrow> string \<Rightarrow> int option" where
  "last_check t p = map_option snd (tbl_find fst (t_state_check t) p)"

lemma tbl_find_fst: "tbl_find fst t p = Some x \<Longrightarrow> x = (p, snd x)"
  by (drule tbl_find_SomeD) (auto simp: prod_eq_iff)

lemma unix_micro_times [simp]: "unix_micro (us * 1000) = us"
  by (simp add: unix_micro_def)

lemma SetLastStateCheck_RetD:
  assumes "SetLastStateCheck p (us * 1000) d = (Ret u, d')"
  shows "last_check (db_tables d') q = (if q = p then Some (case last_check (db_tables d) p of None \<Rightarrow> us
       | Some old \<Rightarrow> max old us) else last_check (db_tables d) q)
     \<and> t_messages (db_tables d') = t_messages (db_tables d)"
proof -
  let ?f = "\<lambda>old new :: string \<times> int. (fst old, max (snd old) (snd new))"
  have t: "db_tables d' = (db_tables d)\<lparr>t_state_check := tbl_upsert fst ?f (p, us) (t_state_check (db_tables d))\<rparr>"
    using assms by (auto simp: SetLastStateCheck_def db_err_def split: if_splits dest!: sql_write_RetD)
  have "tbl_find fst (tbl_upsert fst ?f (p, us) tb) q = (if q = p then (case tbl_find fst tb q of None \<Rightarrow> Some (p, us)
      | Some x \<Rightarrow> Some (?f x (p, us))) else tbl_find fst tb q)" for tb
    by (subst tbl_find_upsert) auto
  then show ?thesis by (simp add: t last_check_def split: option.split)
qed

lemma SetLastStateCheck_failed: "SetLastStateCheck p at d = (r, d') \<Longrightarrow> r \<noteq> Ret () \<Longrightarrow> db_tables d' = db_tables d"
  by (auto simp: SetLastStateCheck_def db_err_def sql_write_def dest: sql_atomic split: if_splits)

definition acknowledges :: "StateSyncAck \<Rightarrow> stateSyncOutgoingTransfer option \<Rightarrow> bool" where
  "acknowledges a t = (\<exists>x. t = Some x \<and> out_transfer x = sa_transfer a \<and> out_checkpoint x = sa_checkpoint a \<and> sa_error a = [])"

lemma handleStateSyncAck_tables:
  "db_tables (ms_store (handleStateSyncAck p a m)) =
     (if acknowledges a (ms_outgoing m p)
      then db_tables (snd (SetLastStateCheck p (sa_checkpoint a * 1000) (ms_store m))) else db_tables (ms_store m))"
proof -
  have d: "ms_store (drop_outgoing p x m1) = ms_store m1" for x m1
    by (simp add: drop_outgoing_def split: option.split)
  obtain r d1 where s: "SetLastStateCheck p (sa_checkpoint a * 1000) (ms_store m) = (r, d1)" by fastforce
  show ?thesis
    by (cases "ms_outgoing m p"; cases r) (auto simp: handleStateSyncAck_def acknowledges_def store_def s d)
qed

text \<open>
  C14. The checkpoint of a peer moves when, and only when, that peer acknowledges without error
  the very transfer last sent to it, with its id and its checkpoint, and the database takes
  it; it then is the later of the old one and the transfer's. No other peer's checkpoint
  moves, and no message changes.
\<close>

theorem checkpoint_moves_on_ack:
  "last_check (db_tables (ms_store (handleStateSyncAck p a m))) q =
     (if q = p \<and> acknowledges a (ms_outgoing m p)
           \<and> fst (SetLastStateCheck p (sa_checkpoint a * 1000) (ms_store m)) = Ret ()
      then Some (case last_check (db_tables (ms_store m)) p of None \<Rightarrow> sa_checkpoint a | Some old \<Rightarrow> max old (sa_checkpoint a))
      else last_check (db_tables (ms_store m)) q)
   \<and> t_messages (db_tables (ms_store (handleStateSyncAck p a m))) = t_messages (db_tables (ms_store m))"
proof -
  obtain r d where s: "SetLastStateCheck p (sa_checkpoint a * 1000) (ms_store m) = (r, d)" by fastforce
  show ?thesis
  proof (cases "r = Ret ()")
    case True
    then show ?thesis
      using SetLastStateCheck_RetD [of p "sa_checkpoint a" "ms_store m" "()" d q] s
      by (cases "q = p") (simp_all add: handleStateSyncAck_tables)
  next
    case False
    then show ?thesis using SetLastStateCheck_failed [OF s] s by (simp add: handleStateSyncAck_tables)
  qed
qed


section \<open>Nothing is lost\<close>

text \<open>
  What a checkpoint stands for: the peer holds every message that was last changed before it.
\<close>

definition covered :: "tables \<Rightarrow> string \<Rightarrow> db \<Rightarrow> bool" where
  "covered t p d \<longleftrightarrow>
     (\<forall>r \<in> set (t_messages t). \<forall>us. last_check t p = Some us \<longrightarrow> m_updated r < us \<longrightarrow> has_message d (m_uid r))"

lemma GetLastStateCheck_since:
  "GetLastStateCheck p d = (Ret since, d') \<Longrightarrow>
     since = (case last_check (db_tables d) p of None \<Rightarrow> zero_time | Some us \<Rightarrow> us * 1000)"
  by (auto simp: GetLastStateCheck_def db_err_def db_ret_def last_check_def elim!: db_then_RetD
      dest!: sql_read_RetD split: if_splits option.splits)

lemma finish_keeps_messages: "has_message (ms_store m) u \<Longrightarrow> has_message (ms_store (finishStateSyncImport c L net q t m)) u"
proof -
  assume u: "has_message (ms_store m) u"
  have imp: "store (ImportStateSyncMessages at ms) m = (Ret ins, m1) \<Longrightarrow> has_message (ms_store m1) u" for at ms ins m1
  proof -
    assume "store (ImportStateSyncMessages at ms) m = (Ret ins, m1)"
    then obtain d where "ImportStateSyncMessages at ms (ms_store m) = (Ret ins, d)" "m1 = m\<lparr>ms_store := d\<rparr>"
      using store_result by blast
    then show ?thesis using u
      unfolding ImportStateSyncMessages_def has_message_def transaction_def
      by (auto split: prod.splits go.splits if_splits dest!: import_messages_RetD)
  qed
  have "m' = finishStateSyncImport c L net q t m \<Longrightarrow> has_message (ms_store m') u" for m'
  proof (cases rule: finish_cases)
    assume "m' = finishStateSyncImport c L net q t m"
    then show "m' = finishStateSyncImport c L net q t m" .
  next
    fix delta m1 m2
    assume "ms_store m2 = ms_store m1" "\<exists>ins. store (ImportStateSyncMessages (n_now net) (md_messages delta)) m = (Ret ins, m1)"
      "m' = snd (send q (sync_ack t []) (clearIncomingStateSync q t m2))"
    then show "has_message (ms_store m') u" using imp by auto
  next
    fix e m1
    assume "db_tables (ms_store m1) = db_tables (ms_store m)" "m' = failStateSyncImport q t e m1"
    then show "has_message (ms_store m') u" using u by (simp add: failStateSyncImport_def has_message_def)
  qed (use u in \<open>auto simp: has_message_def\<close>)
  then show ?thesis by blast
qed

text \<open>
  The heart of a round: when everything changed since the checkpoint has arrived, and the checkpoint has
  moved at most to the end of the window, what lies before the new checkpoint is with the other device.
\<close>

lemma window_covers:
  assumes before: "covered (db_tables a) p b" and keeps: "\<And>u. has_message b u \<Longrightarrow> has_message b' u"
    and since: "since = (case last_check (db_tables a) p of None \<Rightarrow> zero_time | Some us \<Rightarrow> us * 1000)"
      "(if since = zero_time then 0 else unix_micro since) \<le> now"
    and clock: "0 < now" "\<forall>r \<in> set (t_messages (db_tables a)). 0 \<le> m_updated r"
    and got: "\<forall>r \<in> set (t_messages (db_tables a)).
       (if since = zero_time then 0 else unix_micro since) \<le> m_updated r \<and> m_updated r \<le> now \<longrightarrow> has_message b' (m_uid r)"
    and a': "\<forall>r \<in> set (t_messages a'). r \<in> set (t_messages (db_tables a)) \<or> now \<le> m_updated r"
      "last_check a' p \<in> {last_check (db_tables a) p, Some (case last_check (db_tables a) p of None \<Rightarrow> now | Some old \<Rightarrow> max old now)}"
  shows "covered a' p b'"
  unfolding covered_def
proof (intro ballI allI impI)
  fix r us
  assume r: "r \<in> set (t_messages a')" "last_check a' p = Some us" "m_updated r < us"
  have "zero_time div 1000 \<le> now" using clock(1) by (simp add: zero_time_def)
  moreover have "x * 1000 = zero_time \<Longrightarrow> x = zero_time div 1000" for x by simp
  ultimately have "x \<le> now" if "last_check (db_tables a) p = Some x" for x using since that by (auto split: if_splits)
  then have le: "us \<le> now" using a'(2) r(2) by (auto split: option.splits)
  then have rA: "r \<in> set (t_messages (db_tables a))" using a'(1) r by fastforce
  show "has_message b' (m_uid r)"
  proof (cases "(if since = zero_time then 0 else unix_micro since) \<le> m_updated r")
    case True
    then show ?thesis using got rA r(3) le by auto
  next
    case False
    then obtain old where "last_check (db_tables a) p = Some old" "m_updated r < old"
      using since(1) clock(2) rA by (auto split: option.splits if_splits)
    then show ?thesis using before rA keeps unfolding covered_def by auto
  qed
qed

text \<open>
  C12. State sync loses nothing. Suppose the peer \<open>B\<close> holds all messages of \<open>A\<close> from before
  the last checkpoint. \<open>A\<close> runs \<open>sendStateSync\<close> to its end; \<open>B\<close>, which had asked, gets the
  blocks it sent in any order, with any repetitions, makes one import job of them and runs
  it; \<open>A\<close>, which may have stored new messages meanwhile (all stamped no earlier than the
  export), handles the acknowledgement. Then \<open>B\<close> holds all messages of \<open>A\<close> from before the new
  checkpoint.
\<close>

theorem state_sync_round:
  assumes sent: "sendStateSync c L na p A = (Ret (), A')" and wf: "wf_tables (db_tables (ms_store A))"
    and survive: "history_survives c na A" and lib: "crypto_lawful L"
    and clock: "0 < unix_micro (n_now na)" "\<forall>r \<in> set (t_messages (db_tables (ms_store A))). 0 \<le> m_updated r"
    and uuid: "n_uuid na 0 \<noteq> []"
    and B: "q \<in> ms_requested B" "\<not> ms_closed B" "db_faults (ms_store B) = []"
    and before: "covered (db_tables (ms_store A)) p (ms_store B)"
    and later: "ms_outgoing A1 p = ms_outgoing A' p"
      "last_check (db_tables (ms_store A1)) p = last_check (db_tables (ms_store A)) p"
      "\<forall>r \<in> set (t_messages (db_tables (ms_store A1))).
         r \<in> set (t_messages (db_tables (ms_store A))) \<or> unix_micro (n_now na) \<le> m_updated r"
  shows "\<exists>man chunks. emitted A A' = (p, StateSyncManifestFrame man) # map (\<lambda>k. (p, StateSyncChunkFrame k)) chunks \<and>
     (\<forall>order. set order = set chunks \<longrightarrow>
        (\<exists>t. let B1 = fold (handleStateSyncChunk q) order (handleStateSyncManifest q man B);
              A2 = handleStateSyncAck p \<lparr>sa_transfer = sm_transfer man, sa_checkpoint = sm_checkpoint man, sa_error = []\<rparr> A1
           in ms_jobs B1 = ms_jobs B @ [FinishStateSync q t] \<and>
              covered (db_tables (ms_store A2)) p (ms_store (finishStateSyncImport c L nb q t B1))))"
proof -
  let ?now = "unix_micro (n_now na)"
  obtain since d1 man chunks where g: "GetLastStateCheck p (ms_store A) = (Ret since, d1)"
    and em: "emitted A A' = (p, StateSyncManifestFrame man) # map (\<lambda>k. (p, StateSyncChunkFrame k)) chunks"
    and cp: "sm_checkpoint man = ?now" "(if since = zero_time then 0 else unix_micro since) \<le> ?now"
    and og: "map_option (\<lambda>x. (out_transfer x, out_checkpoint x)) (ms_outgoing A' p) = Some (sm_transfer man, sm_checkpoint man)"
    and all: "\<And>order. set order = set chunks \<Longrightarrow>
        (\<exists>t. let B1 = fold (handleStateSyncChunk q) order (handleStateSyncManifest q man B) in
           ms_jobs B1 = ms_jobs B @ [FinishStateSync q t] \<and> ms_store B1 = ms_store B \<and>
           (\<forall>r \<in> set (t_messages (db_tables (ms_store A))).
              (if since = zero_time then 0 else unix_micro since) \<le> m_updated r \<and> m_updated r \<le> ?now \<longrightarrow>
              has_message (ms_store (finishStateSyncImport c L nb q t B1)) (m_uid r)))"
    using sync_delivers [OF sent wf survive lib clock(1) uuid B, of nb] by blast
  let ?ack = "\<lparr>sa_transfer = sm_transfer man, sa_checkpoint = sm_checkpoint man, sa_error = []\<rparr>"
  let ?A2 = "handleStateSyncAck p ?ack A1"
  have acks: "acknowledges ?ack (ms_outgoing A1 p)" using og later(1) by (auto simp: acknowledges_def)
  obtain r d where set: "SetLastStateCheck p (?now * 1000) (ms_store A1) = (r, d)" by fastforce
  have A2: "t_messages (db_tables (ms_store ?A2)) = t_messages (db_tables (ms_store A1))"
      "last_check (db_tables (ms_store ?A2)) p \<in> {last_check (db_tables (ms_store A)) p,
         Some (case last_check (db_tables (ms_store A)) p of None \<Rightarrow> ?now | Some old \<Rightarrow> max old ?now)}"
    using SetLastStateCheck_RetD [of p ?now "ms_store A1" "()" d p] SetLastStateCheck_failed [OF set] set later(2)
    by (cases "r = Ret ()"; simp add: handleStateSyncAck_tables acks cp(1))+
  have "\<exists>t. let B1 = fold (handleStateSyncChunk q) order (handleStateSyncManifest q man B)
           in ms_jobs B1 = ms_jobs B @ [FinishStateSync q t] \<and>
              covered (db_tables (ms_store ?A2)) p (ms_store (finishStateSyncImport c L nb q t B1))"
    if ord: "set order = set chunks" for order
  proof -
    let ?B1 = "fold (handleStateSyncChunk q) order (handleStateSyncManifest q man B)"
    obtain t where t: "ms_jobs ?B1 = ms_jobs B @ [FinishStateSync q t]" "ms_store ?B1 = ms_store B"
      and got: "\<forall>r \<in> set (t_messages (db_tables (ms_store A))).
              (if since = zero_time then 0 else unix_micro since) \<le> m_updated r \<and> m_updated r \<le> ?now \<longrightarrow>
              has_message (ms_store (finishStateSyncImport c L nb q t ?B1)) (m_uid r)"
      using all [OF ord] unfolding Let_def by blast
    have "covered (db_tables (ms_store ?A2)) p (ms_store (finishStateSyncImport c L nb q t ?B1))"
      using later(3) by (intro window_covers [OF before _ GetLastStateCheck_since [OF g] cp(2) clock got _ A2(2)] finish_keeps_messages)
        (simp_all add: A2(1) t(2))
    then show ?thesis using t(1) unfolding Let_def by blast
  qed
  then show ?thesis using em unfolding Let_def by blast
qed

lemma state_sync_round_witness:
  "\<exists>man chunks t. emitted sync_sender (snd (sendStateSync sync_codec toy_lib sync_net ''b'' sync_sender))
       = (''b'', StateSyncManifestFrame man) # map (\<lambda>k. (''b'', StateSyncChunkFrame k)) chunks \<and>
     (let A' = snd (sendStateSync sync_codec toy_lib sync_net ''b'' sync_sender);
          B1 = fold (handleStateSyncChunk ''a'') (rev chunks @ chunks) (handleStateSyncManifest ''a'' man sync_receiver);
          A2 = handleStateSyncAck ''b'' \<lparr>sa_transfer = sm_transfer man, sa_checkpoint = sm_checkpoint man, sa_error = []\<rparr>
                 (sync_sender\<lparr>ms_outgoing := ms_outgoing A'\<rparr>)
       in ms_jobs B1 = ms_jobs sync_receiver @ [FinishStateSync ''a'' t] \<and>
          covered (db_tables (ms_store A2)) ''b''
            (ms_store (finishStateSyncImport sync_codec toy_lib sync_net ''a'' t B1)))"
proof -
  define A' where "A' = snd (sendStateSync sync_codec toy_lib sync_net ''b'' sync_sender)"
  have s: "sendStateSync sync_codec toy_lib sync_net ''b'' sync_sender = (Ret (), A')"
    using sync_send_ok [of sync_net sync_sender]
    by (simp add: A'_def sync_net_def sample_net_def sync_sender_def linked_def prod_eq_iff)
  have wf: "wf_tables (db_tables (ms_store sync_sender))"
    by (simp add: sync_sender_def linked_def history_db_def wf_tables_def no_tables_def pk_def)
  have w: "0 < unix_micro (n_now sync_net)" "n_uuid sync_net 0 \<noteq> []"
    "''a'' \<in> ms_requested sync_receiver" "\<not> ms_closed sync_receiver" "db_faults (ms_store sync_receiver) = []"
    by (simp_all add: sync_net_def sample_net_def unix_micro_def sync_receiver_def linked_def fresh_db_def)
  have old: "\<forall>r \<in> set (t_messages (db_tables (ms_store sync_sender))). 0 \<le> m_updated r"
    by (simp add: sync_sender_def linked_def history_db_def sample_row_def)
  have cov: "covered (db_tables (ms_store sync_sender)) ''b'' (ms_store sync_receiver)"
    by (simp add: covered_def last_check_def sync_sender_def linked_def history_db_def no_tables_def)
  let ?A1 = "sync_sender\<lparr>ms_outgoing := ms_outgoing A'\<rparr>"
  have later: "ms_outgoing ?A1 ''b'' = ms_outgoing A' ''b''"
      "last_check (db_tables (ms_store ?A1)) ''b'' = last_check (db_tables (ms_store sync_sender)) ''b''"
      "\<forall>r \<in> set (t_messages (db_tables (ms_store ?A1))).
         r \<in> set (t_messages (db_tables (ms_store sync_sender))) \<or> unix_micro (n_now sync_net) \<le> m_updated r"
    by simp_all
  obtain man chunks where em: "emitted sync_sender A'
       = (''b'', StateSyncManifestFrame man) # map (\<lambda>k. (''b'', StateSyncChunkFrame k)) chunks"
    and all: "\<And>order. set order = set chunks \<Longrightarrow>
        (\<exists>t. let B1 = fold (handleStateSyncChunk ''a'') order (handleStateSyncManifest ''a'' man sync_receiver);
              A2 = handleStateSyncAck ''b'' \<lparr>sa_transfer = sm_transfer man, sa_checkpoint = sm_checkpoint man, sa_error = []\<rparr> ?A1
           in ms_jobs B1 = ms_jobs sync_receiver @ [FinishStateSync ''a'' t] \<and>
              covered (db_tables (ms_store A2)) ''b''
                (ms_store (finishStateSyncImport sync_codec toy_lib sync_net ''a'' t B1)))"
    using state_sync_round [OF s wf sync_codec_survives toy_lib_lawful w(1) old w(2,3,4,5) cov later, of sync_net] by blast
  show ?thesis
    using em all [of "rev chunks @ chunks"] unfolding A'_def [symmetric] Let_def by auto
qed
end
