(* ===== verification/Fetch.thy ===== *)
theory Fetch
  imports Peers StateSync
begin

text \<open>
  \<open>internal/messenger/chunks.go\<close> and \<open>waitForPeerConnection\<close>: blocks are stored for others,
  served to them, and asked for when they are missing. A context is \<open>None\<close> for the messenger's
  own and \<open>Some ref\<close> for that of a download; it is done when the messenger is shut down or the
  download was cancelled.
\<close>

definition ctx_done :: "nat option \<Rightarrow> Messenger \<Rightarrow> bool" where
  "ctx_done ctx m = (ms_closed m \<or> (case ctx of None \<Rightarrow> False | Some ref \<Rightarrow> ref \<in> ms_cancelled m))"

text \<open>What the connections become while a peer is waited for is \<open>n_meet\<close>.\<close>

definition meet :: "net \<Rightarrow> string \<Rightarrow> Messenger \<Rightarrow> Messenger" where
  "meet net peerID m = m\<lparr>ms_rtc := n_meet net peerID (ms_rtc m)\<rparr>"

definition waitForPeerConnection :: "net \<Rightarrow> string \<Rightarrow> Messenger \<Rightarrow> bool \<times> Messenger" where
  "waitForPeerConnection net peerID m =
     (if IsPeerConnected m peerID then (True, m)
      else if ms_closed m then (False, m)
      else (let m1 = meet net peerID m in (IsPeerConnected m1 peerID, m1)))"

definition send_get :: "string \<Rightarrow> ChunkGetRequest \<Rightarrow> Messenger \<Rightarrow> Messenger" where
  "send_get peerID req m = snd (rtc (SendChunkGet peerID req) m)"

section \<open>Storing and serving\<close>

definition reported_text :: "string \<Rightarrow> int \<Rightarrow> string \<Rightarrow> string \<Rightarrow> string" where
  "reported_text fileID chunkIndex hash peerID =
     ''muninn/reported/v1'' @ [CHR 0x0A] @ fileID @ [CHR 0x0A] @ itoa chunkIndex @ [CHR 0x0A] @ hash @ [CHR 0x0A] @ peerID"

definition report :: "crypto_lib \<Rightarrow> string \<Rightarrow> string \<Rightarrow> int \<Rightarrow> string \<Rightarrow> Messenger \<Rightarrow> ChunkReportRequest go" where
  "report L peerID fileID chunkIndex hash m =
     (case Sign L (k_sign_private (ms_keys m)) (bytes_of (reported_text fileID chunkIndex hash peerID)) of
        Err e \<Rightarrow> Err e
      | Panic e \<Rightarrow> Panic e
      | Ret sig \<Rightarrow> Ret \<lparr>cq_reporter = ms_id m, cq_file = fileID, cq_index = chunkIndex, cq_hash = hash,
                     cq_sig = EncodeKey sig\<rparr>)"

definition handleChunkStore :: "crypto_lib \<Rightarrow> net \<Rightarrow> string \<Rightarrow> ChunkStoreRequest \<Rightarrow> Messenger \<Rightarrow> unit go \<times> Messenger" where
  "handleChunkStore L net peerID req m =
     (if cs_hash req \<noteq> [] \<and> RegisteredHash L (cs_data req) \<noteq> cs_hash req then (Err ''chunk hash mismatch'', m)
      else (case store (StoreChunk (n_now net) (cs_file req) (cs_index req) (cs_data req)
                  (if cs_ttl req \<le> 0 then 604800 else cs_ttl req)) m of
          (Ret _, m1) \<Rightarrow>
            (let m2 = (if cs_recipient req \<noteq> [] \<and> cs_recipient req \<noteq> ms_key m1 \<and> cs_hash req \<noteq> [] \<and> cs_sender req \<noteq> []
                       then snd (trySubmit (ReportChunk peerID (cs_file req) (cs_index req) (cs_hash req)) m1) else m1);
                 m3 = (if ms_pending m2 (cs_file req) \<noteq> None then snd (trySubmit CheckPendingFiles m2) else m2)
             in (Ret (), m3))
        | (e, m1) \<Rightarrow> (e, m1)))"

definition handleChunkGet :: "net \<Rightarrow> ChunkGetRequest \<Rightarrow> Messenger \<Rightarrow> bytes option \<times> Messenger" where
  "handleChunkGet net req m =
     (case store (GetChunk (n_now net) (cg_file req) (cg_index req)) m of
        (Ret (Some data), m1) \<Rightarrow> (Some data, m1)
      | (_, m1) \<Rightarrow> (None, m1))"

definition StoredChunkData :: "net \<Rightarrow> string \<Rightarrow> int \<Rightarrow> Messenger \<Rightarrow> bytes option \<times> Messenger" where
  "StoredChunkData net fileID chunkIndex m =
     (case store (GetChunk (n_now net) fileID chunkIndex) m of
        (Ret (Some data), m1) \<Rightarrow> (Some data, m1)
      | (_, m1) \<Rightarrow> (None, m1))"

text \<open>The job of \<open>InjectChunk\<close> looks for pending messages and files.\<close>

definition InjectChunk :: "net \<Rightarrow> string \<Rightarrow> int \<Rightarrow> bytes \<Rightarrow> Messenger \<Rightarrow> Messenger" where
  "InjectChunk net fileID chunkIndex data m =
     snd (submit CheckPendingMessages (snd (store (StoreChunk (n_now net) fileID chunkIndex data 604800) m)))"

definition deleteChunksAndReturn :: "string \<Rightarrow> Messenger \<Rightarrow> Messenger" where
  "deleteChunksAndReturn msgID m = snd (store (DeleteChunks msgID) m)"

text \<open>One turn of \<open>chunkCleanupLoop\<close>; a statement that fails does not keep the others from running.\<close>

definition cleanup :: "net \<Rightarrow> Messenger \<Rightarrow> Messenger" where
  "cleanup net m =
     (let m1 = snd (store (DeleteExpiredChunks (n_now net)) m);
          m2 = snd (store (DeleteExpiredPendingChunks (n_now net)) m1);
          m3 = snd (store DeleteChunksWithMessage m2)
      in snd (store (DeleteExpiredFailedChunks (unix (n_now net))) m3))"

section \<open>Asking for blocks\<close>

fun ask_devices :: "nat option \<Rightarrow> string \<Rightarrow> ChunkGetRequest \<Rightarrow> string list \<Rightarrow> Messenger \<Rightarrow> Messenger" where
  "ask_devices ctx senderID req [] m = m"
| "ask_devices ctx senderID req (pid # pids) m =
     (if ctx_done ctx m then m
      else if IsPeerConnected m pid then ask_devices ctx senderID req pids (send_get pid req m)
      else if pid = senderID then ask_devices ctx senderID req pids (snd (trySubmit (Dial pid ctx) m))
      else ask_devices ctx senderID req pids m)"

definition requestMissingChunkWithContext ::
    "net \<Rightarrow> nat option \<Rightarrow> string \<Rightarrow> int \<Rightarrow> string \<Rightarrow> Messenger \<Rightarrow> Messenger" where
  "requestMissingChunkWithContext net ctx fileID chunkIndex senderID m =
     (case findPeerByKey net senderID m of
        (None, m1) \<Rightarrow> m1
      | (Some p, m1) \<Rightarrow> ask_devices ctx senderID \<lparr>cg_file = fileID, cg_index = chunkIndex\<rparr> (peer_ids p) m1)"

definition requestMissingChunk :: "net \<Rightarrow> string \<Rightarrow> int \<Rightarrow> string \<Rightarrow> Messenger \<Rightarrow> Messenger" where
  "requestMissingChunk net fileID chunkIndex senderID m =
     requestMissingChunkWithContext net None fileID chunkIndex senderID m"

definition getChunkDataWithContext :: "net \<Rightarrow> nat option \<Rightarrow> ChunkRecord \<Rightarrow> Messenger \<Rightarrow> bytes option \<times> Messenger" where
  "getChunkDataWithContext net ctx rec m =
     (if ctx_done ctx m then (None, m)
      else (case store (GetChunk (n_now net) (cr_file rec) (cr_index rec)) m of
          (Ret (Some data), m1) \<Rightarrow> (Some data, m1)
        | (_, m1) \<Rightarrow>
           if cr_peer rec = ms_id m1 then (None, m1)
           else (let req = \<lparr>cg_file = cr_file rec, cg_index = cr_index rec\<rparr> in
             if IsPeerConnected m1 (cr_peer rec) then (None, send_get (cr_peer rec) req m1)
             else (None, snd (trySubmit (AwaitPeer (cr_peer rec) req ctx) (snd (ConnectPeer net (cr_peer rec) m1)))))))"

definition getChunkData :: "net \<Rightarrow> ChunkRecord \<Rightarrow> Messenger \<Rightarrow> bytes option \<times> Messenger" where
  "getChunkData net rec m = getChunkDataWithContext net None rec m"

text \<open>The records of the directory are tried until one finds the block in the own store.\<close>

fun try_records :: "net \<Rightarrow> nat option \<Rightarrow> int \<Rightarrow> ChunkRecord list \<Rightarrow> Messenger \<Rightarrow> Messenger" where
  "try_records net ctx chunkIndex [] m = m"
| "try_records net ctx chunkIndex (rec # recs) m =
     (if cr_index rec \<noteq> chunkIndex then try_records net ctx chunkIndex recs m
      else (case getChunkDataWithContext net ctx rec m of
          (Some data, m1) \<Rightarrow> m1
        | (None, m1) \<Rightarrow> try_records net ctx chunkIndex recs m1))"

definition ask_preferred :: "nat option \<Rightarrow> string \<Rightarrow> int \<Rightarrow> string \<Rightarrow> Messenger \<Rightarrow> Messenger" where
  "ask_preferred ctx fileID chunkIndex preferredPeerID m =
     (let req = \<lparr>cg_file = fileID, cg_index = chunkIndex\<rparr> in
      if preferredPeerID \<noteq> [] \<and> IsPeerConnected m preferredPeerID then send_get preferredPeerID req m
      else if preferredPeerID \<noteq> [] \<and> chunkIndex = 0 then snd (trySubmit (FetchFrom preferredPeerID req ctx) m)
      else m)"

definition requestMissingChunkFromPeer ::
    "net \<Rightarrow> nat option \<Rightarrow> string \<Rightarrow> int \<Rightarrow> string \<Rightarrow> string \<Rightarrow> Messenger \<Rightarrow> Messenger" where
  "requestMissingChunkFromPeer net ctx fileID chunkIndex senderID preferredPeerID m =
     (if ctx_done ctx m then m
      else (let m1 = ask_preferred ctx fileID chunkIndex preferredPeerID m;
                m2 = requestMissingChunkWithContext net ctx fileID chunkIndex senderID m1
            in case n_records net fileID of
                 None \<Rightarrow> m2
               | Some records \<Rightarrow> try_records net ctx chunkIndex records m2))"

text \<open>The jobs these leave behind: dial, and poll for the connection, fifty times at most.\<close>

definition dial_job :: "net \<Rightarrow> string \<Rightarrow> nat option \<Rightarrow> Messenger \<Rightarrow> Messenger" where
  "dial_job net peerID ctx m = (if ctx_done ctx m then m else snd (ConnectPeer net peerID m))"

definition await_job :: "net \<Rightarrow> string \<Rightarrow> ChunkGetRequest \<Rightarrow> nat option \<Rightarrow> Messenger \<Rightarrow> Messenger" where
  "await_job net peerID req ctx m =
     (if ctx_done ctx m then m
      else (let m1 = meet net peerID m in if IsPeerConnected m1 peerID then send_get peerID req m1 else m1))"

definition fetch_job :: "net \<Rightarrow> string \<Rightarrow> ChunkGetRequest \<Rightarrow> nat option \<Rightarrow> Messenger \<Rightarrow> Messenger" where
  "fetch_job net peerID req ctx m =
     (if ctx_done ctx m then m
      else (case ConnectPeer net peerID m of
          (Ret _, m1) \<Rightarrow> await_job net peerID req ctx m1
        | (_, m1) \<Rightarrow> m1))"

section \<open>What asking for blocks leaves alone\<close>

text \<open>Asking for blocks changes connections, peers, jobs and the store's faults, nothing else.\<close>

definition aside :: "Messenger \<Rightarrow> Messenger \<Rightarrow> bool" where
  "aside m m' \<longleftrightarrow> ms_disk m' = ms_disk m \<and> ms_dir m' = ms_dir m \<and> ms_downloads m' = ms_downloads m
     \<and> ms_cancelled m' = ms_cancelled m \<and> ms_closed m' = ms_closed m \<and> ms_pending m' = ms_pending m
     \<and> ms_id m' = ms_id m \<and> ms_key m' = ms_key m \<and> ms_keys m' = ms_keys m \<and> ms_processing m' = ms_processing m
     \<and> filter (\<lambda>e. e \<noteq> PeersChanged) (ms_events m') = filter (\<lambda>e. e \<noteq> PeersChanged) (ms_events m)
     \<and> t_downloads (db_tables (ms_store m')) = t_downloads (db_tables (ms_store m))
     \<and> t_chunks (db_tables (ms_store m')) = t_chunks (db_tables (ms_store m))
     \<and> t_messages (db_tables (ms_store m')) = t_messages (db_tables (ms_store m))
     \<and> t_pending (db_tables (ms_store m')) = t_pending (db_tables (ms_store m))
     \<and> t_failed (db_tables (ms_store m')) = t_failed (db_tables (ms_store m))
     \<and> t_groups (db_tables (ms_store m')) = t_groups (db_tables (ms_store m))
     \<and> t_last_check (db_tables (ms_store m')) = t_last_check (db_tables (ms_store m))"

lemma aside_refl [simp]: "aside m m"
  by (simp add: aside_def)

lemma aside_trans [trans]: "aside a b \<Longrightarrow> aside b c \<Longrightarrow> aside a c"
  by (simp add: aside_def)

lemma aside_rtc [simp]: "aside m (m\<lparr>ms_rtc := w\<rparr>)" "aside m (snd (rtc f m))" "aside m (snd (send p g m))"
  "aside m (send_get p req m)" "aside m (meet net p m)"
  by (simp_all add: aside_def rtc_def send_def send_get_def meet_def split: prod.split)

lemma aside_jobs [simp]: "aside m (snd (trySubmit j m))" "aside m (snd (submit j m))"
  by (simp_all add: aside_def trySubmit_def submit_def)

lemma aside_connect [simp]: "aside m (snd (ConnectPeer net p m))"
  by (auto simp: ConnectPeer_def dial_def dial_start_def dial_end_def send_signal_def aside_def rtc_def Let_def
      split: prod.splits go.splits)

lemma aside_connect': "ConnectPeer net p m = (r, m') \<Longrightarrow> aside m m'"
  using aside_connect [of m net p] by simp

lemma StorePeer_tables:
  "StorePeer l k e s at fake d = (r, d') \<Longrightarrow> t_downloads (db_tables d') = t_downloads (db_tables d)
     \<and> t_chunks (db_tables d') = t_chunks (db_tables d) \<and> t_messages (db_tables d') = t_messages (db_tables d)
     \<and> t_pending (db_tables d') = t_pending (db_tables d) \<and> t_failed (db_tables d') = t_failed (db_tables d)
     \<and> t_groups (db_tables d') = t_groups (db_tables d) \<and> t_last_check (db_tables d') = t_last_check (db_tables d)"
  by (auto simp: StorePeer_def sql_write_def sql_def split: prod.splits if_splits dest: fault_tables)

lemma aside_store_peer: "aside m (snd (store (StorePeer l k e s at fake) m))"
proof -
  obtain r d where d: "StorePeer l k e s at fake (ms_store m) = (r, d)" by fastforce
  show ?thesis using StorePeer_tables [OF d] by (simp add: aside_def store_def d)
qed

lemma aside_peers [simp]: "aside m (m\<lparr>ms_peersMap := x\<rparr>)" "aside m (notify PeersChanged (m\<lparr>ms_peers := y\<rparr>))"
  by (simp_all add: aside_def notify_def)

lemma aside_upsert [simp]: "aside m (upsertPeer i k l e s at ttl fake m)"
proof (cases "map_of (ms_peersMap m) k")
  case None
  then show ?thesis
    unfolding upsertPeer_def Let_def option.case
    by (simp only: option.case) (rule aside_trans [OF aside_trans [OF aside_peers(1) aside_store_peer] aside_peers(2)])
next
  case (Some p)
  then show ?thesis
    unfolding upsertPeer_def Let_def
    by (simp only: option.case) (rule aside_trans [OF aside_peers])
qed

lemma aside_fold_upsert [simp]: "aside m (fold upsert_found ps m)"
proof (induction ps arbitrary: m)
  case (Cons p ps)
  have "aside m (upsert_found p m)" by (simp add: upsert_found_def)
  then show ?case unfolding fold_simps by (rule aside_trans) (rule Cons)
qed simp

lemma aside_findPeerByKey: "findPeerByKey net k m = (r, m') \<Longrightarrow> aside m m'"
proof -
  assume run: "findPeerByKey net k m = (r, m')"
  have "m' = m \<or> (\<exists>ps. m' = fold upsert_found ps m)"
  proof (cases "length (Split k (CHR '':'')) < 2 \<or> n_all net (Split k (CHR '':'') ! 0) (Split k (CHR '':'') ! 1) = None")
    case True
    then show ?thesis using run by (auto simp: findPeerByKey_def Let_def split: option.splits if_splits)
  next
    case False
    then obtain ps where "n_all net (Split k (CHR '':'') ! 0) (Split k (CHR '':'') ! 1) = Some ps" by blast
    then show ?thesis
      using run False unfolding findPeerByKey_def Let_def by (cases "map_of (ms_peersMap m) k") (simp_all split: if_splits, blast+)
  qed
  then show ?thesis by auto
qed

lemma aside_ask_devices [simp]: "aside m (ask_devices ctx s req pids m)"
proof (induction pids arbitrary: m)
  case (Cons p pids)
  have "aside m (ask_devices ctx s req pids m')" if "aside m m'" for m' using that Cons aside_trans by blast
  then show ?case using Cons by (simp add: ctx_done_def)
qed simp

lemma aside_request [simp]: "aside m (requestMissingChunkWithContext net ctx f i s m)"
proof -
  obtain r m1 where k: "findPeerByKey net s m = (r, m1)" by fastforce
  have "aside m m1" by (rule aside_findPeerByKey [OF k])
  then show ?thesis
    using aside_trans [OF _ aside_ask_devices] k by (auto simp: requestMissingChunkWithContext_def split: option.split)
qed

lemma GetChunk_tables: "db_tables (snd (GetChunk now f i d)) = db_tables d"
proof -
  have read: "db_tables (snd (db_then (sql_read g) k d)) = db_tables d"
    if "\<And>x d. db_tables (snd (k x d)) = db_tables d" for g d and k :: "'a \<Rightarrow> 'b dbop"
    using that sql_read_tables [of g d] by (auto simp: db_then_def split: prod.splits go.splits)
  show ?thesis
    unfolding GetChunk_def by (intro read) (auto simp: db_ret_def read split: option.split)
qed

lemma aside_GetChunk: "store (GetChunk now f i) m = (r, m') \<Longrightarrow> aside m m'"
proof -
  assume s: "store (GetChunk now f i) m = (r, m')"
  obtain d where d: "GetChunk now f i (ms_store m) = (r, d)" "m' = m\<lparr>ms_store := d\<rparr>" using store_result [OF s] by blast
  then have "db_tables d = db_tables (ms_store m)" using GetChunk_tables [of now f i "ms_store m"] by simp
  then show ?thesis unfolding d(2) by (simp add: aside_def)
qed

text \<open>A block that is not in the own store is asked for, or its holder dialled.\<close>

lemma getChunkData_cases:
  assumes "getChunkDataWithContext net ctx rec m = (r, m')"
  obtains "ctx_done ctx m" "r = None" "m' = m"
  | x m1 where "\<not> ctx_done ctx m" "store (GetChunk (n_now net) (cr_file rec) (cr_index rec)) m = (x, m1)"
      "r = (case x of Ret d \<Rightarrow> d | _ \<Rightarrow> None)"
      "m' = m1 \<or> (\<exists>req. m' = send_get (cr_peer rec) req m1)
        \<or> (\<exists>j. m' = snd (trySubmit j (snd (ConnectPeer net (cr_peer rec) m1))))"
proof (cases "ctx_done ctx m")
  case True
  then have "r = None" "m' = m" using assms by (simp_all add: getChunkDataWithContext_def)
  then show ?thesis by (rule that(1) [OF True])
next
  case False
  obtain x m1 where g: "store (GetChunk (n_now net) (cr_file rec) (cr_index rec)) m = (x, m1)" by fastforce
  let ?req = "\<lparr>cg_file = cr_file rec, cg_index = cr_index rec\<rparr>"
  let ?m' = "if cr_peer rec = ms_id m1 then m1 else if IsPeerConnected m1 (cr_peer rec) then send_get (cr_peer rec) ?req m1
     else snd (trySubmit (AwaitPeer (cr_peer rec) ?req ctx) (snd (ConnectPeer net (cr_peer rec) m1)))"
  have miss: "getChunkDataWithContext net ctx rec m = (None, ?m')" if "\<forall>d. x \<noteq> Ret (Some d)"
  proof (cases x)
    case (Ret d)
    then show ?thesis using that False g by (cases d) (simp_all add: getChunkDataWithContext_def Let_def)
  qed (use False g in \<open>simp_all add: getChunkDataWithContext_def Let_def\<close>)
  show ?thesis
  proof (cases "\<forall>d. x \<noteq> Ret (Some d)")
    case True
    have m': "m' = ?m'" and r: "r = None" using miss [OF True] assms by (simp_all only: prod.inject)
    have none: "(case x of Ret d \<Rightarrow> d | _ \<Rightarrow> None) = None" using True by (simp split: go.split) (metis not_None_eq)
    show ?thesis
    proof (rule that(2) [OF False g])
      show "r = (case x of Ret d \<Rightarrow> d | _ \<Rightarrow> None)" using r none by simp
      show "m' = m1 \<or> (\<exists>req. m' = send_get (cr_peer rec) req m1)
        \<or> (\<exists>j. m' = snd (trySubmit j (snd (ConnectPeer net (cr_peer rec) m1))))"
        using m' by (metis (no_types))
    qed
  next
    case hit: False
    then obtain d where "x = Ret (Some d)" by blast
    then have "r = Some d" "m' = m1" using assms False g by (simp_all add: getChunkDataWithContext_def)
    then show ?thesis using \<open>x = Ret (Some d)\<close> by (intro that(2) [OF False g]) simp_all
  qed
qed

lemma aside_getChunkData: "getChunkDataWithContext net ctx rec m = (r, m') \<Longrightarrow> aside m m'"
proof (erule getChunkData_cases)
  fix x m1
  assume "store (GetChunk (n_now net) (cr_file rec) (cr_index rec)) m = (x, m1)" and
    m': "m' = m1 \<or> (\<exists>req. m' = send_get (cr_peer rec) req m1)
        \<or> (\<exists>j. m' = snd (trySubmit j (snd (ConnectPeer net (cr_peer rec) m1))))"
  then have 1: "aside m m1" by (blast intro: aside_GetChunk)
  have "aside m1 m'"
    using m' aside_rtc(4) aside_trans [OF aside_connect aside_jobs(1)] by auto
  then show "aside m m'" using 1 aside_trans by blast
qed simp

lemma aside_try_records [simp]: "aside m (try_records net ctx i recs m)"
proof (induction recs arbitrary: m)
  case (Cons rec recs)
  obtain x m1 where g: "getChunkDataWithContext net ctx rec m = (x, m1)" by fastforce
  have "aside m m1" by (rule aside_getChunkData [OF g])
  then show ?case using Cons g aside_trans by (auto split: option.split)
qed simp

lemma aside_requestFromPeer [simp]: "aside m (requestMissingChunkFromPeer net ctx f i s q m)"
proof -
  have 1: "aside m (ask_preferred ctx f i q m)" by (simp add: ask_preferred_def Let_def)
  have 2: "aside m (requestMissingChunkWithContext net ctx f i s (ask_preferred ctx f i q m))"
    using 1 aside_request by (rule aside_trans)
  show ?thesis
    using aside_trans [OF 2 aside_try_records] 2 by (simp add: requestMissingChunkFromPeer_def Let_def split: option.split)
qed

end
