(* ===== verification/Delivery.thy ===== *)
theory Delivery
  imports Fetch
begin

text \<open>
  \<open>internal/messenger/outgoing.go\<close> and \<open>chunk_delivery.go\<close>: a message is accepted when it and
  all its encrypted blocks are in the store, in one transaction; after that it is sent over a
  data channel if there is one, its blocks are advertised to Muninn and handed to other peers,
  and a block counts as placed once one of these has acknowledged it.
\<close>

section \<open>Accepting a message\<close>

record outgoingMessage =
  og_message :: ChatMessage
  og_peer :: Peer
  og_chunks :: "PendingChunk list"

definition expected_text :: "string \<Rightarrow> int \<Rightarrow> string \<Rightarrow> string" where
  "expected_text messageID chunkIndex hash =
     ''muninn/expected/v1'' @ [CHR 0x0A] @ messageID @ [CHR 0x0A] @ itoa chunkIndex @ [CHR 0x0A] @ hash"

definition pending_envelope ::
    "codec \<Rightarrow> crypto_lib \<Rightarrow> string \<Rightarrow> int \<Rightarrow> int \<Rightarrow> bool \<Rightarrow> Messenger \<Rightarrow> Envelope \<Rightarrow> PendingChunk go" where
  "pending_envelope c L recipient created ttl persist m envelope =
     (let data = enc_envelope c envelope; hash = RegisteredHash L data in
      case Sign L (k_sign_private (ms_keys m)) (bytes_of (expected_text (env_message envelope) (env_index envelope) hash)) of
        Err e \<Rightarrow> Err e
      | Panic e \<Rightarrow> Panic e
      | Ret sig \<Rightarrow> Ret \<lparr>pc_file = env_message envelope, pc_index = env_index envelope, pc_recipient = recipient,
          pc_sender = ms_key m, pc_data = data, pc_hash = hash, pc_sig = EncodeKey sig, pc_created = created,
          pc_placed = False, pc_ttl = ttl, pc_persist = persist\<rparr>)"

definition pendingEnvelopes ::
    "codec \<Rightarrow> crypto_lib \<Rightarrow> string \<Rightarrow> int \<Rightarrow> int \<Rightarrow> bool \<Rightarrow> Messenger \<Rightarrow> Envelope list \<Rightarrow> PendingChunk list go" where
  "pendingEnvelopes c L recipient created ttl persist m envelopes =
     go_map (pending_envelope c L recipient created ttl persist m) envelopes"


definition prepareFileChunks ::
    "codec \<Rightarrow> crypto_lib \<Rightarrow> net \<Rightarrow> nat \<Rightarrow> string \<Rightarrow> int \<Rightarrow> int \<Rightarrow> Messenger \<Rightarrow> (FileMeta \<times> PendingChunk list) go" where
  "prepareFileChunks c L net j path created ttl m =
     (case ms_disk m path of
        None \<Rightarrow> Err ''cannot read attachment''
      | Some data \<Rightarrow>
         (case read_full 32 (n_random net j 0) of
            Err e \<Rightarrow> Err e
          | Panic e \<Rightarrow> Panic e
          | Ret key \<Rightarrow>
             (let id = n_uuid net j in
              case SplitAndEncryptFile L (\<lambda>i. n_random net j (Suc i)) id (ms_id m) data key (k_sign_private (ms_keys m)) of
                Err e \<Rightarrow> Err e
              | Panic e \<Rightarrow> Panic e
              | Ret envelopes \<Rightarrow>
                 (case pendingEnvelopes c L [] created ttl True m envelopes of
                    Err e \<Rightarrow> Err e
                  | Panic e \<Rightarrow> Panic e
                  | Ret chunks \<Rightarrow> Ret (\<lparr>f_id = id, f_hash = EncodeKey (lib_sha256 L data), f_key = EncodeKey key,
                      f_total = int (length chunks), f_name = Base path, f_path = path, f_source = []\<rparr>, chunks)))))"

text \<open>The attachments, numbered from 1; stream 0 of the random bytes and ids is the message's.\<close>

fun prepare_files ::
    "codec \<Rightarrow> crypto_lib \<Rightarrow> net \<Rightarrow> nat \<Rightarrow> string list \<Rightarrow> int \<Rightarrow> int \<Rightarrow> Messenger \<Rightarrow> (FileMeta list \<times> PendingChunk list) go" where
  "prepare_files c L net j [] created ttl m = Ret ([], [])"
| "prepare_files c L net j (path # paths) created ttl m =
     (case prepareFileChunks c L net j path created ttl m of
        Err e \<Rightarrow> Err e
      | Panic e \<Rightarrow> Panic e
      | Ret (meta, chunks) \<Rightarrow>
         (case prepare_files c L net (Suc j) paths created ttl m of
            Err e \<Rightarrow> Err e
          | Panic e \<Rightarrow> Panic e
          | Ret (metas, rest) \<Rightarrow> Ret (meta # metas, chunks @ rest)))"

definition group_peer :: "GroupChat \<Rightarrow> Peer" where
  "group_peer g = \<lparr>peer_id = g_uid g, peer_ids = [], peer_login = g_uid g, peer_enc = g_enc_public g,
     peer_sign = g_sign_public g, peer_seen = zero_time, peer_ttl = 0, peer_flag = [], peer_fake = True\<rparr>"

definition find_recipient :: "net \<Rightarrow> string \<Rightarrow> Messenger \<Rightarrow> Peer option \<times> Messenger" where
  "find_recipient net to m =
     (case findPeerByKey net to m of
        (Some p, m1) \<Rightarrow> (Some p, m1)
      | (None, m1) \<Rightarrow>
         (case store (GetGroupChat to) m1 of
            (Ret g, m2) \<Rightarrow> (Some (group_peer g), m2)
          | (_, m2) \<Rightarrow> (None, m2)))"

definition outgoing_chat :: "net \<Rightarrow> Peer \<Rightarrow> string \<Rightarrow> FileMeta list \<Rightarrow> Messenger \<Rightarrow> ChatMessage" where
  "outgoing_chat net peer txt files m =
     \<lparr>cm_from = ms_user m, cm_chat = (if peer_fake peer \<and> peer_id peer \<noteq> [] then peer_id peer else Key peer),
      cm_text = txt, cm_time = n_now net, cm_id = n_uuid net 0, cm_files = files\<rparr>"

definition seal_message ::
    "codec \<Rightarrow> crypto_lib \<Rightarrow> net \<Rightarrow> Peer \<Rightarrow> bytes \<Rightarrow> ChatMessage \<Rightarrow> int \<Rightarrow> Messenger \<Rightarrow> PendingChunk list go" where
  "seal_message c L net peer recipientKey msg ttl m =
     (let payload = enc_payload c \<lparr>mp_text = cm_text msg, mp_time = n_now net,
            mp_files = withoutLocalFilePaths (cm_files msg)\<rparr> in
      case SplitAndEncrypt L (n_random net 0) (cm_id msg) (ms_id m) (peer_id peer) payload recipientKey
             (k_sign_private (ms_keys m)) of
        Err e \<Rightarrow> Err (''encrypt message: '' @ e)
      | Panic e \<Rightarrow> Panic e
      | Ret envelopes \<Rightarrow> pendingEnvelopes c L (Key peer) (n_now net) ttl False m envelopes)"

definition prepareOutgoing ::
    "codec \<Rightarrow> crypto_lib \<Rightarrow> net \<Rightarrow> string \<Rightarrow> string \<Rightarrow> string list \<Rightarrow> int \<Rightarrow> Messenger \<Rightarrow> outgoingMessage go \<times> Messenger" where
  "prepareOutgoing c L net to txt filePaths ttl m =
     (if ms_closed m then (Err ''context canceled'', m)
      else (let ttl = (if ttl \<le> 0 then ChunkTTLSeconds ''1w'' else ttl) in
        case find_recipient net to m of
          (None, m1) \<Rightarrow> (Err ''recipient not found'', m1)
        | (Some peer, m1) \<Rightarrow>
           (case DecodeKey (peer_enc peer) of
              Panic e \<Rightarrow> (Panic e, m1)
            | Err e \<Rightarrow> (Err ''invalid recipient encryption key'', m1)
            | Ret recipientKey \<Rightarrow>
               (case prepare_files c L net 1 filePaths (n_now net) ttl m1 of
                  Err e \<Rightarrow> (Err e, m1)
                | Panic e \<Rightarrow> (Panic e, m1)
                | Ret (files, fileChunks) \<Rightarrow>
                   (let msg = outgoing_chat net peer txt files m1 in
                    case seal_message c L net peer recipientKey msg ttl m1 of
                      Err e \<Rightarrow> (Err e, m1)
                    | Panic e \<Rightarrow> (Panic e, m1)
                    | Ret chunks \<Rightarrow>
                       (case store (QueueOutgoing (n_now net) (cm_id msg) (Key peer) (ms_user m1) (cm_chat msg) (enc_msg c msg)
                               (n_now net) (fileChunks @ chunks)) m1 of
                          (Err e, m2) \<Rightarrow> (Err (''queue outgoing message: '' @ e), m2)
                        | (Panic e, m2) \<Rightarrow> (Panic e, m2)
                        | (Ret _, m2) \<Rightarrow>
                           (Ret \<lparr>og_message = msg, og_peer = peer, og_chunks = fileChunks @ chunks\<rparr>,
                            notify (MessageEvent msg) m2)))))))"

text \<open>\<open>SendMessage\<close> answers once the message is queued; its delivery is a job, or left to the loop.\<close>

definition SendMessage ::
    "codec \<Rightarrow> crypto_lib \<Rightarrow> net \<Rightarrow> string \<Rightarrow> string \<Rightarrow> string list \<Rightarrow> int \<Rightarrow> Messenger \<Rightarrow> unit go \<times> Messenger" where
  "SendMessage c L net to txt filePaths ttl m =
     (case prepareOutgoing c L net to txt filePaths ttl m of
        (Ret og, m1) \<Rightarrow> (Ret (), snd (trySubmit (Deliver (og_message og) (og_peer og) (og_chunks og)) m1))
      | (Err e, m1) \<Rightarrow> (Err e, m1)
      | (Panic e, m1) \<Rightarrow> (Panic e, m1))"

section \<open>Handing the blocks on\<close>

text \<open>The ceiling is exact here; the code takes it of a 64-bit float.\<close>

definition remainingChunkTTL :: "int \<Rightarrow> PendingChunk \<Rightarrow> int" where
  "remainingChunkTTL now c = - ((now - (pc_created c + seconds (pc_ttl c))) div 1000000000)"

definition advertised :: "int \<Rightarrow> string \<Rightarrow> ChunkRecord list \<Rightarrow> int \<Rightarrow> string" where
  "advertised now peerID records i =
     (case find (\<lambda>r. cr_index r = i)
         (rev (filter (\<lambda>r. cr_peer r = peerID \<and> (cr_ttl r \<le> 0 \<or> now < cr_created r + cr_ttl r)) records)) of
        None \<Rightarrow> [] | Some r \<Rightarrow> cr_hash r)"

definition registerChunkLocation :: "net \<Rightarrow> string \<Rightarrow> string \<Rightarrow> PendingChunk list \<Rightarrow> Messenger \<Rightarrow> bool \<times> Messenger" where
  "registerChunkLocation net fileID peerID chunks m =
     (let records = (case n_records net fileID of None \<Rightarrow> [] | Some rs \<Rightarrow> rs);
          missing = map (\<lambda>c. \<lparr>be_index = pc_index c, be_sender = pc_sender c, be_recipient = pc_recipient c, be_hash = pc_hash c,
              be_sig = pc_sig c, be_peer = peerID, be_persist = pc_persist c, be_ttl = remainingChunkTTL (n_now net) c\<rparr>)
            (filter (\<lambda>c. 0 < remainingChunkTTL (n_now net) c
                \<and> advertised (unix (n_now net)) peerID records (pc_index c) \<noteq> pc_hash c) chunks)
      in if missing = [] then (True, m)
         else (n_place net fileID missing, m\<lparr>ms_adverts := ms_adverts m @ [(fileID, missing)]\<rparr>))"

definition chunkDeliveryBatchSize :: nat where
  "chunkDeliveryBatchSize = 16"

definition store_request :: "int \<Rightarrow> PendingChunk \<Rightarrow> ChunkStoreRequest" where
  "store_request now c = \<lparr>cs_file = pc_file c, cs_index = pc_index c, cs_data = pc_data c, cs_sender = pc_sender c,
     cs_recipient = pc_recipient c, cs_hash = pc_hash c, cs_sig = pc_sig c, cs_ttl = remainingChunkTTL now c\<rparr>"

definition mark_placed :: "PendingChunk \<Rightarrow> Messenger \<Rightarrow> Messenger" where
  "mark_placed c m = snd (store (MarkChunkPlaced (pc_file c) (pc_index c)) m)"

definition place_batch :: "net \<Rightarrow> string \<Rightarrow> string \<Rightarrow> PendingChunk list \<Rightarrow> nat \<Rightarrow> Messenger \<Rightarrow> Messenger" where
  "place_batch net peerID fileID parts i m =
     (let live = filter (\<lambda>c. 0 < remainingChunkTTL (n_now net) c) (block chunkDeliveryBatchSize parts i) in
      if live = [] then m
      else (case n_confirm net peerID fileID i of (request, arrivals, race, ended) \<Rightarrow>
        case rtc (SendChunkStoreBatchConfirmed request arrivals race ended peerID
            \<lparr>cb_request = [], cb_chunks = map (store_request (n_now net)) live\<rparr>) m of
          (Ret _, m1) \<Rightarrow> fold mark_placed live m1
        | (_, m1) \<Rightarrow> m1))"

definition place_file :: "net \<Rightarrow> string \<Rightarrow> string \<times> PendingChunk list \<Rightarrow> Messenger \<Rightarrow> Messenger" where
  "place_file net peerID entry m =
     (case entry of (fileID, parts) \<Rightarrow>
        case registerChunkLocation net fileID peerID parts m of (ok, m1) \<Rightarrow>
          if ok then fold (place_batch net peerID fileID parts) [0..<block_count chunkDeliveryBatchSize parts] m1 else m1)"

definition reach :: "net \<Rightarrow> string \<Rightarrow> Messenger \<Rightarrow> bool \<times> Messenger" where
  "reach net peerID m =
     (if IsPeerConnected m peerID then (True, m)
      else (case ConnectPeer net peerID m of
          (Ret _, m1) \<Rightarrow> waitForPeerConnection net peerID m1
        | (_, m1) \<Rightarrow> (False, m1)))"

fun place_peers :: "net \<Rightarrow> string \<Rightarrow> (string \<times> PendingChunk list) list \<Rightarrow> Peer list \<Rightarrow> Messenger \<Rightarrow> Messenger" where
  "place_peers net recipient byFile [] m = m"
| "place_peers net recipient byFile (peer # peers) m =
     (if ms_closed m then m
      else if peer_id peer = ms_id m \<or> peer_fake peer \<or> Key peer = recipient then place_peers net recipient byFile peers m
      else (case reach net (peer_id peer) m of (ok, m1) \<Rightarrow>
        place_peers net recipient byFile peers (if ok then fold (place_file net (peer_id peer)) byFile m1 else m1)))"

definition group_by :: "('a \<Rightarrow> 'k) \<Rightarrow> 'a list \<Rightarrow> ('k \<times> 'a list) list" where
  "group_by f xs = map (\<lambda>k. (k, filter (\<lambda>x. f x = k) xs)) (remdups (map f xs))"

definition candidates :: "net \<Rightarrow> string \<Rightarrow> Messenger \<Rightarrow> Peer list" where
  "candidates net recipient m =
     (case (if recipient = [] then n_thick net else n_best net) of
        None \<Rightarrow> getOnlinePeers (n_now net) m | Some peers \<Rightarrow> peers)"

definition distributeChunksForRecipient :: "net \<Rightarrow> string \<times> PendingChunk list \<Rightarrow> Messenger \<Rightarrow> Messenger" where
  "distributeChunksForRecipient net entry m =
     (case entry of (recipient, chunks) \<Rightarrow>
        let byFile = group_by pc_file chunks;
            m1 = fold (\<lambda>(fileID, parts) m. snd (registerChunkLocation net fileID (ms_id m) parts m)) byFile m
        in place_peers net recipient byFile (candidates net recipient m1) m1)"

text \<open>\<open>deliveryMu.TryLock\<close>: one delivery at a time; the others leave their blocks in the store.\<close>

definition distributeChunks :: "net \<Rightarrow> PendingChunk list \<Rightarrow> Messenger \<Rightarrow> Messenger" where
  "distributeChunks net chunks m =
     (if ms_delivering m then m
      else (let byRecipient = group_by pc_recipient (filter (\<lambda>c. 0 < remainingChunkTTL (n_now net) c) chunks);
                m1 = fold (\<lambda>entry m. if ms_closed m then m else distributeChunksForRecipient net entry m) byRecipient
                       (m\<lparr>ms_delivering := True\<rparr>)
            in m1\<lparr>ms_delivering := False\<rparr>))"

definition distributePendingChunks :: "net \<Rightarrow> Messenger \<Rightarrow> Messenger" where
  "distributePendingChunks net m =
     (case store GetUnplacedChunks m of
        (Ret chunks, m1) \<Rightarrow> distributeChunks net chunks m1
      | (_, m1) \<Rightarrow> m1)"

definition send_direct :: "net \<Rightarrow> Peer \<Rightarrow> ChatMessage \<Rightarrow> Messenger \<Rightarrow> Messenger" where
  "send_direct net peer msg m =
     (if peer_id peer \<noteq> [] \<and> \<not> peer_fake peer \<and> cm_files msg = [] then
        (let m1 = snd (reach net (peer_id peer) m) in
         if IsPeerConnected m1 (peer_id peer)
         then snd (rtc (RtcSendMessage (peer_id peer) (cm_text msg) (cm_time msg) (cm_id msg)) m1) else m1)
      else m)"

definition deliverOutgoing :: "net \<Rightarrow> outgoingMessage \<Rightarrow> Messenger \<Rightarrow> Messenger" where
  "deliverOutgoing net og m = distributeChunks net (og_chunks og) (send_direct net (og_peer og) (og_message og) m)"

definition SendMessageSync ::
    "codec \<Rightarrow> crypto_lib \<Rightarrow> net \<Rightarrow> string \<Rightarrow> string \<Rightarrow> string list \<Rightarrow> int \<Rightarrow> Messenger \<Rightarrow> unit go \<times> Messenger" where
  "SendMessageSync c L net to txt filePaths ttl m =
     (case prepareOutgoing c L net to txt filePaths ttl m of
        (Ret og, m1) \<Rightarrow> (Ret (), deliverOutgoing net og m1)
      | (Err e, m1) \<Rightarrow> (Err e, m1)
      | (Panic e, m1) \<Rightarrow> (Panic e, m1))"

end
