(* ===== verification/GroupChats.thy ===== *)
theory GroupChats
  imports Delivery
begin

text \<open>
  \<open>internal/messenger/groups.go\<close>: a group is a pair of key pairs that its members share. It is
  made with fresh keys, handed on in the text of a message, taken over from such a text when
  its id is not taken yet, and registered at Muninn as a peer that is not a device.
\<close>

definition invitePrefix :: string where
  "invitePrefix = ''__group_invite__:''"

definition parseInvitePayload :: "codec \<Rightarrow> string \<Rightarrow> groupInvitePayload option" where
  "parseInvitePayload c txt = dec_invite c (TrimPrefix txt invitePrefix)"

definition invited_group :: "int \<Rightarrow> groupInvitePayload \<Rightarrow> GroupChat" where
  "invited_group now invite = \<lparr>g_uid = gi_uid invite, g_name = gi_name invite, g_enc_private = gi_enc_private invite,
     g_enc_public = gi_enc_public invite, g_sign_private = gi_sign_private invite, g_sign_public = gi_sign_public invite,
     g_created = now\<rparr>"

text \<open>A failure to look the group up counts as its absence, and one to save it is only logged.\<close>

definition checkInviteText :: "codec \<Rightarrow> net \<Rightarrow> string \<Rightarrow> Messenger \<Rightarrow> string \<times> Messenger" where
  "checkInviteText c net txt m =
     (if \<not> HasPrefix txt invitePrefix then (txt, m)
      else (case parseInvitePayload c txt of
          None \<Rightarrow> (txt, m)
        | Some invite \<Rightarrow>
            (''You were invited to group chat: '' @ gi_name invite,
             case store (GetGroupChat (gi_uid invite)) m of
               (Ret _, m1) \<Rightarrow> m1
             | (_, m1) \<Rightarrow> snd (store (StoreCreateGroupChat (invited_group (n_now net) invite)) m1))))"

definition CreateGroupChat :: "crypto_lib \<Rightarrow> net \<Rightarrow> string \<Rightarrow> Messenger \<Rightarrow> GroupChat go \<times> Messenger" where
  "CreateGroupChat L net name m =
     (case store (GetGroupChatByName name) m of
        (Ret _, m1) \<Rightarrow> (Err ''group chat already exists'', m1)
      | (_, m1) \<Rightarrow>
         (case GenerateSigningKey L (n_random net 0 0) of
            Err e \<Rightarrow> (Err (''generate group signing key: '' @ e), m1)
          | Panic e \<Rightarrow> (Panic e, m1)
          | Ret (signPub, signPriv) \<Rightarrow>
             (case GenerateEncryptionKey L (n_random net 0 1) of
                Err e \<Rightarrow> (Err (''generate group enc key: '' @ e), m1)
              | Panic e \<Rightarrow> (Panic e, m1)
              | Ret (encPriv, encPub) \<Rightarrow>
                 (let uid = n_uuid net 0;
                      gc = \<lparr>g_uid = uid, g_name = name, g_enc_private = EncodeKey encPriv, g_enc_public = EncodeKey encPub,
                        g_sign_private = EncodeKey signPriv, g_sign_public = EncodeKey signPub, g_created = n_now net\<rparr>
                  in case store (StoreCreateGroupChat gc) m1 of
                       (Err e, m2) \<Rightarrow> (Err (''save group chat: '' @ e), m2)
                     | (Panic e, m2) \<Rightarrow> (Panic e, m2)
                     | (Ret _, m2) \<Rightarrow>
                         (Ret gc, upsertPeer uid (uid @ '':'' @ g_sign_public gc) name (g_enc_public gc) (g_sign_public gc)
                            (n_now net) 86400 True m2)))))"

definition groupPeerTTLSeconds :: int where
  "groupPeerTTLSeconds = 24 * 60 * 60"

definition group_request :: "GroupChat \<Rightarrow> RegisterRequest" where
  "group_request gc = \<lparr>rq_id = g_uid gc, rq_login = g_uid gc, rq_enc = g_enc_public gc, rq_sign = g_sign_public gc,
     rq_ttl = groupPeerTTLSeconds, rq_flag = ''very_thick'', rq_fake = True\<rparr>"

definition send_registration :: "RegisterRequest \<Rightarrow> Messenger \<Rightarrow> Messenger" where
  "send_registration req m = m\<lparr>ms_registrations := ms_registrations m @ [req]\<rparr>"

text \<open>Whether Muninn takes the registration only shows in the log.\<close>

definition registerGroupPeer :: "GroupChat \<Rightarrow> Messenger \<Rightarrow> Messenger" where
  "registerGroupPeer gc m = send_registration (group_request gc) m"

definition registerStoredGroupPeers :: "Messenger \<Rightarrow> Messenger" where
  "registerStoredGroupPeers m =
     (case store GetGroupChats m of
        (Ret groups, m1) \<Rightarrow> fold registerGroupPeer groups m1
      | (_, m1) \<Rightarrow> m1)"

definition invitation :: "GroupChat \<Rightarrow> groupInvitePayload" where
  "invitation gc = \<lparr>gi_uid = g_uid gc, gi_name = g_name gc, gi_enc_private = g_enc_private gc,
     gi_enc_public = g_enc_public gc, gi_sign_private = g_sign_private gc, gi_sign_public = g_sign_public gc\<rparr>"

definition InviteToGroupChat ::
    "codec \<Rightarrow> crypto_lib \<Rightarrow> net \<Rightarrow> string \<Rightarrow> string \<Rightarrow> Messenger \<Rightarrow> unit go \<times> Messenger" where
  "InviteToGroupChat c L net groupUID memberID m =
     (case store (GetGroupChat groupUID) m of
        (Err e, m1) \<Rightarrow> (Err (''group not found: '' @ e), m1)
      | (Panic e, m1) \<Rightarrow> (Panic e, m1)
      | (Ret gc, m1) \<Rightarrow> SendMessage c L net memberID (invitePrefix @ enc_invite c (invitation gc)) [] 604800 m1)"

end
