(* ===== verification/Downloads.thy ===== *)
theory Downloads
  imports Fetch
begin

text \<open>
  \<open>internal/messenger/downloads.go\<close> and the file part of \<open>messenger.go\<close>: a file named by a
  message is tracked, its missing blocks are asked for, and once all are there it is assembled,
  checked, written and reported. A download can be cancelled at any moment; writing the file is
  done outside the lock that cancelling takes.

  The files are \<open>ms_disk\<close>. A context is a number, kept in \<open>ms_downloads\<close> while it is registered
  and put into \<open>ms_cancelled\<close> when it is cancelled.
\<close>

definition fileDownloadTTL :: int where
  "fileDownloadTTL = 7 * 24 * 3600 * 1000000000"

section \<open>Contexts\<close>

definition removePendingFileDownload :: "string \<Rightarrow> Messenger \<Rightarrow> Messenger" where
  "removePendingFileDownload fileID m = m\<lparr>ms_pending := (ms_pending m)(fileID := None)\<rparr>"

definition endFileDownload :: "string \<Rightarrow> Messenger \<Rightarrow> Messenger" where
  "endFileDownload fileID m =
     (case ms_downloads m fileID of
        None \<Rightarrow> m
      | Some ref \<Rightarrow> m\<lparr>ms_cancelled := insert ref (ms_cancelled m), ms_downloads := (ms_downloads m)(fileID := None)\<rparr>)"

definition cancelDownload :: "net \<Rightarrow> string \<Rightarrow> Messenger \<Rightarrow> unit go \<times> Messenger" where
  "cancelDownload net fileID m =
     (case store (CancelFileDownload fileID (n_now net)) m of
        (Ret _, m1) \<Rightarrow> (Ret (), removePendingFileDownload fileID (endFileDownload fileID m1))
      | (e, m1) \<Rightarrow> (e, m1))"

definition beginFileDownload :: "string \<Rightarrow> Messenger \<Rightarrow> nat go \<times> Messenger" where
  "beginFileDownload fileID m =
     (case store (GetFileDownload fileID) m of
        (Err e, m1) \<Rightarrow> (Err e, m1)
      | (Panic e, m1) \<Rightarrow> (Panic e, m1)
      | (Ret state, m1) \<Rightarrow>
         if fds_cancelled state \<noteq> None then (Err ErrDownloadNotActive, m1)
         else (case ms_downloads m1 fileID of
             Some ref \<Rightarrow> (Ret ref, m1)
           | None \<Rightarrow> (Ret (ms_next m1), m1\<lparr>ms_downloads := (ms_downloads m1)(fileID \<mapsto> ms_next m1),
                                        ms_next := Suc (ms_next m1)\<rparr>)))"

definition GetFileDownloads :: "net \<Rightarrow> Messenger \<Rightarrow> FileDownloadProgress list go \<times> Messenger" where
  "GetFileDownloads net m = store (ListActiveFileDownloads (n_now net)) m"

text \<open>
  \<open>completeFileDownload\<close>: the data go to a temporary file, the lock is taken, and the file is
  renamed into place. What others do in between is \<open>during\<close>. The temporary file has a random name and is
  removed by every return that does not rename it; it is not part of \<open>ms_disk\<close>.
\<close>

definition completeFileDownload ::
    "net \<Rightarrow> (Messenger \<Rightarrow> Messenger) \<Rightarrow> nat \<Rightarrow> string \<Rightarrow> string \<Rightarrow> bytes \<Rightarrow> Messenger \<Rightarrow> unit go \<times> Messenger" where
  "completeFileDownload net during ctx fileID path data m =
     (if ctx_done (Some ctx) m then (Err ''context canceled'', m)
      else if \<not> n_temp net then (Err ''write'', m)
      else (let m1 = during m in
        if ctx_done (Some ctx) m1 then (Err ''context canceled'', m1)
        else (case store (GetFileDownload fileID) m1 of
            (Err e, m2) \<Rightarrow> (Err e, m2)
          | (Panic e, m2) \<Rightarrow> (Panic e, m2)
          | (Ret state, m2) \<Rightarrow>
             if fds_cancelled state \<noteq> None then (Err ErrDownloadNotActive, m2)
             else if \<not> n_rename net then (Err ''rename'', m2)
             else store (MarkFileDownloadCompleted fileID path (n_now net)) (m2\<lparr>ms_disk := (ms_disk m2)(path \<mapsto> data)\<rparr>))))"

section \<open>Before the download\<close>

definition b64_digest :: "crypto_lib \<Rightarrow> bytes \<Rightarrow> string" where
  "b64_digest L data = b64_encode (lib_sha256 L data)"

definition fileMatchesMeta :: "crypto_lib \<Rightarrow> (string \<Rightarrow> bytes option) \<Rightarrow> string \<Rightarrow> string \<Rightarrow> bool \<Rightarrow> bool" where
  "fileMatchesMeta L disk path expectedHash requireHash =
     (if path = [] \<or> requireHash \<and> expectedHash = [] then False
      else (case disk path of
          None \<Rightarrow> False
        | Some data \<Rightarrow> expectedHash = [] \<or> b64_digest L data = expectedHash))"

definition notifyFileReady :: "FileMeta \<Rightarrow> string \<Rightarrow> string \<Rightarrow> Messenger \<Rightarrow> Messenger" where
  "notifyFileReady f path senderID m = notify (FileReady
     \<lparr>fe_file = f_id f, fe_path = path, fe_name = f_name f, fe_sender = senderID\<rparr>) m"

text \<open>The file name the sender chose is joined to the directory as it is.\<close>

definition output_path :: "Messenger \<Rightarrow> FileMeta \<Rightarrow> string" where
  "output_path m f = Join [ms_dir m, if f_name f = [] then f_id f else f_name f]"

definition find_local ::
    "crypto_lib \<Rightarrow> net \<Rightarrow> FileMeta \<Rightarrow> string \<Rightarrow> FileDownloadState \<Rightarrow> Messenger \<Rightarrow> (FileDownloadState \<times> bool) \<times> Messenger" where
  "find_local L net f senderID state m =
     (let candidate = output_path m f in
      if fileMatchesMeta L (ms_disk m) candidate (f_hash f) True then
        (case store (MarkFileDownloadCompleted (f_id f) candidate (n_now net)) m of
           (Ret _, m1) \<Rightarrow>
             ((state\<lparr>fds_completed := Some (n_now net), fds_path := candidate\<rparr>, False),
              notifyFileReady f candidate senderID (removePendingFileDownload (f_id f) m1))
         | (_, m1) \<Rightarrow> ((state, False), m1))
      else if fds_stopped state \<noteq> None then ((state, False), removePendingFileDownload (f_id f) m)
      else ((state, True), m))"

definition no_state :: FileDownloadState where
  "no_state = \<lparr>fds_file = [], fds_first = 0, fds_expires = 0, fds_completed = None, fds_stopped = None,
     fds_cancelled = None, fds_path = []\<rparr>"

definition prepareFileDownload ::
    "crypto_lib \<Rightarrow> net \<Rightarrow> FileMeta \<Rightarrow> string \<Rightarrow> Messenger \<Rightarrow> (FileDownloadState \<times> bool) \<times> Messenger" where
  "prepareFileDownload L net f senderID m =
     (case store (TrackFileDownload (f_id f) (f_name f) (f_total f) (n_now net) fileDownloadTTL) m of
        (Ret state, m1) \<Rightarrow>
          if fds_cancelled state \<noteq> None then ((state, False), removePendingFileDownload (f_id f) m1)
          else if fds_completed state \<noteq> None then
            (if fileMatchesMeta L (ms_disk m1) (fds_path state) (f_hash f) False
             then ((state, False), notifyFileReady f (fds_path state) senderID (removePendingFileDownload (f_id f) m1))
             else (case store (ResetFileDownloadCompletion (f_id f)) m1 of
                 (Ret _, m2) \<Rightarrow> find_local L net f senderID (state\<lparr>fds_completed := None, fds_path := []\<rparr>) m2
               | (_, m2) \<Rightarrow> ((state, False), m2)))
          else find_local L net f senderID state m1
      | (_, m1) \<Rightarrow> ((no_state, False), m1))"

section \<open>Assembling\<close>

definition tryProcessMsg :: "string \<Rightarrow> Messenger \<Rightarrow> bool \<times> Messenger" where
  "tryProcessMsg msgID m =
     (if msgID \<in> ms_processing m then (False, m) else (True, m\<lparr>ms_processing := insert msgID (ms_processing m)\<rparr>))"

definition releaseProcessMsg :: "string \<Rightarrow> Messenger \<Rightarrow> Messenger" where
  "releaseProcessMsg msgID m = m\<lparr>ms_processing := ms_processing m - {msgID}\<rparr>"

fun ask_missing :: "net \<Rightarrow> nat \<Rightarrow> FileMeta \<Rightarrow> string \<Rightarrow> string \<Rightarrow> (int \<times> bytes) list \<Rightarrow> int list \<Rightarrow> Messenger \<Rightarrow> Messenger" where
  "ask_missing net ctx f senderID preferredPeerID got [] m = m"
| "ask_missing net ctx f senderID preferredPeerID got (i # is) m =
     (if ctx_done (Some ctx) m then m
      else ask_missing net ctx f senderID preferredPeerID got is
        (if map_of got i = None then requestMissingChunkFromPeer net (Some ctx) (f_id f) i senderID preferredPeerID m
         else m))"

text \<open>The envelopes 1, 2, ... up to the number announced.\<close>

fun read_envelopes :: "codec \<Rightarrow> (int \<times> bytes) list \<Rightarrow> int list \<Rightarrow> Envelope list option" where
  "read_envelopes c got [] = Some []"
| "read_envelopes c got (i # is) =
     (case Option.bind (map_of got i) (dec_envelope c) of
        None \<Rightarrow> None
      | Some env \<Rightarrow> map_option (\<lambda>envs. env # envs) (read_envelopes c got is))"

text \<open>
  \<open>make([]chunk.Envelope, f.TotalChunks)\<close> panics for a negative length, and storing envelope 0
  into an empty slice panics as well.
\<close>

definition gather :: "codec \<Rightarrow> (int \<times> bytes) list \<Rightarrow> int \<Rightarrow> Envelope list go" where
  "gather c got n =
     (case Option.bind (map_of got 0) (dec_envelope c) of
        None \<Rightarrow> Err ''missing chunk 0''
      | Some env0 \<Rightarrow>
         if n < 0 then Panic ''makeslice: len out of range''
         else if n = 0 then Panic ''index out of range''
         else (case read_envelopes c got [1..n - 1] of
             None \<Rightarrow> Err ''missing chunk''
           | Some envs \<Rightarrow> Ret (env0 # envs)))"

definition sender_sign_key :: "net \<Rightarrow> string \<Rightarrow> Messenger \<Rightarrow> bytes go \<times> Messenger" where
  "sender_sign_key net senderID m =
     (if senderID = ms_key m then (Ret (k_sign_public (ms_keys m)), m)
      else (case findPeerByKey net senderID m of
          (None, m1) \<Rightarrow> (Err ''sender not found'', m1)
        | (Some p, m1) \<Rightarrow> (DecodeKey (peer_sign p), m1)))"

definition open_file :: "crypto_lib \<Rightarrow> FileMeta \<Rightarrow> Envelope list \<Rightarrow> bytes \<Rightarrow> bytes go" where
  "open_file L f envelopes senderSignKey =
     (case DecodeKey (f_key f) of
        Err e \<Rightarrow> Err e
      | Panic e \<Rightarrow> Panic e
      | Ret aesKey \<Rightarrow>
         (case AssembleAndDecryptFile L envelopes aesKey senderSignKey of
            Err e \<Rightarrow> Err e
          | Panic e \<Rightarrow> Panic e
          | Ret plaintext \<Rightarrow>
             if b64_digest L plaintext \<noteq> f_hash f then Err ''hash mismatch'' else Ret plaintext))"

text \<open>What is done with the blocks once all are there.\<close>

definition save_file ::
    "codec \<Rightarrow> crypto_lib \<Rightarrow> net \<Rightarrow> (Messenger \<Rightarrow> Messenger) \<Rightarrow> nat \<Rightarrow> FileMeta \<Rightarrow> string \<Rightarrow> (int \<times> bytes) list
      \<Rightarrow> Messenger \<Rightarrow> unit go \<times> Messenger" where
  "save_file c L net during ctx f senderID got m =
     (case gather c got (f_total f) of
        Err e \<Rightarrow> (Ret (), m)
      | Panic e \<Rightarrow> (Panic e, m)
      | Ret envelopes \<Rightarrow>
         if ctx_done (Some ctx) m \<and> 1 < f_total f then (Ret (), m)
         else (case sender_sign_key net senderID m of
             (Err e, m1) \<Rightarrow> (Ret (), m1)
           | (Panic e, m1) \<Rightarrow> (Panic e, m1)
           | (Ret key, m1) \<Rightarrow>
              (case open_file L f envelopes key of
                 Err e \<Rightarrow> (Ret (), m1)
               | Panic e \<Rightarrow> (Panic e, m1)
               | Ret plaintext \<Rightarrow>
                  (let fp = output_path m1 f in
                   case completeFileDownload net during ctx (f_id f) fp plaintext m1 of
                     (Ret _, m2) \<Rightarrow> (Ret (), notifyFileReady f fp senderID
                         (removePendingFileDownload (f_id f) (endFileDownload (f_id f) m2)))
                   | (Err e, m2) \<Rightarrow> (Ret (), m2)
                   | (Panic e, m2) \<Rightarrow> (Panic e, m2)))))"

text \<open>
  \<open>processReceivedFileFromPeer\<close>. A file whose time is up is given up; a shortage of blocks makes
  it pending and asks for the blocks that are missing; otherwise it is saved.
\<close>

definition advance_download ::
    "codec \<Rightarrow> crypto_lib \<Rightarrow> net \<Rightarrow> (Messenger \<Rightarrow> Messenger) \<Rightarrow> FileMeta \<Rightarrow> string \<Rightarrow> string \<Rightarrow> Messenger \<Rightarrow> unit go \<times> Messenger" where
  "advance_download c L net during f senderID preferredPeerID m =
     (case prepareFileDownload L net f senderID m of ((state, proceed), m1) \<Rightarrow>
        if \<not> proceed then (Ret (), endFileDownload (f_id f) m1)
        else (case beginFileDownload (f_id f) m1 of
            (Err e, m2) \<Rightarrow> (Ret (), m2)
          | (Panic e, m2) \<Rightarrow> (Panic e, m2)
          | (Ret ctx, m2) \<Rightarrow>
             (case store (ListChunks (f_id f)) m2 of
                (Err e, m3) \<Rightarrow> (Ret (), m3)
              | (Panic e, m3) \<Rightarrow> (Panic e, m3)
              | (Ret got, m3) \<Rightarrow>
                 if int (length got) < f_total f then
                   (if fds_stopped state \<noteq> None \<or> fds_expires state \<le> n_now net then
                      (let m4 = (if fds_stopped state = None then snd (store (MarkFileDownloadStopped (f_id f) (n_now net)) m3)
                                 else m3)
                       in (Ret (), endFileDownload (f_id f) (removePendingFileDownload (f_id f) m4)))
                    else if ctx_done (Some ctx) m3 then (Ret (), m3)
                    else (Ret (), ask_missing net ctx f senderID preferredPeerID got [0..f_total f - 1]
                       (m3\<lparr>ms_pending := (ms_pending m3)(f_id f \<mapsto>
                          \<lparr>pd_meta = f, pd_sender = senderID, pd_preferred = preferredPeerID\<rparr>)\<rparr>)))
                 else save_file c L net during ctx f senderID got m3)))"

definition processReceivedFileFromPeer ::
    "codec \<Rightarrow> crypto_lib \<Rightarrow> net \<Rightarrow> (Messenger \<Rightarrow> Messenger) \<Rightarrow> FileMeta \<Rightarrow> string \<Rightarrow> string \<Rightarrow> Messenger \<Rightarrow> unit go \<times> Messenger" where
  "processReceivedFileFromPeer c L net during f senderID preferredPeerID m =
     (case tryProcessMsg (''file:'' @ f_id f) m of (ok, m1) \<Rightarrow>
        if \<not> ok then (Ret (), m1)
        else (case advance_download c L net during f senderID preferredPeerID m1 of (r, m2) \<Rightarrow>
            (r, releaseProcessMsg (''file:'' @ f_id f) m2)))"

definition processReceivedFile ::
    "codec \<Rightarrow> crypto_lib \<Rightarrow> net \<Rightarrow> FileMeta \<Rightarrow> string \<Rightarrow> Messenger \<Rightarrow> unit go \<times> Messenger" where
  "processReceivedFile c L net f senderID m = processReceivedFileFromPeer c L net (\<lambda>m. m) f senderID [] m"

text \<open>
  \<open>checkPendingFileDownloads\<close> goes through the pending files as it found them, in an order
  Go leaves open, here \<open>fileIDs\<close>. \<open>resumeFileDownloads\<close> queues the files of the whole history.
\<close>

fun checkPendingFileDownloads ::
    "codec \<Rightarrow> crypto_lib \<Rightarrow> net \<Rightarrow> (Messenger \<Rightarrow> Messenger) \<Rightarrow> string list \<Rightarrow> Messenger \<Rightarrow> unit go \<times> Messenger" where
  "checkPendingFileDownloads c L net during [] m = (Ret (), m)"
| "checkPendingFileDownloads c L net during (fileID # fileIDs) m =
     (case ms_pending m fileID of
        None \<Rightarrow> checkPendingFileDownloads c L net during fileIDs m
      | Some pd \<Rightarrow>
         (case processReceivedFileFromPeer c L net during (pd_meta pd) (pd_sender pd) (pd_preferred pd) m of
            (Panic e, m1) \<Rightarrow> (Panic e, m1)
          | (_, m1) \<Rightarrow> checkPendingFileDownloads c L net during fileIDs m1))"

definition resumeFileDownloads :: "codec \<Rightarrow> Messenger \<Rightarrow> Messenger" where
  "resumeFileDownloads c m =
     (case store ExportReplicationSnapshot m of
        (Ret snapshot, m1) \<Rightarrow> queueFileDownloads c (rs_messages snapshot) [] (ms_user m1) m1
      | (_, m1) \<Rightarrow> m1)"

text \<open>The paths of downloaded files in a message of the history; \<open>os.Stat\<close> is a look at the disk.\<close>

definition restore_path :: "FileMeta \<Rightarrow> Messenger \<Rightarrow> FileMeta \<times> Messenger" where
  "restore_path f m =
     (if f_path f \<noteq> [] then (f, m)
      else (case store (GetFileDownload (f_id f)) m of
          (Ret state, m1) \<Rightarrow>
            if fds_completed state = None \<or> fds_path state = [] \<or> ms_disk m1 (fds_path state) = None then (f, m1)
            else (f\<lparr>f_path := fds_path state\<rparr>, m1)
        | (_, m1) \<Rightarrow> (f, m1)))"

fun restore_paths :: "FileMeta list \<Rightarrow> Messenger \<Rightarrow> FileMeta list \<times> Messenger" where
  "restore_paths [] m = ([], m)"
| "restore_paths (f # fs) m =
     (case restore_path f m of (f', m1) \<Rightarrow> (case restore_paths fs m1 of (fs', m2) \<Rightarrow> (f' # fs', m2)))"

definition restoreDownloadedFilePaths :: "ChatMessage \<Rightarrow> Messenger \<Rightarrow> ChatMessage \<times> Messenger" where
  "restoreDownloadedFilePaths msg m = (case restore_paths (cm_files msg) m of (fs, m1) \<Rightarrow> (msg\<lparr>cm_files := fs\<rparr>, m1))"

section \<open>What a download leaves alone\<close>

lemma aside_ask_missing [simp]: "aside m (ask_missing net ctx f s q got is m)"
proof (induction "is" arbitrary: m)
  case (Cons i "is")
  have "aside m (ask_missing net ctx f s q got is m')" if "aside m m'" for m' using that Cons aside_trans by blast
  then show ?case using Cons by simp
qed simp

lemma aside_sign_key: "sender_sign_key net s m = (r, m') \<Longrightarrow> aside m m'"
  by (auto simp: sender_sign_key_def split: if_splits prod.splits option.splits dest: aside_findPeerByKey)

lemma file_state [simp]:
  "ms_disk (removePendingFileDownload f m) = ms_disk m" "ms_disk (endFileDownload f m) = ms_disk m"
  "ms_disk (notifyFileReady x p s m) = ms_disk m" "ms_disk (releaseProcessMsg k m) = ms_disk m"
  "ms_dir (removePendingFileDownload f m) = ms_dir m" "ms_dir (endFileDownload f m) = ms_dir m"
  "ms_dir (notifyFileReady x p s m) = ms_dir m"
  "ms_store (removePendingFileDownload f m) = ms_store m" "ms_store (endFileDownload f m) = ms_store m"
  "ms_store (notifyFileReady x p s m) = ms_store m" "ms_store (releaseProcessMsg k m) = ms_store m"
  by (simp_all add: removePendingFileDownload_def endFileDownload_def notifyFileReady_def notify_def releaseProcessMsg_def
      split: option.split)

lemma store_disk: "store f m = (r, m') \<Longrightarrow> ms_disk m' = ms_disk m \<and> ms_dir m' = ms_dir m"
  by (auto dest!: store_result)

lemma find_local_disk: "find_local L net f s st m = (r, m') \<Longrightarrow> ms_disk m' = ms_disk m \<and> ms_dir m' = ms_dir m"
  by (auto simp: find_local_def Let_def split: if_splits prod.splits go.splits dest!: store_disk)

lemma prepare_disk: "prepareFileDownload L net f s m = (r, m') \<Longrightarrow> ms_disk m' = ms_disk m \<and> ms_dir m' = ms_dir m"
  by (auto simp: prepareFileDownload_def split: if_splits prod.splits go.splits dest!: store_disk find_local_disk)

lemma begin_disk: "beginFileDownload f m = (r, m') \<Longrightarrow> ms_disk m' = ms_disk m \<and> ms_dir m' = ms_dir m"
  by (auto simp: beginFileDownload_def split: if_splits prod.splits go.splits option.splits dest!: store_disk)

text \<open>A file is only touched by completing a download.\<close>

lemma complete_disk:
  assumes "completeFileDownload net during ctx fileID path data m = (r, m')" and "\<And>m. ms_disk (during m) = ms_disk m"
  shows "ms_disk m' = ms_disk m \<or> ms_disk m' = (ms_disk m)(path \<mapsto> data)"
  using assms(1)
  by (auto simp: completeFileDownload_def Let_def assms(2) split: if_splits prod.splits go.splits dest!: store_disk)

text \<open>Until the blocks are looked at, a download changes its own rows and its context, nothing else.\<close>

definition set_up :: "Messenger \<Rightarrow> Messenger \<Rightarrow> bool" where
  "set_up m m' \<longleftrightarrow> ms_disk m' = ms_disk m \<and> ms_dir m' = ms_dir m \<and> ms_key m' = ms_key m \<and> ms_keys m' = ms_keys m
     \<and> ms_peersMap m' = ms_peersMap m \<and> ms_rtc m' = ms_rtc m
     \<and> t_chunks (db_tables (ms_store m')) = t_chunks (db_tables (ms_store m))"

lemma set_up_refl [simp]: "set_up m m"
  by (simp add: set_up_def)

lemma set_up_trans [trans]: "set_up a b \<Longrightarrow> set_up b c \<Longrightarrow> set_up a c"
  by (simp add: set_up_def)

lemma set_up_simps [simp]:
  "set_up m (removePendingFileDownload f m') = set_up m m'" "set_up m (endFileDownload f m') = set_up m m'"
  "set_up m (notifyFileReady x p s m') = set_up m m'"
  "set_up m (m'\<lparr>ms_downloads := a\<rparr>) = set_up m m'" "set_up m (m'\<lparr>ms_next := n\<rparr>) = set_up m m'"
  "set_up m (m'\<lparr>ms_processing := ps\<rparr>) = set_up m m'"
  by (simp_all add: set_up_def removePendingFileDownload_def endFileDownload_def notifyFileReady_def notify_def split: option.split)

text \<open>The operations on the downloads keep whatever does not read their table.\<close>

lemma keeps_downloads:
  assumes I: "\<And>t x. I (t\<lparr>t_downloads := x\<rparr>) = I t"
  shows "keeps I (TrackFileDownload f n c at ttl)" "keeps I (MarkFileDownloadCompleted f p at)"
    "keeps I (ResetFileDownloadCompletion f)" "keeps I (GetFileDownload f)" "keeps I (ListChunks f)"
    "keeps I (MarkFileDownloadStopped f at)"
proof -
  have u: "keeps I (update_downloads P g)" for P g
    unfolding update_downloads_def by (rule keeps_sql) (auto simp: I)
  show "keeps I (TrackFileDownload f n c at ttl)"
    unfolding TrackFileDownload_def by (intro keeps_if keeps_err keeps_then keeps_GetFileDownload keeps_write) (simp add: I)
  show "keeps I (MarkFileDownloadCompleted f p at)"
    unfolding MarkFileDownloadCompleted_def by (intro keeps_then u keeps_if keeps_err keeps_ret)
  show "keeps I (ResetFileDownloadCompletion f)" "keeps I (MarkFileDownloadStopped f at)"
    unfolding ResetFileDownloadCompletion_def MarkFileDownloadStopped_def by (intro keeps_write, simp add: I)+
  show "keeps I (GetFileDownload f)" "keeps I (ListChunks f)"
    by (simp_all add: keeps_GetFileDownload ListChunks_def keeps_read)
qed

lemma set_up_store:
  assumes "store g m = (r, m')" "keeps (\<lambda>t. t_chunks t = t_chunks (db_tables (ms_store m))) g"
  shows "set_up m m'"
proof -
  obtain d where d: "g (ms_store m) = (r, d)" "m' = m\<lparr>ms_store := d\<rparr>" using store_result [OF assms(1)] by blast
  with keepsD [OF assms(2) d(1)] show ?thesis by (simp add: set_up_def)
qed

lemmas set_up_dl =
  set_up_store [OF _ keeps_downloads(1)] set_up_store [OF _ keeps_downloads(2)] set_up_store [OF _ keeps_downloads(3)]
  set_up_store [OF _ keeps_downloads(4)] set_up_store [OF _ keeps_downloads(5)]

lemma set_up_find_local: "find_local L net f s st m = (r, m') \<Longrightarrow> set_up m m'"
  by (auto simp: find_local_def Let_def split: if_splits prod.splits go.splits dest!: set_up_dl(2))

lemma set_up_prepare: "prepareFileDownload L net f s m = (r, m') \<Longrightarrow> set_up m m'"
  by (auto simp: prepareFileDownload_def split: if_splits prod.splits go.splits
      dest!: set_up_dl(1,3) set_up_find_local intro: set_up_trans)

lemma set_up_begin: "beginFileDownload f m = (r, m') \<Longrightarrow> set_up m m'"
  by (auto simp: beginFileDownload_def split: if_splits prod.splits go.splits option.splits dest!: set_up_dl(4))

text \<open>The blocks of a file the store holds.\<close>

definition blocks_of :: "string \<Rightarrow> Messenger \<Rightarrow> (int \<times> bytes) list" where
  "blocks_of fileID m = map (\<lambda>r. (c_index r, c_data r)) (filter (\<lambda>r. c_file r = fileID) (t_chunks (db_tables (ms_store m))))"

lemma ListChunks_blocks: "store (ListChunks fileID) m = (Ret got, m') \<Longrightarrow> got = blocks_of fileID m"
  by (auto simp: ListChunks_def blocks_of_def dest!: store_result sql_read_RetD)

lemma set_up_blocks: "set_up m m' \<Longrightarrow> blocks_of fileID m' = blocks_of fileID m"
  by (simp add: set_up_def blocks_of_def)

text \<open>The peers found at Muninn, and so the sender's key, depend on the peers known and the answers.\<close>

lemma upsert_map_cong:
  assumes "ms_peersMap a = ms_peersMap b"
  shows "ms_peersMap (upsertPeer i k l e s at ttl fake a) = ms_peersMap (upsertPeer i k l e s at ttl fake b)"
  using assms by (simp add: upsertPeer_def Let_def notify_def store_def split: option.split prod.split)

lemma fold_upsert_map_cong:
  "ms_peersMap a = ms_peersMap b \<Longrightarrow> ms_peersMap (fold upsert_found ps a) = ms_peersMap (fold upsert_found ps b)"
proof (induction ps arbitrary: a b)
  case (Cons p ps)
  have "ms_peersMap (upsert_found p a) = ms_peersMap (upsert_found p b)"
    unfolding upsert_found_def by (rule upsert_map_cong [OF Cons.prems])
  from Cons.IH [OF this] show ?case by simp
qed simp

lemma findPeerByKey_cong:
  "ms_peersMap a = ms_peersMap b \<Longrightarrow> fst (findPeerByKey net k a) = fst (findPeerByKey net k b)"
  using fold_upsert_map_cong [of a b] by (simp add: findPeerByKey_def Let_def split: option.split)

lemma sender_sign_key_cong:
  assumes "set_up a b"
  shows "fst (sender_sign_key net s b) = fst (sender_sign_key net s a)"
  using findPeerByKey_cong [of b a net s] assms
  by (auto simp: sender_sign_key_def set_up_def split: prod.split option.split)

text \<open>
  What makes a file genuine: the announced number of blocks is held, under the indices from 0 on;
  each is an envelope whose signature is the holder's of \<open>key\<close>; and the data are what these
  envelopes decrypt to under the announced key, and hash to what was announced.
\<close>

definition signed_under :: "crypto_lib \<Rightarrow> bytes \<Rightarrow> Envelope \<Rightarrow> bool" where
  "signed_under L key env \<longleftrightarrow>
     (\<exists>sig. b64_decode (env_sig env) = Some sig \<and> lib_verify L key (envelopeBytes env) sig)"

definition genuine :: "codec \<Rightarrow> crypto_lib \<Rightarrow> FileMeta \<Rightarrow> (int \<times> bytes) list \<Rightarrow> bytes \<Rightarrow> bytes \<Rightarrow> bool" where
  "genuine c L f got key data \<longleftrightarrow>
     (\<exists>envs aesKey chunks. envs \<noteq> [] \<and> int (length envs) = f_total f
        \<and> (\<forall>i < length envs. Option.bind (map_of got (int i)) (dec_envelope c) = Some (envs ! i)
             \<and> signed_under L key (envs ! i))
        \<and> b64_decode (f_key f) = Some aesKey \<and> go_map (open_envelope L aesKey) envs = Ret chunks
        \<and> data = join_chunks chunks \<and> b64_digest L data = f_hash f)"

lemma read_envelopes_nth:
  "read_envelopes c got is = Some envs \<Longrightarrow> length envs = length is
     \<and> (\<forall>j < length is. Option.bind (map_of got (is ! j)) (dec_envelope c) = Some (envs ! j))"
proof (induction "is" arbitrary: envs)
  case (Cons i "is")
  then obtain env es where "Option.bind (map_of got i) (dec_envelope c) = Some env" "read_envelopes c got is = Some es"
    "envs = env # es" by (auto split: option.splits)
  with Cons.IH [OF this(2)] show ?case by (auto simp: nth_Cons split: nat.split)
qed simp

lemma gather_Ret:
  assumes "gather c got n = Ret envs"
  shows "envs \<noteq> [] \<and> int (length envs) = n
    \<and> (\<forall>i < length envs. Option.bind (map_of got (int i)) (dec_envelope c) = Some (envs ! i))"
proof -
  obtain env0 es where e: "Option.bind (map_of got 0) (dec_envelope c) = Some env0" "0 < n"
    "read_envelopes c got [1..n - 1] = Some es" "envs = env0 # es"
    using assms by (auto simp: gather_def split: option.splits if_splits)
  from read_envelopes_nth [OF e(3)] e(2) have len: "int (length es) = n - 1"
    and all: "\<forall>j < length es. Option.bind (map_of got (1 + int j)) (dec_envelope c) = Some (es ! j)" by auto
  then show ?thesis using e by (auto simp: nth_Cons split: nat.split)
qed

lemma open_file_genuine:
  assumes "open_file L f envs key = Ret data" "gather c got (f_total f) = Ret envs"
  shows "genuine c L f got key data"
proof -
  obtain aesKey where k: "DecodeKey (f_key f) = Ret aesKey" "AssembleAndDecryptFile L envs aesKey key = Ret data"
    "b64_digest L data = f_hash f"
    using assms(1) by (auto simp: open_file_def split: go.splits if_splits)
  obtain chunks where "go_map (open_envelope L aesKey) envs = Ret chunks" "data = join_chunks chunks"
    using k(2) by (auto simp: AssembleAndDecryptFile_def split: go.splits if_splits)
  moreover have "\<forall>e \<in> set envs. signed_under L key e"
    using AssembleAndDecryptFile_verified [OF k(2)] by (simp add: verify_envelope_Ret signed_under_def)
  moreover have "b64_decode (f_key f) = Some aesKey" using k(1) by (simp add: DecodeKey_def split: option.splits)
  ultimately show ?thesis using gather_Ret [OF assms(2)] k(3) unfolding genuine_def by (metis nth_mem)
qed

lemma save_disk:
  assumes "save_file c L net during ctx f s got m = (r, m')" and "\<And>m. ms_disk (during m) = ms_disk m"
  shows "ms_disk m' = ms_disk m \<or> (\<exists>data key. ms_disk m' = (ms_disk m)(output_path m f \<mapsto> data)
     \<and> fst (sender_sign_key net s m) = Ret key \<and> genuine c L f got key data)"
proof (cases "gather c got (f_total f)")
  case (Ret envs)
  obtain k m1 where k: "sender_sign_key net s m = (k, m1)" by fastforce
  have a: "aside m m1" by (rule aside_sign_key [OF k])
  show ?thesis
  proof (cases "(ctx_done (Some ctx) m \<and> 1 < f_total f) \<or> (\<forall>key data. k = Ret key \<longrightarrow> open_file L f envs key \<noteq> Ret data)")
    case True
    then have "m' = m \<or> m' = m1" using assms(1) Ret k by (auto simp: save_file_def split: go.splits if_splits)
    then show ?thesis using a by (auto simp: aside_def)
  next
    case False
    then obtain key data where o: "k = Ret key" "open_file L f envs key = Ret data" by blast
    obtain r2 m2 where c: "completeFileDownload net during ctx (f_id f) (output_path m1 f) data m1 = (r2, m2)" by fastforce
    have "ms_disk m' = ms_disk m2" using assms(1) Ret k o c False by (auto simp: save_file_def Let_def split: go.splits if_splits)
    moreover have "output_path m1 f = output_path m f" "ms_disk m1 = ms_disk m" using a by (simp_all add: aside_def output_path_def)
    ultimately show ?thesis
      using complete_disk [OF c assms(2)] open_file_genuine [OF o(2) Ret] k o(1) by auto
  qed
qed (use assms(1) in \<open>auto simp: save_file_def\<close>)

lemma advance_download_disk:
  assumes run: "advance_download c L net during f s q m = (r, m')" and quiet: "\<And>m. ms_disk (during m) = ms_disk m"
  shows "ms_disk m' = ms_disk m \<or> (\<exists>data key. ms_disk m' = (ms_disk m)(output_path m f \<mapsto> data)
     \<and> fst (sender_sign_key net s m) = Ret key \<and> genuine c L f (blocks_of (f_id f) m) key data)"
proof -
  obtain st go m1 where p: "prepareFileDownload L net f s m = ((st, go), m1)" by (metis prod.collapse)
  note d1 = set_up_prepare [OF p]
  show ?thesis
  proof (cases go)
    case False
    then have "m' = endFileDownload (f_id f) m1" using run p by (simp add: advance_download_def)
    then show ?thesis using d1 by (simp add: set_up_def)
  next
    case True
    obtain b m2 where b: "beginFileDownload (f_id f) m1 = (b, m2)" by fastforce
    note d2 = set_up_trans [OF d1 set_up_begin [OF b]]
    show ?thesis
    proof (cases b)
      case (Ret ctx)
      obtain l m3 where l: "store (ListChunks (f_id f)) m2 = (l, m3)" by fastforce
      have d3: "set_up m m3" by (rule set_up_trans [OF d2]) (use l in \<open>auto dest!: set_up_dl(5)\<close>)
      have same: "ms_disk m3 = ms_disk m" "output_path m3 f = output_path m f"
        using d3 by (simp_all add: output_path_def set_up_def)
      show ?thesis
      proof (cases l)
        case got: (Ret got)
        show ?thesis
        proof (cases "int (length got) < f_total f")
          case True
          have "ms_disk (ask_missing net ctx f s q got is (m3\<lparr>ms_pending := x\<rparr>)) = ms_disk m3" for "is" x
            using aside_ask_missing [of "m3\<lparr>ms_pending := x\<rparr>" net ctx f s q got "is"] by (simp add: aside_def)
          moreover have "ms_disk (snd (store g m3)) = ms_disk m3" for g :: "unit dbop"
            using store_disk [OF prod.collapse [symmetric], of g m3] by blast
          ultimately show ?thesis
            using run p \<open>go\<close> b Ret l got True same(1)
            by (auto simp: advance_download_def Let_def split: if_splits)
        next
          case False
          then have "save_file c L net during ctx f s got m3 = (r, m')"
            using run p \<open>go\<close> b Ret l got by (simp add: advance_download_def)
          from save_disk [OF this quiet] sender_sign_key_cong [OF d3, of net s]
            ListChunks_blocks [OF l [unfolded got]] set_up_blocks [OF d2, of "f_id f"]
          show ?thesis unfolding same by auto
        qed
      qed (use run p True b Ret l same in \<open>auto simp: advance_download_def\<close>)
    qed (use run p True b d2 in \<open>auto simp: advance_download_def set_up_def\<close>)
  qed
qed

text \<open>
  C19. What is written is what was sent: if processing a received file changes the disk at all,
  it writes one file, at the path of that download. The store then held a block under each of the
  announced indices, each an envelope that carries a valid signature of the sender's own signing
  key; what was written is what these envelopes decrypt to under the announced key, and hashes to
  the announced digest.
\<close>

theorem written_file_is_genuine:
  assumes "processReceivedFileFromPeer c L net during f senderID q m = (r, m')"
    and "\<And>m. ms_disk (during m) = ms_disk m"
  shows "ms_disk m' = ms_disk m \<or>
     (\<exists>data key. ms_disk m' = (ms_disk m)(output_path m f \<mapsto> data)
        \<and> fst (sender_sign_key net senderID m) = Ret key \<and> genuine c L f (blocks_of (f_id f) m) key data)"
proof (cases "''file:'' @ f_id f \<in> ms_processing m")
  case True
  then show ?thesis using assms(1) by (simp add: processReceivedFileFromPeer_def tryProcessMsg_def)
next
  case False
  let ?m = "m\<lparr>ms_processing := insert (''file:'' @ f_id f) (ms_processing m)\<rparr>"
  obtain r2 m2 where s: "advance_download c L net during f senderID q ?m = (r2, m2)" by fastforce
  have "m' = releaseProcessMsg (''file:'' @ f_id f) m2"
    using assms(1) False s by (simp add: processReceivedFileFromPeer_def tryProcessMsg_def)
  moreover have "output_path ?m f = output_path m f" by (simp add: output_path_def)
  moreover have "set_up m ?m" by simp
  ultimately show ?thesis
    using advance_download_disk [OF s assms(2)] sender_sign_key_cong [of m ?m net senderID] set_up_blocks [of m ?m "f_id f"]
    by simp
qed

lemma CancelFileDownload_row:
  assumes "CancelFileDownload fileID now d = (Ret (), d')" and wf: "wf_tables (db_tables d)"
  shows "\<exists>a b. tbl_find d_file (t_downloads (db_tables d)) fileID = Some a \<and> d_completed a = None
    \<and> tbl_find d_file (t_downloads (db_tables d')) fileID = Some b \<and> d_completed b = None \<and> d_cancelled b \<noteq> None"
proof -
  let ?P = "cancellable fileID" and ?f = "\<lambda>d. d\<lparr>d_cancelled := Some (unix now), d_stopped := Some (unix now)\<rparr>"
  obtain n d1 where u: "update_downloads ?P ?f d = (Ret n, d1)" "n \<noteq> 0" "db_tables d' = db_tables d1"
    using assms(1) unfolding CancelFileDownload_def
    by (auto elim!: db_then_RetD simp: db_err_def db_ret_def split: if_splits)
  have n: "n = length (filter ?P (t_downloads (db_tables d)))"
    using u(1) by (auto simp: update_downloads_def dest!: sql_RetD)
  have t: "t_downloads (db_tables d1) = tbl_update ?P ?f (t_downloads (db_tables d))"
    using update_downloads_tables [OF u(1)] by auto
  obtain a where a: "a \<in> set (t_downloads (db_tables d))" "?P a"
    using u(2) n by (metis filter_empty_conv list.size(3))
  then have "?f a \<in> set (t_downloads (db_tables d'))" "d_file (?f a) = fileID" "d_file a = fileID" "d_completed a = None"
    using t u(3) by (auto simp: tbl_update_def cancellable_def image_iff intro!: bexI [of _ a])
  moreover have "pk d_file (t_downloads (db_tables d'))" "pk d_file (t_downloads (db_tables d))"
    using keepsD [OF keeps_CancelFileDownload assms(1) wf] wf by (simp_all add: wf_tables_def)
  ultimately have "tbl_find d_file (t_downloads (db_tables d')) fileID = Some (?f a)"
      "tbl_find d_file (t_downloads (db_tables d)) fileID = Some a"
    using a(1) by (metis tbl_find_in)+
  then show ?thesis using \<open>d_completed a = None\<close> by simp
qed

lemma GetFileDownload_cancelled:
  assumes "tbl_find d_file (t_downloads (db_tables d)) fileID = Some b" "d_cancelled b \<noteq> None"
    and "GetFileDownload fileID d = (Ret st, d')"
  shows "fds_cancelled st \<noteq> None"
  using assms
  by (auto simp: GetFileDownload_def readFileDownloadState_def db_ret_def elim!: db_then_RetD dest!: sql_read_RetD)

lemma GetFileDownload_tables: "GetFileDownload fileID d = (r, d') \<Longrightarrow> db_tables d' = db_tables d"
  using keepsD [OF keeps_GetFileDownload [of "\<lambda>t. t = db_tables d"]] by blast

text \<open>The row of a download says that it was not completed.\<close>

definition not_completed :: "string \<Rightarrow> Messenger \<Rightarrow> bool" where
  "not_completed fileID m \<longleftrightarrow>
     (\<exists>b. tbl_find d_file (t_downloads (db_tables (ms_store m))) fileID = Some b \<and> d_completed b = None)"

lemma cancelled_complete:
  assumes "fst (cancelDownload net' fileID m) = Ret ()" and wf: "wf_tables (db_tables (ms_store m))"
    and run: "completeFileDownload net (\<lambda>m. snd (cancelDownload net' fileID m)) ctx fileID path data m = (r, m')"
  shows "r \<noteq> Ret () \<and> ms_disk m' = ms_disk m \<and> ms_events m' = ms_events m \<and> not_completed fileID m'"
proof -
  obtain m1 where c: "store (CancelFileDownload fileID (n_now net')) m = (Ret (), m1)"
    and m1: "snd (cancelDownload net' fileID m) = removePendingFileDownload fileID (endFileDownload fileID m1)"
    using assms(1) by (auto simp: cancelDownload_def split: prod.splits go.splits)
  let ?m = "snd (cancelDownload net' fileID m)"
  obtain d where d: "CancelFileDownload fileID (n_now net') (ms_store m) = (Ret (), d)" "m1 = m\<lparr>ms_store := d\<rparr>"
    using store_result [OF c] by blast
  have disk: "ms_disk ?m = ms_disk m" "ms_store ?m = d" "ms_events ?m = ms_events m"
    by (simp_all add: m1 d(2)) (simp_all add: removePendingFileDownload_def endFileDownload_def split: option.split)
  obtain a b where row: "tbl_find d_file (t_downloads (db_tables (ms_store m))) fileID = Some a" "d_completed a = None"
    "tbl_find d_file (t_downloads (db_tables d)) fileID = Some b" "d_completed b = None" "d_cancelled b \<noteq> None"
    using CancelFileDownload_row [OF d(1) wf] by blast
  then have nc: "not_completed fileID m" "not_completed fileID ?m" by (simp_all add: not_completed_def disk(2))
  show ?thesis
  proof (cases "ctx_done (Some ctx) m \<or> \<not> n_temp net \<or> ctx_done (Some ctx) ?m")
    case True
    then have "r \<noteq> Ret () \<and> (m' = m \<or> m' = ?m)" using run by (auto simp: completeFileDownload_def Let_def split: if_splits)
    then show ?thesis using disk nc by auto
  next
    case False
    obtain r2 e where g: "GetFileDownload fileID d = (r2, e)" by fastforce
    then have g': "store (GetFileDownload fileID) ?m = (r2, ?m\<lparr>ms_store := e\<rparr>)" using disk(2) by (simp add: store_def)
    have "not_completed fileID (?m\<lparr>ms_store := e\<rparr>)"
      using row GetFileDownload_tables [OF g] by (simp add: not_completed_def)
    moreover have "fds_cancelled st \<noteq> None" if "r2 = Ret st" for st
      using GetFileDownload_cancelled [OF row(3,5)] g that by blast
    then have "r \<noteq> Ret () \<and> m' = ?m\<lparr>ms_store := e\<rparr>"
      using run False g' by (cases r2) (auto simp: completeFileDownload_def Let_def)
    ultimately show ?thesis using disk by auto
  qed
qed

text \<open>
  C20. Cancelling wins the race: if a download is cancelled while its file is being written, the
  writing ends in an error. No file is put in place, nothing but a change of the peers
  is reported, and the download is not recorded as completed.
\<close>

theorem cancelled_while_writing:
  assumes "fst (cancelDownload net' (f_id f) (snd (sender_sign_key net s m))) = Ret ()"
    and "wf_tables (db_tables (ms_store (snd (sender_sign_key net s m))))"
    and "save_file c L net (\<lambda>m. snd (cancelDownload net' (f_id f) m)) ctx f s got m = (r, m')"
  shows "ms_disk m' = ms_disk m
    \<and> filter (\<lambda>e. e \<noteq> PeersChanged) (ms_events m') = filter (\<lambda>e. e \<noteq> PeersChanged) (ms_events m)
    \<and> not_completed (f_id f) m'
    \<and> (\<forall>path data. fst (completeFileDownload net (\<lambda>m. snd (cancelDownload net' (f_id f) m)) ctx (f_id f) path data
          (snd (sender_sign_key net s m))) \<noteq> Ret ())"
proof -
  obtain k m1 where k: "sender_sign_key net s m = (k, m1)" by fastforce
  let ?complete = "\<lambda>path data. completeFileDownload net (\<lambda>m. snd (cancelDownload net' (f_id f) m)) ctx (f_id f) path data m1"
  have cancel: "r2 \<noteq> Ret () \<and> ms_disk m2 = ms_disk m1 \<and> ms_events m2 = ms_events m1 \<and> not_completed (f_id f) m2"
    if "?complete path data = (r2, m2)" for path data r2 m2
    using assms(1,2) that unfolding k by (intro cancelled_complete) simp_all
  have a: "aside m m1" by (rule aside_sign_key [OF k])
  have m1: "not_completed (f_id f) m1"
  proof -
    obtain d where "CancelFileDownload (f_id f) (n_now net') (ms_store m1) = (Ret (), d)"
      using assms(1) unfolding k by (auto simp: cancelDownload_def split: prod.splits go.splits dest!: store_result)
    from CancelFileDownload_row [OF this] assms(2) show ?thesis unfolding k by (auto simp: not_completed_def)
  qed
  moreover have "not_completed (f_id f) m" using m1 a by (simp add: not_completed_def aside_def)
  moreover have "m' = m \<or> m' = m1 \<or> (\<exists>path data. m' = snd (?complete path data))"
    using assms(3) k cancel by (auto simp: save_file_def Let_def split: go.splits if_splits prod.splits; metis snd_conv)
  ultimately show ?thesis
    using a cancel [OF prod.collapse [symmetric]] k by (auto simp: aside_def)
qed

section \<open>A new file\<close>

definition new_file :: "FileMeta \<Rightarrow> Messenger \<Rightarrow> bool" where
  "new_file f m \<longleftrightarrow> db_faults (ms_store m) = [] \<and> f_id f \<noteq> []
     \<and> tbl_find d_file (t_downloads (db_tables (ms_store m))) (f_id f) = None \<and> ms_disk m (output_path m f) = None
     \<and> ''file:'' @ f_id f \<notin> ms_processing m \<and> ms_downloads m (f_id f) = None \<and> ms_next m \<notin> ms_cancelled m \<and> \<not> ms_closed m"

text \<open>The state in which the blocks of a new file are first looked at.\<close>

definition tracked :: "net \<Rightarrow> FileMeta \<Rightarrow> Messenger \<Rightarrow> Messenger" where
  "tracked net f m = m\<lparr>ms_processing := insert (''file:'' @ f_id f) (ms_processing m),
     ms_store := (ms_store m)\<lparr>db_tables := (db_tables (ms_store m))\<lparr>t_downloads := t_downloads (db_tables (ms_store m))
        @ [new_download (f_id f) (f_name f) (f_total f) (n_now net) fileDownloadTTL]\<rparr>\<rparr>,
     ms_downloads := (ms_downloads m)(f_id f \<mapsto> ms_next m), ms_next := Suc (ms_next m)\<rparr>"

definition new_state :: "net \<Rightarrow> FileMeta \<Rightarrow> FileDownloadState" where
  "new_state net f = \<lparr>fds_file = f_id f, fds_first = from_unix (unix (n_now net)),
     fds_expires = from_unix (unix (n_now net + fileDownloadTTL)), fds_completed = None, fds_stopped = None,
     fds_cancelled = None, fds_path = []\<rparr>"

lemma GetFileDownload_found:
  assumes "db_faults d = []" "tbl_find d_file (t_downloads (db_tables d)) fileID = Some b"
  shows "\<exists>st. GetFileDownload fileID d = (Ret st, d) \<and> fds_cancelled st = map_option from_unix (d_cancelled b)"
  using assms by (simp add: GetFileDownload_def db_then_def sql_read_ok readFileDownloadState_def db_ret_def)

lemma TrackFileDownload_new:
  assumes "db_faults d = []" "tbl_find d_file (t_downloads (db_tables d)) (f_id f) = None" "f_id f \<noteq> []"
  shows "TrackFileDownload (f_id f) (f_name f) (f_total f) (n_now net) fileDownloadTTL d
    = (Ret (new_state net f), d\<lparr>db_tables := (db_tables d)\<lparr>t_downloads := t_downloads (db_tables d)
        @ [new_download (f_id f) (f_name f) (f_total f) (n_now net) fileDownloadTTL]\<rparr>\<rparr>)"
proof -
  let ?r = "new_download (f_id f) (f_name f) (f_total f) (n_now net) fileDownloadTTL"
  have id: "d_file ?r = f_id f" by (simp add: new_download_def)
  have "tbl_upsert d_file retrack ?r (t_downloads (db_tables d)) = t_downloads (db_tables d) @ [?r]"
    using assms(2) id by (simp add: tbl_upsert_def tbl_has_find)
  moreover have "tbl_find d_file (t_downloads (db_tables d) @ [?r]) (f_id f) = Some ?r"
    using assms(2) id by (simp add: tbl_find_append tbl_find_Cons)
  ultimately show ?thesis
    using assms(1,3) by (simp add: TrackFileDownload_def fileDownloadTTL_def db_then_def sql_write_ok GetFileDownload_def
        sql_read_ok readFileDownloadState_def db_ret_def new_state_def new_download_def)
qed

lemma new_file_advances:
  assumes new: "new_file f m" and enough: "f_total f \<le> int (length (blocks_of (f_id f) m))"
  shows "processReceivedFileFromPeer c L net during f s q m =
     (case save_file c L net during (ms_next m) f s (blocks_of (f_id f) m) (tracked net f m) of (r, m') \<Rightarrow>
        (r, releaseProcessMsg (''file:'' @ f_id f) m'))"
proof -
  let ?m0 = "m\<lparr>ms_processing := insert (''file:'' @ f_id f) (ms_processing m)\<rparr>"
  let ?d = "(ms_store m)\<lparr>db_tables := (db_tables (ms_store m))\<lparr>t_downloads := t_downloads (db_tables (ms_store m))
        @ [new_download (f_id f) (f_name f) (f_total f) (n_now net) fileDownloadTTL]\<rparr>\<rparr>"
  let ?m1 = "?m0\<lparr>ms_store := ?d\<rparr>"
  have facts: "db_faults (ms_store m) = []" "f_id f \<noteq> []"
      "tbl_find d_file (t_downloads (db_tables (ms_store m))) (f_id f) = None" "ms_disk m (output_path m f) = None"
      "''file:'' @ f_id f \<notin> ms_processing m" "ms_downloads m (f_id f) = None"
    using new by (simp_all add: new_file_def)
  have track: "store (TrackFileDownload (f_id f) (f_name f) (f_total f) (n_now net) fileDownloadTTL) ?m0 = (Ret (new_state net f), ?m1)"
    using TrackFileDownload_new [OF facts(1,3,2), of net] by (simp add: store_def)
  have "output_path ?m1 f = output_path m f" by (simp add: output_path_def)
  then have local: "find_local L net f s (new_state net f) ?m1 = ((new_state net f, True), ?m1)"
    using facts(4) by (simp add: find_local_def fileMatchesMeta_def new_state_def Let_def)
  have prep: "prepareFileDownload L net f s ?m0 = ((new_state net f, True), ?m1)"
    unfolding prepareFileDownload_def track using local by (simp add: new_state_def)
  have row: "tbl_find d_file (t_downloads (db_tables ?d)) (f_id f)
      = Some (new_download (f_id f) (f_name f) (f_total f) (n_now net) fileDownloadTTL)"
    using facts(3) by (simp add: tbl_find_append tbl_find_Cons new_download_def)
  obtain st where st: "GetFileDownload (f_id f) ?d = (Ret st, ?d)" "fds_cancelled st = None"
    using GetFileDownload_found [OF _ row] facts(1) by (auto simp: new_download_def)
  have st': "store (GetFileDownload (f_id f)) ?m1 = (Ret st, ?m1)" using st(1) by (simp add: store_def)
  have began: "beginFileDownload (f_id f) ?m1 = (Ret (ms_next m), tracked net f m)"
    unfolding beginFileDownload_def st' using st(2) facts(6) by (simp add: tracked_def)
  have "db_faults (ms_store (tracked net f m)) = []" "ms_store (tracked net f m) = ?d"
    using facts(1) by (simp_all add: tracked_def)
  then have list: "store (ListChunks (f_id f)) (tracked net f m) = (Ret (blocks_of (f_id f) m), tracked net f m)"
    by (simp add: store_def ListChunks_def sql_read_ok blocks_of_def tracked_def)
  have "advance_download c L net during f s q ?m0
      = save_file c L net during (ms_next m) f s (blocks_of (f_id f) m) (tracked net f m)"
    unfolding advance_download_def prep prod.case began go.case list using enough by simp
  then show ?thesis using facts(5) by (simp add: processReceivedFileFromPeer_def tryProcessMsg_def)
qed

text \<open>
  A count of blocks that is zero or negative, which comes with the message and is not
  checked, panics as soon as a block 0 is held; any peer can store one.
\<close>

theorem file_count_panics:
  assumes "new_file f m" and "f_total f \<le> 0"
    and "Option.bind (map_of (blocks_of (f_id f) m) 0) (dec_envelope c) \<noteq> None"
  shows "\<exists>e. fst (processReceivedFileFromPeer c L net during f s q m) = Panic e"
proof -
  obtain env where "Option.bind (map_of (blocks_of (f_id f) m) 0) (dec_envelope c) = Some env" using assms(3) by blast
  then obtain e where "gather c (blocks_of (f_id f) m) (f_total f) = Panic e"
    using assms(2) by (cases "f_total f < 0") (simp_all add: gather_def)
  then show ?thesis
    using new_file_advances [OF assms(1)] assms(2) by (simp add: save_file_def)
qed

section \<open>A surplus block\<close>

text \<open>
  As many blocks are held as the file has, but not its block \<open>i\<close>; its file is not there and the
  download, if there is one already, is not completed. It may be new, in progress, stopped or cancelled.
\<close>

definition uncompleted :: "string \<Rightarrow> tables \<Rightarrow> bool" where
  "uncompleted fileID t \<longleftrightarrow> (\<forall>b. tbl_find d_file (t_downloads t) fileID = Some b \<longrightarrow> d_completed b = None)"

definition stalled :: "FileMeta \<Rightarrow> int \<Rightarrow> Messenger \<Rightarrow> bool" where
  "stalled f i m \<longleftrightarrow> 0 \<le> i \<and> i < f_total f \<and> f_total f \<le> int (length (blocks_of (f_id f) m))
     \<and> map_of (blocks_of (f_id f) m) i = None \<and> ms_disk m (output_path m f) = None
     \<and> pk chunk_key (t_chunks (db_tables (ms_store m))) \<and> uncompleted (f_id f) (db_tables (ms_store m))"

text \<open>
  What goes on with the download: the file is processed, for whatever reason and with whatever
  the network and the store answer; another block is stored, of this file or another; the downloads
  of the history are resumed; the user cancels; the program is started anew.
\<close>

inductive stall_step :: "codec \<Rightarrow> crypto_lib \<Rightarrow> FileMeta \<Rightarrow> int \<Rightarrow> Messenger \<Rightarrow> Messenger \<Rightarrow> bool"
  for c :: codec and L :: crypto_lib and f :: FileMeta and i :: int where
  processed: "processReceivedFileFromPeer c L net during f s q m = (r, m') \<Longrightarrow> stall_step c L f i m m'"
| stored: "(g, j) \<noteq> (f_id f, i) \<Longrightarrow> store (StoreChunk now g j data ttl) m = (r, m') \<Longrightarrow> stall_step c L f i m m'"
| resumed: "stall_step c L f i m (resumeFileDownloads c m)"
| cancelled: "cancelDownload net (f_id f) m = (r, m') \<Longrightarrow> stall_step c L f i m m'"
| restarted: "stall_step c L f i m (m\<lparr>ms_downloads := Map.empty, ms_pending := Map.empty, ms_processing := {}, ms_jobs := []\<rparr>)"

text \<open>What such a step leaves as it was.\<close>

definition unasked :: "Messenger \<Rightarrow> Messenger \<Rightarrow> bool" where
  "unasked m m' \<longleftrightarrow> ms_disk m' = ms_disk m \<and> ms_dir m' = ms_dir m \<and> ms_rtc m' = ms_rtc m \<and> ms_events m' = ms_events m"

lemma unasked_refl [simp]: "unasked m m"
  by (simp add: unasked_def)

lemma unasked_trans: "unasked a b \<Longrightarrow> unasked b c \<Longrightarrow> unasked a c"
  by (simp add: unasked_def)

lemma unasked_simps [simp]:
  "unasked m (removePendingFileDownload f m') = unasked m m'" "unasked m (endFileDownload f m') = unasked m m'"
  "unasked m (releaseProcessMsg k m') = unasked m m'" "unasked m (m'\<lparr>ms_downloads := a\<rparr>) = unasked m m'"
  "unasked m (m'\<lparr>ms_next := n\<rparr>) = unasked m m'" "unasked m (m'\<lparr>ms_processing := ps\<rparr>) = unasked m m'"
  by (simp_all add: unasked_def removePendingFileDownload_def endFileDownload_def releaseProcessMsg_def split: option.split)

lemma stalled_simps [simp]:
  "stalled f i (removePendingFileDownload g m) = stalled f i m" "stalled f i (endFileDownload g m) = stalled f i m"
  "stalled f i (releaseProcessMsg k m) = stalled f i m" "stalled f i (m\<lparr>ms_downloads := a\<rparr>) = stalled f i m"
  "stalled f i (m\<lparr>ms_next := n\<rparr>) = stalled f i m" "stalled f i (m\<lparr>ms_processing := ps\<rparr>) = stalled f i m"
  by (simp_all add: stalled_def blocks_of_def output_path_def removePendingFileDownload_def endFileDownload_def
      releaseProcessMsg_def split: option.split)

lemma unasked_store: "store g m = (r, m') \<Longrightarrow> unasked m m'"
  by (auto simp: unasked_def dest!: store_result)

lemma uncompleted_update:
  assumes "uncompleted fileID t" "\<And>d. d_completed (g d) = d_completed d \<and> d_file (g d) = d_file d"
  shows "uncompleted fileID (t\<lparr>t_downloads := tbl_update P g (t_downloads t)\<rparr>)"
  using assms by (auto simp: uncompleted_def tbl_find_update)

lemma uncompleted_track:
  "uncompleted fileID t \<Longrightarrow>
     uncompleted fileID (t\<lparr>t_downloads := tbl_upsert d_file retrack (new_download g n k at ttl) (t_downloads t)\<rparr>)"
  by (auto simp: uncompleted_def tbl_find_upsert retrack_def new_download_def split: option.splits if_splits)

lemma keeps_uncompleted:
  "keeps (uncompleted fileID) (TrackFileDownload g n k at ttl)" "keeps (uncompleted fileID) (CancelFileDownload g now)"
  "keeps (uncompleted fileID) (StoreChunk now g j data lifetime)"
proof -
  show "keeps (uncompleted fileID) (TrackFileDownload g n k at ttl)"
    unfolding TrackFileDownload_def
    by (intro keeps_if keeps_err keeps_then keeps_GetFileDownload keeps_write) (rule uncompleted_track)
  have "keeps (uncompleted fileID) (update_downloads P (\<lambda>d. d\<lparr>d_cancelled := a, d_stopped := b\<rparr>))" for P a b
    unfolding update_downloads_def by (rule keeps_sql) (auto intro!: uncompleted_update)
  then show "keeps (uncompleted fileID) (CancelFileDownload g now)"
    unfolding CancelFileDownload_def by (intro keeps_then keeps_if keeps_err keeps_ret)
  show "keeps (uncompleted fileID) (StoreChunk now g j data lifetime)"
    unfolding StoreChunk_def by (rule keeps_write) (simp add: uncompleted_def put_chunk_def)
qed

lemma uncompleted_store:
  assumes "store g m = (r, m')" "keeps (uncompleted fileID) g" "uncompleted fileID (db_tables (ms_store m))"
  shows "uncompleted fileID (db_tables (ms_store m'))"
  using assms keepsD [OF assms(2)] by (auto dest!: store_result)

lemma Track_uncompleted:
  assumes "store (TrackFileDownload fileID n k at ttl) m = (Ret st, m')" "uncompleted fileID (db_tables (ms_store m))"
  shows "fds_completed st = None"
proof -
  obtain d where "TrackFileDownload fileID n k at ttl (ms_store m) = (Ret st, d)" using store_result [OF assms(1)] by blast
  then obtain x d1 where w: "sql_write (\<lambda>t. t\<lparr>t_downloads := tbl_upsert d_file retrack (new_download fileID n k at ttl)
        (t_downloads t)\<rparr>) (ms_store m) = (Ret x, d1)" "GetFileDownload fileID d1 = (Ret st, d)"
    by (auto simp: TrackFileDownload_def db_err_def split: if_splits elim: db_then_RetD)
  have "uncompleted fileID (db_tables d1)" unfolding sql_write_RetD [OF w(1)] by (rule uncompleted_track [OF assms(2)])
  with w(2) have "uncompleted fileID (db_tables d1)" "GetFileDownload fileID d1 = (Ret st, d)" by blast+
  then show ?thesis
    by (auto simp: GetFileDownload_def readFileDownloadState_def db_ret_def uncompleted_def db_err_def
        split: option.splits elim!: db_then_RetD dest!: sql_read_RetD)
qed

text \<open>Before the blocks are looked at.\<close>

lemma stalled_prepare:
  assumes "stalled f i m" and p: "prepareFileDownload L net f s m = ((st, go), m')"
  shows "stalled f i m' \<and> unasked m m'"
proof -
  note w = assms(1) [unfolded stalled_def]
  obtain r m1 where t: "store (TrackFileDownload (f_id f) (f_name f) (f_total f) (n_now net) fileDownloadTTL) m = (r, m1)" by fastforce
  have u: "unasked m m1" "uncompleted (f_id f) (db_tables (ms_store m1))"
    using unasked_store [OF t] uncompleted_store [OF t keeps_uncompleted(1)] w by auto
  have m1: "\<not> fileMatchesMeta L (ms_disk m1) (output_path m1 f) (f_hash f) True"
    using w u(1) by (simp add: fileMatchesMeta_def unasked_def output_path_def)
  have "m' = m1 \<or> m' = removePendingFileDownload (f_id f) m1"
    using p t m1 Track_uncompleted [of "f_id f"] w
    by (cases r) (auto simp: prepareFileDownload_def find_local_def Let_def split: if_splits)
  moreover have "stalled f i m1"
    using w u set_up_prepare [OF p] set_up_dl(1) [OF t] by (simp add: stalled_def unasked_def output_path_def set_up_blocks)
      (simp add: set_up_def)
  ultimately show ?thesis using u(1) by auto
qed

lemma stalled_kept:
  assumes "stalled f i m" "set_up m m'" "uncompleted (f_id f) (db_tables (ms_store m'))"
  shows "stalled f i m'"
  using assms by (auto simp: stalled_def set_up_blocks output_path_def) (auto simp: set_up_def)

lemma uncompleted_get:
  assumes "store (GetFileDownload g) m = (r, m')" "uncompleted fileID (db_tables (ms_store m))"
  shows "uncompleted fileID (db_tables (ms_store m'))"
  by (rule uncompleted_store [OF assms(1) keeps_GetFileDownload assms(2)])

lemma stalled_begin:
  assumes "stalled f i m" "beginFileDownload g m = (r, m')"
  shows "stalled f i m' \<and> unasked m m'"
proof -
  obtain x m1 where g: "store (GetFileDownload g) m = (x, m1)" by fastforce
  have "uncompleted (f_id f) (db_tables (ms_store m1))"
    using uncompleted_get [OF g] assms(1) by (simp add: stalled_def)
  moreover have "set_up m m1" using g by (auto dest!: set_up_dl(4))
  ultimately have "stalled f i m1" by (intro stalled_kept [OF assms(1)])
  moreover have "\<exists>a n. m' = m1 \<or> m' = m1\<lparr>ms_downloads := a, ms_next := n\<rparr>"
    using assms(2) g by (auto simp: beginFileDownload_def split: go.splits option.splits if_splits)
  ultimately show ?thesis using unasked_store [OF g] by auto
qed

text \<open>The missing block ends the assembling, with nothing done.\<close>

lemma gather_missing:
  assumes "0 \<le> i" "i < n" "map_of got i = None"
  shows "\<exists>e. gather c got n = Err e"
proof -
  have none: "read_envelopes c got is = None" if "i \<in> set is" for "is"
    using that assms(3) by (induction "is") (auto split: option.split)
  show ?thesis
  proof (cases "i = 0")
    case True
    then show ?thesis using assms(3) by (simp add: gather_def)
  next
    case False
    then show ?thesis using assms none [of "[1..n - 1]"] by (simp add: gather_def split: option.split)
  qed
qed

lemma stalled_advance:
  assumes s: "stalled f i m" and run: "advance_download c L net during f sender q m = (r, m')"
  shows "r = Ret () \<and> stalled f i m' \<and> unasked m m'"
proof -
  obtain st go m1 where p: "prepareFileDownload L net f sender m = ((st, go), m1)" by (metis prod.collapse)
  note 1 = stalled_prepare [OF s p]
  obtain b m2 where b: "beginFileDownload (f_id f) m1 = (b, m2)" by fastforce
  have 2: "stalled f i m2" "unasked m m2" using stalled_begin [OF _ b, of f i] 1 unasked_trans by blast+
  obtain l m3 where l: "store (ListChunks (f_id f)) m2 = (l, m3)" by fastforce
  have lc: "keeps I (ListChunks (f_id f))" for I by (simp add: ListChunks_def keeps_read)
  have "stalled f i m3"
    by (rule stalled_kept [OF 2(1) set_up_store [OF l lc] uncompleted_store [OF l lc]]) (use 2 in \<open>simp add: stalled_def\<close>)
  then have 3: "stalled f i m3" "unasked m m3" using 2 unasked_trans unasked_store [OF l] by blast+
  have bl: "got = blocks_of (f_id f) m2" if "l = Ret got" for got using ListChunks_blocks l that by blast
  have "l \<noteq> Panic e" "b \<noteq> Panic e" for e
    using l b by (auto simp: ListChunks_def sql_read_def sql_no_panic beginFileDownload_def GetFileDownload_def
        readFileDownloadState_def db_then_def db_err_def db_ret_def dest!: store_result split: go.splits prod.splits option.splits if_splits)
  moreover have "save_file c L net during ctx f sender got m3 = (Ret (), m3)" if "got = blocks_of (f_id f) m2" for ctx got
    using gather_missing [of i "f_total f" got c] 2(1) that by (auto simp: save_file_def stalled_def)
  moreover have "\<not> int (length (blocks_of (f_id f) m2)) < f_total f" using 2(1) by (simp add: stalled_def)
  ultimately show ?thesis
    using run p b l bl 1 2 3 by (cases go; cases b; cases l) (auto simp: advance_download_def)
qed

lemma stalled_process:
  assumes "stalled f i m" "processReceivedFileFromPeer c L net during f s q m = (r, m')"
  shows "r = Ret () \<and> stalled f i m' \<and> unasked m m'"
proof -
  let ?m = "m\<lparr>ms_processing := insert (''file:'' @ f_id f) (ms_processing m)\<rparr>"
  have m: "stalled f i ?m" "unasked m ?m" using assms(1) by simp_all
  obtain r2 m2 where a: "advance_download c L net during f s q ?m = (r2, m2)" by fastforce
  from stalled_advance [OF m(1) a] m(2) unasked_trans have "r2 = Ret ()" "stalled f i m2" "unasked m m2" by blast+
  with assms a show ?thesis
    by (auto simp: processReceivedFileFromPeer_def tryProcessMsg_def split: if_splits)
qed

text \<open>A block that comes in adds to the number of blocks held.\<close>

lemma replace_count:
  assumes "pk key t" "P r"
  shows "length (filter P t) \<le> length (filter P (tbl_replace key r t))"
  using assms
proof (induction t)
  case (Cons x t)
  have same: "filter (\<lambda>y. key y \<noteq> key r) t = t" if "key x = key r"
    using that Cons.prems(1) by (auto simp: pk_def image_iff intro!: filter_True)
  from Cons show ?case
    by (cases "key x = key r") (auto simp: tbl_replace_def same pk_def)
qed (simp add: tbl_replace_def)

lemma stalled_arrival:
  assumes "stalled f i m" "(g, j) \<noteq> (f_id f, i)" "store (StoreChunk now g j data ttl) m = (r, m')"
  shows "stalled f i m' \<and> unasked m m'"
proof -
  let ?row = "\<lparr>c_file = g, c_index = j, c_data = data, c_created = now, c_ttl = ttl\<rparr>"
  note s = assms(1) [unfolded stalled_def]
  obtain d where d: "StoreChunk now g j data ttl (ms_store m) = (r, d)" "m' = m\<lparr>ms_store := d\<rparr>"
    using store_result [OF assms(3)] by blast
  have u: "uncompleted (f_id f) (db_tables (ms_store m'))"
    by (rule uncompleted_store [OF assms(3) keeps_uncompleted(3)]) (use s in blast)
  from sql_write_either [OF d(1) [unfolded StoreChunk_def]] consider
      "t_chunks (db_tables d) = t_chunks (db_tables (ms_store m))"
    | "t_chunks (db_tables d) = tbl_replace chunk_key ?row (t_chunks (db_tables (ms_store m)))"
    by (auto simp: put_chunk_def)
  then have "pk chunk_key (t_chunks (db_tables d)) \<and> map_of (blocks_of (f_id f) m') i = None
      \<and> length (blocks_of (f_id f) m) \<le> length (blocks_of (f_id f) m')"
  proof cases
    case 1
    then show ?thesis using s by (simp add: blocks_of_def d(2))
  next
    case 2
    have "length (blocks_of (f_id f) m) \<le> length (blocks_of (f_id f) m')"
    proof (cases "g = f_id f")
      case True
      then show ?thesis using s 2 replace_count [of chunk_key _ "\<lambda>r. c_file r = f_id f" ?row] by (simp add: blocks_of_def d(2))
    next
      case False
      then have "filter (\<lambda>r. c_file r = f_id f \<and> chunk_key r \<noteq> (g, j)) t = filter (\<lambda>r. c_file r = f_id f) t" for t
        by (intro filter_cong) (auto simp: chunk_key_def)
      with False 2 show ?thesis by (simp add: blocks_of_def d(2) tbl_replace_def chunk_key_def conj_commute)
    qed
    moreover have "map_of (blocks_of (f_id f) m') i = None"
      using s 2 assms(2) by (auto simp: blocks_of_def d(2) tbl_replace_def map_of_eq_None_iff)
    ultimately show ?thesis using s 2 by (simp add: pk_replace)
  qed
  with s u unasked_store [OF assms(3)] show ?thesis
    by (auto simp: stalled_def d(2) output_path_def unasked_def)
qed

lemma stalled_resume:
  assumes "stalled f i m"
  shows "stalled f i (resumeFileDownloads c m) \<and> unasked m (resumeFileDownloads c m)"
proof -
  obtain r m1 where e: "store ExportReplicationSnapshot m = (r, m1)" by fastforce
  have k: "keeps I ExportReplicationSnapshot" for I
    unfolding ExportReplicationSnapshot_def readReplicatedMessages_def readReplicatedPeers_def readReplicatedGroups_def
    by (intro keeps_transaction keeps_then keeps_read keeps_ret)
  have s: "stalled f i m1"
    by (rule stalled_kept [OF assms set_up_store [OF e k] uncompleted_store [OF e k]]) (use assms in \<open>simp add: stalled_def\<close>)
  have files: "stalled f i (queue_files a b fs m) = stalled f i m \<and> unasked m (queue_files a b fs m)" for a b fs m
  proof (induction fs arbitrary: m)
    case (Cons x fs)
    have "stalled f i (snd (trySubmit j (m\<lparr>ms_pending := p\<rparr>))) = stalled f i m"
      "unasked m (snd (trySubmit j (m\<lparr>ms_pending := p\<rparr>)))" for j p
      by (simp_all add: stalled_def trySubmit_def blocks_of_def output_path_def unasked_def)
    with Cons show ?case by (simp add: Let_def) (metis unasked_trans)
  qed simp
  have "stalled f i (queueFileDownloads c rs a b m) = stalled f i m \<and> unasked m (queueFileDownloads c rs a b m)" for rs a b m
  proof (induction rs arbitrary: m)
    case (Cons x rs)
    then show ?case using files by (simp split: option.split) (metis unasked_trans)
  qed simp
  then show ?thesis
    using s e unasked_store [OF e] by (auto simp: resumeFileDownloads_def split: go.split intro: unasked_trans)
qed

lemma stalled_cancel:
  assumes "stalled f i m" "cancelDownload net g m = (r, m')"
  shows "stalled f i m' \<and> unasked m m'"
proof -
  obtain x m1 where g: "store (CancelFileDownload g (n_now net)) m = (x, m1)" by fastforce
  have "keeps I (CancelFileDownload g now)" if "\<And>t x. I (t\<lparr>t_downloads := x\<rparr>) = I t" for I now
    unfolding CancelFileDownload_def update_downloads_def
    by (intro keeps_then keeps_sql keeps_if keeps_err keeps_ret) (use that in auto)
  then have "set_up m m1" by (intro set_up_store [OF g]) simp
  then have "stalled f i m1"
    using uncompleted_store [OF g keeps_uncompleted(2)] assms(1) by (intro stalled_kept [OF assms(1)]) (auto simp: stalled_def)
  then show ?thesis
    using assms(2) g unasked_store [OF g] by (auto simp: cancelDownload_def split: go.splits)
qed

lemma stall_step_stalled:
  assumes "stall_step c L f i m m'" "stalled f i m"
  shows "stalled f i m' \<and> unasked m m'"
  using assms
proof cases
  case (processed net during s q r)
  then show ?thesis using stalled_process assms(2) by blast
next
  case (stored g j now data ttl r)
  then show ?thesis using stalled_arrival assms(2) by blast
next
  case resumed
  then show ?thesis using stalled_resume assms(2) by blast
next
  case (cancelled net r)
  then show ?thesis using stalled_cancel assms(2) by blast
next
  case restarted
  then show ?thesis using assms(2) by (simp add: stalled_def blocks_of_def output_path_def unasked_def)
qed

text \<open>
  C22. A surplus block stalls a download for good. Once as many blocks are held as the file has, but
  not its block \<open>i\<close>, then for as long as that block does not come by itself, whatever else is
  stored and however often the file is processed, the downloads resumed, this one cancelled or the
  program restarted: the processing ends without an error, nothing is sent to any peer, so
  that the block is never asked for, no file is written, nothing is reported, and the download is
  not recorded as completed.
\<close>

theorem surplus_block_stalls:
  assumes "stalled f i m" and "(stall_step c L f i)\<^sup>*\<^sup>* m m'"
  shows "stalled f i m' \<and> ms_rtc m' = ms_rtc m \<and> ms_disk m' = ms_disk m \<and> ms_events m' = ms_events m
    \<and> uncompleted (f_id f) (db_tables (ms_store m'))
    \<and> fst (processReceivedFileFromPeer c L net during f s q m') = Ret ()"
proof -
  from assms(2) have m': "stalled f i m' \<and> unasked m m'"
    by (induction rule: rtranclp_induct) (use assms(1) in \<open>simp, metis stall_step_stalled unasked_trans\<close>)
  then have "fst (processReceivedFileFromPeer c L net during f s q m') = Ret ()"
    using stalled_process [OF _ prod.collapse [symmetric]] by blast
  moreover have "uncompleted (f_id f) (db_tables (ms_store m'))" using m' by (simp add: stalled_def)
  ultimately show ?thesis using m' by (simp add: unasked_def)
qed

section \<open>From the sender's file to the receiver's\<close>

lemma read_envelopes_all:
  "\<forall>i \<in> set is. Option.bind (map_of got i) (dec_envelope c) = Some (g i) \<Longrightarrow> read_envelopes c got is = Some (map g is)"
  by (induction "is") auto

lemma gather_all:
  assumes "es \<noteq> []" "\<forall>i < length es. Option.bind (map_of got (int i)) (dec_envelope c) = Some (es ! i)"
  shows "gather c got (int (length es)) = Ret es"
proof -
  let ?g = "\<lambda>i. es ! nat i"
  have all: "\<forall>i \<in> set [0..int (length es) - 1]. Option.bind (map_of got i) (dec_envelope c) = Some (?g i)"
    using assms(2) by (auto simp: zless_nat_eq_int_zless [symmetric] dest: spec [of _ "nat _"]) (metis int_nat_eq nat_less_iff zless_nat_eq_int_zless)
  have "[0..int (length es) - 1] = 0 # [1..int (length es) - 1]"
    using assms(1) upto_rec1 [of 0 "int (length es) - 1"] by (cases es) auto
  then have "es = ?g 0 # map ?g [1..int (length es) - 1]"
    by (intro nth_equalityI) (use assms(1) in \<open>auto simp: nth_Cons' nat_add_distrib Suc_nat_eq_nat_zadd1 split: if_splits\<close>)
  moreover have "read_envelopes c got [1..int (length es) - 1] = Some (map ?g [1..int (length es) - 1])"
    using all by (intro read_envelopes_all) auto
  moreover have "Option.bind (map_of got 0) (dec_envelope c) = Some (?g 0)" using assms by (cases es) auto
  ultimately show ?thesis using assms(1) by (simp add: gather_def)
qed

definition knows_peer :: "Messenger \<Rightarrow> string \<Rightarrow> bytes \<Rightarrow> bool" where
  "knows_peer m s vk \<longleftrightarrow> s \<noteq> ms_key m \<and> 2 \<le> length (Split s (CHR '':'')) \<and>
     (case map_of (ms_peersMap m) s of None \<Rightarrow> False | Some p \<Rightarrow> peer_id p \<noteq> [] \<and> DecodeKey (peer_sign p) = Ret vk)"

lemma sender_key_known: "knows_peer m s vk \<Longrightarrow> sender_sign_key net s m = (Ret vk, m)"
  by (auto simp: knows_peer_def sender_sign_key_def findPeerByKey_def Let_def split: option.splits)

lemma MarkFileDownloadCompleted_ok:
  assumes "db_faults d = []" "tbl_find d_file (t_downloads (db_tables d)) fileID = Some b" "d_cancelled b = None"
  shows "\<exists>d'. MarkFileDownloadCompleted fileID path now d = (Ret (), d')"
proof -
  have "b \<in> set (t_downloads (db_tables d))" "d_file b = fileID" using assms(2) by (auto dest: tbl_find_SomeD)
  then have "filter (completable fileID) (t_downloads (db_tables d)) \<noteq> []"
    using assms(3) by (auto simp: completable_def filter_empty_conv)
  then show ?thesis
    using assms(1) by (simp add: MarkFileDownloadCompleted_def db_then_def update_downloads_def sql_ok db_ret_def)
qed

text \<open>
  C21. A file arrives: when every block of a file that was split, encrypted and signed is held,
  processing the message's description of it writes the sender's bytes, reports the file, and
  leaves no panic and no error. The path is the download directory joined with the file name
  the sender chose; a name with \<open>..\<close> leads out of the directory.
\<close>

theorem file_arrives:
  assumes L: "crypto_lawful L" "sign_pair L vk sk" "aes_key_size k" "\<forall>i. rnd i \<noteq> None"
    and split: "SplitAndEncryptFile L rnd (f_id f) sender p k sk = Ret es"
    and meta: "f_total f = int (length es)" "f_key f = EncodeKey k" "f_hash f = b64_digest L p"
    and new: "new_file f m" and peer: "knows_peer m s vk" and disk: "n_temp net" "n_rename net"
    and blocks: "length es \<le> length (blocks_of (f_id f) m)"
      "\<forall>i < length es. Option.bind (map_of (blocks_of (f_id f) m) (int i)) (dec_envelope c) = Some (es ! i)"
  shows "\<exists>m'. processReceivedFileFromPeer c L net (\<lambda>m. m) f s q m = (Ret (), m')
     \<and> ms_disk m' = (ms_disk m)(Join [ms_dir m, if f_name f = [] then f_id f else f_name f] \<mapsto> p)
     \<and> FileReady \<lparr>fe_file = f_id f, fe_path = output_path m f, fe_name = f_name f, fe_sender = s\<rparr> \<in> set (ms_events m')
     \<and> ms_pending m' (f_id f) = None"
proof -
  have open_all: "AssembleAndDecryptFile L es k vk = Ret p" and len: "length es \<noteq> 0"
    using SplitAndEncryptFile_roundtrip_es [OF L split] by auto
  let ?m = "tracked net f m" and ?fp = "output_path m f"
  let ?r = "new_download (f_id f) (f_name f) (f_total f) (n_now net) fileDownloadTTL"
  have st: "ms_disk ?m = ms_disk m" "output_path ?m f = ?fp" "db_faults (ms_store ?m) = []" "\<not> ctx_done (Some (ms_next m)) ?m"
      "knows_peer ?m s vk" "tbl_find d_file (t_downloads (db_tables (ms_store ?m))) (f_id f) = Some ?r"
    using new peer by (simp_all add: tracked_def new_file_def output_path_def ctx_done_def knows_peer_def tbl_find_append
        tbl_find_Cons new_download_def)
  have gather: "gather c (blocks_of (f_id f) m) (f_total f) = Ret es"
    using gather_all [OF _ blocks(2)] len meta(1) by auto
  have op: "open_file L f es vk = Ret p" using open_all meta(2,3) by (simp add: open_file_def)
  obtain x where x: "GetFileDownload (f_id f) (ms_store ?m) = (Ret x, ms_store ?m)" "fds_cancelled x = None"
    using GetFileDownload_found [OF st(3,6)] by (auto simp: new_download_def)
  have get: "store (GetFileDownload (f_id f)) ?m = (Ret x, ?m)" using x(1) by (simp add: store_def)
  let ?m2 = "?m\<lparr>ms_disk := (ms_disk ?m)(?fp \<mapsto> p)\<rparr>"
  obtain d where "MarkFileDownloadCompleted (f_id f) ?fp (n_now net) (ms_store ?m) = (Ret (), d)"
    using MarkFileDownloadCompleted_ok [OF st(3,6)] by (auto simp: new_download_def)
  then have mark: "store (MarkFileDownloadCompleted (f_id f) ?fp (n_now net)) ?m2 = (Ret (), ?m2\<lparr>ms_store := d\<rparr>)"
    by (simp add: store_def)
  have "completeFileDownload net (\<lambda>m. m) (ms_next m) (f_id f) ?fp p ?m = (Ret (), ?m2\<lparr>ms_store := d\<rparr>)"
    using st(4) disk get x(2) mark by (simp add: completeFileDownload_def Let_def)
  then have save: "save_file c L net (\<lambda>m. m) (ms_next m) f s (blocks_of (f_id f) m) ?m
      = (Ret (), notifyFileReady f ?fp s (removePendingFileDownload (f_id f) (endFileDownload (f_id f) (?m2\<lparr>ms_store := d\<rparr>))))"
    using gather st(2,4) sender_key_known [OF st(5)] op by (simp add: save_file_def Let_def)
  define m3 where "m3 = notifyFileReady f ?fp s (removePendingFileDownload (f_id f) (endFileDownload (f_id f) (?m2\<lparr>ms_store := d\<rparr>)))"
  have "ms_disk m3 = (ms_disk m)(?fp \<mapsto> p)" by (simp add: m3_def st(1))
  moreover have "FileReady \<lparr>fe_file = f_id f, fe_path = ?fp, fe_name = f_name f, fe_sender = s\<rparr> \<in> set (ms_events m3)"
    "ms_pending m3 (f_id f) = None"
    by (simp_all add: m3_def notifyFileReady_def notify_def removePendingFileDownload_def)
  moreover have "processReceivedFileFromPeer c L net (\<lambda>m. m) f s q m = (Ret (), releaseProcessMsg (''file:'' @ f_id f) m3)"
    using new_file_advances [OF new, of c L net "\<lambda>m. m" s q] save blocks(1) meta(1) unfolding m3_def by simp
  ultimately show ?thesis
    by (intro exI [of _ "releaseProcessMsg (''file:'' @ f_id f) m3"] conjI)
      (simp_all add: output_path_def, cases "f_name f = []", simp_all add: releaseProcessMsg_def)
qed

section \<open>Concrete downloads\<close>

definition file_meta :: "string \<Rightarrow> int \<Rightarrow> FileMeta" where
  "file_meta name n = \<lparr>f_id = ''f'', f_hash = b64_digest toy_lib [104, 105], f_key = EncodeKey (replicate 32 9), f_total = n,
     f_name = name, f_path = [], f_source = []\<rparr>"

definition file_row :: "int \<Rightarrow> chunk_row" where
  "file_row i = \<lparr>c_file = ''f'', c_index = i, c_data = [], c_created = 0, c_ttl = 0\<rparr>"

definition file_receiver :: "int \<Rightarrow> Messenger" where
  "file_receiver i = (sample_messenger ''b'' ''bob'' \<lparr>db_tables = no_tables\<lparr>t_chunks := [file_row i]\<rparr>, db_faults = []\<rparr>)
     \<lparr>ms_peersMap := [(''ann:k'', \<lparr>peer_id = ''a'', peer_ids = [''a''], peer_login = ''ann'', peer_enc = [],
        peer_sign = EncodeKey (replicate 32 5), peer_seen = 0, peer_ttl = 120, peer_flag = [], peer_fake = False\<rparr>)]\<rparr>"

lemma file_receiver_facts:
  "new_file (file_meta name n) (file_receiver i)" "blocks_of ''f'' (file_receiver i) = [(i, [])]"
  "knows_peer (file_receiver i) ''ann:k'' (replicate 32 5)" "ms_dir (file_receiver i) = ''/h/downloads/huginn''"
  "f_id (file_meta name n) = ''f''" "ms_disk (file_receiver i) x = None"
proof -
  show "f_id (file_meta name n) = ''f''" by (simp add: file_meta_def)
  show disk: "ms_disk (file_receiver i) x = None" for x
    by (simp add: file_receiver_def sample_messenger_def new_messenger_def Let_def)
  show "new_file (file_meta name n) (file_receiver i)"
    unfolding new_file_def disk
    by (simp add: file_receiver_def sample_messenger_def new_messenger_def Let_def no_tables_def file_meta_def tbl_find_def)
  show "blocks_of ''f'' (file_receiver i) = [(i, [])]"
    by (simp add: file_receiver_def blocks_of_def file_row_def no_tables_def)
  have "Join [Dir ''/h/db'', ''downloads'', ''huginn''] = ''/h/downloads/huginn''" by code_simp
  then show "ms_dir (file_receiver i) = ''/h/downloads/huginn''"
    by (simp add: file_receiver_def sample_messenger_def new_messenger_def Let_def)
  have "ms_key (file_receiver i) = ''bob:'' @ EncodeKey (replicate 32 5)"
    by (simp add: file_receiver_def sample_messenger_def new_messenger_def Let_def)
  then show "knows_peer (file_receiver i) ''ann:k'' (replicate 32 5)"
    by (simp add: knows_peer_def) (simp add: file_receiver_def)
qed

lemma file_arrives_witness:
  "\<exists>c m'. processReceivedFileFromPeer c toy_lib sample_net (\<lambda>m. m) (file_meta ''../../.bashrc'' 1) ''ann:k'' [] (file_receiver 0)
       = (Ret (), m') \<and> ms_disk m' ''/h/.bashrc'' = Some [104, 105]"
proof -
  have aes: "aes_key_size (replicate 32 9)" by (simp add: aes_key_size_def)
  have pair: "sign_pair toy_lib (replicate 32 5) (replicate 32 5 @ replicate 32 5)" by (rule toy_sign_pair) simp
  obtain es where es: "SplitAndEncryptFile toy_lib (\<lambda>i. Some (replicate 12 0)) ''f'' ''a'' [104, 105] (replicate 32 9)
      (replicate 32 5 @ replicate 32 5) = Ret es"
    using SplitAndEncryptFile_split_of [OF toy_lib_lawful pair aes, of "\<lambda>i. Some (replicate 12 0)"] by blast
  have "block_count ChunkSize [104, 105 :: byte] = 1" by (simp add: block_count_def ChunkSize_def)
  then have len: "length es = 1"
    using SplitAndEncryptFile_roundtrip_es [OF toy_lib_lawful pair aes _ es] by simp
  let ?c = "sample_codec\<lparr>dec_envelope := (\<lambda>_. Some (es ! 0))\<rparr>" and ?f = "file_meta ''../../.bashrc'' 1"
  have path: "Join [''/h/downloads/huginn'', ''../../.bashrc''] = ''/h/.bashrc''" by code_simp
  have split: "SplitAndEncryptFile toy_lib (\<lambda>i. Some (replicate 12 0)) (f_id ?f) ''a'' [104, 105] (replicate 32 9)
      (replicate 32 5 @ replicate 32 5) = Ret es" using es by (simp add: file_meta_def)
  have blocks: "length es \<le> length (blocks_of (f_id ?f) (file_receiver 0))"
      "\<forall>i < length es. Option.bind (map_of (blocks_of (f_id ?f) (file_receiver 0)) (int i)) (dec_envelope ?c) = Some (es ! i)"
    unfolding file_receiver_facts(5) file_receiver_facts(2) by (simp_all add: len)
  have meta: "f_total ?f = int (length es)" "f_key ?f = EncodeKey (replicate 32 9)" "f_hash ?f = b64_digest toy_lib [104, 105]"
    by (simp_all add: len file_meta_def)
  have net: "n_temp sample_net" "n_rename sample_net" by (simp_all add: sample_net_def)
  obtain m' where m': "processReceivedFileFromPeer ?c toy_lib sample_net (\<lambda>m. m) ?f ''ann:k'' [] (file_receiver 0) = (Ret (), m')"
    "ms_disk m' = (ms_disk (file_receiver 0))(Join [ms_dir (file_receiver 0), if f_name ?f = [] then f_id ?f else f_name ?f] \<mapsto> [104, 105])"
    using file_arrives [OF toy_lib_lawful pair aes _ split meta file_receiver_facts(1) file_receiver_facts(3) net blocks, of "[]"]
    by auto
  then have "ms_disk m' ''/h/.bashrc'' = Some [104, 105]"
    using path by (simp add: file_receiver_facts(4) file_meta_def)
  then show ?thesis using m'(1) by blast
qed

lemma file_count_panics_witness:
  "\<exists>e. fst (processReceivedFileFromPeer (sample_codec\<lparr>dec_envelope := (\<lambda>_. Some sample_envelope)\<rparr>) toy_lib sample_net (\<lambda>m. m)
     (file_meta [] 0) ''ann:k'' [] (file_receiver 0)) = Panic e"
  by (rule file_count_panics [OF file_receiver_facts(1)])
    (simp_all add: file_receiver_facts(2,5), simp add: file_meta_def)

lemma surplus_block_stalls_witness:
  "\<exists>m1 m2 m3. store (StoreChunk 5 ''f'' 8 [1] 60) (file_receiver 7) = (Ret (), m1)
     \<and> processReceivedFileFromPeer sample_codec toy_lib sample_net (\<lambda>m. m) (file_meta [] 1) ''ann:k'' [] m1 = (Ret (), m2)
     \<and> processReceivedFileFromPeer sample_codec toy_lib sample_net (\<lambda>m. m) (file_meta [] 1) ''ann:k'' [] m2 = (Ret (), m3)
     \<and> ms_rtc m3 = ms_rtc (file_receiver 7) \<and> ms_events m3 = ms_events (file_receiver 7)"
proof -
  let ?f = "file_meta [] 1" and ?m = "file_receiver 7"
  let ?process = "processReceivedFileFromPeer sample_codec toy_lib sample_net (\<lambda>m. m) ?f ''ann:k'' []"
  have "uncompleted ''f'' (db_tables (ms_store ?m))" "pk chunk_key (t_chunks (db_tables (ms_store ?m)))"
    by (simp_all add: uncompleted_def file_receiver_def sample_messenger_def new_messenger_def Let_def no_tables_def pk_def)
  then have start: "stalled ?f 0 ?m"
    unfolding stalled_def file_receiver_facts(2,5,6) by simp (simp add: file_meta_def)
  let ?S = "stall_step sample_codec toy_lib ?f 0"
  have f0: "db_faults (ms_store ?m) = []" by (simp add: file_receiver_def sample_messenger_def new_messenger_def Let_def)
  obtain m1 where 1: "store (StoreChunk 5 ''f'' 8 [1] 60) ?m = (Ret (), m1)"
    using f0 by (simp add: store_def StoreChunk_def sql_write_ok)
  have s1: "?S ?m m1" by (rule stall_step.stored [OF _ 1]) (simp add: file_meta_def)
  obtain r2 m2 where 2: "?process m1 = (r2, m2)" by fastforce
  have s2: "?S m1 m2" using 2 by (rule stall_step.processed)
  have ok1: "r2 = Ret ()" using stalled_process [OF _ 2] stall_step_stalled [OF s1 start] by blast
  from s1 s2 have "?S\<^sup>*\<^sup>* ?m m2" by (meson converse_rtranclp_into_rtranclp r_into_rtranclp)
  note there = surplus_block_stalls [OF start this, of sample_net "\<lambda>m. m" "''ann:k''" "[]"]
  obtain r3 m3 where 3: "?process m2 = (r3, m3)" by fastforce
  have "?S m2 m3" using 3 by (rule stall_step.processed)
  with \<open>?S\<^sup>*\<^sup>* ?m m2\<close> have "?S\<^sup>*\<^sup>* ?m m3" by (rule rtranclp.rtrancl_into_rtrancl)
  from surplus_block_stalls [OF start this] 1 2 3 there ok1 show ?thesis by auto
qed

lemma written_file_is_genuine_witness:
  "let m' = snd (processReceivedFileFromPeer sample_codec toy_lib sample_net (\<lambda>m. m) (file_meta [] 1) ''ann:k'' [] (file_receiver 7))
   in ms_disk m' = ms_disk (file_receiver 7) \<or>
     (\<exists>data key. ms_disk m' = (ms_disk (file_receiver 7))(output_path (file_receiver 7) (file_meta [] 1) \<mapsto> data)
        \<and> fst (sender_sign_key sample_net ''ann:k'' (file_receiver 7)) = Ret key
        \<and> genuine sample_codec toy_lib (file_meta [] 1) (blocks_of (f_id (file_meta [] 1)) (file_receiver 7)) key data)"
  unfolding Let_def by (rule written_file_is_genuine [OF prod.collapse [symmetric]]) simp

definition cancel_db :: db where
  "cancel_db = \<lparr>db_tables = no_tables\<lparr>t_downloads := [new_download ''f'' ''n'' 2 0 9000000000]\<rparr>, db_faults = []\<rparr>"

lemma cancelled_while_writing_witness:
  "let m = sample_messenger ''b'' ''bob'' cancel_db; f = file_meta ''n'' 2; s = ms_key m;
       (r, m') = save_file sample_codec toy_lib sample_net (\<lambda>m. snd (cancelDownload sample_net ''f'' m)) 0 f s [] m
   in fst (cancelDownload sample_net ''f'' m) = Ret () \<and> ms_disk m' = ms_disk m \<and> not_completed ''f'' m'
      \<and> fst (completeFileDownload sample_net (\<lambda>m. snd (cancelDownload sample_net ''f'' m)) 0 ''f'' ''/p'' [1] m) \<noteq> Ret ()"
proof -
  let ?m = "sample_messenger ''b'' ''bob'' cancel_db" and ?f = "file_meta ''n'' 2"
  let ?run = "save_file sample_codec toy_lib sample_net (\<lambda>m. snd (cancelDownload sample_net ''f'' m)) 0 ?f (ms_key ?m) [] ?m"
  have ok: "fst (cancelDownload sample_net ''f'' ?m) = Ret ()"
    by (simp add: cancelDownload_def store_def cancel_db_def CancelFileDownload_def db_then_def update_downloads_def sql_ok
        no_tables_def cancellable_def new_download_def db_ret_def)
  have wf: "wf_tables (db_tables (ms_store ?m))"
    by (simp add: cancel_db_def wf_tables_def no_tables_def pk_def)
  have k: "snd (sender_sign_key sample_net (ms_key ?m) ?m) = ?m" "f_id ?f = ''f''"
    by (simp_all add: sender_sign_key_def file_meta_def)
  obtain r m' where run: "?run = (r, m')" by fastforce
  from cancelled_while_writing [of sample_net ?f sample_net "ms_key ?m" ?m, unfolded k, OF ok wf run]
  show ?thesis using ok run by simp
qed

end
