(* ===== verification/Receive.thy ===== *)
theory Receive
  imports GroupChats Downloads
begin

text \<open>
  The receiving half of \<open>internal/messenger/messages.go\<close>, with \<open>retryFailedChunks\<close> of
  \<open>chunks.go\<close>: messages that come over a data channel; messages whose blocks Muninn announces,
  from the directory's records to the history, with the cursor of each recipient and the list
  of what is to be tried again; and reading the history.
\<close>

section \<open>Messages over a data channel\<close>

text \<open>One turn of \<open>processRTCMessages\<close>; \<open>time.IsZero\<close> is \<open>zero_time\<close>.\<close>

definition first_part :: "string \<Rightarrow> string" where
  "first_part s = hd (SplitN2 s (CHR '':''))"

definition rtc_message :: "codec \<Rightarrow> net \<Rightarrow> RtcChat \<Rightarrow> Messenger \<Rightarrow> Messenger" where
  "rtc_message c net msg m =
     (case checkInviteText c net (rc_text msg) m of (displayText, m1) \<Rightarrow>
      case findPeerByID net (rc_from msg) m1 of (p, m2) \<Rightarrow>
        let fromKey = (case p of None \<Rightarrow> rc_from msg | Some p \<Rightarrow> Key p);
            fromLogin = (case p of None \<Rightarrow> first_part (rc_from msg) | Some p \<Rightarrow> peer_login p);
            cm = \<lparr>cm_from = fromLogin, cm_chat = fromKey, cm_text = displayText,
              cm_time = (if rc_time msg = zero_time then n_now net else rc_time msg), cm_id = rc_msg msg, cm_files = []\<rparr>
        in case store (SaveMessage (n_now net) (rc_msg msg) fromKey fromLogin fromKey (enc_msg c cm) (cm_time cm)) m2 of
             (Ret _, m3) \<Rightarrow> notify (MessageEvent cm) m3
           | (_, m3) \<Rightarrow> m3)"

definition processRTCMessages :: "codec \<Rightarrow> net \<Rightarrow> Messenger \<Rightarrow> Messenger" where
  "processRTCMessages c net m =
     (case rtc_chat (ms_rtc m) of
        [] \<Rightarrow> m
      | msg # rest \<Rightarrow> rtc_message c net msg (m\<lparr>ms_rtc := (ms_rtc m)\<lparr>rtc_chat := rest\<rparr>\<rparr>))"

section \<open>Collecting a message\<close>

text \<open>The retry record of every block, before anything else.\<close>

fun track_records :: "net \<Rightarrow> string \<Rightarrow> ChunkRecord list \<Rightarrow> Messenger \<Rightarrow> bool \<times> Messenger" where
  "track_records net msgID [] m = (True, m)"
| "track_records net msgID (r # rs) m =
     (case store (StoreFailedChunk (n_now net) msgID (cr_index r) (cr_recipient r) (cr_ttl r)) m of
        (Ret _, m1) \<Rightarrow> track_records net msgID rs m1
      | (_, m1) \<Rightarrow> (False, m1))"

text \<open>The blocks that are held and have the announced hash, one for each index.\<close>

fun collect_blocks ::
    "crypto_lib \<Rightarrow> net \<Rightarrow> ChunkRecord list \<Rightarrow> int list \<Rightarrow> bytes list \<Rightarrow> Messenger \<Rightarrow> bytes list \<times> Messenger" where
  "collect_blocks L net [] seen got m = (got, m)"
| "collect_blocks L net (r # rs) seen got m =
     (if cr_index r \<in> set seen then collect_blocks L net rs seen got m
      else (case getChunkData net r m of
          (None, m1) \<Rightarrow> collect_blocks L net rs seen got
             (snd (store (StoreFailedChunk (n_now net) (cr_file r) (cr_index r) (cr_recipient r)
                (if cr_ttl r \<le> 0 then 604800 else cr_ttl r)) m1))
        | (Some data, m1) \<Rightarrow>
            if cr_hash r \<noteq> [] \<and> RegisteredHash L data \<noteq> cr_hash r
            then collect_blocks L net rs seen got (snd (store (DeleteChunk (cr_file r) (cr_index r)) m1))
            else collect_blocks L net rs (cr_index r # seen) (got @ [data]) m1))"

text \<open>\<open>None\<close> while a block is not an envelope or some are missing.\<close>

definition complete_envelopes :: "codec \<Rightarrow> bytes list \<Rightarrow> Envelope list option" where
  "complete_envelopes c got =
     (let envs = List.map_filter (dec_envelope c) got in
      if got = [] \<or> length envs \<noteq> length got then None
      else if int (length envs) < env_total (hd envs) then None
      else Some envs)"

text \<open>Whose keys open a message: the group's if the recipient is one.\<close>

definition or_key :: "string \<Rightarrow> bytes \<Rightarrow> bytes" where
  "or_key s k = (case DecodeKey s of Ret b \<Rightarrow> b | _ \<Rightarrow> k)"

definition reading_keys :: "string \<Rightarrow> Messenger \<Rightarrow> (bytes \<times> bytes) \<times> Messenger" where
  "reading_keys recipientID m =
     (let own = (k_enc_private (ms_keys m), k_enc_public (ms_keys m)) in
      if recipientID = [] \<or> recipientID = ms_key m then (own, m)
      else (case store (GetGroupChat (first_part recipientID)) m of
          (Ret gc, m1) \<Rightarrow> ((or_key (g_enc_private gc) (fst own), or_key (g_enc_public gc) (snd own)), m1)
        | (_, m1) \<Rightarrow> (own, m1)))"

definition chat_of :: "string \<Rightarrow> Peer \<Rightarrow> Messenger \<Rightarrow> string \<times> Messenger" where
  "chat_of recipientID sender m =
     (if recipientID = [] \<or> recipientID = ms_key m then (Key sender, m)
      else (case store (GetGroupChat (first_part recipientID)) m of
          (Ret gc, m1) \<Rightarrow> (first_part recipientID, m1)
        | (_, m1) \<Rightarrow> (recipientID, m1)))"

definition read_payload :: "codec \<Rightarrow> net \<Rightarrow> bytes \<Rightarrow> MessagePayload" where
  "read_payload c net plaintext =
     (let payload = (case dec_payload c plaintext of
            None \<Rightarrow> \<lparr>mp_text = string_of plaintext, mp_time = zero_time, mp_files = []\<rparr> | Some p \<Rightarrow> p)
      in payload\<lparr>mp_time := (if mp_time payload = zero_time then n_now net else mp_time payload),
           mp_files := withoutLocalFilePaths (mp_files payload)\<rparr>)"

fun process_files :: "codec \<Rightarrow> crypto_lib \<Rightarrow> net \<Rightarrow> FileMeta list \<Rightarrow> string \<Rightarrow> Messenger \<Rightarrow> unit go \<times> Messenger" where
  "process_files c L net [] senderID m = (Ret (), m)"
| "process_files c L net (f # fs) senderID m =
     (case processReceivedFile c L net f senderID m of
        (Panic e, m1) \<Rightarrow> (Panic e, m1)
      | (_, m1) \<Rightarrow> process_files c L net fs senderID m1)"

text \<open>What becomes of the plaintext of a message.\<close>

definition deliver_message ::
    "codec \<Rightarrow> crypto_lib \<Rightarrow> net \<Rightarrow> string \<Rightarrow> string \<Rightarrow> string \<Rightarrow> Peer \<Rightarrow> MessagePayload \<Rightarrow> Messenger \<Rightarrow> unit go \<times> Messenger" where
  "deliver_message c L net msgID senderID recipientID sender payload m =
     (case chat_of recipientID sender m of (chatID, m1) \<Rightarrow>
      case checkInviteText c net (mp_text payload) m1 of (displayText, m2) \<Rightarrow>
      case process_files c L net (mp_files payload) senderID m2 of
        (Panic e, m3) \<Rightarrow> (Panic e, m3)
      | (_, m3) \<Rightarrow>
         (let msg = \<lparr>cm_from = peer_login sender, cm_chat = chatID, cm_text = displayText, cm_time = mp_time payload,
                cm_id = msgID, cm_files = mp_files payload\<rparr>
          in case store (SaveMessage (n_now net) msgID (Key sender) (peer_login sender) chatID (enc_msg c msg) (cm_time msg)) m3 of
               (Ret _, m4) \<Rightarrow> (Ret (), notify (MessageEvent msg) (snd (store (DeleteFailedMessage msgID) m4)))
             | (_, m4) \<Rightarrow> (Ret (), m4)))"

definition open_message ::
    "codec \<Rightarrow> crypto_lib \<Rightarrow> net \<Rightarrow> string \<Rightarrow> ChunkRecord \<Rightarrow> Envelope list \<Rightarrow> Messenger \<Rightarrow> unit go \<times> Messenger" where
  "open_message c L net msgID rec envelopes m =
     (case findPeerByKey net (cr_sender rec) m of
        (None, m1) \<Rightarrow> (Ret (), m1)
      | (Some sender, m1) \<Rightarrow>
         (case DecodeKey (peer_sign sender) of
            Err e \<Rightarrow> (Ret (), m1)
          | Panic e \<Rightarrow> (Panic e, m1)
          | Ret signKey \<Rightarrow>
             if cr_persist rec then (Ret (), snd (store (DeleteFailedMessage msgID) m1))
             else (case reading_keys (cr_recipient rec) m1 of ((encPrivate, encPublic), m2) \<Rightarrow>
               case AssembleAndDecrypt L envelopes encPrivate encPublic signKey of
                 Err e \<Rightarrow> (Ret (), m2)
               | Panic e \<Rightarrow> (Panic e, m2)
               | Ret plaintext \<Rightarrow>
                   deliver_message c L net msgID (cr_sender rec) (cr_recipient rec) sender (read_payload c net plaintext) m2)))"

text \<open>The blocks of a message that is not in the history yet.\<close>

definition collect_new ::
    "codec \<Rightarrow> crypto_lib \<Rightarrow> net \<Rightarrow> string \<Rightarrow> ChunkRecord list \<Rightarrow> Messenger \<Rightarrow> bool go \<times> Messenger" where
  "collect_new c L net msgID records m =
     (case track_records net msgID records m of
        (False, m1) \<Rightarrow> (Ret False, m1)
      | (True, m1) \<Rightarrow>
         (case collect_blocks L net records [] [] m1 of (got, m2) \<Rightarrow>
          case complete_envelopes c got of
            None \<Rightarrow> (Ret True, m2)
          | Some envelopes \<Rightarrow>
              (case open_message c L net msgID (hd records) envelopes m2 of
                 (Panic e, m3) \<Rightarrow> (Panic e, m3)
               | (_, m3) \<Rightarrow> (Ret True, m3))))"

definition find_message :: "string \<Rightarrow> Messenger \<Rightarrow> bool \<times> Messenger" where
  "find_message msgID m = (case store (FindMessageById msgID) m of (Ret b, m1) \<Rightarrow> (b, m1) | (_, m1) \<Rightarrow> (False, m1))"

definition collectAndProcessMessage ::
    "codec \<Rightarrow> crypto_lib \<Rightarrow> net \<Rightarrow> string \<Rightarrow> ChunkRecord list \<Rightarrow> Messenger \<Rightarrow> bool go \<times> Messenger" where
  "collectAndProcessMessage c L net msgID records m =
     (if records = [] then (Ret False, m)
      else (case tryProcessMsg msgID m of (ok, m1) \<Rightarrow>
        if \<not> ok then (Ret False, m1)
        else (case find_message msgID m1 of (hasMsg, m2) \<Rightarrow>
          case (if hasMsg then (Ret True, snd (store (DeleteFailedMessage msgID) m2))
                else collect_new c L net msgID records m2) of (r, m3) \<Rightarrow> (r, releaseProcessMsg msgID m3))))"

section \<open>Asking the directory\<close>

text \<open>The blocks of messages that are neither in the history nor on the retry list.\<close>

fun unseen_records :: "ChunkRecord list \<Rightarrow> Messenger \<Rightarrow> ChunkRecord list \<times> Messenger" where
  "unseen_records [] m = ([], m)"
| "unseen_records (r # rs) m =
     (case IsChunkFailed (cr_file r) (cr_index r) (ms_store m) of (failed, d) \<Rightarrow>
      let m1 = m\<lparr>ms_store := d\<rparr> in
      if failed then unseen_records rs m1
      else (case find_message (cr_file r) m1 of (hasMsg, m2) \<Rightarrow>
        if hasMsg then unseen_records rs m2
        else (case unseen_records rs m2 of (out, m3) \<Rightarrow> (r # out, m3))))"

definition updated_at :: "ChunkRecord \<Rightarrow> int" where
  "updated_at r = (if cr_updated r = 0 then cr_created r else cr_updated r)"

fun collect_all ::
    "codec \<Rightarrow> crypto_lib \<Rightarrow> net \<Rightarrow> (string \<times> ChunkRecord list) list \<Rightarrow> Messenger \<Rightarrow> bool go \<times> Messenger" where
  "collect_all c L net [] m = (Ret True, m)"
| "collect_all c L net ((msgID, rs) # rest) m =
     (case collectAndProcessMessage c L net msgID rs m of
        (Ret ok, m1) \<Rightarrow>
          (case collect_all c L net rest m1 of
             (Ret safe, m2) \<Rightarrow> (Ret (ok \<and> safe), m2)
           | (e, m2) \<Rightarrow> (e, m2))
      | (e, m1) \<Rightarrow> (e, m1))"

fun retry_each ::
    "codec \<Rightarrow> crypto_lib \<Rightarrow> net \<Rightarrow> FailedChunk list \<Rightarrow> string list \<Rightarrow> Messenger \<Rightarrow> unit go \<times> Messenger" where
  "retry_each c L net [] seenFile m = (Ret (), m)"
| "retry_each c L net (fc # fcs) seenFile m =
     (if fc_created fc + fc_ttl fc \<le> unix (n_now net)
      then retry_each c L net fcs seenFile (snd (store (DeleteFailedChunk (fc_file fc) (fc_index fc)) m))
      else if fc_file fc \<in> set seenFile then retry_each c L net fcs seenFile m
      else (case n_records net (fc_file fc) of
          None \<Rightarrow> retry_each c L net fcs (fc_file fc # seenFile) m
        | Some records \<Rightarrow>
            if records = [] then retry_each c L net fcs (fc_file fc # seenFile) m
            else (case collectAndProcessMessage c L net (fc_file fc) records m of
                (Panic e, m1) \<Rightarrow> (Panic e, m1)
              | (_, m1) \<Rightarrow> retry_each c L net fcs (fc_file fc # seenFile) m1)))"

definition retryFailedChunks :: "codec \<Rightarrow> crypto_lib \<Rightarrow> net \<Rightarrow> string \<Rightarrow> Messenger \<Rightarrow> unit go \<times> Messenger" where
  "retryFailedChunks c L net recipientID m =
     (case store (ListFailedChunks recipientID) m of
        (Ret failed, m1) \<Rightarrow> retry_each c L net failed [] m1
      | (_, m1) \<Rightarrow> (Ret (), m1))"

text \<open>
  What is done with a page of announcements: every new message is collected, and the cursor
  moves to the latest announcement if each of them was at least put on the retry list.
\<close>

definition scan_page ::
    "codec \<Rightarrow> crypto_lib \<Rightarrow> net \<Rightarrow> string \<Rightarrow> int \<Rightarrow> ChunkRecord list \<Rightarrow> Messenger \<Rightarrow> unit go \<times> Messenger" where
  "scan_page c L net recipientID lastCheck records m =
     (case unseen_records records m of (unseen, m1) \<Rightarrow>
      case collect_all c L net (group_by cr_file unseen) m1 of
        (Panic e, m2) \<Rightarrow> (Panic e, m2)
      | (Err e, m2) \<Rightarrow> (Err e, m2)
      | (Ret safe, m2) \<Rightarrow>
         (let newLastCheck = fold (\<lambda>r n. max n (updated_at r)) records lastCheck in
          (Ret (), if safe \<and> lastCheck < newLastCheck then snd (store (SetLastChunkCheck recipientID newLastCheck) m2)
                   else m2)))"

definition checkRecipientMessages :: "codec \<Rightarrow> crypto_lib \<Rightarrow> net \<Rightarrow> string \<Rightarrow> Messenger \<Rightarrow> unit go \<times> Messenger" where
  "checkRecipientMessages c L net recipientID m =
     (case GetLastChunkCheck recipientID (ms_store m) of (lastCheck, d) \<Rightarrow>
      let m1 = m\<lparr>ms_store := d\<rparr> in
      case n_for net recipientID (lastCheck - 1) of
        None \<Rightarrow> (Ret (), m1)
      | Some records \<Rightarrow>
          if records = [] then retryFailedChunks c L net recipientID m1
          else (case scan_page c L net recipientID lastCheck records m1 of
              (Panic e, m2) \<Rightarrow> (Panic e, m2)
            | (_, m2) \<Rightarrow> retryFailedChunks c L net recipientID m2))"

fun check_each :: "codec \<Rightarrow> crypto_lib \<Rightarrow> net \<Rightarrow> string list \<Rightarrow> Messenger \<Rightarrow> unit go \<times> Messenger" where
  "check_each c L net [] m = (Ret (), m)"
| "check_each c L net (r # rs) m =
     (case checkRecipientMessages c L net r m of
        (Panic e, m1) \<Rightarrow> (Panic e, m1)
      | (_, m1) \<Rightarrow> check_each c L net rs m1)"

definition checkPendingMessages :: "codec \<Rightarrow> crypto_lib \<Rightarrow> net \<Rightarrow> Messenger \<Rightarrow> unit go \<times> Messenger" where
  "checkPendingMessages c L net m =
     (case checkRecipientMessages c L net (ms_key m) m of
        (Panic e, m1) \<Rightarrow> (Panic e, m1)
      | (_, m1) \<Rightarrow>
         (case store GetGroupChats m1 of
            (Ret groups, m2) \<Rightarrow> check_each c L net (map (\<lambda>g. g_uid g @ '':'' @ g_sign_public g) groups) m2
          | (_, m2) \<Rightarrow> (Ret (), m2)))"

section \<open>The history\<close>

definition MarkMessageRead :: "crypto_lib \<Rightarrow> net \<Rightarrow> string \<Rightarrow> Messenger \<Rightarrow> unit go" where
  "MarkMessageRead L net msgID m =
     (case Sign L (k_sign_private (ms_keys m)) (bytes_of (''muninn/read/v1'' @ [CHR 0x0A] @ msgID)) of
        Err e \<Rightarrow> Err e
      | Panic e \<Rightarrow> Panic e
      | Ret sig \<Rightarrow>
         if n_read net \<lparr>rd_recipient = ms_key m, rd_file = msgID, rd_sig = b64_encode sig\<rparr> then Ret () else Err ''read chunk'')"

fun read_history :: "codec \<Rightarrow> bytes list \<Rightarrow> Messenger \<Rightarrow> ChatMessage list \<times> Messenger" where
  "read_history c [] m = ([], m)"
| "read_history c (data # rest) m =
     (case dec_msg c data of
        None \<Rightarrow> read_history c rest m
      | Some msg \<Rightarrow>
         (case restoreDownloadedFilePaths msg m of (msg1, m1) \<Rightarrow>
          case read_history c rest m1 of (msgs, m2) \<Rightarrow> (msg1 # msgs, m2)))"

definition MessengerGetMessages :: "codec \<Rightarrow> string \<Rightarrow> Messenger \<Rightarrow> ChatMessage list \<times> Messenger" where
  "MessengerGetMessages c peerID m =
     (case store (GetMessages peerID) m of
        (Ret dataList, m1) \<Rightarrow> read_history c dataList m1
      | (_, m1) \<Rightarrow> ([], m1))"

definition MessengerGetMessagesDesc :: "codec \<Rightarrow> string \<Rightarrow> int \<Rightarrow> int \<Rightarrow> Messenger \<Rightarrow> ChatMessage list \<times> Messenger" where
  "MessengerGetMessagesDesc c peerID limit offset m =
     (case store (GetMessagesDesc peerID limit offset) m of
        (Ret dataList, m1) \<Rightarrow> read_history c dataList m1
      | (_, m1) \<Rightarrow> ([], m1))"

end
