(* ===== verification/DeliverySafety.thy ===== *)
theory DeliverySafety
  imports Delivery
begin

text \<open>
  What a delivery run leaves behind: a pending block is marked as placed only after another
  peer's clean acknowledgement, and with one connected peer that acknowledges, every block is.
\<close>

section \<open>Accepting a message\<close>

lemma aside_store_read:
  assumes "f (ms_store m) = (x, d)" "db_tables d = db_tables (ms_store m)"
  shows "store f m = (x, m\<lparr>ms_store := d\<rparr>)" "aside m (m\<lparr>ms_store := d\<rparr>)"
  using assms by (simp_all add: aside_def store_def)

lemma GetGroupChat_tables: "db_tables (snd (GetGroupChat uid d)) = db_tables d"
  by (auto simp: GetGroupChat_def db_then_def scan_row_def db_err_def db_ret_def sql_read_def sql_def
      split: prod.splits go.splits option.splits)

lemma aside_find_recipient: "find_recipient net to m = (r, m') \<Longrightarrow> aside m m'"
proof -
  assume run: "find_recipient net to m = (r, m')"
  obtain p m1 where f: "findPeerByKey net to m = (p, m1)" by fastforce
  have 1: "aside m m1" by (rule aside_findPeerByKey [OF f])
  show ?thesis
  proof (cases p)
    case None
    obtain x d where g: "GetGroupChat to (ms_store m1) = (x, d)" by fastforce
    have "db_tables d = db_tables (ms_store m1)" using GetGroupChat_tables [of to "ms_store m1"] g by simp
    note r = aside_store_read [where f = "GetGroupChat to" and m = m1, OF g this]
    have "m' = m1\<lparr>ms_store := d\<rparr>" using run f None r(1) by (cases x) (simp_all add: find_recipient_def)
    then show ?thesis using 1 r(2) aside_trans by blast
  qed (use run f 1 in \<open>simp add: find_recipient_def\<close>)
qed

lemma aside_queue:
  assumes "store (QueueOutgoing now uid login sender chat data sentAt cs) m = (y, m')" "y \<noteq> Ret ()"
  shows "aside m m'"
proof -
  obtain x d where q: "QueueOutgoing now uid login sender chat data sentAt cs (ms_store m) = (x, d)" by fastforce
  have "db_tables d = db_tables (ms_store m)"
    using assms q by (cases x) (auto simp: store_def QueueOutgoing_def intro: transaction_atomic)
  then show ?thesis using assms q by (auto simp: store_def aside_def)
qed

text \<open>What is left of a message that is accepted: the steps before its queueing concern only the peers.\<close>

definition queued_as :: "codec \<Rightarrow> net \<Rightarrow> outgoingMessage \<Rightarrow> Messenger \<Rightarrow> Messenger \<Rightarrow> bool" where
  "queued_as c net og m m' \<longleftrightarrow> (\<exists>m1 d login user. aside m m1 \<and>
     QueueOutgoing (n_now net) (cm_id (og_message og)) login user (cm_chat (og_message og)) (enc_msg c (og_message og))
       (n_now net) (og_chunks og) (ms_store m1) = (Ret (), d) \<and>
     m' = notify (MessageEvent (og_message og)) (m1\<lparr>ms_store := d\<rparr>))"

lemma queued_asI:
  assumes "store (QueueOutgoing (n_now net) (cm_id msg) login user (cm_chat msg) (enc_msg c msg) (n_now net) cs) m1 = (Ret u, m2)"
    "aside m m1"
  shows "queued_as c net \<lparr>og_message = msg, og_peer = peer, og_chunks = cs\<rparr> m (notify (MessageEvent msg) m2)"
proof -
  obtain d where "QueueOutgoing (n_now net) (cm_id msg) login user (cm_chat msg) (enc_msg c msg) (n_now net) cs (ms_store m1) = (Ret (), d)"
      "m2 = m1\<lparr>ms_store := d\<rparr>"
    using assms(1) by (auto simp: store_def split: prod.splits)
  then show ?thesis
    using assms(2) unfolding queued_as_def by (intro exI [of _ m1] exI [of _ d] exI [of _ login] exI [of _ user]) simp
qed

lemma prepareOutgoing_outcome:
  assumes run: "prepareOutgoing c L net to txt paths ttl m = (r, m')"
  shows "(\<forall>og. r \<noteq> Ret og) \<and> aside m m' \<or> (\<exists>og. r = Ret og \<and> queued_as c net og m m')"
proof (cases "ms_closed m")
  case True
  then show ?thesis using run by (auto simp: prepareOutgoing_def)
next
  case up: False
  obtain q m1 where q: "find_recipient net to m = (q, m1)" by fastforce
  have a: "aside m m1" by (rule aside_find_recipient [OF q])
  have queue: "aside m m2" if "store (QueueOutgoing now uid login sender chat data sentAt cs) m1 = (y, m2)" "y \<noteq> Ret ()"
    for now uid login sender chat data sentAt cs y m2
    by (rule aside_trans [OF a aside_queue [OF that]])
  show ?thesis
    using run up a by (auto simp: prepareOutgoing_def Let_def q split: option.splits go.splits prod.splits
        intro: queued_asI [OF _ a] dest: queue)
qed

text \<open>
  C23. Accepting is all or nothing: \<open>prepareOutgoing\<close> either answers with the message and has
  stored it with every encrypted block and a queue entry for each, or it answers with an error
  and history, blocks and queue are as before and nobody was told; whatever fails in between -
  an unreadable attachment, the random source, a key, the database at any statement.
\<close>

theorem send_all_or_nothing:
  assumes "prepareOutgoing c L net to txt paths ttl m = (r, m')"
  shows "case r of
     Ret og \<Rightarrow> (\<exists>row. m_uid row = cm_id (og_message og) \<and> m_data row = enc_msg c (og_message og) \<and>
         t_messages (db_tables (ms_store m')) = t_messages (db_tables (ms_store m)) @ [row]) \<and>
       t_chunks (db_tables (ms_store m')) = t_chunks (db_tables (ms_store m)) @ map payload_of (og_chunks og) \<and>
       t_pending (db_tables (ms_store m')) = t_pending (db_tables (ms_store m))
         @ map (\<lambda>p. p\<lparr>pc_placed := False\<rparr>) (og_chunks og) \<and>
       last (ms_events m') = MessageEvent (og_message og)
   | _ \<Rightarrow> t_messages (db_tables (ms_store m')) = t_messages (db_tables (ms_store m)) \<and>
       t_chunks (db_tables (ms_store m')) = t_chunks (db_tables (ms_store m)) \<and>
       t_pending (db_tables (ms_store m')) = t_pending (db_tables (ms_store m)) \<and>
       filter (\<lambda>e. e \<noteq> PeersChanged) (ms_events m') = filter (\<lambda>e. e \<noteq> PeersChanged) (ms_events m)"
  using prepareOutgoing_outcome [OF assms]
proof
  assume "(\<forall>og. r \<noteq> Ret og) \<and> aside m m'"
  then show ?thesis by (cases r) (simp_all add: aside_def)
next
  assume "\<exists>og. r = Ret og \<and> queued_as c net og m m'"
  then obtain og m1 d login user where r: "r = Ret og" "aside m m1" "m' = notify (MessageEvent (og_message og)) (m1\<lparr>ms_store := d\<rparr>)"
    and q: "QueueOutgoing (n_now net) (cm_id (og_message og)) login user (cm_chat (og_message og)) (enc_msg c (og_message og))
       (n_now net) (og_chunks og) (ms_store m1) = (Ret (), d)"
    unfolding queued_as_def by blast
  then show ?thesis using QueueOutgoing_effect(2) [OF q] by (auto simp: aside_def notify_def new_message_def)
qed

section \<open>Placed blocks\<close>

definition placed :: "string \<times> int \<Rightarrow> Messenger \<Rightarrow> bool" where
  "placed k m \<longleftrightarrow> (\<exists>r \<in> set (t_pending (db_tables (ms_store m))). pending_key r = k \<and> pc_placed r)"

definition is_pending :: "string \<times> int \<Rightarrow> Messenger \<Rightarrow> bool" where
  "is_pending k m \<longleftrightarrow> (\<exists>r \<in> set (t_pending (db_tables (ms_store m))). pending_key r = k)"

text \<open>A batch with the block was sent to another peer, whose first acknowledgement was clean.\<close>

definition clean_batch :: "net \<Rightarrow> string \<Rightarrow> string \<times> int \<Rightarrow> string \<times> frame \<Rightarrow> bool" where
  "clean_batch net self k x \<longleftrightarrow>
     (\<exists>peerID batch fileID i. x = (peerID, ChunkStoreBatchFrame batch) \<and> peerID \<noteq> self
        \<and> k \<in> (\<lambda>r. (cs_file r, cs_index r)) ` set (cb_chunks batch)
        \<and> (case n_confirm net peerID fileID i of (request, arrivals, race, ended) \<Rightarrow>
             cb_request batch = request \<and> \<not> race
             \<and> (\<exists>ack rest. answers peerID request arrivals = ack # rest \<and> ca_error ack = [])))"

definition acknowledged :: "net \<Rightarrow> string \<Rightarrow> (string \<times> frame) list \<Rightarrow> string \<times> int \<Rightarrow> bool" where
  "acknowledged net self sent k \<longleftrightarrow> (\<exists>x \<in> set sent. clean_batch net self k x)"

definition progress :: "net \<Rightarrow> Messenger \<Rightarrow> Messenger \<Rightarrow> bool" where
  "progress net m m' \<longleftrightarrow> ms_id m' = ms_id m \<and> set (rtc_sent (ms_rtc m)) \<subseteq> set (rtc_sent (ms_rtc m'))
     \<and> (\<forall>k. placed k m' \<longrightarrow> placed k m \<or> acknowledged net (ms_id m) (rtc_sent (ms_rtc m')) k)
     \<and> (\<forall>k. placed k m \<longrightarrow> placed k m')"

lemma acknowledged_mono: "acknowledged net self s k \<Longrightarrow> set s \<subseteq> set s' \<Longrightarrow> acknowledged net self s' k"
  unfolding acknowledged_def by blast

lemma progress_refl [simp]: "progress net m m"
  by (simp add: progress_def)

lemma progress_trans [trans]:
  assumes "progress net a b" "progress net b c"
  shows "progress net a c"
proof -
  have "acknowledged net (ms_id a) (rtc_sent (ms_rtc c)) k" if "acknowledged net (ms_id a) (rtc_sent (ms_rtc b)) k" for k
    using acknowledged_mono [OF that] assms(2) by (simp add: progress_def)
  then show ?thesis using assms unfolding progress_def by (metis (no_types, lifting) order_trans)
qed

lemma progress_same_store:
  "ms_id m' = ms_id m \<Longrightarrow> set (rtc_sent (ms_rtc m)) \<subseteq> set (rtc_sent (ms_rtc m')) \<Longrightarrow> ms_store m' = ms_store m
    \<Longrightarrow> progress net m m'"
  by (simp add: progress_def placed_def)

lemma progress_fold: "(\<And>x m. progress net m (f x m)) \<Longrightarrow> progress net m (fold f xs m)"
proof (induction xs arbitrary: m)
  case (Cons x xs)
  show ?case unfolding fold_simps
    by (rule progress_trans [OF Cons.prems(1) Cons.IH]) (rule Cons.prems)
qed simp

section \<open>Connecting\<close>

lemma CreateOffer_sent: "rtc_sent (snd (CreateOffer ok sdp p w)) = rtc_sent w"
  by (auto simp: CreateOffer_def NewPeerConnection_def Close_def Let_def split: option.splits prod.splits go.splits if_splits)

lemma progress_connect: "progress net m (snd (ConnectPeer net p m))"
proof -
  have "progress net m' (snd (dial net p m'))" for m'
    using CreateOffer_sent [of "n_pion net p" "n_sdp net p" p "ms_rtc m'"]
    by (intro progress_same_store) (auto simp: dial_def rtc_def send_signal_def split: prod.splits go.splits)
  from this [of "dial_start p m"] have "progress net m (snd (dial net p (dial_start p m)))"
    by (rule progress_trans [rotated]) (simp add: progress_same_store dial_start_def)
  moreover have "progress net m' (dial_end p m')" for m' by (simp add: progress_same_store dial_end_def)
  ultimately show ?thesis by (auto simp: ConnectPeer_def split: prod.split intro: progress_trans)
qed

definition only_adds :: "net \<Rightarrow> bool" where
  "only_adds net \<longleftrightarrow> (\<forall>p w. set (rtc_sent w) \<subseteq> set (rtc_sent (n_meet net p w)))"

lemma progress_reach:
  assumes "only_adds net" "reach net p m = (ok, m')"
  shows "progress net m m'"
proof -
  have wait: "progress net m1 m2" if "waitForPeerConnection net p m1 = (b, m2)" for m1 m2 b
  proof -
    have "m2 = m1 \<or> m2 = m1\<lparr>ms_rtc := n_meet net p (ms_rtc m1)\<rparr>"
      using that by (auto simp: waitForPeerConnection_def meet_def Let_def split: if_splits)
    then show ?thesis
    proof
      assume "m2 = m1\<lparr>ms_rtc := n_meet net p (ms_rtc m1)\<rparr>"
      moreover have "set (rtc_sent (ms_rtc m1)) \<subseteq> set (rtc_sent (n_meet net p (ms_rtc m1)))"
        using assms(1) unfolding only_adds_def by blast
      ultimately show ?thesis by (intro progress_same_store) simp_all
    qed simp
  qed
  show ?thesis
    using assms(2) progress_connect [of net m p]
    by (auto simp: reach_def split: if_splits prod.splits go.splits dest!: wait intro: progress_trans)
qed

section \<open>Handing a batch over\<close>

lemma MarkChunkPlaced_cases:
  assumes "MarkChunkPlaced f i d = (r, d')"
  shows "db_tables d' = db_tables d \<or> db_tables d' = (db_tables d)\<lparr>t_pending := tbl_update (\<lambda>r. pc_file r = f \<and> pc_index r = i)
       (\<lambda>r. r\<lparr>pc_placed := True\<rparr>) (t_pending (db_tables d))\<rparr>"
  using assms sql_write_either unfolding MarkChunkPlaced_def by blast

lemma placed_update:
  "(\<exists>r \<in> set (tbl_update (\<lambda>r. pc_file r = f \<and> pc_index r = i) (\<lambda>r. r\<lparr>pc_placed := True\<rparr>) t). pending_key r = k \<and> pc_placed r)
    \<longleftrightarrow> (\<exists>r \<in> set t. pending_key r = k \<and> pc_placed r) \<or> k = (f, i) \<and> (\<exists>r \<in> set t. pending_key r = k)"
  by (induction t) (auto simp: tbl_update_def pending_key_def)

lemma pending_update:
  "(\<exists>r \<in> set (tbl_update P (\<lambda>r. r\<lparr>pc_placed := True\<rparr>) t). pending_key r = k) \<longleftrightarrow> (\<exists>r \<in> set t. pending_key r = k)"
  by (induction t) (auto simp: tbl_update_def pending_key_def)

lemma mark_placed_effect:
  "ms_id (mark_placed c m) = ms_id m \<and> ms_rtc (mark_placed c m) = ms_rtc m
    \<and> ms_closed (mark_placed c m) = ms_closed m
    \<and> (placed k (mark_placed c m) \<longrightarrow> placed k m \<or> k = pending_key c)
    \<and> (placed k m \<longrightarrow> placed k (mark_placed c m))
    \<and> (is_pending k (mark_placed c m) = is_pending k m)"
proof -
  obtain r d where d: "MarkChunkPlaced (pc_file c) (pc_index c) (ms_store m) = (r, d)" by fastforce
  have m: "mark_placed c m = m\<lparr>ms_store := d\<rparr>" using d by (simp add: mark_placed_def store_def)
  have "is_pending k (m\<lparr>ms_store := d\<rparr>) = is_pending k m"
    using MarkChunkPlaced_cases [OF d] by (elim disjE) (simp_all add: is_pending_def pending_update)
  moreover have "(placed k (m\<lparr>ms_store := d\<rparr>) \<longrightarrow> placed k m \<or> k = pending_key c) \<and> (placed k m \<longrightarrow> placed k (m\<lparr>ms_store := d\<rparr>))"
    using MarkChunkPlaced_cases [OF d] by (elim disjE) (simp_all add: placed_def placed_update pending_key_def [of c])
  ultimately show ?thesis by (simp add: m)
qed

lemma marks_placed:
  "ms_id (fold mark_placed cs m) = ms_id m \<and> ms_rtc (fold mark_placed cs m) = ms_rtc m
    \<and> ms_closed (fold mark_placed cs m) = ms_closed m
    \<and> (placed k (fold mark_placed cs m) \<longrightarrow> placed k m \<or> k \<in> pending_key ` set cs)
    \<and> (placed k m \<longrightarrow> placed k (fold mark_placed cs m))
    \<and> (is_pending k (fold mark_placed cs m) = is_pending k m)"
proof (induction cs arbitrary: m)
  case (Cons c cs)
  show ?case using Cons [of "mark_placed c m"] mark_placed_effect [of c m k] by auto
qed simp

lemma SendChunkStoreBatchConfirmed_sent:
  assumes "SendChunkStoreBatchConfirmed request arrivals race ended p batch w = (r, w')"
  shows "set (rtc_sent w) \<subseteq> set (rtc_sent w')"
    and "r = Ret () \<Longrightarrow> (p, ChunkStoreBatchFrame (batch\<lparr>cb_request := request\<rparr>)) \<in> set (rtc_sent w')
       \<and> (\<exists>ack rest. answers p request arrivals = ack # rest \<and> ca_error ack = []) \<and> \<not> race"
proof -
  let ?w = "w\<lparr>rtc_acks := (rtc_acks w)(request \<mapsto> \<lparr>w_peer = p, w_result = None\<rparr>)\<rparr>"
  let ?f = "ChunkStoreBatchFrame (batch\<lparr>cb_request := request\<rparr>)"
  obtain s w1 where s: "sendEnvelope p ?f ?w = (s, w1)" by fastforce
  have c: "(r = Ret () \<longleftrightarrow> s = Ret () \<and> (\<exists>ack rest. answers p request arrivals = ack # rest \<and> ca_error ack = []) \<and> \<not> race)"
      "rtc_sent w' = rtc_sent w1"
    using confirmed_cases [where request = request and arrivals = arrivals and race = race and ended = ended and p = p and batch = batch and m = w] assms s by auto
  have "rtc_sent w1 = rtc_sent w @ (if s = Ret () then [(p, ?f)] else [])"
    using sendEnvelope_sent [OF s] by simp
  then show "set (rtc_sent w) \<subseteq> set (rtc_sent w')"
    and "r = Ret () \<Longrightarrow> (p, ?f) \<in> set (rtc_sent w')
       \<and> (\<exists>ack rest. answers p request arrivals = ack # rest \<and> ca_error ack = []) \<and> \<not> race"
    using c by (auto split: if_splits)
qed

lemma progress_batch:
  assumes "p \<noteq> ms_id m"
  shows "progress net m (place_batch net p f parts i m)"
proof -
  define live where "live = filter (\<lambda>c. 0 < remainingChunkTTL (n_now net) c) (block chunkDeliveryBatchSize parts i)"
  let ?batch = "\<lparr>cb_request = [], cb_chunks = map (store_request (n_now net)) live\<rparr>"
  obtain request arrivals race ended where n: "n_confirm net p f i = (request, arrivals, race, ended)" by (metis prod_cases4)
  obtain r w where s: "SendChunkStoreBatchConfirmed request arrivals race ended p ?batch (ms_rtc m) = (r, w)" by fastforce
  let ?m1 = "m\<lparr>ms_rtc := w\<rparr>"
  have step: "place_batch net p f parts i m = (if live = [] then m else if r = Ret () then fold mark_placed live ?m1 else ?m1)"
    unfolding place_batch_def Let_def live_def [symmetric] n prod.case rtc_def s by (cases r) auto
  have one: "progress net m ?m1"
    by (rule progress_same_store) (use SendChunkStoreBatchConfirmed_sent(1) [OF s] in simp_all)
  have all: "progress net m (fold mark_placed live ?m1)" if r: "r = Ret ()"
  proof -
    have sent: "(p, ChunkStoreBatchFrame (?batch\<lparr>cb_request := request\<rparr>)) \<in> set (rtc_sent w)"
        and ack: "\<exists>ack rest. answers p request arrivals = ack # rest \<and> ca_error ack = []" "\<not> race"
      using SendChunkStoreBatchConfirmed_sent(2) [OF s r] by auto
    have "acknowledged net (ms_id m) (rtc_sent w) k" if "k \<in> pending_key ` set live" for k
      unfolding acknowledged_def
    proof (rule bexI [OF _ sent])
      show "clean_batch net (ms_id m) k (p, ChunkStoreBatchFrame (?batch\<lparr>cb_request := request\<rparr>))"
        unfolding clean_batch_def
        by (intro exI [of _ p] exI [of _ "?batch\<lparr>cb_request := request\<rparr>"] exI [of _ f] exI [of _ i])
          (use that assms ack n in \<open>auto simp: store_request_def pending_key_def image_image\<close>)
    qed
    moreover have "placed k ?m1 = placed k m" for k by (simp add: placed_def)
    ultimately show ?thesis
      using marks_placed [of live ?m1] one unfolding progress_def by (simp add: placed_def [of _ m]) metis
  qed
  show ?thesis using one all unfolding step by simp
qed

lemma progress_register: "progress net m (snd (registerChunkLocation net f p parts m))"
  by (rule progress_same_store) (auto simp: registerChunkLocation_def Let_def)

lemma progress_id: "progress net m m' \<Longrightarrow> ms_id m' = ms_id m"
  by (simp add: progress_def)

lemma progress_fold_id:
  assumes "\<And>x m. P (ms_id m) \<Longrightarrow> progress net m (f x m)" "P (ms_id m)"
  shows "progress net m (fold f xs m)"
  using assms(2)
proof (induction xs arbitrary: m)
  case (Cons x xs)
  have step: "progress net m (f x m)" using assms(1) Cons.prems by blast
  then have "P (ms_id (f x m))" using Cons.prems by (simp add: progress_id)
  then show ?case unfolding fold_simps using progress_trans [OF step] Cons.IH by blast
qed simp

lemma progress_file:
  assumes "p \<noteq> ms_id m"
  shows "progress net m (place_file net p entry m)"
proof -
  obtain f parts where e: "entry = (f, parts)" by fastforce
  obtain ok m1 where r: "registerChunkLocation net f p parts m = (ok, m1)" by fastforce
  have 1: "progress net m m1" using progress_register [of net m f p parts] r by simp
  have "progress net m1 (fold (place_batch net p f parts) [0..<block_count chunkDeliveryBatchSize parts] m1)"
    by (rule progress_fold_id [where P = "\<lambda>x. p \<noteq> x"]) (use assms 1 in \<open>auto simp: progress_batch progress_id\<close>)
  then show ?thesis using 1 progress_trans by (auto simp: place_file_def e r)
qed

lemma progress_peers: "only_adds net \<Longrightarrow> progress net m (place_peers net recipient byFile peers m)"
proof (induction peers arbitrary: m)
  case (Cons peer peers)
  obtain ok m1 where r: "reach net (peer_id peer) m = (ok, m1)" by fastforce
  have 1: "progress net m m1" using progress_reach [OF Cons.prems r] .
  have "progress net m1 (fold (place_file net (peer_id peer)) byFile m1)" if "peer_id peer \<noteq> ms_id m"
    by (rule progress_fold_id [where P = "\<lambda>x. peer_id peer \<noteq> x"]) (use that 1 in \<open>auto simp: progress_file progress_id\<close>)
  then show ?case
    using Cons 1 progress_trans by (auto simp: r)
qed simp

lemma progress_recipient: "only_adds net \<Longrightarrow> progress net m (distributeChunksForRecipient net entry m)"
proof -
  assume n: "only_adds net"
  obtain recipient chunks where e: "entry = (recipient, chunks)" by fastforce
  let ?reg = "\<lambda>(fileID, parts) m. snd (registerChunkLocation net fileID (ms_id m) parts m)"
  have "progress net m (fold ?reg (group_by pc_file chunks) m)"
    by (rule progress_fold) (auto simp: progress_register split: prod.split)
  then show ?thesis
    unfolding distributeChunksForRecipient_def e prod.case Let_def by (rule progress_trans) (rule progress_peers [OF n])
qed

text \<open>
  C24. A block is placed only on evidence: whenever delivering marks a pending block as placed,
  a batch with that block was sent to a peer other than this device, and the first answer of
  that peer to that batch, in time, reported no error. Whatever else fails - connecting, the
  directory, the channel, the database - and whoever else answers, the block stays queued; and
  no block that was placed is queued again.
\<close>

theorem placed_only_if_acknowledged:
  assumes "only_adds net" and "m' = distributeChunks net chunks m"
  shows "(placed k m' \<longrightarrow> placed k m \<or> acknowledged net (ms_id m) (rtc_sent (ms_rtc m')) k) \<and> (placed k m \<longrightarrow> placed k m')"
proof -
  have flag: "progress net m (m\<lparr>ms_delivering := b\<rparr>)" for b m by (rule progress_same_store) simp_all
  have "progress net m m'"
    unfolding assms(2) distributeChunks_def Let_def
    by (auto intro!: progress_trans [OF flag progress_trans [OF progress_fold flag]] progress_recipient [OF assms(1)])
  then show ?thesis unfolding progress_def by blast
qed


section \<open>Every block finds a place\<close>

definition ready :: "string \<Rightarrow> Messenger \<Rightarrow> bool" where
  "ready p m \<longleftrightarrow> IsPeerConnected m p \<and> rtc_faults (ms_rtc m) = [] \<and> db_faults (ms_store m) = [] \<and> \<not> ms_closed m"

definition storing :: "net \<Rightarrow> string \<Rightarrow> bool" where
  "storing net p \<longleftrightarrow> (\<forall>f i. case n_confirm net p f i of (request, arrivals, race, ended) \<Rightarrow>
     \<not> race \<and> (\<exists>ack rest. answers p request arrivals = ack # rest \<and> ca_error ack = []))"

lemma accepts_frame:
  "rtc_chans (fold (\<lambda>(p, ack). acceptChunkStoreAck p ack) as w) = rtc_chans w
    \<and> rtc_open (fold (\<lambda>(p, ack). acceptChunkStoreAck p ack) as w) = rtc_open w
    \<and> rtc_faults (fold (\<lambda>(p, ack). acceptChunkStoreAck p ack) as w) = rtc_faults w"
proof (induction as arbitrary: w)
  case (Cons x as)
  have "rtc_chans (acceptChunkStoreAck p ack w) = rtc_chans w \<and> rtc_open (acceptChunkStoreAck p ack w) = rtc_open w
      \<and> rtc_faults (acceptChunkStoreAck p ack w) = rtc_faults w" for p ack
    by (simp add: acceptChunkStoreAck_def split: option.split)
  then show ?case using Cons by (cases x) simp
qed simp

lemma confirmed_ready:
  assumes "IsConnected w p" "rtc_faults w = []" "\<not> race" "answers p request arrivals = ack # rest" "ca_error ack = []"
  shows "\<exists>w'. SendChunkStoreBatchConfirmed request arrivals race ended p batch w = (Ret (), w')
     \<and> IsConnected w' p \<and> rtc_faults w' = []"
proof -
  let ?f = "ChunkStoreBatchFrame (batch\<lparr>cb_request := request\<rparr>)"
  let ?w = "w\<lparr>rtc_acks := (rtc_acks w)(request \<mapsto> \<lparr>w_peer = p, w_result = None\<rparr>)\<rparr>"
  obtain dc where dc: "rtc_chans w p = Some dc" "dc \<in> rtc_open w" using assms(1) by (auto simp: IsConnected_def split: option.splits)
  let ?w1 = "?w\<lparr>rtc_sent := rtc_sent w @ [(p, ?f)]\<rparr>"
  have send: "sendEnvelope p ?f ?w = (Ret (), ?w1)"
    using dc assms(2) by (simp add: sendEnvelope_def dc_send_def)
  let ?w2 = "fold (\<lambda>(p, ack). acceptChunkStoreAck p ack) arrivals ?w1"
  have "rtc_acks ?w2 request = Some \<lparr>w_peer = p, w_result = Some ack\<rparr>"
    using accept_acks [of ?w1 request p None arrivals] assms(4) by simp
  then have "SendChunkStoreBatchConfirmed request arrivals race ended p batch w = (Ret (), ?w2\<lparr>rtc_acks := (rtc_acks ?w2)(request := None)\<rparr>)"
    using send assms(3,5) by (simp add: SendChunkStoreBatchConfirmed_def Let_def)
  moreover have "rtc_chans ?w2 = rtc_chans w" "rtc_open ?w2 = rtc_open w" "rtc_faults ?w2 = []"
    using accepts_frame [of arrivals ?w1] assms(2) by simp_all
  moreover have "IsConnected (?w2\<lparr>rtc_acks := x\<rparr>) p = IsConnected w p" if "rtc_chans ?w2 = rtc_chans w" "rtc_open ?w2 = rtc_open w" for x
    using that by (simp add: IsConnected_def split: option.split)
  ultimately show ?thesis using assms(1) by (intro exI conjI) (assumption, simp, simp)
qed

lemma mark_ready:
  assumes "db_faults (ms_store m) = []"
  shows "db_faults (ms_store (mark_placed c m)) = [] \<and> (is_pending (pending_key c) m \<longrightarrow> placed (pending_key c) (mark_placed c m))"
proof -
  have "(\<exists>r \<in> set (tbl_update (\<lambda>r. pc_file r = pc_file c \<and> pc_index r = pc_index c) (\<lambda>r. r\<lparr>pc_placed := True\<rparr>) t).
      pending_key r = pending_key c \<and> pc_placed r)" if "\<exists>r \<in> set t. pending_key r = pending_key c" for t
    using that by (simp add: placed_update pending_key_def [of c])
  then show ?thesis
    using assms by (simp add: mark_placed_def store_def MarkChunkPlaced_def sql_write_ok is_pending_def placed_def)
qed

lemma marks_ready:
  assumes "db_faults (ms_store m) = []" "\<forall>c \<in> set cs. is_pending (pending_key c) m"
  shows "db_faults (ms_store (fold mark_placed cs m)) = [] \<and> (\<forall>c \<in> set cs. placed (pending_key c) (fold mark_placed cs m))"
  using assms
proof (induction cs arbitrary: m)
  case (Cons c cs)
  have 1: "db_faults (ms_store (mark_placed c m)) = []" "placed (pending_key c) (mark_placed c m)"
    using mark_ready [OF Cons.prems(1), of c] Cons.prems(2) by simp_all
  have 2: "\<forall>x \<in> set cs. is_pending (pending_key x) (mark_placed c m)"
    using Cons.prems(2) mark_placed_effect [of c m] by simp
  show ?case
    using Cons.IH [OF 1(1) 2] marks_placed [of cs "mark_placed c m" "pending_key c"] 1(2) by simp
qed simp

text \<open>What a run keeps, and which blocks it has placed.\<close>

definition places :: "string \<Rightarrow> PendingChunk set \<Rightarrow> Messenger \<Rightarrow> Messenger \<Rightarrow> bool" where
  "places p C m m' \<longleftrightarrow> ready p m' \<and> ms_id m' = ms_id m \<and> (\<forall>k. is_pending k m' = is_pending k m)
     \<and> (\<forall>k. placed k m \<longrightarrow> placed k m') \<and> (\<forall>c \<in> C. placed (pending_key c) m')"

lemma places_refl: "ready p m \<Longrightarrow> places p {} m m"
  by (simp add: places_def)

lemma places_trans: "places p C a b \<Longrightarrow> places p D b c \<Longrightarrow> places p (C \<union> D) a c"
  unfolding places_def by (intro conjI allI impI ballI) (blast | metis)+

lemma places_fold:
  assumes "\<And>x m. x \<in> set xs \<Longrightarrow> ready p m \<Longrightarrow> \<forall>c \<in> C x. is_pending (pending_key c) m \<Longrightarrow> places p (C x) m (f x m)"
    and "ready p m" "\<forall>x \<in> set xs. \<forall>c \<in> C x. is_pending (pending_key c) m"
  shows "places p (\<Union>x \<in> set xs. C x) m (fold f xs m)"
  using assms
proof (induction xs arbitrary: m)
  case (Cons x xs)
  have 1: "places p (C x) m (f x m)" using Cons.prems by simp
  then have "ready p (f x m)" "\<forall>y \<in> set xs. \<forall>c \<in> C y. is_pending (pending_key c) (f x m)"
    using Cons.prems(3) unfolding places_def by (blast, simp del: split_paired_All)
  then have "places p (\<Union>x \<in> set xs. C x) (f x m) (fold f xs (f x m))" using Cons.IH Cons.prems(1) by simp
  from places_trans [OF 1 this] show ?case by simp
qed (simp add: places_refl)

lemma place_batch_places:
  assumes "storing net p" "ready p m" "\<forall>c \<in> set parts. 0 < remainingChunkTTL (n_now net) c"
    and "\<forall>c \<in> set (block chunkDeliveryBatchSize parts i). is_pending (pending_key c) m"
  shows "places p (set (block chunkDeliveryBatchSize parts i)) m (place_batch net p f parts i m)"
proof -
  let ?b = "block chunkDeliveryBatchSize parts i"
  have sub: "set ?b \<subseteq> set parts" by (auto simp: block_eq dest!: in_set_takeD in_set_dropD)
  then have live: "filter (\<lambda>c. 0 < remainingChunkTTL (n_now net) c) ?b = ?b" using assms(3) by (intro filter_True) auto
  let ?batch = "\<lparr>cb_request = [], cb_chunks = map (store_request (n_now net)) ?b\<rparr>"
  obtain request arrivals race ended where n: "n_confirm net p f i = (request, arrivals, race, ended)" by (metis prod_cases4)
  obtain ack rest where ack: "\<not> race" "answers p request arrivals = ack # rest" "ca_error ack = []"
    using assms(1) n unfolding storing_def by (auto dest!: spec [of _ f] spec [of _ i])
  have con: "IsConnected (ms_rtc m) p" "rtc_faults (ms_rtc m) = []" "db_faults (ms_store m) = []" "\<not> ms_closed m"
    using assms(2) by (simp_all add: ready_def IsPeerConnected_def)
  obtain w where w: "SendChunkStoreBatchConfirmed request arrivals race ended p ?batch (ms_rtc m) = (Ret (), w)"
      "IsConnected w p" "rtc_faults w = []"
    using confirmed_ready [OF con(1,2) ack] by blast
  let ?m1 = "m\<lparr>ms_rtc := w\<rparr>"
  have step: "place_batch net p f parts i m = (if ?b = [] then m else fold mark_placed ?b ?m1)"
    unfolding place_batch_def Let_def live n prod.case rtc_def w(1) go.case by simp
  have p1: "is_pending k ?m1 = is_pending k m" "placed k ?m1 = placed k m" for k by (simp_all add: is_pending_def placed_def)
  have "places p (set ?b) m (fold mark_placed ?b ?m1)"
    using marks_ready [of ?m1 ?b] marks_placed [of ?b ?m1] assms(4) con w(2,3)
    by (auto simp: places_def ready_def IsPeerConnected_def p1)
  then show ?thesis unfolding step using places_refl [OF assms(2)] by simp
qed

lemma set_blocks: "0 < n \<Longrightarrow> (\<Union>i \<in> set [0..<block_count n xs]. set (block n xs i)) = set xs"
  using concat_blocks_upto [of n xs] by (metis set_concat set_map image_image)

lemma place_file_places:
  assumes "storing net p" "\<forall>f es. n_place net f es" "ready p m"
    and "\<forall>c \<in> set parts. 0 < remainingChunkTTL (n_now net) c \<and> is_pending (pending_key c) m"
  shows "places p (set parts) m (place_file net p (f, parts) m)"
proof -
  obtain ok m1 where r: "registerChunkLocation net f p parts m = (ok, m1)" by fastforce
  have reg: "ok \<and> ms_store m1 = ms_store m \<and> ms_rtc m1 = ms_rtc m \<and> ms_closed m1 = ms_closed m \<and> ms_id m1 = ms_id m"
    using r assms(2) by (auto simp: registerChunkLocation_def Let_def split: if_splits)
  then have same: "ready p m1" "is_pending k m1 = is_pending k m" "placed k m1 = placed k m" for k
    using assms(3) by (simp_all add: ready_def IsPeerConnected_def is_pending_def placed_def)
  have n: "0 < chunkDeliveryBatchSize" by (simp add: chunkDeliveryBatchSize_def)
  have sub: "set (block chunkDeliveryBatchSize parts i) \<subseteq> set parts" for i
    by (auto simp: block_eq dest!: in_set_takeD in_set_dropD)
  have "places p (\<Union>i \<in> set [0..<block_count chunkDeliveryBatchSize parts]. set (block chunkDeliveryBatchSize parts i)) m1
     (fold (place_batch net p f parts) [0..<block_count chunkDeliveryBatchSize parts] m1)"
    by (rule places_fold) (use assms(1,4) sub same in \<open>auto intro!: place_batch_places\<close>)
  then have "places p (set parts) m1 (fold (place_batch net p f parts) [0..<block_count chunkDeliveryBatchSize parts] m1)"
    by (simp only: set_blocks [OF n])
  then show ?thesis using reg same by (auto simp: place_file_def r places_def)
qed

lemma group_by_set: "(\<Union>e \<in> set (group_by f xs). set (snd e)) = set xs"
  by (auto simp: group_by_def)

text \<open>
  What a run leaves standing, whomever it deals with: the links of the peers in \<open>P\<close>, the queue, and
  what was placed.
\<close>

definition steady :: "string set \<Rightarrow> Messenger \<Rightarrow> Messenger \<Rightarrow> bool" where
  "steady P m m' \<longleftrightarrow> (\<forall>p \<in> P. ready p m \<longrightarrow> ready p m') \<and> ms_id m' = ms_id m \<and> ms_peers m' = ms_peers m
     \<and> (\<forall>k. is_pending k m' = is_pending k m) \<and> (\<forall>k. placed k m \<longrightarrow> placed k m')"

text \<open>While a connection is awaited, those to the peers of \<open>P\<close> stay up.\<close>

definition stays_up :: "net \<Rightarrow> string set \<Rightarrow> bool" where
  "stays_up net P \<longleftrightarrow> (\<forall>q w. \<forall>p \<in> P. IsConnected w p \<and> rtc_faults w = []
     \<longrightarrow> IsConnected (n_meet net q w) p \<and> rtc_faults (n_meet net q w) = [])"

lemma steady_refl [simp]: "steady P m m"
  by (simp add: steady_def)

lemma steadyD:
  assumes "steady P m m'"
  shows "placed k m \<Longrightarrow> placed k m'" "is_pending k m' = is_pending k m" "p \<in> P \<Longrightarrow> ready p m \<Longrightarrow> ready p m'"
    "ms_id m' = ms_id m" "ms_peers m' = ms_peers m"
  using assms unfolding steady_def by blast+

lemma steady_trans [trans]: "steady P a b \<Longrightarrow> steady P b c \<Longrightarrow> steady P a c"
  unfolding steady_def by (intro conjI allI ballI impI) (blast | metis)+

lemma steady_fold: "(\<And>x m. x \<in> set xs \<Longrightarrow> steady P m (f x m)) \<Longrightarrow> steady P m (fold f xs m)"
proof (induction xs arbitrary: m)
  case (Cons x xs)
  have "steady P m (f x m)" using Cons.prems by simp
  also have "steady P (f x m) (fold f xs (f x m))" using Cons.IH Cons.prems by simp
  finally show ?case by simp
qed simp

lemma steady_links:
  assumes "\<And>p. p \<in> P \<Longrightarrow> IsConnected (ms_rtc m) p \<Longrightarrow> rtc_faults (ms_rtc m) = []
      \<Longrightarrow> IsConnected (ms_rtc m') p \<and> rtc_faults (ms_rtc m') = []"
    and "ms_store m' = ms_store m" "ms_closed m' = ms_closed m" "ms_id m' = ms_id m" "ms_peers m' = ms_peers m"
  shows "steady P m m'"
  using assms by (simp add: steady_def ready_def IsPeerConnected_def is_pending_def placed_def)

lemma connected_cong: "rtc_chans w' p = rtc_chans w p \<Longrightarrow> rtc_open w' = rtc_open w \<Longrightarrow> IsConnected w' p = IsConnected w p"
  by (simp add: IsConnected_def split: option.split)

lemma batch_links:
  assumes "SendChunkStoreBatchConfirmed request arrivals race ended q batch w = (r, w')" "rtc_faults w = []"
  shows "rtc_chans w' = rtc_chans w \<and> rtc_open w' = rtc_open w \<and> rtc_faults w' = []"
proof -
  have send: "rtc_chans w2 = rtc_chans w1 \<and> rtc_open w2 = rtc_open w1 \<and> (rtc_faults w1 = [] \<longrightarrow> rtc_faults w2 = [])"
    if "sendEnvelope q f w1 = (x, w2)" for f w1 x w2
    using that by (auto simp: sendEnvelope_def dc_send_def Let_def split: option.splits if_splits list.splits)
  let ?f = "ChunkStoreBatchFrame (batch\<lparr>cb_request := request\<rparr>)"
  let ?w1 = "w\<lparr>rtc_acks := (rtc_acks w)(request \<mapsto> \<lparr>w_peer = q, w_result = None\<rparr>)\<rparr>"
  obtain x w2 where s: "sendEnvelope q ?f ?w1 = (x, w2)" by fastforce
  let ?w3 = "fold (\<lambda>(p, ack). acceptChunkStoreAck p ack) arrivals w2"
  have "\<exists>a. w' = w2\<lparr>rtc_acks := a\<rparr> \<or> w' = ?w3\<lparr>rtc_acks := a\<rparr>"
  proof (cases x)
    case (Ret u)
    then show ?thesis
      using assms(1) s by (auto simp: SendChunkStoreBatchConfirmed_def Let_def split: option.splits if_splits)
  qed (use assms(1) s in \<open>auto simp: SendChunkStoreBatchConfirmed_def Let_def\<close>)
  then show ?thesis using send [OF s] accepts_frame [of arrivals w2] assms(2) by auto
qed

lemma steady_batch: "steady P m (place_batch net q f parts i m)"
proof -
  define live where "live = filter (\<lambda>c. 0 < remainingChunkTTL (n_now net) c) (block chunkDeliveryBatchSize parts i)"
  let ?batch = "\<lparr>cb_request = [], cb_chunks = map (store_request (n_now net)) live\<rparr>"
  obtain request arrivals race ended where n: "n_confirm net q f i = (request, arrivals, race, ended)" by (metis prod_cases4)
  obtain r w where s: "SendChunkStoreBatchConfirmed request arrivals race ended q ?batch (ms_rtc m) = (r, w)" by fastforce
  let ?m1 = "m\<lparr>ms_rtc := w\<rparr>"
  have step: "place_batch net q f parts i m = (if live = [] then m else if r = Ret () then fold mark_placed live ?m1 else ?m1)"
    unfolding place_batch_def Let_def live_def [symmetric] n prod.case rtc_def s by (cases r) auto
  have "steady P m ?m1"
    by (rule steady_links) (use batch_links [OF s] connected_cong [of w _ "ms_rtc m"] in simp_all)
  moreover have "steady P ?m1 (fold mark_placed live ?m1)"
  proof (rule steady_fold)
    fix c and m :: Messenger
    have "ms_peers (mark_placed c m) = ms_peers m" by (simp add: mark_placed_def store_def split: prod.split)
    moreover have "ready p (mark_placed c m)" if "ready p m" for p
      using that mark_placed_effect [of c m] mark_ready [of m c] by (simp add: ready_def IsPeerConnected_def)
    ultimately show "steady P m (mark_placed c m)" using mark_placed_effect [of c m] unfolding steady_def by blast
  qed
  ultimately have "steady P m (fold mark_placed live ?m1)" "steady P m ?m1" using steady_trans by blast+
  then show ?thesis unfolding step by simp
qed

lemma steady_register: "steady P m (snd (registerChunkLocation net f q parts m))"
  by (rule steady_links) (auto simp: registerChunkLocation_def Let_def)

lemma steady_file: "steady P m (place_file net q e m)"
proof -
  obtain f parts where e: "e = (f, parts)" by (cases e)
  obtain ok m1 where r: "registerChunkLocation net f q parts m = (ok, m1)" by fastforce
  have 1: "steady P m m1" using steady_register [of P m net f q parts] r by simp
  have "steady P m1 (fold (place_batch net q f parts) [0..<block_count chunkDeliveryBatchSize parts] m1)"
    by (rule steady_fold) (rule steady_batch)
  with 1 have "steady P m (fold (place_batch net q f parts) [0..<block_count chunkDeliveryBatchSize parts] m1)"
    by (rule steady_trans)
  with 1 show ?thesis by (simp add: place_file_def e r)
qed

lemma new_connection_links:
  "NewPeerConnection ok q w = (r, w') \<Longrightarrow> rtc_open w' = rtc_open w \<and> rtc_faults w' = rtc_faults w
     \<and> (p \<noteq> q \<longrightarrow> rtc_chans w' p = rtc_chans w p)"
  by (auto simp: NewPeerConnection_def Close_def Let_def split: option.splits if_splits)

lemma close_links:
  "rtc_open (Close q w) = rtc_open w \<and> rtc_faults (Close q w) = rtc_faults w \<and> (p \<noteq> q \<longrightarrow> rtc_chans (Close q w) p = rtc_chans w p)"
  by (simp add: Close_def Let_def split: option.split)

lemma offer_links:
  assumes "p \<noteq> q"
  shows "rtc_chans (snd (CreateOffer ok sdp q w)) p = rtc_chans w p \<and> rtc_open (snd (CreateOffer ok sdp q w)) = rtc_open w
    \<and> rtc_faults (snd (CreateOffer ok sdp q w)) = rtc_faults w"
proof -
  obtain r w1 where n: "NewPeerConnection (ok 0) q w = (r, w1)" by fastforce
  show ?thesis
  proof (cases r)
    case (Ret pc)
    have "rtc_open (enter_channel q pc w1) = rtc_open w1" "rtc_faults (enter_channel q pc w1) = rtc_faults w1"
      "rtc_chans (enter_channel q pc w1) p = rtc_chans w1 p" using assms by simp_all
    then show ?thesis
      using new_connection_links [OF n, of p] assms close_links [of q _ p] by (simp add: CreateOffer_def n Ret Let_def)
  qed (use new_connection_links [OF n, of p] assms in \<open>simp_all add: CreateOffer_def n\<close>)
qed

lemma dial_rtc: "ms_rtc (snd (dial net q m)) = snd (CreateOffer (n_pion net q) (n_sdp net q) q (ms_rtc m))"
  by (simp add: dial_def rtc_def send_signal_def split: prod.split go.split)

lemma connect_links:
  assumes "p \<noteq> q" "ConnectPeer net q m = (r, m')"
  shows "rtc_chans (ms_rtc m') p = rtc_chans (ms_rtc m) p \<and> rtc_open (ms_rtc m') = rtc_open (ms_rtc m)
    \<and> rtc_faults (ms_rtc m') = rtc_faults (ms_rtc m)"
proof -
  have "m' = m \<or> m' = dial_end q (snd (dial net q (dial_start q m)))"
    using assms(2) by (simp add: ConnectPeer_def split: if_splits prod.splits)
  moreover have "ms_rtc (dial_end q n) = ms_rtc n" "ms_rtc (dial_start q n) = ms_rtc n" for n
    by (simp_all add: dial_end_def dial_start_def)
  ultimately show ?thesis
    using offer_links [OF assms(1), of "n_pion net q" "n_sdp net q" "ms_rtc m"] by (auto simp: dial_rtc)
qed

lemma connect_rest:
  "ConnectPeer net q m = (r, m') \<Longrightarrow> ms_store m' = ms_store m \<and> ms_closed m' = ms_closed m \<and> ms_id m' = ms_id m
    \<and> ms_peers m' = ms_peers m"
  by (auto simp: ConnectPeer_def dial_def dial_start_def dial_end_def rtc_def send_signal_def split: prod.splits go.splits if_splits)

lemma steady_reach:
  assumes up: "stays_up net P" and run: "reach net q m = (ok, m')"
  shows "steady P m m'"
proof (cases "IsPeerConnected m q")
  case True
  then show ?thesis using run by (simp add: reach_def)
next
  case False
  obtain r m1 where c: "ConnectPeer net q m = (r, m1)" by fastforce
  have "steady P m m1"
  proof (rule steady_links)
    fix p
    assume p: "IsConnected (ms_rtc m) p" "rtc_faults (ms_rtc m) = []"
    then have "p \<noteq> q" using False by (auto simp: IsPeerConnected_def)
    from connect_links [OF this c] p show "IsConnected (ms_rtc m1) p \<and> rtc_faults (ms_rtc m1) = []"
      using connected_cong [of "ms_rtc m1" p "ms_rtc m"] by simp
  qed (use connect_rest [OF c] in simp_all)
  moreover have "steady P m1 (meet net q m1)"
    using up unfolding stays_up_def by (intro steady_links) (auto simp: meet_def)
  moreover have "m' = m1 \<or> m' = meet net q m1"
    using run False c by (auto simp: reach_def waitForPeerConnection_def Let_def split: go.splits if_splits)
  ultimately show ?thesis using steady_trans by blast
qed

lemma steady_peers: "stays_up net P \<Longrightarrow> steady P m (place_peers net recipient byFile peers m)"
proof (induction peers arbitrary: m)
  case (Cons peer peers)
  obtain ok m1 where r: "reach net (peer_id peer) m = (ok, m1)" by fastforce
  note 1 = steady_reach [OF Cons.prems r]
  have "steady P m1 (fold (place_file net (peer_id peer)) byFile m1)" by (rule steady_fold) (rule steady_file)
  with 1 have "steady P m (fold (place_file net (peer_id peer)) byFile m1)" by (rule steady_trans)
  with 1 have "steady P m (if ok then fold (place_file net (peer_id peer)) byFile m1 else m1)" by simp
  from steady_trans [OF this Cons.IH [OF Cons.prems]] Cons.IH [OF Cons.prems] show ?case by (simp add: r)
qed simp

text \<open>The turn of a storing peer comes, whatever the peers before it in the list are.\<close>

lemma peers_place:
  assumes net: "stays_up net P" "\<forall>p \<in> P. storing net p" "\<forall>f es. n_place net f es"
    and peer: "peer \<in> set peers" "peer_id peer \<in> P" "\<not> peer_fake peer" "Key peer \<noteq> recipient"
    and m: "\<forall>p \<in> P. ready p m \<and> p \<noteq> ms_id m"
    and files: "\<forall>e \<in> set files. \<forall>c \<in> set (snd e). 0 < remainingChunkTTL (n_now net) c \<and> is_pending (pending_key c) m"
    and c: "e \<in> set files" "c \<in> set (snd e)"
  shows "placed (pending_key c) (place_peers net recipient files peers m)"
  using peer(1) m files
proof (induction peers arbitrary: m)
  case (Cons q peers)
  have open0: "\<not> ms_closed m" using Cons.prems(2) peer(2) by (simp add: ready_def)
  show ?case
  proof (cases "q = peer")
    case True
    let ?p = "peer_id peer"
    have rd: "ready ?p m" "?p \<noteq> ms_id m" "storing net ?p" using Cons.prems(2) peer(2) net(2) by simp_all
    have "places ?p (\<Union>e \<in> set files. set (snd e)) m (fold (place_file net ?p) files m)"
    proof (rule places_fold)
      fix e m'
      assume e: "e \<in> set files" and m': "ready ?p m'" "\<forall>c \<in> set (snd e). is_pending (pending_key c) m'"
      have "places ?p (set (snd e)) m' (place_file net ?p (fst e, snd e) m')"
        by (rule place_file_places [OF rd(3) net(3) m'(1)]) (use m'(2) e Cons.prems(3) in auto)
      then show "places ?p (set (snd e)) m' (place_file net ?p e m')" by simp
    qed (use rd Cons.prems(3) in auto)
    then have "placed (pending_key c) (fold (place_file net ?p) files m)" using c unfolding places_def by blast
    then have "placed (pending_key c) (place_peers net recipient files peers (fold (place_file net ?p) files m))"
      by (rule steadyD(1) [OF steady_peers [OF net(1)]])
    moreover have "reach net ?p m = (True, m)" using rd(1) by (simp add: reach_def ready_def)
    ultimately show ?thesis using True open0 rd(2) peer(3,4) by simp
  next
    case False
    obtain ok m1 where r: "reach net (peer_id q) m = (ok, m1)" by fastforce
    let ?m2 = "if ok then fold (place_file net (peer_id q)) files m1 else m1"
    have "steady P m1 (fold (place_file net (peer_id q)) files m1)" by (rule steady_fold) (rule steady_file)
    then have "steady P m (fold (place_file net (peer_id q)) files m1)" by (rule steady_trans [OF steady_reach [OF net(1) r]])
    then have "steady P m ?m2" using steady_reach [OF net(1) r] by simp
    have "\<forall>p \<in> P. ready p ?m2 \<and> p \<noteq> ms_id ?m2"
      "\<forall>e \<in> set files. \<forall>c \<in> set (snd e). 0 < remainingChunkTTL (n_now net) c \<and> is_pending (pending_key c) ?m2"
      using Cons.prems(2,3) steadyD(2,3,4) [OF \<open>steady P m ?m2\<close>] by metis+
    with Cons.IH [of ?m2] Cons.IH [of m] Cons.prems False show ?thesis by (auto simp: open0 r)
  qed
qed simp

lemma steady_registers:
  "steady P m (fold (\<lambda>(f, parts) m. snd (registerChunkLocation net f (ms_id m) parts m)) files m)"
  by (rule steady_fold) (auto simp: steady_register split: prod.split)

lemma steady_recipient: "stays_up net P \<Longrightarrow> steady P m (distributeChunksForRecipient net entry m)"
proof -
  assume net: "stays_up net P"
  obtain r parts where e: "entry = (r, parts)" by (cases entry)
  show ?thesis
    unfolding distributeChunksForRecipient_def e prod.case Let_def
    by (rule steady_trans [OF steady_registers steady_peers [OF net]])
qed

lemma recipient_places:
  assumes net: "stays_up net P" "\<forall>p \<in> P. storing net p" "\<forall>f es. n_place net f es"
    and peer: "peer \<in> set (candidates net recipient m)" "peer_id peer \<in> P" "\<not> peer_fake peer" "Key peer \<noteq> recipient"
    and m: "\<forall>p \<in> P. ready p m \<and> p \<noteq> ms_id m"
    and chunks: "\<forall>c \<in> set chunks. 0 < remainingChunkTTL (n_now net) c \<and> is_pending (pending_key c) m"
    and c: "c \<in> set chunks"
  shows "placed (pending_key c) (distributeChunksForRecipient net (recipient, chunks) m)"
proof -
  let ?files = "group_by pc_file chunks"
  let ?m1 = "fold (\<lambda>(f, parts) m. snd (registerChunkLocation net f (ms_id m) parts m)) ?files m"
  have s: "steady P m ?m1" by (rule steady_registers)
  have sub: "set (snd e) \<subseteq> set chunks" if "e \<in> set ?files" for e using that by (auto simp: group_by_def)
  have same: "candidates net recipient ?m1 = candidates net recipient m"
    by (simp add: candidates_def getOnlinePeers_def steadyD(4,5) [OF s] split: option.split)
  obtain e where e: "e \<in> set ?files" "c \<in> set (snd e)" using group_by_set [of pc_file chunks] c by blast
  have "placed (pending_key c) (place_peers net recipient ?files (candidates net recipient m) ?m1)"
  proof (rule peers_place [OF net peer _ _ e])
    show "\<forall>p \<in> P. ready p ?m1 \<and> p \<noteq> ms_id ?m1" using m steadyD(3) [OF s] by (simp add: steadyD(4) [OF s])
    show "\<forall>e \<in> set ?files. \<forall>c \<in> set (snd e). 0 < remainingChunkTTL (n_now net) c \<and> is_pending (pending_key c) ?m1"
      using sub chunks by (auto simp: steadyD(2) [OF s])
  qed
  then show ?thesis by (simp add: distributeChunksForRecipient_def Let_def same)
qed

text \<open>For the blocks to a recipient there is a peer to store them.\<close>

definition has_place :: "net \<Rightarrow> string set \<Rightarrow> string \<Rightarrow> Messenger \<Rightarrow> bool" where
  "has_place net P recipient m \<longleftrightarrow>
     (\<exists>peer \<in> set (candidates net recipient m). peer_id peer \<in> P \<and> \<not> peer_fake peer \<and> Key peer \<noteq> recipient)"

lemma has_place_steady: "steady P m m' \<Longrightarrow> has_place net P r m' = has_place net P r m"
  by (simp add: has_place_def candidates_def getOnlinePeers_def steadyD(4,5) split: option.split)

lemma distribute_places:
  assumes net: "stays_up net P" "\<forall>p \<in> P. storing net p" "\<forall>f es. n_place net f es"
    and m: "\<forall>p \<in> P. ready p m \<and> p \<noteq> ms_id m" "\<not> ms_delivering m"
    and pend: "\<forall>c \<in> set chunks. is_pending (pending_key c) m"
    and place: "\<forall>c \<in> set chunks. 0 < remainingChunkTTL (n_now net) c \<longrightarrow> has_place net P (pc_recipient c) m"
    and c: "c \<in> set chunks" "0 < remainingChunkTTL (n_now net) c"
  shows "placed (pending_key c) (distributeChunks net chunks m)"
proof -
  let ?live = "filter (\<lambda>c. 0 < remainingChunkTTL (n_now net) c) chunks"
  let ?f = "\<lambda>entry m. if ms_closed m then m else distributeChunksForRecipient net entry m"
  let ?m0 = "m\<lparr>ms_delivering := True\<rparr>"
  have keep: "steady P n (fold ?f es n)" for es n
    by (rule steady_fold) (auto simp: steady_recipient [OF net(1)])
  have start: "steady P m ?m0" by (rule steady_links) simp_all
  obtain e where e: "e \<in> set (group_by pc_recipient ?live)" "c \<in> set (snd e)"
  proof -
    have "c \<in> (\<Union>e \<in> set (group_by pc_recipient ?live). set (snd e))" unfolding group_by_set using c by simp
    then show thesis using that by blast
  qed
  obtain r parts where r: "e = (r, parts)" by (cases e)
  have parts: "\<forall>x \<in> set parts. x \<in> set ?live \<and> pc_recipient x = r" using e(1) r by (auto simp: group_by_def)
  obtain before after where split: "group_by pc_recipient ?live = before @ e # after" using e(1) by (meson split_list)
  let ?m1 = "fold ?f before ?m0"
  have s1: "steady P m ?m1" using steady_trans [OF start keep] .
  have m1: "\<forall>p \<in> P. ready p ?m1 \<and> p \<noteq> ms_id ?m1" using m(1) steadyD(3) [OF s1] by (simp add: steadyD(4) [OF s1])
  have "c \<in> set parts" using e(2) r by simp
  then have "has_place net P r m" using place parts by fastforce
  then have "has_place net P r ?m1" unfolding has_place_steady [OF s1] .
  then obtain peer where peer: "peer \<in> set (candidates net r ?m1)" "peer_id peer \<in> P" "\<not> peer_fake peer" "Key peer \<noteq> r"
    unfolding has_place_def by blast
  have live: "\<forall>x \<in> set parts. 0 < remainingChunkTTL (n_now net) x \<and> is_pending (pending_key x) ?m1"
    unfolding steadyD(2) [OF s1] using parts pend by simp
  have "placed (pending_key c) (?f e ?m1)"
    using recipient_places [OF net peer m1 live \<open>c \<in> set parts\<close>] r m1 peer(2) by (simp add: ready_def)
  then have "placed (pending_key c) (fold ?f after (?f e ?m1))" by (rule steadyD(1) [OF keep])
  then show ?thesis using m(2) by (simp add: distributeChunks_def split placed_def)
qed

lemma steady_distribute: "stays_up net P \<Longrightarrow> steady P m (distributeChunks net chunks m)"
proof -
  assume net: "stays_up net P"
  have flag: "steady P n (n\<lparr>ms_delivering := b\<rparr>)" for n b by (rule steady_links) simp_all
  have "steady P n (fold (\<lambda>entry m. if ms_closed m then m else distributeChunksForRecipient net entry m) es n)" for es n
    by (rule steady_fold) (auto simp: steady_recipient [OF net])
  from steady_trans [OF steady_trans [OF flag this] flag] show ?thesis by (simp add: distributeChunks_def Let_def)
qed

text \<open>
  C25. Delivery gets through. Suppose that for every queued block whose time is not up, the peers
  the directory names for its recipient, or failing an answer those online, include one of a
  set of peers other than this device and the recipient that are connected and store what they are
  sent; that their connections stay up meanwhile; and that Muninn takes the registrations and the
  database works. Then one run leaves every queued block whose time is not up placed, however
  many recipients, files and batches there are, whatever blocks among them have expired, and
  whatever the other peers tried do.
\<close>

theorem delivery_places_all:
  assumes "stays_up net P" and "\<forall>p \<in> P. storing net p" and "\<forall>f es. n_place net f es"
    and "\<forall>p \<in> P. ready p m \<and> p \<noteq> ms_id m" and "\<not> ms_delivering m" and "db_faults (ms_store m) = []"
    and "\<forall>r \<in> set (t_pending (db_tables (ms_store m))).
       0 < remainingChunkTTL (n_now net) r \<and> \<not> pc_placed r \<longrightarrow> has_place net P (pc_recipient r) m"
    and "r \<in> set (t_pending (db_tables (ms_store m)))" and "0 < remainingChunkTTL (n_now net) r"
  shows "placed (pending_key r) (distributePendingChunks net m)"
proof -
  let ?q = "t_pending (db_tables (ms_store m))"
  let ?chunks = "sort_key pc_created (filter (\<lambda>r. \<not> pc_placed r) ?q)"
  have run: "distributePendingChunks net m = distributeChunks net ?chunks m"
    using assms(6) by (simp add: distributePendingChunks_def store_def GetUnplacedChunks_def sql_read_ok)
  have pend: "is_pending (pending_key c) m" if "c \<in> set ?chunks" for c using that by (auto simp: is_pending_def)
  show ?thesis
  proof (cases "pc_placed r")
    case True
    then have "placed (pending_key r) m" using assms(8) by (auto simp: placed_def)
    then show ?thesis unfolding run by (rule steadyD(1) [OF steady_distribute [OF assms(1)]])
  next
    case False
    show ?thesis
      unfolding run by (rule distribute_places [OF assms(1-5)]) (use assms(7-9) False pend in auto)
  qed
qed

section \<open>A concrete delivery\<close>

definition storing_peer :: Peer where
  "storing_peer = \<lparr>peer_id = ''c'', peer_ids = [''c''], peer_login = [], peer_enc = [],
     peer_sign = [], peer_seen = 0, peer_ttl = 120, peer_flag = [], peer_fake = False\<rparr>"

definition storing_net :: net where
  "storing_net = sample_net\<lparr>n_best := Some [storing_peer],
     n_confirm := (\<lambda>p f i. (''r'', [(p, \<lparr>ca_request = ''r'', ca_error = []\<rparr>)], False, []))\<rparr>"

definition queue_holder :: Messenger where
  "queue_holder = linked ''c'' (sample_messenger ''a'' ''ann''
     \<lparr>db_tables = no_tables\<lparr>t_pending := [sample_pending 0]\<rparr>, db_faults = []\<rparr>)"

lemma queue_facts:
  "only_adds storing_net" "storing storing_net ''c''" "\<forall>f es. n_place storing_net f es" "ready ''c'' queue_holder"
  "ms_id queue_holder = ''a''" "\<not> ms_delivering queue_holder" "is_pending (pending_key (sample_pending 0)) queue_holder"
  "\<not> placed k queue_holder" "0 < remainingChunkTTL (n_now storing_net) (sample_pending 0)"
proof -
  show "only_adds storing_net" "\<forall>f es. n_place storing_net f es"
    by (simp_all add: only_adds_def storing_net_def sample_net_def)
  show "storing storing_net ''c''" by (simp add: storing_def storing_net_def answers_def)
  show "ready ''c'' queue_holder"
    by (simp add: ready_def queue_holder_def linked_def IsPeerConnected_def IsConnected_def) (simp add: NewManager_def)
  show "ms_id queue_holder = ''a''" by (simp add: queue_holder_def linked_def)
  show "\<not> ms_delivering queue_holder"
    by (simp add: queue_holder_def linked_def sample_messenger_def new_messenger_def Let_def)
  show "is_pending (pending_key (sample_pending 0)) queue_holder" "\<not> placed k queue_holder"
    by (simp_all add: queue_holder_def linked_def is_pending_def placed_def no_tables_def sample_pending_def)
  show "0 < remainingChunkTTL (n_now storing_net) (sample_pending 0)"
    by (simp add: storing_net_def sample_net_def sample_pending_def remainingChunkTTL_def seconds_def)
qed

lemma queue_place:
  "stays_up storing_net {''c''}" "\<forall>p \<in> {''c''}. storing storing_net p"
  "\<forall>p \<in> {''c''}. ready p queue_holder \<and> p \<noteq> ms_id queue_holder" "has_place storing_net {''c''} ''b'' queue_holder"
proof -
  show "stays_up storing_net {''c''}" by (simp add: stays_up_def storing_net_def sample_net_def)
  show "\<forall>p \<in> {''c''}. storing storing_net p" "\<forall>p \<in> {''c''}. ready p queue_holder \<and> p \<noteq> ms_id queue_holder"
    using queue_facts(2,4,5) by simp_all
  show "has_place storing_net {''c''} ''b'' queue_holder"
    by (simp add: has_place_def candidates_def storing_net_def storing_peer_def Key_def DisplayLogin_def)
qed

lemma queue_placed:
  "placed (pending_key (sample_pending 0)) (distributeChunks storing_net [sample_pending 0] queue_holder)"
proof (rule distribute_places [OF queue_place(1,2) queue_facts(3) queue_place(3) queue_facts(6)])
  show "\<forall>c \<in> set [sample_pending 0]. is_pending (pending_key c) queue_holder" using queue_facts(7) by simp
  show "\<forall>c \<in> set [sample_pending 0]. 0 < remainingChunkTTL (n_now storing_net) c
      \<longrightarrow> has_place storing_net {''c''} (pc_recipient c) queue_holder"
    using queue_place(4) by (simp add: sample_pending_def)
qed (use queue_facts(9) in simp_all)

lemma delivery_places_all_witness:
  "placed (pending_key (sample_pending 0)) (distributePendingChunks storing_net queue_holder)"
proof (rule delivery_places_all [OF queue_place(1,2) queue_facts(3) queue_place(3) queue_facts(6)])
  have q: "t_pending (db_tables (ms_store queue_holder)) = [sample_pending 0]" "db_faults (ms_store queue_holder) = []"
    by (simp_all add: queue_holder_def linked_def no_tables_def)
  show "db_faults (ms_store queue_holder) = []" by (rule q(2))
  show "\<forall>r \<in> set (t_pending (db_tables (ms_store queue_holder))). 0 < remainingChunkTTL (n_now storing_net) r \<and> \<not> pc_placed r
      \<longrightarrow> has_place storing_net {''c''} (pc_recipient r) queue_holder"
    unfolding q(1) using queue_place(4) by (simp add: sample_pending_def)
  show "sample_pending 0 \<in> set (t_pending (db_tables (ms_store queue_holder)))" by (simp add: q(1))
qed (rule queue_facts(9))

lemma placed_only_if_acknowledged_witness:
  "acknowledged storing_net ''a'' (rtc_sent (ms_rtc (distributeChunks storing_net [sample_pending 0] queue_holder)))
     (pending_key (sample_pending 0))"
  using placed_only_if_acknowledged [OF queue_facts(1) refl, of "pending_key (sample_pending 0)" "[sample_pending 0]" queue_holder]
    queue_placed queue_facts(8) unfolding queue_facts(5) by blast

end
