(* ===== verification/WireCodec.thy ===== *)
theory WireCodec
  imports Messenger
begin

text \<open>
  An encoding of envelopes, payloads and messages as bytes that gives every value back, for the
  concrete instances of theorems which assume that of the program's JSON: a value is the list of
  its fields as strings, a string the list of its characters, each after a 1, and a 0.
\<close>

definition put_str :: "string \<Rightarrow> bytes" where
  "put_str s = concat (map (\<lambda>b. [1, b]) (bytes_of s)) @ [0]"

fun get_bytes :: "bytes \<Rightarrow> (bytes \<times> bytes) option" where
  "get_bytes [] = None"
| "get_bytes [x] = (if x = 0 then Some ([], []) else None)"
| "get_bytes (x # y # bs) =
     (if x = 0 then Some ([], y # bs) else map_option (\<lambda>(s, r). (y # s, r)) (get_bytes bs))"

lemma get_bytes_0: "get_bytes (0 # r) = Some ([], r)"
  by (cases r) simp_all

lemma get_bytes_put: "get_bytes (concat (map (\<lambda>b. [1, b]) bs) @ 0 # r) = Some (bs, r)"
  by (induction bs) (simp_all add: get_bytes_0)

fun get_strs :: "nat \<Rightarrow> bytes \<Rightarrow> (string list \<times> bytes) option" where
  "get_strs 0 bs = Some ([], bs)"
| "get_strs (Suc n) bs =
     (case get_bytes bs of
        None \<Rightarrow> None
      | Some (s, r) \<Rightarrow> map_option (\<lambda>(ss, r'). (string_of s # ss, r')) (get_strs n r))"

definition put_strs :: "string list \<Rightarrow> bytes" where
  "put_strs ss = concat (map put_str ss)"

lemma get_strs_put: "length ss = n \<Longrightarrow> get_strs n (put_strs ss @ r) = Some (ss, r)"
proof (induction ss arbitrary: n)
  case (Cons s ss)
  then show ?case
    using get_bytes_put [of "bytes_of s" "put_strs ss @ r"] by (cases n) (simp_all add: put_strs_def put_str_def)
qed (simp add: put_strs_def)

lemma put_strs_append: "put_strs (a @ b) = put_strs a @ put_strs b"
  by (simp add: put_strs_def)

lemma put_strs_nonempty: "put_strs (s # ss) \<noteq> []"
  by (simp add: put_strs_def put_str_def)

section \<open>Records\<close>

definition envelope_strs :: "Envelope \<Rightarrow> string list" where
  "envelope_strs e = [env_message e, env_sender e, env_recipient e, itoa (env_total e), itoa (env_index e),
     env_cipher e, env_nonce e, env_ephem e, env_sig e]"

definition envelope_of :: "string list \<Rightarrow> Envelope" where
  "envelope_of ss = \<lparr>env_message = ss ! 0, env_sender = ss ! 1, env_recipient = ss ! 2, env_total = unitoa (ss ! 3),
     env_index = unitoa (ss ! 4), env_cipher = ss ! 5, env_nonce = ss ! 6, env_ephem = ss ! 7, env_sig = ss ! 8\<rparr>"

lemma envelope_of_strs [simp]: "envelope_of (envelope_strs e) = e"
  by (simp add: envelope_of_def envelope_strs_def unitoa_itoa)

definition file_strs :: "FileMeta \<Rightarrow> string list" where
  "file_strs f = [f_id f, f_hash f, f_key f, itoa (f_total f), f_name f, f_path f, f_source f]"

definition file_of :: "string list \<Rightarrow> FileMeta" where
  "file_of ss = \<lparr>f_id = ss ! 0, f_hash = ss ! 1, f_key = ss ! 2, f_total = unitoa (ss ! 3), f_name = ss ! 4,
     f_path = ss ! 5, f_source = ss ! 6\<rparr>"

lemma file_of_strs [simp]: "file_of (file_strs f) = f"
  by (simp add: file_of_def file_strs_def unitoa_itoa)

fun get_files :: "nat \<Rightarrow> bytes \<Rightarrow> FileMeta list option" where
  "get_files 0 bs = Some []"
| "get_files (Suc n) bs =
     (case get_strs 7 bs of None \<Rightarrow> None | Some (ss, r) \<Rightarrow> map_option ((#) (file_of ss)) (get_files n r))"

definition put_files :: "FileMeta list \<Rightarrow> bytes" where
  "put_files fs = put_strs (concat (map file_strs fs))"

lemma get_files_put: "get_files (length fs) (put_files fs) = Some fs"
proof (induction fs)
  case (Cons f fs)
  have "get_strs 7 (put_strs (file_strs f) @ put_files fs) = Some (file_strs f, put_files fs)"
    by (rule get_strs_put) (simp add: file_strs_def)
  then show ?case using Cons by (simp add: put_files_def put_strs_append)
qed simp

definition put_record :: "string list \<Rightarrow> FileMeta list \<Rightarrow> bytes" where
  "put_record ss fs = put_strs (ss @ [itoa (int (length fs))]) @ put_files fs"

definition get_record :: "nat \<Rightarrow> bytes \<Rightarrow> (string list \<times> FileMeta list) option" where
  "get_record n bs =
     (case get_strs (Suc n) bs of
        None \<Rightarrow> None
      | Some (ss, r) \<Rightarrow> map_option (Pair (butlast ss)) (get_files (nat (unitoa (last ss))) r))"

lemma get_record_put: "length ss = n \<Longrightarrow> get_record n (put_record ss fs) = Some (ss, fs)"
proof -
  assume n: "length ss = n"
  have "get_strs (Suc n) (put_strs (ss @ [itoa (int (length fs))]) @ put_files fs)
      = Some (ss @ [itoa (int (length fs))], put_files fs)"
    by (rule get_strs_put) (simp add: n)
  then show ?thesis by (simp add: get_record_def put_record_def unitoa_itoa get_files_put)
qed

definition wire_codec :: codec where
  "wire_codec = sample_codec\<lparr>
     enc_msg := (\<lambda>m. put_record [cm_from m, cm_chat m, cm_text m, itoa (cm_time m), cm_id m] (cm_files m)),
     dec_msg := (\<lambda>b. map_option (\<lambda>(ss, fs). \<lparr>cm_from = ss ! 0, cm_chat = ss ! 1, cm_text = ss ! 2,
        cm_time = unitoa (ss ! 3), cm_id = ss ! 4, cm_files = fs\<rparr>) (get_record 5 b)),
     enc_payload := (\<lambda>p. put_record [mp_text p, itoa (mp_time p)] (mp_files p)),
     dec_payload := (\<lambda>b. map_option (\<lambda>(ss, fs). \<lparr>mp_text = ss ! 0, mp_time = unitoa (ss ! 1), mp_files = fs\<rparr>)
        (get_record 2 b)),
     enc_envelope := (\<lambda>e. put_strs (envelope_strs e)),
     dec_envelope := (\<lambda>b. map_option (\<lambda>(ss, r). envelope_of ss) (get_strs 9 b))\<rparr>"

text \<open>What the program relies on of the JSON of a message.\<close>

definition faithful :: "codec \<Rightarrow> bool" where
  "faithful c \<longleftrightarrow> (\<forall>e. dec_envelope c (enc_envelope c e) = Some e \<and> enc_envelope c e \<noteq> [])
     \<and> (\<forall>p. dec_payload c (enc_payload c p) = Some p \<and> enc_payload c p \<noteq> [])
     \<and> (\<forall>m. dec_msg c (enc_msg c m) = Some m)"

lemma faithful_wire: "faithful wire_codec"
proof -
  have "get_strs 9 (put_strs (envelope_strs e) @ []) = Some (envelope_strs e, [])" for e
    by (rule get_strs_put) (simp add: envelope_strs_def)
  moreover have "put_strs (envelope_strs e) \<noteq> []" for e by (simp add: envelope_strs_def put_strs_nonempty)
  moreover have "put_record ss fs \<noteq> []" for ss fs by (cases ss) (simp_all add: put_record_def put_strs_nonempty)
  ultimately show ?thesis
    by (simp add: faithful_def wire_codec_def get_record_put unitoa_itoa)
qed

end
