(* ===== verification/Arrival.thy ===== *)
theory Arrival
  imports Receive DeliverySafety WireCodec
begin

text \<open>
  From the sender's text to the receiver's history: a message that was accepted on one device
  and whose blocks are held by another is stored there with the same text, in the name of the
  peer whose key verifies the blocks.
\<close>

section \<open>What an accepted message consists of\<close>

lemma prepareOutgoing_RetD:
  assumes "prepareOutgoing c L net to txt [] ttl m = (Ret og, m')"
  obtains m1 key es ttl' where "find_recipient net to m = (Some (og_peer og), m1)" "aside m m1"
    "DecodeKey (peer_enc (og_peer og)) = Ret key" "og_message og = outgoing_chat net (og_peer og) txt [] m1"
    "SplitAndEncrypt L (n_random net 0) (cm_id (og_message og)) (ms_id m1) (peer_id (og_peer og))
       (enc_payload c \<lparr>mp_text = txt, mp_time = n_now net, mp_files = []\<rparr>) key (k_sign_private (ms_keys m)) = Ret es"
    "pendingEnvelopes c L (Key (og_peer og)) (n_now net) ttl' False m1 es = Ret (og_chunks og)"
proof -
  let ?ttl = "if ttl \<le> 0 then ChunkTTLSeconds ''1w'' else ttl"
  have up: "\<not> ms_closed m" using assms by (auto simp: prepareOutgoing_def)
  obtain q m1 where q: "find_recipient net to m = (q, m1)" by fastforce
  have a: "aside m m1" by (rule aside_find_recipient [OF q])
  obtain peer where p: "q = Some peer" using assms up q by (cases q) (auto simp: prepareOutgoing_def)
  note run = assms [unfolded prepareOutgoing_def Let_def q p prod.case option.case if_not_P [OF up]]
  obtain key where key: "DecodeKey (peer_enc peer) = Ret key" using run by (cases "DecodeKey (peer_enc peer)") auto
  note run = run [unfolded key go.case prepare_files.simps prod.case append_Nil]
  let ?msg = "outgoing_chat net peer txt [] m1"
  obtain chunks where s: "seal_message c L net peer key ?msg ?ttl m1 = Ret chunks"
    using run by (cases "seal_message c L net peer key ?msg ?ttl m1") auto
  note run = run [unfolded s go.case]
  have og: "og = \<lparr>og_message = ?msg, og_peer = peer, og_chunks = chunks\<rparr>"
    using run by (auto split: prod.splits go.splits)
  have msg: "cm_files ?msg = []" "cm_text ?msg = txt" by (simp_all add: outgoing_chat_def)
  let ?split = "SplitAndEncrypt L (n_random net 0) (cm_id ?msg) (ms_id m1) (peer_id peer)
       (enc_payload c \<lparr>mp_text = txt, mp_time = n_now net, mp_files = []\<rparr>) key (k_sign_private (ms_keys m1))"
  obtain es where es: "?split = Ret es" "pendingEnvelopes c L (Key peer) (n_now net) ?ttl False m1 es = Ret chunks"
    using s unfolding seal_message_def Let_def msg withoutLocalFilePaths_def list.map by (cases ?split) auto
  have "k_sign_private (ms_keys m1) = k_sign_private (ms_keys m)" using a by (simp add: aside_def)
  then show ?thesis using that [of m1 key es ?ttl] q p a key es og by simp
qed

lemma pendingEnvelopes_RetD:
  assumes "pendingEnvelopes c L recipient created ttl persist m es = Ret chunks"
  shows "length chunks = length es"
    and "i < length es \<Longrightarrow> pc_file (chunks ! i) = env_message (es ! i) \<and> pc_index (chunks ! i) = env_index (es ! i)
      \<and> pc_data (chunks ! i) = enc_envelope c (es ! i)
      \<and> pc_hash (chunks ! i) = RegisteredHash L (enc_envelope c (es ! i)) \<and> pc_recipient (chunks ! i) = recipient
      \<and> pc_sender (chunks ! i) = ms_key m \<and> pc_persist (chunks ! i) = persist"
proof -
  have one: "pc_file p = env_message e \<and> pc_index p = env_index e \<and> pc_data p = enc_envelope c e \<and> pc_hash p = RegisteredHash L (enc_envelope c e)
      \<and> pc_recipient p = recipient \<and> pc_sender p = ms_key m \<and> pc_persist p = persist"
    if "pending_envelope c L recipient created ttl persist m e = Ret p" for e p
    using that by (auto simp: pending_envelope_def Let_def split: go.splits)
  have all: "list_all2 (\<lambda>e p. pending_envelope c L recipient created ttl persist m e = Ret p) es chunks"
    using go_map_RetD assms unfolding pendingEnvelopes_def by blast
  then show "length chunks = length es" by (simp add: list_all2_lengthD)
  show "i < length es \<Longrightarrow> pc_file (chunks ! i) = env_message (es ! i) \<and> pc_index (chunks ! i) = env_index (es ! i)
      \<and> pc_data (chunks ! i) = enc_envelope c (es ! i)
      \<and> pc_hash (chunks ! i) = RegisteredHash L (enc_envelope c (es ! i)) \<and> pc_recipient (chunks ! i) = recipient
      \<and> pc_sender (chunks ! i) = ms_key m \<and> pc_persist (chunks ! i) = persist"
    using list_all2_nthD [OF all] one by blast
qed

section \<open>Collecting blocks that are all there\<close>

definition served :: "int \<Rightarrow> tables \<Rightarrow> string \<times> int \<Rightarrow> bytes option" where
  "served now t k =
     (case held t k of
        Some b \<Rightarrow> Some (c_data b)
      | None \<Rightarrow> (case waiting t k of
           None \<Rightarrow> None
         | Some p \<Rightarrow> if expired now (pc_created p) (pc_ttl p) then None else Some (pc_data p)))"

fun fresh :: "int list \<Rightarrow> int list \<Rightarrow> int list" where
  "fresh seen [] = []"
| "fresh seen (i # is) = (if i \<in> set seen then fresh seen is else i # fresh (i # seen) is)"

lemma fresh_set: "distinct (fresh seen is) \<and> set (fresh seen is) = set is - set seen"
  by (induction "is" arbitrary: seen) auto

lemma getChunkData_served:
  assumes "db_faults (ms_store m) = []" "\<not> ms_closed m" "served (n_now net) (db_tables (ms_store m)) (cr_file r, cr_index r) = Some d"
  shows "getChunkData net r m = (Some d, m)"
proof -
  have "store (GetChunk (n_now net) (cr_file r) (cr_index r)) m = (Ret (Some d), m)"
    using assms(3) by (simp add: store_def GetChunk_value [OF assms(1)] served_def)
  then show ?thesis using assms(2) by (simp add: getChunkData_def getChunkDataWithContext_def ctx_done_def)
qed

lemma collect_served:
  assumes "db_faults (ms_store m) = []" "\<not> ms_closed m"
    and "\<forall>r \<in> set rs. served (n_now net) (db_tables (ms_store m)) (cr_file r, cr_index r) = Some (D (cr_index r))
      \<and> (cr_hash r = [] \<or> RegisteredHash L (D (cr_index r)) = cr_hash r)"
  shows "collect_blocks L net rs seen got m = (got @ map D (fresh seen (map cr_index rs)), m)"
  using assms(3)
proof (induction rs arbitrary: seen got)
  case (Cons r rs)
  have "getChunkData net r m = (Some (D (cr_index r)), m)"
    using Cons.prems by (intro getChunkData_served assms) simp
  then show ?case using Cons by auto
qed simp

lemma track_served:
  assumes "db_faults (ms_store m) = []"
  shows "\<exists>F. track_records net msgID rs m
    = (True, m\<lparr>ms_store := (ms_store m)\<lparr>db_tables := (db_tables (ms_store m))\<lparr>t_failed := F\<rparr>\<rparr>\<rparr>)"
  using assms
proof (induction rs arbitrary: m)
  case Nil
  show ?case by (rule exI [of _ "t_failed (db_tables (ms_store m))"]) simp
next
  case (Cons r rs)
  define F where "F = tbl_ignore failed_key \<lparr>fc_file = msgID, fc_index = cr_index r, fc_recipient = cr_recipient r,
     fc_created = unix (n_now net), fc_ttl = if cr_ttl r \<le> 0 then 604800 else cr_ttl r\<rparr> (t_failed (db_tables (ms_store m)))"
  let ?m = "m\<lparr>ms_store := (ms_store m)\<lparr>db_tables := (db_tables (ms_store m))\<lparr>t_failed := F\<rparr>\<rparr>\<rparr>"
  have "store (StoreFailedChunk (n_now net) msgID (cr_index r) (cr_recipient r) (cr_ttl r)) m = (Ret (), ?m)"
    using Cons.prems by (simp add: store_def StoreFailedChunk_def sql_write_ok Let_def F_def)
  moreover obtain G where "track_records net msgID rs ?m
      = (True, ?m\<lparr>ms_store := (ms_store ?m)\<lparr>db_tables := (db_tables (ms_store ?m))\<lparr>t_failed := G\<rparr>\<rparr>\<rparr>)"
    using Cons.IH [of ?m] Cons.prems by auto
  ultimately show ?case by (intro exI [of _ G]) simp
qed

section \<open>Delivering it\<close>

definition knows_sender :: "Messenger \<Rightarrow> string \<Rightarrow> Peer \<Rightarrow> bool" where
  "knows_sender m s p \<longleftrightarrow> 2 \<le> length (Split s (CHR '':'')) \<and> map_of (ms_peersMap m) s = Some p \<and> peer_id p \<noteq> []"

definition received_chat :: "string \<Rightarrow> Peer \<Rightarrow> string \<Rightarrow> int \<Rightarrow> ChatMessage" where
  "received_chat msgID sender txt sent = \<lparr>cm_from = peer_login sender, cm_chat = Key sender, cm_text = txt,
     cm_time = sent, cm_id = msgID, cm_files = []\<rparr>"

definition delivered :: "codec \<Rightarrow> string \<Rightarrow> Peer \<Rightarrow> string \<Rightarrow> int \<Rightarrow> Messenger \<Rightarrow> Messenger \<Rightarrow> bool" where
  "delivered c msgID sender txt sent m m' \<longleftrightarrow>
     (\<exists>row. m_uid row = msgID \<and> m_chat row = Key sender \<and> m_data row = enc_msg c (received_chat msgID sender txt sent)
        \<and> t_messages (db_tables (ms_store m')) = t_messages (db_tables (ms_store m)) @ [row])
     \<and> ms_events m' = ms_events m @ [MessageEvent (received_chat msgID sender txt sent)]
     \<and> (\<forall>x \<in> set (t_failed (db_tables (ms_store m'))). fc_file x \<noteq> msgID)"

lemma deliver_message_ok:
  assumes "db_faults (ms_store m) = []" "recipientID = ms_key m" "\<not> HasPrefix (mp_text payload) invitePrefix"
    and "mp_files payload = []" "\<not> tbl_has m_uid msgID (t_messages (db_tables (ms_store m)))"
  shows "\<exists>m'. deliver_message c L net msgID senderID recipientID sender payload m = (Ret (), m')
     \<and> delivered c msgID sender (mp_text payload) (mp_time payload) m m'"
proof -
  let ?msg = "received_chat msgID sender (mp_text payload) (mp_time payload)"
  let ?row = "new_message (n_now net) msgID (Key sender) (peer_login sender) (Key sender) (enc_msg c ?msg) (unix_micro (mp_time payload))"
  let ?d = "(ms_store m)\<lparr>db_tables := (db_tables (ms_store m))\<lparr>t_messages := t_messages (db_tables (ms_store m)) @ [?row]\<rparr>\<rparr>"
  have uid: "m_uid ?row = msgID" by (simp add: new_message_def)
  have save: "store (SaveMessage (n_now net) msgID (Key sender) (peer_login sender) (Key sender) (enc_msg c ?msg) (cm_time ?msg)) m
      = (Ret (), m\<lparr>ms_store := ?d\<rparr>)"
    using assms(1,5) uid by (simp add: store_def SaveMessage_def sql_ok insert_message_def tbl_insert_def received_chat_def)
  let ?e = "?d\<lparr>db_tables := (db_tables ?d)\<lparr>t_failed := tbl_delete (\<lambda>r. fc_file r = msgID) (t_failed (db_tables (ms_store m)))\<rparr>\<rparr>"
  have drop: "snd (store (DeleteFailedMessage msgID) (m\<lparr>ms_store := ?d\<rparr>)) = m\<lparr>ms_store := ?e\<rparr>"
    using assms(1) by (simp add: store_def DeleteFailedMessage_def sql_write_ok)
  let ?m' = "notify (MessageEvent ?msg) (m\<lparr>ms_store := ?e\<rparr>)"
  have "deliver_message c L net msgID senderID recipientID sender payload m = (Ret (), ?m')"
    using assms(2-4) save [unfolded received_chat_def] drop
    by (simp add: deliver_message_def chat_of_def checkInviteText_def received_chat_def Let_def)
  moreover have "delivered c msgID sender (mp_text payload) (mp_time payload) m ?m'"
    by (simp add: delivered_def notify_def tbl_delete_def uid) (simp add: new_message_def)
  ultimately show ?thesis by blast
qed


section \<open>From the blocks to the history\<close>

definition describes :: "string \<Rightarrow> ChunkRecord \<Rightarrow> PendingChunk \<Rightarrow> bool" where
  "describes f r p \<longleftrightarrow> cr_file r = f \<and> cr_index r = pc_index p \<and> cr_hash r = pc_hash p \<and> cr_sender r = pc_sender p
     \<and> cr_recipient r = pc_recipient p \<and> cr_persist r = pc_persist p"

lemma findPeer_known: "knows_sender m s p \<Longrightarrow> findPeerByKey net s m = (Some p, m)"
  by (simp add: knows_sender_def findPeerByKey_def Let_def)

text \<open>Each record stems from a block of the message, and each block has a record.\<close>

definition announced :: "string \<Rightarrow> PendingChunk list \<Rightarrow> ChunkRecord list \<Rightarrow> bool" where
  "announced f ps rs \<longleftrightarrow> (\<forall>r \<in> set rs. \<exists>p \<in> set ps. describes f r p) \<and> (\<forall>p \<in> set ps. \<exists>r \<in> set rs. describes f r p)"

text \<open>What the receiver holds and knows before it collects the message.\<close>

definition can_collect :: "net \<Rightarrow> string \<Rightarrow> PendingChunk list \<Rightarrow> Messenger \<Rightarrow> bool" where
  "can_collect net f ps m \<longleftrightarrow> db_faults (ms_store m) = [] \<and> \<not> ms_closed m \<and> f \<notin> ms_processing m
     \<and> \<not> tbl_has m_uid f (t_messages (db_tables (ms_store m)))
     \<and> (\<forall>p \<in> set ps. served (n_now net) (db_tables (ms_store m)) (f, pc_index p) = Some (pc_data p))"

lemma served_cong:
  "t_chunks t = t_chunks u \<Longrightarrow> t_pending t = t_pending u \<Longrightarrow> served now t k = served now u k"
  unfolding served_def held_def waiting_def by (simp only:)

lemma complete_envelopes_all:
  assumes "faithful c" "es \<noteq> []" "\<forall>e \<in> set es. env_total e = int (length es)"
    and "distinct is" "set is = set (map int [0..<length es])"
  shows "\<exists>fs. complete_envelopes c (map (\<lambda>i. enc_envelope c (es ! nat i)) is) = Some fs \<and> mset fs = mset es"
proof -
  define fs where "fs = map (\<lambda>i. es ! nat i) is"
  have "mset is = mset (map int [0..<length es])"
    using assms(4,5) by (intro set_eq_iff_mset_eq_distinct [THEN iffD1]) (simp_all add: distinct_map)
  then have "mset (map (\<lambda>i. es ! nat i) is) = mset (map (\<lambda>i. es ! nat i) (map int [0..<length es]))" by (metis mset_map)
  moreover have "map (\<lambda>i. es ! nat i) (map int [0..<length es]) = es" by (intro nth_equalityI) simp_all
  ultimately have perm: "mset fs = mset es" unfolding fs_def by (simp only:)
  have all: "\<forall>e. dec_envelope c (enc_envelope c e) = Some e" using assms(1) by (simp add: faithful_def)
  have "List.map_filter (dec_envelope c) (map (\<lambda>i. enc_envelope c (es ! nat i)) js) = map (\<lambda>i. es ! nat i) js" for js
    using all by (induction js) simp_all
  then have dec: "List.map_filter (dec_envelope c) (map (\<lambda>i. enc_envelope c (es ! nat i)) is) = fs" by (simp add: fs_def)
  have ne: "fs \<noteq> []" using perm assms(2) by auto
  then have "hd fs \<in> set es" by (simp add: mset_eq_setD [OF perm, symmetric])
  then have "env_total (hd fs) = int (length fs)" using assms(3) mset_eq_length [OF perm] by simp
  moreover have "is \<noteq> []" "length fs = length is" using ne by (auto simp: fs_def)
  ultimately have "complete_envelopes c (map (\<lambda>i. enc_envelope c (es ! nat i)) is) = Some fs"
    using dec by (simp add: complete_envelopes_def Let_def)
  then show ?thesis using perm by blast
qed

lemma SplitAndEncrypt_message:
  assumes "SplitAndEncrypt L rnd m s rcp p pub sk = Ret es" "e \<in> set es"
  shows "env_message e = m"
proof -
  have seal: "env_message e = env_message env" if "seal_chunk L r d k sk env = Ret e" for r d k env e
    using that by (auto simp: seal_chunk_def Let_def split: go.splits prod.splits)
  have one: "\<exists>i. f i = Ret e" if "go_map f xs = Ret es" for f :: "nat \<Rightarrow> Envelope go" and xs
    using go_map_RetD [OF that] assms(2) by (auto simp: list_all2_conv_all_nth in_set_conv_nth)
  show ?thesis
    using assms(1) by (auto simp: SplitAndEncrypt_def Let_def split: go.splits prod.splits dest!: one dest: seal)
qed

text \<open>The blocks of a message that was accepted, with the envelopes in them.\<close>

definition blocks_of :: "codec \<Rightarrow> crypto_lib \<Rightarrow> string \<Rightarrow> string \<Rightarrow> string \<Rightarrow> Envelope list \<Rightarrow> PendingChunk list \<Rightarrow> bool" where
  "blocks_of c L f sender recipient es ps \<longleftrightarrow> length ps = length es \<and> (\<forall>i < length es.
     pc_file (ps ! i) = f \<and> pc_index (ps ! i) = int i \<and> pc_data (ps ! i) = enc_envelope c (es ! i)
     \<and> pc_hash (ps ! i) = RegisteredHash L (pc_data (ps ! i))
     \<and> pc_recipient (ps ! i) = recipient \<and> pc_sender (ps ! i) = sender \<and> \<not> pc_persist (ps ! i))"

lemma accepted_blocks:
  assumes c: "faithful c" and keys: "keys_agree L priv pub vk (k_sign_private (ms_keys A))"
    and rnd: "\<forall>i. n_random netA 0 i \<noteq> None"
    and sent: "prepareOutgoing c L netA to txt [] ttl A = (Ret og, A')"
    and target: "DecodeKey (peer_enc (og_peer og)) = Ret pub"
  obtains es where "es \<noteq> []" "\<forall>e \<in> set es. env_total e = int (length es)"
    "\<forall>fs. mset fs = mset es \<longrightarrow>
       AssembleAndDecrypt L fs priv pub vk = Ret (enc_payload c \<lparr>mp_text = txt, mp_time = n_now netA, mp_files = []\<rparr>)"
    "blocks_of c L (cm_id (og_message og)) (ms_key A) (Key (og_peer og)) es (og_chunks og)"
proof -
  let ?payload = "\<lparr>mp_text = txt, mp_time = n_now netA, mp_files = []\<rparr>"
  obtain m1 key es ttl' where a: "aside A m1" and "DecodeKey (peer_enc (og_peer og)) = Ret key"
    and split': "SplitAndEncrypt L (n_random netA 0) (cm_id (og_message og)) (ms_id m1) (peer_id (og_peer og))
       (enc_payload c ?payload) key (k_sign_private (ms_keys A)) = Ret es"
    and pend: "pendingEnvelopes c L (Key (og_peer og)) (n_now netA) ttl' False m1 es = Ret (og_chunks og)"
    using sent by (rule prepareOutgoing_RetD)
  then have split: "SplitAndEncrypt L (n_random netA 0) (cm_id (og_message og)) (ms_id m1) (peer_id (og_peer og))
       (enc_payload c ?payload) pub (k_sign_private (ms_keys A)) = Ret es" using target by simp
  have "enc_payload c ?payload \<noteq> []" using c by (simp add: faithful_def)
  note es = SplitAndEncrypt_es [OF keys rnd this split]
  have idx: "env_index (es ! i) = int i" if "i < length es" for i using arg_cong [OF es(2), of "\<lambda>xs. xs ! i"] that by simp
  have msg: "env_message (es ! i) = cm_id (og_message og)" if "i < length es" for i
    by (rule SplitAndEncrypt_message [OF split]) (simp add: that)
  have "blocks_of c L (cm_id (og_message og)) (ms_key A) (Key (og_peer og)) es (og_chunks og)"
    using pendingEnvelopes_RetD [OF pend] idx msg a by (simp add: blocks_of_def aside_def)
  then show ?thesis using es by (intro that [of es]) simp_all
qed

text \<open>What the announcements of these blocks say.\<close>

lemma announced_records:
  assumes blocks: "blocks_of c L g sender recipient es ps" and recs: "announced f ps rs"
  shows "set (map cr_index rs) = set (map int [0..<length es])"
    and "\<forall>r \<in> set rs. cr_file r = f \<and> cr_sender r = sender \<and> cr_recipient r = recipient \<and> \<not> cr_persist r
      \<and> cr_hash r = RegisteredHash L (enc_envelope c (es ! nat (cr_index r)))
      \<and> (\<exists>p \<in> set ps. pc_index p = cr_index r \<and> pc_data p = enc_envelope c (es ! nat (cr_index r)))"
proof -
  have at: "\<exists>i < length es. p = ps ! i" if "p \<in> set ps" for p
    using that blocks by (auto simp: in_set_conv_nth blocks_of_def)
  have rec: "\<exists>i < length es. describes f r (ps ! i)" if "r \<in> set rs" for r
    using that recs at unfolding announced_def by blast
  show "\<forall>r \<in> set rs. cr_file r = f \<and> cr_sender r = sender \<and> cr_recipient r = recipient \<and> \<not> cr_persist r
      \<and> cr_hash r = RegisteredHash L (enc_envelope c (es ! nat (cr_index r)))
      \<and> (\<exists>p \<in> set ps. pc_index p = cr_index r \<and> pc_data p = enc_envelope c (es ! nat (cr_index r)))"
  proof
    fix r assume "r \<in> set rs"
    then obtain i where i: "i < length es" "describes f r (ps ! i)" using rec by blast
    then have "ps ! i \<in> set ps" using blocks by (simp add: blocks_of_def)
    then show "cr_file r = f \<and> cr_sender r = sender \<and> cr_recipient r = recipient \<and> \<not> cr_persist r
      \<and> cr_hash r = RegisteredHash L (enc_envelope c (es ! nat (cr_index r)))
      \<and> (\<exists>p \<in> set ps. pc_index p = cr_index r \<and> pc_data p = enc_envelope c (es ! nat (cr_index r)))"
      using i blocks by (auto simp: describes_def blocks_of_def intro!: bexI [of _ "ps ! i"])
  qed
  have "int i \<in> set (map cr_index rs)" if "i < length es" for i
  proof -
    have "ps ! i \<in> set ps" "pc_index (ps ! i) = int i" using blocks that by (simp_all add: blocks_of_def)
    then show ?thesis using recs unfolding announced_def describes_def by force
  qed
  moreover have "cr_index r \<in> set (map int [0..<length es])" if "r \<in> set rs" for r
    using rec [OF that] blocks by (auto simp: describes_def blocks_of_def)
  ultimately show "set (map cr_index rs) = set (map int [0..<length es])" by auto
qed

text \<open>The records of a message whose blocks are all held lead to its envelopes, in some order.\<close>

lemma collect_new_opens:
  assumes c: "faithful c" and es: "es \<noteq> []" "\<forall>e \<in> set es. env_total e = int (length es)"
    and blocks: "blocks_of c L g sender recipient es ps" and recs: "announced f ps rs"
    and m: "db_faults (ms_store m) = []" "\<not> ms_closed m"
    and held: "\<forall>p \<in> set ps. served (n_now net) (db_tables (ms_store m)) (f, pc_index p) = Some (pc_data p)"
  obtains fs F where "mset fs = mset es" "collect_new c L net f rs m
     = (case open_message c L net f (hd rs) fs (m\<lparr>ms_store := (ms_store m)\<lparr>db_tables := (db_tables (ms_store m))\<lparr>t_failed := F\<rparr>\<rparr>\<rparr>) of
          (Panic e, m3) \<Rightarrow> (Panic e, m3) | (_, m3) \<Rightarrow> (Ret True, m3))"
proof -
  define D where "D = (\<lambda>i. enc_envelope c (es ! nat i))"
  obtain F where track: "track_records net f rs m
      = (True, m\<lparr>ms_store := (ms_store m)\<lparr>db_tables := (db_tables (ms_store m))\<lparr>t_failed := F\<rparr>\<rparr>\<rparr>)"
    using track_served [OF m(1)] by blast
  define m2 where "m2 = m\<lparr>ms_store := (ms_store m)\<lparr>db_tables := (db_tables (ms_store m))\<lparr>t_failed := F\<rparr>\<rparr>\<rparr>"
  have m2: "db_faults (ms_store m2) = []" "\<not> ms_closed m2" using m by (simp_all add: m2_def)
  have same: "served (n_now net) (db_tables (ms_store m2)) k = served (n_now net) (db_tables (ms_store m)) k" for k
    by (rule served_cong) (simp_all add: m2_def)
  have "cr_file r = f \<and> cr_hash r = RegisteredHash L (D (cr_index r))
      \<and> served (n_now net) (db_tables (ms_store m2)) (f, cr_index r) = Some (D (cr_index r))" if "r \<in> set rs" for r
    using announced_records(2) [OF blocks recs] that held unfolding D_def same by metis
  then have got: "collect_blocks L net rs [] [] m2 = (map D (fresh [] (map cr_index rs)), m2)"
    using collect_served [OF m2, of rs net D L "[]" "[]"] by simp
  obtain fs where "complete_envelopes c (map D (fresh [] (map cr_index rs))) = Some fs" "mset fs = mset es"
    using complete_envelopes_all [OF c es, of "fresh [] (map cr_index rs)"] fresh_set [of "[]" "map cr_index rs"]
      announced_records(1) [OF blocks recs]
    by (auto simp: D_def)
  then show ?thesis using that [of fs F] track got by (simp add: collect_new_def m2_def [symmetric])
qed

text \<open>Envelopes that hold a payload for the receiver's own key are delivered.\<close>

lemma open_message_ok:
  assumes c: "faithful c" and m: "db_faults (ms_store m) = []" "\<not> tbl_has m_uid f (t_messages (db_tables (ms_store m)))"
    and r: "cr_recipient r = ms_key m" "\<not> cr_persist r"
    and sender: "knows_sender m (cr_sender r) sender" "DecodeKey (peer_sign sender) = Ret vk"
    and opens: "AssembleAndDecrypt L fs (k_enc_private (ms_keys m)) (k_enc_public (ms_keys m)) vk
      = Ret (enc_payload c \<lparr>mp_text = txt, mp_time = sent, mp_files = []\<rparr>)"
    and plain: "\<not> HasPrefix txt invitePrefix" "sent \<noteq> zero_time"
  shows "\<exists>m'. open_message c L net f r fs m = (Ret (), m') \<and> delivered c f sender txt sent m m'"
proof -
  let ?payload = "\<lparr>mp_text = txt, mp_time = sent, mp_files = []\<rparr>"
  have "read_payload c net (enc_payload c ?payload) = ?payload"
    using c plain(2) by (simp add: read_payload_def faithful_def withoutLocalFilePaths_def)
  moreover obtain m' where "deliver_message c L net f (cr_sender r) (ms_key m) sender ?payload m = (Ret (), m')"
    "delivered c f sender txt sent m m'"
    using deliver_message_ok [OF m(1), of "ms_key m" ?payload f c L net "cr_sender r" sender] m(2) plain(1) by auto
  ultimately show ?thesis
    using findPeer_known [OF sender(1), of net] sender(2) r opens by (simp add: open_message_def reading_keys_def)
qed

lemma collect_message:
  assumes c: "faithful c"
    and keys: "keys_agree L (k_enc_private (ms_keys B)) (k_enc_public (ms_keys B)) vk (k_sign_private (ms_keys A))"
    and rnd: "\<forall>i. n_random netA 0 i \<noteq> None"
    and sent: "prepareOutgoing c L netA to txt [] ttl A = (Ret og, A')"
    and target: "DecodeKey (peer_enc (og_peer og)) = Ret (k_enc_public (ms_keys B))" "Key (og_peer og) = ms_key B"
    and ready: "can_collect net f (og_chunks og) B" and recs: "announced f (og_chunks og) rs"
    and sender: "knows_sender B (ms_key A) sender" "DecodeKey (peer_sign sender) = Ret vk"
    and plain: "\<not> HasPrefix txt invitePrefix" "n_now netA \<noteq> zero_time"
  shows "\<exists>B'. collectAndProcessMessage c L net f rs B = (Ret True, B') \<and> delivered c f sender txt (n_now netA) B B'"
proof -
  let ?payload = "\<lparr>mp_text = txt, mp_time = n_now netA, mp_files = []\<rparr>"
  obtain es where es: "es \<noteq> []" "\<forall>e \<in> set es. env_total e = int (length es)"
    "\<forall>fs. mset fs = mset es \<longrightarrow>
       AssembleAndDecrypt L fs (k_enc_private (ms_keys B)) (k_enc_public (ms_keys B)) vk = Ret (enc_payload c ?payload)"
    and blocks: "blocks_of c L (cm_id (og_message og)) (ms_key A) (ms_key B) es (og_chunks og)"
    using accepted_blocks [OF c keys rnd sent target(1)] target(2) by metis
  have ne: "rs \<noteq> []" using announced_records(1) [OF blocks recs] es(1) by auto
  then have hd: "cr_sender (hd rs) = ms_key A" "cr_recipient (hd rs) = ms_key B" "\<not> cr_persist (hd rs)"
    using announced_records(2) [OF blocks recs] by simp_all
  define B1 where "B1 = B\<lparr>ms_processing := insert f (ms_processing B)\<rparr>"
  have b1: "db_faults (ms_store B1) = []" "\<not> ms_closed B1" "ms_store B1 = ms_store B"
    using ready by (simp_all add: B1_def can_collect_def)
  have find: "find_message f B1 = (False, B1)"
    using ready b1 by (simp add: find_message_def store_def FindMessageById_def sql_read_ok can_collect_def)
  have held: "\<forall>p \<in> set (og_chunks og). served (n_now net) (db_tables (ms_store B1)) (f, pc_index p) = Some (pc_data p)"
    using ready b1(3) by (simp add: can_collect_def)
  obtain fs F where fs: "mset fs = mset es"
    and new: "collect_new c L net f rs B1
     = (case open_message c L net f (hd rs) fs (B1\<lparr>ms_store := (ms_store B1)\<lparr>db_tables := (db_tables (ms_store B1))\<lparr>t_failed := F\<rparr>\<rparr>\<rparr>) of
          (Panic e, m3) \<Rightarrow> (Panic e, m3) | (_, m3) \<Rightarrow> (Ret True, m3))"
    by (rule collect_new_opens [OF c es(1,2) blocks recs b1(1,2) held])
  define B2 where "B2 = B1\<lparr>ms_store := (ms_store B1)\<lparr>db_tables := (db_tables (ms_store B1))\<lparr>t_failed := F\<rparr>\<rparr>\<rparr>"
  have b2: "db_faults (ms_store B2) = []" "ms_keys B2 = ms_keys B" "ms_key B2 = ms_key B" "ms_events B2 = ms_events B"
    "t_messages (db_tables (ms_store B2)) = t_messages (db_tables (ms_store B))" "knows_sender B2 s q = knows_sender B s q" for s q
    using b1 by (simp_all add: B2_def B1_def knows_sender_def)
  obtain B3 where B3: "open_message c L net f (hd rs) fs B2 = (Ret (), B3)" "delivered c f sender txt (n_now netA) B2 B3"
    using open_message_ok [OF c b2(1), of f "hd rs" sender vk L fs "txt" "n_now netA" net] b2 hd sender es(3) fs plain ready
    by (auto simp: can_collect_def)
  have "collectAndProcessMessage c L net f rs B = (Ret True, releaseProcessMsg f B3)"
    using ne ready find new B3(1)
    by (simp add: collectAndProcessMessage_def tryProcessMsg_def B1_def [symmetric] B2_def [symmetric] can_collect_def)
  moreover have "delivered c f sender txt (n_now netA) B (releaseProcessMsg f B3)"
    using B3(2) b2(4,5) by (simp add: delivered_def releaseProcessMsg_def)
  ultimately show ?thesis by blast
qed

text \<open>
  A message arrives: once the receiver holds the blocks of a message that was accepted on
  another device, under announcements in any order and with repetitions, collecting it adds
  exactly one message to the history, with the sent text and time, in the chat of the peer
  under whose key the announcement came, tells the subscribers, and leaves nothing of it on the
  retry list.
\<close>

theorem message_arrives:
  assumes "faithful c"
    and "keys_agree L (k_enc_private (ms_keys B)) (k_enc_public (ms_keys B)) vk (k_sign_private (ms_keys A))"
    and "\<forall>i. n_random netA 0 i \<noteq> None"
    and "prepareOutgoing c L netA to txt [] ttl A = (Ret og, A')"
    and "DecodeKey (peer_enc (og_peer og)) = Ret (k_enc_public (ms_keys B))" "Key (og_peer og) = ms_key B"
    and "can_collect net (cm_id (og_message og)) (og_chunks og) B"
    and "announced (cm_id (og_message og)) (og_chunks og) rs"
    and "knows_sender B (ms_key A) sender" "DecodeKey (peer_sign sender) = Ret vk"
    and "\<not> HasPrefix txt invitePrefix" "n_now netA \<noteq> zero_time"
  shows "\<exists>B'. collectAndProcessMessage c L net (cm_id (og_message og)) rs B = (Ret True, B')
     \<and> delivered c (cm_id (og_message og)) sender txt (n_now netA) B B'"
  using assms by (rule collect_message)

text \<open>
  C27. The signed message id is not compared: the same blocks, held and announced under another
  id, are accepted again and stored as a second message with that id. The signature covers the
  id inside the envelopes, which nothing reads.
\<close>

theorem replay_accepted:
  assumes "faithful c"
    and "keys_agree L (k_enc_private (ms_keys B)) (k_enc_public (ms_keys B)) vk (k_sign_private (ms_keys A))"
    and "\<forall>i. n_random netA 0 i \<noteq> None"
    and "prepareOutgoing c L netA to txt [] ttl A = (Ret og, A')"
    and "DecodeKey (peer_enc (og_peer og)) = Ret (k_enc_public (ms_keys B))" "Key (og_peer og) = ms_key B"
    and "can_collect net f (og_chunks og) B" "announced f (og_chunks og) rs"
    and "knows_sender B (ms_key A) sender" "DecodeKey (peer_sign sender) = Ret vk"
    and "\<not> HasPrefix txt invitePrefix" "n_now netA \<noteq> zero_time"
    and "f \<noteq> cm_id (og_message og)" "tbl_has m_uid (cm_id (og_message og)) (t_messages (db_tables (ms_store B)))"
  shows "\<exists>B'. collectAndProcessMessage c L net f rs B = (Ret True, B') \<and> delivered c f sender txt (n_now netA) B B'
     \<and> tbl_has m_uid (cm_id (og_message og)) (t_messages (db_tables (ms_store B')))"
proof -
  obtain B' where B': "collectAndProcessMessage c L net f rs B = (Ret True, B')" "delivered c f sender txt (n_now netA) B B'"
    using collect_message [OF assms(1-12)] by blast
  then have "tbl_has m_uid (cm_id (og_message og)) (t_messages (db_tables (ms_store B')))"
    using assms(14) by (auto simp: delivered_def tbl_has_iff)
  then show ?thesis using B' by blast
qed


section \<open>Ann writes to Bob\<close>

definition bob_peer :: Peer where
  "bob_peer = \<lparr>peer_id = ''b'', peer_ids = [''b''], peer_login = ''bob'', peer_enc = EncodeKey (0 # replicate 32 7),
     peer_sign = EncodeKey (replicate 32 5), peer_seen = 0, peer_ttl = 120, peer_flag = [], peer_fake = False\<rparr>"

definition ann_peer :: Peer where
  "ann_peer = bob_peer\<lparr>peer_id := ''a'', peer_ids := [''a''], peer_login := ''ann''\<rparr>"

definition ann :: Messenger where
  "ann = (sample_messenger ''a'' ''ann'' \<lparr>db_tables = no_tables, db_faults = []\<rparr>)\<lparr>ms_peersMap := [(''bob:k'', bob_peer)]\<rparr>"

definition held_row :: "string \<Rightarrow> PendingChunk \<Rightarrow> chunk_row" where
  "held_row f p = \<lparr>c_file = f, c_index = pc_index p, c_data = pc_data p, c_created = 0, c_ttl = 0\<rparr>"

definition record_of :: "string \<Rightarrow> PendingChunk \<Rightarrow> ChunkRecord" where
  "record_of f p = \<lparr>cr_file = f, cr_index = pc_index p, cr_sender = pc_sender p, cr_recipient = pc_recipient p,
     cr_hash = pc_hash p, cr_peer = ''c'', cr_persist = pc_persist p, cr_confirmed = False, cr_readed = False,
     cr_created = 0, cr_updated = 0, cr_ttl = 60\<rparr>"

definition bob :: "string \<Rightarrow> PendingChunk list \<Rightarrow> message_row list \<Rightarrow> Messenger" where
  "bob f ps ms = (sample_messenger ''b'' ''bob''
     \<lparr>db_tables = no_tables\<lparr>t_chunks := map (held_row f) ps, t_messages := ms\<rparr>, db_faults = []\<rparr>)
     \<lparr>ms_peersMap := [(''ann:'' @ EncodeKey (replicate 32 5), ann_peer)]\<rparr>"

lemma Key_bob: "Key bob_peer = ''bob:'' @ EncodeKey (replicate 32 5)"
proof -
  have "DisplayLogin bob_peer = ''bob''"
    by (subst DisplayLogin_plain) (simp_all add: bob_peer_def graphic_def)
  moreover have "EncodeKey (replicate 32 5) \<noteq> []"
    using DecodeKey_EncodeKey [of "replicate 32 5"] DecodeKey_EncodeKey [of "[]"]
    by (auto simp: EncodeKey_def b64_encode_def simp del: DecodeKey_EncodeKey)
  ultimately show ?thesis by (simp add: Key_def) (simp add: bob_peer_def)
qed

lemma sample_keys:
  "ms_key (bob f ps ms) = ''bob:'' @ EncodeKey (replicate 32 5)" "ms_key ann = ''ann:'' @ EncodeKey (replicate 32 5)"
  "ms_keys (bob f ps ms) = ms_keys ann" "k_enc_public (ms_keys ann) = 0 # replicate 32 7"
  "keys_agree toy_lib (k_enc_private (ms_keys ann)) (0 # replicate 32 7) (replicate 32 5) (k_sign_private (ms_keys ann))"
proof -
  have "replicate 64 5 = replicate 32 (5 :: byte) @ replicate 32 5" by (simp add: replicate_add [symmetric])
  then show "keys_agree toy_lib (k_enc_private (ms_keys ann)) (0 # replicate 32 7) (replicate 32 5) (k_sign_private (ms_keys ann))"
    using keys_agree_toy [of "replicate 32 5" "replicate 32 7"]
    by (simp add: ann_def sample_messenger_def new_messenger_def Let_def)
qed (simp_all add: ann_def bob_def sample_messenger_def new_messenger_def Let_def)

lemma ann_sends:
  obtains og A' where "prepareOutgoing wire_codec toy_lib sample_net ''bob:k'' ''hi'' [] 0 ann = (Ret og, A')"
    "og_peer og = bob_peer" "cm_id (og_message og) = ''uuid''"
    "\<forall>i < length (og_chunks og). pc_index (og_chunks og ! i) = int i"
proof -
  let ?payload = "enc_payload wire_codec \<lparr>mp_text = ''hi'', mp_time = 0, mp_files = []\<rparr>"
  let ?msg = "outgoing_chat sample_net bob_peer ''hi'' [] ann"
  have known: "knows_sender ann ''bob:k'' bob_peer" by (simp add: knows_sender_def ann_def bob_peer_def)
  have rec: "find_recipient sample_net ''bob:k'' ann = (Some bob_peer, ann)"
    by (simp add: find_recipient_def findPeer_known [OF known])
  have dec: "DecodeKey (peer_enc bob_peer) = Ret (0 # replicate 32 7)" by (simp add: bob_peer_def)
  have rnd: "\<forall>i. n_random sample_net 0 i \<noteq> None" by (simp add: sample_net_def)
  have wire: "dec_envelope wire_codec (enc_envelope wire_codec e) = Some e" "enc_envelope wire_codec e \<noteq> []" "?payload \<noteq> []" for e
    using faithful_wire by (simp_all add: faithful_def)
  obtain es P k where split: "SplitAndEncrypt toy_lib (n_random sample_net 0) (cm_id ?msg) (ms_id ann) (peer_id bob_peer) ?payload
      (0 # replicate 32 7) (k_sign_private (ms_keys ann)) = Ret es" 
    using sample_keys(5) rnd by (rule SplitAndEncrypt_split_of)
  have len: "length (k_sign_private (ms_keys ann)) = 64" using sample_keys(5) by (simp add: keys_agree_def sign_pair_def)
  let ?ttl = "ChunkTTLSeconds ''1w''"
  have ttl: "0 < ?ttl" by code_simp
  have "\<exists>p. pending_envelope wire_codec toy_lib (Key bob_peer) 0 ?ttl False ann e = Ret p" for e
    using len by (simp add: pending_envelope_def Sign_def Let_def)
  then obtain chunks where pend: "pendingEnvelopes wire_codec toy_lib (Key bob_peer) 0 ?ttl False ann es = Ret chunks"
    unfolding pendingEnvelopes_def using go_map_total [of es "pending_envelope wire_codec toy_lib (Key bob_peer) 0 ?ttl False ann"] by metis
  have time: "n_now sample_net = 0" by (simp add: sample_net_def)
  have seal: "seal_message wire_codec toy_lib sample_net bob_peer (0 # replicate 32 7) ?msg ?ttl ann = Ret chunks"
    using split pend by (simp add: seal_message_def Let_def outgoing_chat_def withoutLocalFilePaths_def time)
  have idx: "pc_index (chunks ! i) = int i" if "i < length chunks" for i
    using pendingEnvelopes_RetD(1) [OF pend] pendingEnvelopes_RetD(2) [OF pend, where i = i] that arg_cong [OF SplitAndEncrypt_es(2) [OF sample_keys(5) rnd wire(3) split], of "\<lambda>xs. xs ! i"]
    by simp
  have row: "chunk_ok p" if p: "p \<in> set chunks" for p
  proof -
    obtain i where "i < length chunks" "p = chunks ! i" using p by (auto simp: in_set_conv_nth)
    then obtain e where "pending_envelope wire_codec toy_lib (Key bob_peer) 0 ?ttl False ann e = Ret p"
      using list_all2_nthD2 [OF go_map_RetD [OF pend [unfolded pendingEnvelopes_def]]] by blast
    then have "pc_data p = enc_envelope wire_codec e \<and> pc_ttl p = ?ttl"
      by (auto simp: pending_envelope_def Let_def split: go.splits)
    then show ?thesis using wire(2) ttl by (simp add: chunk_ok_def)
  qed
  have "distinct (map pc_index chunks)" using idx by (auto simp: distinct_conv_nth)
  then have dist: "distinct (map pending_key chunks)" by (auto simp: distinct_conv_nth pending_key_def)
  let ?q = "QueueOutgoing 0 (cm_id ?msg) (Key bob_peer) (ms_user ann) (cm_chat ?msg) (enc_msg wire_codec ?msg) 0 chunks"
  have "fst (?q (ms_store ann)) = Ret ()"
    by (subst QueueOutgoing_succeeds_iff) (use row dist in \<open>simp_all add: ann_def no_tables_def tbl_has_def list_all_iff key_free_def\<close>)
  then obtain d where "?q (ms_store ann) = (Ret (), d)" by (cases "?q (ms_store ann)") simp
  then have store: "store ?q ann = (Ret (), ann\<lparr>ms_store := d\<rparr>)" by (simp add: store_def)
  have "\<not> ms_closed ann" by (simp add: ann_def)
  then have run: "prepareOutgoing wire_codec toy_lib sample_net ''bob:k'' ''hi'' [] 0 ann
      = (Ret \<lparr>og_message = ?msg, og_peer = bob_peer, og_chunks = chunks\<rparr>, notify (MessageEvent ?msg) (ann\<lparr>ms_store := d\<rparr>))"
    using rec dec seal store by (simp add: prepareOutgoing_def time Let_def)
  show ?thesis by (rule that [OF run]) (use idx in \<open>simp_all add: outgoing_chat_def sample_net_def\<close>)
qed

lemma bob_ready:
  assumes "\<forall>i < length ps. pc_index (ps ! i) = int i" "\<not> tbl_has m_uid f ms"
  shows "can_collect sample_net f ps (bob f ps ms)" and "announced f ps (map (record_of f) ps)"
    and "knows_sender (bob f ps ms) (ms_key ann) ann_peer" and "DecodeKey (peer_sign ann_peer) = Ret (replicate 32 5)"
proof -
  have "distinct (map (\<lambda>p. chunk_key (held_row f p)) ps)"
    using assms(1) by (auto simp: distinct_conv_nth chunk_key_def held_row_def)
  then have "pk chunk_key (map (held_row f) ps)" by (simp add: pk_def comp_def)
  then have find: "tbl_find chunk_key (map (held_row f) ps) (f, pc_index p) = Some (held_row f p)" if "p \<in> set ps" for p
    using tbl_find_in [of chunk_key "map (held_row f) ps" "held_row f p"] that by (simp add: chunk_key_def held_row_def)
  have tables: "t_chunks (db_tables (ms_store (bob f ps ms))) = map (held_row f) ps" by (simp add: bob_def)
  have "served (n_now sample_net) (db_tables (ms_store (bob f ps ms))) (f, pc_index p) = Some (pc_data p)" if "p \<in> set ps" for p
    using find [OF that] by (simp add: served_def held_def tables held_row_def)
  then show "can_collect sample_net f ps (bob f ps ms)"
    using assms(2) by (simp add: can_collect_def) (simp add: bob_def sample_messenger_def new_messenger_def Let_def)
  show "announced f ps (map (record_of f) ps)" by (auto simp: announced_def describes_def record_of_def)
  have "2 \<le> length (Split (''ann:'' @ EncodeKey (replicate 32 5)) (CHR '':''))"
  proof -
    have "Split (''ann'' @ CHR '':'' # EncodeKey (replicate 32 5)) (CHR '':'') = ''ann'' # Split (EncodeKey (replicate 32 5)) (CHR '':'')"
      by (rule Split_append) simp
    moreover have "0 < length (Split (EncodeKey (replicate 32 5)) (CHR '':''))" using Split_nonempty by blast
    ultimately show ?thesis by (simp add: Suc_le_eq)
  qed
  then show "knows_sender (bob f ps ms) (ms_key ann) ann_peer"
    by (simp add: knows_sender_def sample_keys) (simp add: bob_def ann_peer_def)
  show "DecodeKey (peer_sign ann_peer) = Ret (replicate 32 5)" by (simp add: ann_peer_def bob_peer_def)
qed

lemma message_arrives_witness:
  "\<exists>og A' B'. prepareOutgoing wire_codec toy_lib sample_net ''bob:k'' ''hi'' [] 0 ann = (Ret og, A')
     \<and> collectAndProcessMessage wire_codec toy_lib sample_net ''uuid'' (map (record_of ''uuid'') (og_chunks og))
         (bob ''uuid'' (og_chunks og) []) = (Ret True, B')
     \<and> delivered wire_codec ''uuid'' ann_peer ''hi'' 0 (bob ''uuid'' (og_chunks og) []) B'"
proof -
  obtain og A' where og: "prepareOutgoing wire_codec toy_lib sample_net ''bob:k'' ''hi'' [] 0 ann = (Ret og, A')"
    "og_peer og = bob_peer" "cm_id (og_message og) = ''uuid''" "\<forall>i < length (og_chunks og). pc_index (og_chunks og ! i) = int i"
    by (rule ann_sends)
  note b = bob_ready [OF og(4), of "''uuid''" "[]"]
  have "\<exists>B'. collectAndProcessMessage wire_codec toy_lib sample_net (cm_id (og_message og)) (map (record_of ''uuid'') (og_chunks og))
         (bob ''uuid'' (og_chunks og) []) = (Ret True, B')
     \<and> delivered wire_codec (cm_id (og_message og)) ann_peer ''hi'' (n_now sample_net) (bob ''uuid'' (og_chunks og) []) B'"
    by (rule message_arrives [OF faithful_wire _ _ og(1) _ _ _ _ b(3,4)])
      (use b(1,2) sample_keys in \<open>simp_all add: og(2,3) Key_bob tbl_has_def\<close>,
       simp_all add: bob_peer_def sample_net_def HasPrefix_def invitePrefix_def zero_time_def)
  then show ?thesis using og(1) by (auto simp: og(3) sample_net_def)
qed

lemma replay_accepted_witness:
  "\<exists>og A' B'. prepareOutgoing wire_codec toy_lib sample_net ''bob:k'' ''hi'' [] 0 ann = (Ret og, A')
     \<and> collectAndProcessMessage wire_codec toy_lib sample_net ''copy'' (map (record_of ''copy'') (og_chunks og))
         (bob ''copy'' (og_chunks og) [new_message 0 ''uuid'' [] [] [] [] 0]) = (Ret True, B')
     \<and> length (t_messages (db_tables (ms_store B'))) = 2"
proof -
  obtain og A' where og: "prepareOutgoing wire_codec toy_lib sample_net ''bob:k'' ''hi'' [] 0 ann = (Ret og, A')"
    "og_peer og = bob_peer" "cm_id (og_message og) = ''uuid''" "\<forall>i < length (og_chunks og). pc_index (og_chunks og ! i) = int i"
    by (rule ann_sends)
  let ?ms = "[new_message 0 ''uuid'' [] [] [] [] 0]"
  have ms: "\<not> tbl_has m_uid ''copy'' ?ms" "tbl_has m_uid ''uuid'' ?ms" by (simp_all add: tbl_has_def new_message_def)
  have t: "t_messages (db_tables (ms_store (bob f ps ms))) = ms" for f ps ms by (simp add: bob_def)
  note b = bob_ready [OF og(4) ms(1)]
  have "\<exists>B'. collectAndProcessMessage wire_codec toy_lib sample_net ''copy'' (map (record_of ''copy'') (og_chunks og))
         (bob ''copy'' (og_chunks og) ?ms) = (Ret True, B')
     \<and> delivered wire_codec ''copy'' ann_peer ''hi'' (n_now sample_net) (bob ''copy'' (og_chunks og) ?ms) B'
     \<and> tbl_has m_uid (cm_id (og_message og)) (t_messages (db_tables (ms_store B')))"
    by (rule replay_accepted [OF faithful_wire _ _ og(1) _ _ b(1-4)])
      (use ms sample_keys in \<open>simp_all add: og(2,3) Key_bob t\<close>,
       simp_all add: bob_peer_def sample_net_def HasPrefix_def invitePrefix_def zero_time_def)
  then show ?thesis using og(1) t by (fastforce simp: delivered_def)
qed

lemma send_all_or_nothing_witness:
  "\<exists>og A'. prepareOutgoing wire_codec toy_lib sample_net ''bob:k'' ''hi'' [] 0 ann = (Ret og, A')
     \<and> t_chunks (db_tables (ms_store A')) = map payload_of (og_chunks og)"
proof -
  obtain og A' where og: "prepareOutgoing wire_codec toy_lib sample_net ''bob:k'' ''hi'' [] 0 ann = (Ret og, A')"
    by (rule ann_sends)
  have "t_chunks (db_tables (ms_store ann)) = []" by (simp add: ann_def no_tables_def)
  then show ?thesis using send_all_or_nothing [OF og] og by auto
qed

end
