(* ===== verification/ReloginSafety.thy ===== *)
theory ReloginSafety
  imports Relogin
begin

text \<open>
  Relogin on the new device under every order of responses, blocks, jobs and attempts: a
  transfer gets one result, and a result without error means that the snapshot was imported.
\<close>

section \<open>Under every order of events\<close>

inductive relogin_step :: "codec \<Rightarrow> crypto_lib \<Rightarrow> net \<Rightarrow> Messenger \<Rightarrow> Messenger \<Rightarrow> bool" for c L net where
  response: "relogin_step c L net m (acceptReloginResponse p r m)"
| chunk: "relogin_step c L net m (acceptReloginChunk p k m)"
| job: "relogin_step c L net m (finishReloginTransfer c L net ref m)"
| begun: "relogin_start p signature m = (r, m') \<Longrightarrow> relogin_step c L net m m'"
| ended: "relogin_finish c net p peer ref w m = (r, m') \<Longrightarrow> relogin_step c L net m m'"

definition relogin_ok :: "Messenger \<Rightarrow> bool" where
  "relogin_ok m \<longleftrightarrow> (\<forall>ref t. ms_heap m ref = Some t \<longrightarrow> ref < ms_next m \<and> (rt_completed t \<longleftrightarrow> rt_result t \<noteq> None))"

text \<open>What a step may do to the transfers: results stay, and the rest of the invariant with them.\<close>

definition settles :: "Messenger \<Rightarrow> Messenger \<Rightarrow> bool" where
  "settles m m' \<longleftrightarrow> ms_next m \<le> ms_next m' \<and>
     (\<forall>ref t. ms_heap m ref = Some t \<longrightarrow> (\<exists>t'. ms_heap m' ref = Some t' \<and> (rt_result t \<noteq> None \<longrightarrow> rt_result t' = rt_result t)))"

lemma settles_same: "ms_heap m' = ms_heap m \<Longrightarrow> ms_next m \<le> ms_next m' \<Longrightarrow> relogin_ok m \<Longrightarrow> relogin_ok m' \<and> settles m m'"
  unfolding relogin_ok_def settles_def by (auto intro: order.strict_trans2)

lemma settles_put:
  assumes "relogin_ok m" "ms_heap m ref = Some t" "rt_completed t' \<longleftrightarrow> rt_result t' \<noteq> None"
    and "rt_result t \<noteq> None \<Longrightarrow> rt_result t' = rt_result t"
  shows "relogin_ok (put_transfer ref t' m) \<and> settles m (put_transfer ref t' m)"
  using assms by (auto simp: relogin_ok_def settles_def put_transfer_def)

lemma settles_trans:
  assumes ab: "settles a b" and bc: "settles b c"
  shows "settles a c"
  unfolding settles_def
proof (intro conjI allI impI)
  show "ms_next a \<le> ms_next c" using ab bc by (simp add: settles_def)
  fix ref t
  assume "ms_heap a ref = Some t"
  then obtain u where u: "ms_heap b ref = Some u" "rt_result t \<noteq> None \<longrightarrow> rt_result u = rt_result t"
    using ab unfolding settles_def by blast
  then obtain v where "ms_heap c ref = Some v" "rt_result u \<noteq> None \<longrightarrow> rt_result v = rt_result u"
    using bc unfolding settles_def by blast
  then show "\<exists>t'. ms_heap c ref = Some t' \<and> (rt_result t \<noteq> None \<longrightarrow> rt_result t' = rt_result t)"
    using u(2) by simp
qed

lemma settles_complete:
  assumes "relogin_ok m"
  shows "relogin_ok (completeReloginTransfer ref r m) \<and> settles m (completeReloginTransfer ref r m)"
proof (cases "completeReloginTransfer ref r m = m")
  case False
  then obtain t where t: "ms_heap m ref = Some t" "\<not> rt_completed t" "completeReloginTransfer ref r m
      = put_transfer ref (t\<lparr>rt_completed := True, rt_result := (case rt_result t of None \<Rightarrow> Some r | Some r \<Rightarrow> Some r)\<rparr>) m"
    by (auto simp: completeReloginTransfer_def split: option.splits if_splits)
  then have "rt_result t = None" using assms by (auto simp: relogin_ok_def)
  then show ?thesis using settles_put [OF assms t(1)] t(3) by simp
qed (use assms settles_same in simp)

lemma open_transfer_SomeD: "open_transfer p m = Some (ref, t) \<Longrightarrow> ms_relogin m = Some ref \<and> ms_heap m ref = Some t \<and> \<not> rt_completed t"
  by (auto simp: open_transfer_def split: option.splits if_splits)

lemma settles_response: "relogin_ok m \<Longrightarrow> relogin_ok (acceptReloginResponse p r m) \<and> settles m (acceptReloginResponse p r m)"
proof -
  assume ok: "relogin_ok m"
  show ?thesis
  proof (cases "open_transfer p m")
    case None
    then show ?thesis using ok by (simp add: acceptReloginResponse_def settles_same)
  next
    case (Some x)
    obtain ref t where x: "x = (ref, t)" by (cases x)
    have t: "ms_heap m ref = Some t" "\<not> rt_completed t" using open_transfer_SomeD Some x by auto
    then have none: "rt_result t = None" using ok by (auto simp: relogin_ok_def)
    have put: "relogin_ok (put_transfer ref (t\<lparr>rt_transfer := a, rt_keys := k, rt_sha := h, rt_slots := s\<rparr>) m)
        \<and> settles m (put_transfer ref (t\<lparr>rt_transfer := a, rt_keys := k, rt_sha := h, rt_slots := s\<rparr>) m)" for a k h s
      using settles_put [OF ok t(1)] none t(2) by simp
    show ?thesis using Some x settles_complete [OF ok] put by (simp add: acceptReloginResponse_def)
  qed
qed

lemma settles_chunk: "relogin_ok m \<Longrightarrow> relogin_ok (acceptReloginChunk p k m) \<and> settles m (acceptReloginChunk p k m)"
proof -
  assume ok: "relogin_ok m"
  show ?thesis
  proof (cases "open_transfer p m")
    case None
    then show ?thesis using ok by (simp add: acceptReloginChunk_def settles_same)
  next
    case (Some x)
    obtain ref t where x: "x = (ref, t)" by (cases x)
    have t: "ms_heap m ref = Some t" "\<not> rt_completed t" using open_transfer_SomeD Some x by auto
    then have none: "rt_result t = None" using ok by (auto simp: relogin_ok_def)
    have put: "relogin_ok (put_transfer ref (t\<lparr>rt_slots := s, rt_processing := b\<rparr>) m)
        \<and> settles m (put_transfer ref (t\<lparr>rt_slots := s, rt_processing := b\<rparr>) m)" for s b
      using settles_put [OF ok t(1)] none t(2) by simp
    have put1: "relogin_ok (put_transfer ref (t\<lparr>rt_slots := s\<rparr>) m) \<and> settles m (put_transfer ref (t\<lparr>rt_slots := s\<rparr>) m)" for s
      using settles_put [OF ok t(1)] none t(2) by simp
    have job: "relogin_ok (m1\<lparr>ms_jobs := js\<rparr>) \<and> settles m (m1\<lparr>ms_jobs := js\<rparr>)"
      if "relogin_ok m1 \<and> settles m m1" for m1 js
      using that settles_same [of "m1\<lparr>ms_jobs := js\<rparr>" m1] settles_trans by auto
    have stop: "relogin_ok (completeReloginTransfer ref r m1) \<and> settles m (completeReloginTransfer ref r m1)"
      if "relogin_ok m1 \<and> settles m m1" for m1 r
      using that settles_complete settles_trans by blast
    show ?thesis
      using Some x ok settles_same [of m m] settles_complete [OF ok]
      by (auto simp: acceptReloginChunk_def submit_def Let_def put put1 job stop)
  qed
qed

lemma settles_job:
  "relogin_ok m \<Longrightarrow> relogin_ok (finishReloginTransfer c L net ref m) \<and> settles m (finishReloginTransfer c L net ref m)"
proof -
  assume ok: "relogin_ok m"
  have st: "relogin_ok (m\<lparr>ms_store := d\<rparr>) \<and> settles m (m\<lparr>ms_store := d\<rparr>)" for d using ok settles_same by simp
  then have "relogin_ok (completeReloginTransfer ref r (m\<lparr>ms_store := d\<rparr>))
      \<and> settles m (completeReloginTransfer ref r (m\<lparr>ms_store := d\<rparr>))" for r d
    using settles_complete settles_trans by blast
  then show ?thesis
    using ok st settles_complete [OF ok] settles_same [OF refl order_refl ok]
    by (auto simp: finishReloginTransfer_def store_def Let_def split: option.split go.split prod.split)
qed

lemma heap_others [simp]:
  "ms_heap (snd (send p f m)) = ms_heap m" "ms_heap (snd (store g m)) = ms_heap m" "ms_next (snd (store g m)) = ms_next m"
  "ms_heap (clearReloginTransfer ref m) = ms_heap m" "ms_next (clearReloginTransfer ref m) = ms_next m"
  "ms_heap (reloadReplicatedPeers now m) = ms_heap m" "ms_next (reloadReplicatedPeers now m) = ms_next m"
  by (simp_all add: send_def rtc_def store_def clearReloginTransfer_def reloadReplicatedPeers_def notify_def Let_def
      split: prod.split go.split)

lemma queue_files_heap [simp]:
  "ms_heap (queue_files s p fs m) = ms_heap m" "ms_next (queue_files s p fs m) = ms_next m"
  by (induction fs arbitrary: m) (simp_all add: Let_def trySubmit_def)

lemma queueFileDownloads_heap [simp]:
  "ms_heap (queueFileDownloads c rs p u m) = ms_heap m" "ms_next (queueFileDownloads c rs p u m) = ms_next m"
  by (induction rs arbitrary: m) (simp_all split: option.split)

lemma take_over_heap: "take_over c net p peer result m = (r, m') \<Longrightarrow> ms_heap m' = ms_heap m \<and> ms_next m' = ms_next m"
proof -
  assume run: "take_over c net p peer result m = (r, m')"
  obtain r1 m1 where s: "store (SaveKeysJSON (res_keys result)) m = (r1, m1)" by fastforce
  have 1: "ms_heap m1 = ms_heap m" "ms_next m1 = ms_next m" using store_result [OF s] by auto
  show ?thesis
  proof (cases r1)
    case (Ret u)
    show ?thesis
    proof (cases "ParseKeyFile (dec_keys c) (bytes_of (res_keys result))")
      case keys: (Ret keys)
      define m2 where "m2 = m1\<lparr>ms_keys := keys, ms_key := Key peer, ms_user := peer_login peer,
         ms_config := (ms_config m1)\<lparr>cfg_username := peer_login peer, cfg_peer_id := ms_id m1\<rparr>\<rparr>"
      have 2: "ms_heap m2 = ms_heap m" "ms_next m2 = ms_next m" using 1 by (simp_all add: m2_def)
      obtain r3 m3 where cfg: "store (SaveAppConfig (ms_config m2)) m2 = (r3, m3)" by fastforce
      have 3: "ms_heap m3 = ms_heap m" "ms_next m3 = ms_next m" using store_result [OF cfg] 2 by auto
      show ?thesis
        using run 3 unfolding take_over_def s prod.case Ret go.case keys m2_def [symmetric] Let_def cfg
        by (auto split: go.splits)
    qed (use run s Ret 1 in \<open>auto simp: take_over_def\<close>)
  qed (use run s 1 in \<open>auto simp: take_over_def\<close>)
qed

lemma settles_begun:
  assumes ok: "relogin_ok m" and run: "relogin_start p signature m = (r, m')"
  shows "relogin_ok m' \<and> settles m m'"
proof (cases "IsPeerConnected m p \<and> ms_relogin m = None")
  case False
  then show ?thesis using run ok settles_same [of m m] by (auto simp: relogin_start_def split: if_splits)
next
  case True
  define m1 where "m1 = put_transfer (ms_next m) (new_relogin p) (m\<lparr>ms_relogin := Some (ms_next m), ms_next := Suc (ms_next m)\<rparr>)"
  have new: "relogin_ok m1 \<and> settles m m1"
    using ok by (fastforce simp: m1_def put_transfer_def relogin_ok_def settles_def new_relogin_def)
  have "m' = snd (send p (ReloginRequestFrame signature) m1)
      \<or> m' = clearReloginTransfer (ms_next m) (snd (send p (ReloginRequestFrame signature) m1))"
    using run True by (auto simp: relogin_start_def m1_def Let_def split: prod.splits go.splits)
  then have "ms_heap m' = ms_heap m1" "ms_next m1 \<le> ms_next m'" by auto
  then have "relogin_ok m' \<and> settles m1 m'" using new settles_same by blast
  then show ?thesis using new settles_trans by blast
qed

lemma settles_ended:
  assumes ok: "relogin_ok m" and run: "relogin_finish c net p peer ref w m = (r, m')"
  shows "relogin_ok m' \<and> settles m m'"
proof -
  have "ms_heap m' = ms_heap m \<and> ms_next m' = ms_next m"
    using run by (auto simp: relogin_finish_def split: awaited.splits option.splits if_splits prod.splits
        dest!: take_over_heap)
  then show ?thesis using settles_same [OF _ _ ok] by simp
qed

lemma relogin_step_settles:
  assumes "relogin_step c L net m m'" and ok: "relogin_ok m"
  shows "relogin_ok m' \<and> settles m m'"
  using assms(1)
proof (cases rule: relogin_step.cases)
  case (response p r)
  then show ?thesis using settles_response [OF ok] by simp
next
  case (chunk p k)
  then show ?thesis using settles_chunk [OF ok] by simp
next
  case (job ref)
  then show ?thesis using settles_job [OF ok] by simp
qed (use ok settles_begun settles_ended in \<open>blast+\<close>)

text \<open>
  A relogin has one outcome: once a transfer has a result, no second response, no further
  block, no late job and no later attempt changes it.
\<close>

theorem relogin_result_final:
  assumes "(\<lambda>m m'. \<exists>net. relogin_step c L net m m')\<^sup>*\<^sup>* m m'" and "relogin_ok m"
    and "Option.bind (ms_heap m ref) rt_result = Some r"
  shows "Option.bind (ms_heap m' ref) rt_result = Some r"
proof -
  have "relogin_ok m' \<and> settles m m'"
    using assms(1)
  proof (induction rule: rtranclp_induct)
    case base
    then show ?case using assms(2) settles_same by simp
  next
    case (step a b)
    then show ?case using relogin_step_settles settles_trans by blast
  qed
  moreover obtain t where "ms_heap m ref = Some t" "rt_result t = Some r"
    using assms(3) by (cases "ms_heap m ref") auto
  ultimately show ?thesis unfolding settles_def by fastforce
qed

lemma relogin_result_final_witness:
  "Option.bind (ms_heap (acceptReloginResponse ''a''
      \<lparr>rr_keys = ''other'', rr_transfer = [], rr_count = 0, rr_sha = [], rr_error = []\<rparr>
      (acceptReloginResponse ''a'' \<lparr>rr_keys = ''K'', rr_transfer = [], rr_count = 0, rr_sha = [], rr_error = []\<rparr>
        relogin_target)) 0) rt_result
   = Some \<lparr>res_keys = ''K'', res_snapshot = empty_snapshot, res_err = None\<rparr>"
proof -
  let ?m = "acceptReloginResponse ''a'' \<lparr>rr_keys = ''K'', rr_transfer = [], rr_count = 0, rr_sha = [], rr_error = []\<rparr> relogin_target"
  let ?r = "\<lparr>rr_keys = ''other'', rr_transfer = [], rr_count = 0, rr_sha = [], rr_error = []\<rparr>"
  have m: "?m = put_transfer 0 ((new_relogin ''a'')\<lparr>rt_completed := True,
      rt_result := Some \<lparr>res_keys = ''K'', res_snapshot = empty_snapshot, res_err = None\<rparr>\<rparr>) relogin_target"
    by (simp add: acceptReloginResponse_def open_transfer_def relogin_target_def put_transfer_def new_relogin_def
        completeReloginTransfer_def)
  have "relogin_step sample_codec toy_lib sample_net ?m (acceptReloginResponse ''a'' ?r ?m)" by (rule response)
  then have step: "(\<lambda>m m'. \<exists>net. relogin_step sample_codec toy_lib net m m')\<^sup>*\<^sup>* ?m (acceptReloginResponse ''a'' ?r ?m)"
    by (intro r_into_rtranclp) blast
  have ok: "relogin_ok relogin_target"
    by (simp add: relogin_ok_def relogin_target_def put_transfer_def new_relogin_def)
      (simp add: sample_messenger_def new_messenger_def Let_def)
  have "relogin_ok ?m" using settles_response [OF ok] by blast
  from relogin_result_final [OF step this, of 0] show ?thesis unfolding m by (simp add: put_transfer_def)
qed

lemma complete_result:
  assumes "ms_heap m ref = Some t" "rt_result t = None"
    and "Option.bind (ms_heap (completeReloginTransfer ref0 r0 m) ref) rt_result = Some r"
  shows "r = r0 \<and> ref0 = ref \<and> ms_relogin m = Some ref"
  using assms by (auto simp: completeReloginTransfer_def put_transfer_def split: option.splits if_splits)

lemma failed_no_result:
  assumes "ms_heap m ref = Some t" "rt_result t = None" "res_err r = None"
  shows "Option.bind (ms_heap (completeReloginTransfer ref0 (failed_result e) m) ref) rt_result \<noteq> Some r"
  using complete_result [OF assms(1,2), of ref0 "failed_result e" r] assms(3) by (auto simp: failed_result_def)

lemma put_result:
  assumes "ms_heap m ref = Some t" "rt_result t = None" "rt_result t1 = rt_result t0" "ms_heap m ref0 = Some t0"
  shows "Option.bind (ms_heap (put_transfer ref0 t1 m) ref) rt_result = None"
  using assms by (auto simp: put_transfer_def)

lemma response_result:
  assumes run: "m' = acceptReloginResponse p x m" and known: "ms_heap m ref = Some t" "rt_result t = None"
    "Option.bind (ms_heap m' ref) rt_result = Some r" "res_err r = None"
  shows "res_snapshot r = empty_snapshot"
proof (cases "open_transfer p m")
  case None
  then show ?thesis using known(1-3) run by (simp add: acceptReloginResponse_def)
next
  case (Some y)
  obtain ref0 t0 where y: "y = (ref0, t0)" by (cases y)
  have t0: "ms_heap m ref0 = Some t0" using open_transfer_SomeD Some y by blast
  define n where "n = put_transfer ref0 (t0\<lparr>rt_transfer := rr_transfer x, rt_keys := rr_keys x, rt_sha := rr_sha x,
     rt_slots := (rt_slots t0)\<lparr>sl_chunks := sl_chunks (no_slots (nat (rr_count x)))\<rparr>\<rparr>) m"
  have "Option.bind (ms_heap n ref) rt_result = None"
    unfolding n_def by (rule put_result [OF known(1,2) _ t0]) simp
  then have "m' \<noteq> n" using known(3) by auto
  moreover have "m' = n \<or> (\<exists>e. m' = completeReloginTransfer ref0 (failed_result e) m)
      \<or> m' = completeReloginTransfer ref0 \<lparr>res_keys = rr_keys x, res_snapshot = empty_snapshot, res_err = None\<rparr> m"
    using run Some y unfolding n_def acceptReloginResponse_def by (simp split: if_splits) blast+
  ultimately obtain r0 where r0: "m' = completeReloginTransfer ref0 r0 m" "res_err r0 \<noteq> None \<or> res_snapshot r0 = empty_snapshot"
    by (auto simp: failed_result_def)
  then have "r = r0" using complete_result [OF known(1,2)] known(3) by blast
  then show ?thesis using r0(2) known(4) by simp
qed

lemma chunk_result:
  assumes run: "m' = acceptReloginChunk p k m" and known: "ms_heap m ref = Some t" "rt_result t = None"
    "Option.bind (ms_heap m' ref) rt_result = Some r" "res_err r = None"
  shows "False"
proof (cases "open_transfer p m")
  case None
  then show ?thesis using known(1-3) run by (simp add: acceptReloginChunk_def)
next
  case (Some y)
  obtain ref0 t0 where y: "y = (ref0, t0)" by (cases y)
  have t0: "ms_heap m ref0 = Some t0" using open_transfer_SomeD Some y by blast
  define t1 where "t1 = t0\<lparr>rt_slots := fill_slot (nat (rk_index k)) (rk_data k) (rt_slots t0)\<rparr>"
  define n where "n = put_transfer ref0 (t1\<lparr>rt_processing := True\<rparr>) m"
  have quiet: "Option.bind (ms_heap (put_transfer ref0 t1 m) ref) rt_result = None"
      "Option.bind (ms_heap n ref) rt_result = None"
    unfolding n_def by (rule put_result [OF known(1,2) _ t0]; simp add: t1_def)+
  obtain t2 where t2: "ms_heap n ref = Some t2" using known(1) by (cases "ref = ref0") (auto simp: n_def put_transfer_def)
  have "m' = m \<or> m' = put_transfer ref0 t1 m \<or> ms_heap m' = ms_heap n
      \<or> (\<exists>e. m' = completeReloginTransfer ref0 (failed_result e) m)
      \<or> (\<exists>e. m' = completeReloginTransfer ref0 (failed_result e) n)"
    using run Some y
    by (auto simp: acceptReloginChunk_def submit_def Let_def t1_def n_def split: if_splits prod.splits)
  moreover have "rt_result t2 = None" using quiet(2) t2 by simp
  ultimately show ?thesis
    using quiet known(1-3) failed_no_result [OF known(1,2,4)] failed_no_result [OF t2 _ known(4)] by auto
qed

lemma job_result:
  assumes run: "m' = finishReloginTransfer c L net ref0 m" and known: "ms_heap m ref = Some t" "rt_result t = None"
    "Option.bind (ms_heap m' ref) rt_result = Some r" "res_err r = None"
  shows "res_keys r = rt_keys t \<and> digest_of L (join_slots (rt_slots t)) = rt_sha t
    \<and> decodeReloginReplica c (join_slots (rt_slots t)) = Ret (res_snapshot r)
    \<and> db_tables (ms_store m') = imported (unix_micro (n_now net)) (res_snapshot r) (db_tables (ms_store m))"
proof (cases "ms_heap m ref0")
  case None
  then show ?thesis using known(1-3) run by (simp add: finishReloginTransfer_def)
next
  case (Some t0)
  have bad: "m' \<noteq> completeReloginTransfer ref0 (failed_result e) n" if "ms_heap n = ms_heap m" for e n
    using complete_result [of n ref t ref0 "failed_result e" r] that known(1-4) by (auto simp: failed_result_def)
  have kept: "ms_heap m' \<noteq> ms_heap m" using known(1-3) by auto
  define ri mi where "ri = (\<lambda>sn. fst (store (ImportReplicationSnapshot (n_now net) sn) m))"
    and "mi = (\<lambda>sn. snd (store (ImportReplicationSnapshot (n_now net) sn) m))"
  have imp: "store (ImportReplicationSnapshot (n_now net) sn) m = (ri sn, mi sn)" for sn by (simp add: ri_def mi_def)
  have heap: "ms_heap (mi sn) = ms_heap m" for sn using store_result [OF imp [of sn]] by auto
  obtain snapshot where ok: "digest_of L (join_slots (rt_slots t0)) = rt_sha t0"
      "decodeReloginReplica c (join_slots (rt_slots t0)) = Ret snapshot" "ri snapshot = Ret ()"
      "m' = completeReloginTransfer ref0 \<lparr>res_keys = rt_keys t0, res_snapshot = snapshot, res_err = None\<rparr> (mi snapshot)"
    using run Some bad [OF refl] bad [OF heap] kept heap imp
    by (auto simp: finishReloginTransfer_def Let_def split: if_splits go.splits)
  have "ms_heap (mi snapshot) ref = Some t" using heap known(1) by simp
  from complete_result [OF this known(2)] ok(4) known(3)
  have r: "r = \<lparr>res_keys = rt_keys t0, res_snapshot = snapshot, res_err = None\<rparr>" "ref0 = ref" by auto
  obtain d where d: "ImportReplicationSnapshot (n_now net) snapshot (ms_store m) = (Ret (), d)" "ms_store (mi snapshot) = d"
    using store_result [OF imp [of snapshot]] ok(3) by auto
  have "ms_store m' = d" using ok(4) d(2) by (auto simp: completeReloginTransfer_def put_transfer_def split: option.split)
  then show ?thesis
    using ImportReplicationSnapshot_result [OF d(1)] r ok(1,2) known(1) Some by auto
qed

text \<open>
  A result without error is honest: the step that gave it either took an answer that
  announced no blocks, or it found the blocks to hash to what the answer announced, decoded them
  to a snapshot of the right version and imported it, in one transaction, before it reported.
\<close>

theorem relogin_result_honest:
  assumes "relogin_step c L net m m'" and "relogin_ok m"
    and "ms_heap m ref = Some t" and "rt_result t = None"
    and "Option.bind (ms_heap m' ref) rt_result = Some r" and "res_err r = None"
  shows "res_snapshot r = empty_snapshot \<or>
     (res_keys r = rt_keys t \<and> digest_of L (join_slots (rt_slots t)) = rt_sha t
      \<and> decodeReloginReplica c (join_slots (rt_slots t)) = Ret (res_snapshot r)
      \<and> db_tables (ms_store m') = imported (unix_micro (n_now net)) (res_snapshot r) (db_tables (ms_store m)))"
  using assms(1)
proof (cases rule: relogin_step.cases)
  case (response p x)
  then show ?thesis using response_result [OF _ assms(3-6)] by blast
next
  case (chunk p k)
  then show ?thesis using chunk_result [OF _ assms(3-6)] by blast
next
  case (job ref0)
  then show ?thesis using job_result [OF _ assms(3-6)] by blast
next
  case (begun p signature x)
  have "ref \<noteq> ms_next m" using assms(2,3) by (auto simp: relogin_ok_def)
  then have "ms_heap m' ref = ms_heap m ref"
    using begun by (auto simp: relogin_start_def Let_def put_transfer_def split: if_splits prod.splits go.splits
        dest!: send_state)
  then show ?thesis using assms(3-5) by simp
next
  case (ended p peer ref0 w x)
  then have "ms_heap m' = ms_heap m"
    by (auto simp: relogin_finish_def split: awaited.splits option.splits if_splits prod.splits dest!: take_over_heap)
  then show ?thesis using assms(3-5) by simp
qed

lemma relogin_result_honest_witness:
  "let m = put_transfer 0 ((new_relogin ''a'')\<lparr>rt_keys := ''K'', rt_sha := digest_of toy_lib [1, 2],
         rt_slots := \<lparr>sl_chunks = [[1, 2]], sl_received = 1\<rparr>\<rparr>) relogin_target;
       m' = finishReloginTransfer relogin_codec toy_lib sync_net 0 m
   in map m_uid (t_messages (db_tables (ms_store m'))) = [''u'']"
proof -
  let ?s = "\<lparr>rs_version = 1, rs_messages = [(replicated sample_row)\<lparr>rm_data := []\<rparr>], rs_peers = [], rs_groups = []\<rparr>"
  define t where "t = (new_relogin ''a'')\<lparr>rt_keys := ''K'', rt_sha := digest_of toy_lib [1, 2],
         rt_slots := \<lparr>sl_chunks = [[1, 2]], sl_received = 1\<rparr>\<rparr>"
  define m where "m = put_transfer 0 t relogin_target"
  define m' where "m' = finishReloginTransfer relogin_codec toy_lib sync_net 0 m"
  let ?r = "\<lparr>res_keys = ''K'', res_snapshot = ?s, res_err = None\<rparr>"
  have t: "join_slots (rt_slots t) = [1, 2]" "rt_sha t = digest_of toy_lib [1, 2]" "rt_keys t = ''K''"
    "rt_result t = None" "\<not> rt_completed t"
    by (simp_all add: t_def join_slots_def new_relogin_def)
  have m: "ms_heap m 0 = Some t" "ms_relogin m = Some 0" "db_faults (ms_store m) = []" "relogin_ok m"
      "db_tables (ms_store m) = no_tables"
    using t(4,5) by (simp_all add: m_def relogin_target_def put_transfer_def relogin_ok_def fresh_db_def)
      (simp_all add: sample_messenger_def new_messenger_def Let_def)
  have d: "decodeReloginReplica relogin_codec [1, 2] = Ret ?s"
    by (simp add: decodeReloginReplica_def relogin_codec_def sync_codec_def sample_codec_def reloginSnapshotVersion_def)
  obtain st where st: "ImportReplicationSnapshot (n_now sync_net) ?s (ms_store m) = (Ret (), st)"
    using ImportReplicationSnapshot_ok [OF m(3), of ?s] by auto
  have "m' = completeReloginTransfer 0 ?r (m\<lparr>ms_store := st\<rparr>)"
    using m t d st digest_nonempty [OF toy_lib_lawful] by (simp add: m'_def finishReloginTransfer_def store_def Let_def)
  then have res: "Option.bind (ms_heap m' 0) rt_result = Some ?r"
    using m t by (simp add: completeReloginTransfer_def put_transfer_def)
  have step: "relogin_step relogin_codec toy_lib sync_net m m'" unfolding m'_def by (rule job)
  have "?s \<noteq> empty_snapshot" by (simp add: empty_snapshot_def)
  then have "db_tables (ms_store m') = imported (unix_micro (n_now sync_net)) ?s no_tables"
    using relogin_result_honest [OF step m(4,1) t(4) res] m(5) by simp
  moreover have "map m_uid (t_messages (imported at ?s no_tables)) = [''u'']" for at
    by (simp add: imported_def upsert_message_def received_row_def no_tables_def tbl_upsert_def tbl_has_def replicated_def
        sample_row_def)
  ultimately show ?thesis unfolding Let_def t_def [symmetric] m_def [symmetric] m'_def [symmetric] by simp
qed

end
