(* ===== verification/MuninnClient.thy ===== *)
theory MuninnClient
  imports MuninnPeer Json
begin

text \<open>
  The HTTP client of \<open>internal/muninn/client.go\<close>: the request that each method makes - method,
  URL and JSON body - and what it makes of the answer. Muninn itself and \<open>net/http\<close> are the
  parameter \<open>http\<close>: which URLs parse, and the response to a request, or none. The JSON of the
  messages is the parameter \<open>api\<close>. The escaping of \<open>net/url\<close> is written out, as it decides
  which peers and recipients an URL can be mistaken for.
\<close>

section \<open>Requests, answers and errors\<close>

record http_request =
  hq_method :: string
  hq_url :: string
  hq_json :: bool
  hq_body :: bytes

datatype http_outcome = NoAnswer string | Answer int bytes

record http =
  h_parses :: "string \<Rightarrow> bool"
  h_do :: "http_request \<Rightarrow> http_outcome"

text \<open>\<open>NotFound\<close> is the error that wraps \<open>ErrPeerNotFound\<close>.\<close>

datatype client_error =
    BadRequest
  | NoConnection string
  | BadStatus string int bytes
  | NotFound string int bytes
  | Undecodable

record RegisterChunkRequest =
  kq_sender :: string
  kq_recipient :: string
  kq_hash :: string
  kq_sig :: string
  kq_peer :: string
  kq_persist :: bool
  kq_ttl :: int

record ConfirmChunkRequest =
  kc_recipient :: string
  kc_file :: string
  kc_index :: int
  kc_hash :: string
  kc_sig :: string

record ConfirmChunkBatchEntry =
  kb_file :: string
  kb_index :: int
  kb_hash :: string
  kb_sig :: string

record ConfirmChunkBatchRequest =
  kb_recipient :: string
  kb_chunks :: "ConfirmChunkBatchEntry list"

record ConfirmChunkResult =
  kr_valid :: bool
  kr_expected :: string
  kr_confirmed :: string
  kr_delta :: int
  kr_peer :: Peer

record api =
  a_signal :: "Signal \<Rightarrow> bytes"
  a_signals :: "bytes \<Rightarrow> Signal list option"
  a_register :: "RegisterRequest \<Rightarrow> bytes"
  a_refresh :: "RefreshRequest \<Rightarrow> bytes"
  a_peers :: "bytes \<Rightarrow> Peer list option"
  a_peer :: "bytes \<Rightarrow> Peer option"
  a_heartbeat :: "int \<Rightarrow> bytes"
  a_batch :: "RegisterChunkBatchEntry list \<Rightarrow> bytes"
  a_chunk :: "RegisterChunkRequest \<Rightarrow> bytes"
  a_report :: "ChunkReportRequest \<Rightarrow> bytes"
  a_records :: "bytes \<Rightarrow> ChunkRecord list option"
  a_read :: "ReadChunkRequest \<Rightarrow> bytes"
  a_confirm :: "ConfirmChunkRequest \<Rightarrow> bytes"
  a_confirmed :: "bytes \<Rightarrow> ConfirmChunkResult option"
  a_confirm_batch :: "ConfirmChunkBatchRequest \<Rightarrow> bytes"

section \<open>Escaping\<close>

text \<open>\<open>url.PathEscape\<close> and \<open>url.QueryEscape\<close>: \<open>shouldEscape\<close> of \<open>net/url\<close> and \<open>%XX\<close>.\<close>

definition between :: "char \<Rightarrow> char \<Rightarrow> char \<Rightarrow> bool" where
  "between low high c = (low \<le> c \<and> c \<le> high)"

definition unreserved :: "char \<Rightarrow> bool" where
  "unreserved c =
     (between CHR ''a'' CHR ''z'' c \<or> between CHR ''A'' CHR ''Z'' c \<or> between CHR ''0'' CHR ''9'' c
      \<or> c \<in> set ''-_.~'')"

definition upper_hex :: "nat \<Rightarrow> char" where
  "upper_hex n = (if n < 10 then char_of (48 + n) else char_of (55 + n))"

definition percent :: "char \<Rightarrow> string" where
  "percent c = [CHR 0x25, upper_hex (code c div 16), upper_hex (code c mod 16)]"

definition PathEscape :: "string \<Rightarrow> string" where
  "PathEscape s = concat (map (\<lambda>c. if unreserved c \<or> c \<in> set ''$&+:=@'' then [c] else percent c) s)"

definition QueryEscape :: "string \<Rightarrow> string" where
  "QueryEscape s =
     concat (map (\<lambda>c. if unreserved c then [c] else if c = CHR '' '' then ''+'' else percent c) s)"

section \<open>Exchanges\<close>

text \<open>The URL is parsed before anything is sent; a method then looks at the status.\<close>

definition exchange :: "http \<Rightarrow> string \<Rightarrow> string \<Rightarrow> bytes option \<Rightarrow> client_error + int \<times> bytes" where
  "exchange h method url body =
     (if \<not> h_parses h url then Inl BadRequest
      else (case h_do h \<lparr>hq_method = method, hq_url = url, hq_json = (body \<noteq> None),
                 hq_body = (case body of None \<Rightarrow> [] | Some b \<Rightarrow> b)\<rparr> of
          NoAnswer e \<Rightarrow> Inl (NoConnection e)
        | Answer status b \<Rightarrow> Inr (status, b)))"

definition accepting :: "int list \<Rightarrow> string \<Rightarrow> client_error + int \<times> bytes \<Rightarrow> client_error + bytes" where
  "accepting ok what r =
     (case r of Inl e \<Rightarrow> Inl e
      | Inr (status, b) \<Rightarrow> if status \<in> set ok then Inr b else Inl (BadStatus what status b))"

definition accepting_found :: "int list \<Rightarrow> string \<Rightarrow> client_error + int \<times> bytes \<Rightarrow> client_error + bytes" where
  "accepting_found ok what r =
     (case r of Inl e \<Rightarrow> Inl e
      | Inr (status, b) \<Rightarrow>
          if status \<in> set ok then Inr b
          else if status = 404 then Inl (NotFound what status b)
          else Inl (BadStatus what status b))"

definition no_content :: "client_error + bytes \<Rightarrow> client_error + unit" where
  "no_content r = (case r of Inl e \<Rightarrow> Inl e | Inr _ \<Rightarrow> Inr ())"

definition decoding :: "(bytes \<Rightarrow> 'a option) \<Rightarrow> client_error + bytes \<Rightarrow> client_error + 'a" where
  "decoding f r =
     (case r of Inl e \<Rightarrow> Inl e | Inr b \<Rightarrow> (case f b of None \<Rightarrow> Inl Undecodable | Some x \<Rightarrow> Inr x))"

section \<open>Peers\<close>

definition peers_url :: "string \<Rightarrow> string" where
  "peers_url base = base @ ''/api/v1/peers''"

definition peer_url :: "string \<Rightarrow> string \<Rightarrow> string" where
  "peer_url base peerID = peers_url base @ ''/'' @ peerID"

definition SendSignal :: "api \<Rightarrow> http \<Rightarrow> string \<Rightarrow> string \<Rightarrow> Signal \<Rightarrow> client_error + unit" where
  "SendSignal j h base peerID sig =
     no_content (accepting [200, 204] ''send signal''
       (exchange h ''POST'' (peer_url base peerID @ ''/signals'') (Some (a_signal j sig))))"

definition PollSignals :: "api \<Rightarrow> http \<Rightarrow> string \<Rightarrow> string \<Rightarrow> client_error + Signal list" where
  "PollSignals j h base peerID =
     decoding (a_signals j) (accepting [200] ''poll signals'' (exchange h ''GET'' (peer_url base peerID @ ''/signals'') None))"

definition Register :: "api \<Rightarrow> http \<Rightarrow> string \<Rightarrow> RegisterRequest \<Rightarrow> client_error + unit" where
  "Register j h base req =
     no_content (accepting [200, 201] ''register'' (exchange h ''POST'' (peers_url base) (Some (a_register j req))))"

definition Refresh :: "api \<Rightarrow> http \<Rightarrow> string \<Rightarrow> RefreshRequest \<Rightarrow> client_error + unit" where
  "Refresh j h base req =
     no_content (accepting_found [200, 201] ''refresh'' (exchange h ''PUT'' (peers_url base) (Some (a_refresh j req))))"

definition ListPeers :: "api \<Rightarrow> http \<Rightarrow> string \<Rightarrow> client_error + Peer list" where
  "ListPeers j h base = decoding (a_peers j) (accepting [200] ''list'' (exchange h ''GET'' (peers_url base) None))"

definition GetPeer :: "api \<Rightarrow> http \<Rightarrow> string \<Rightarrow> string \<Rightarrow> client_error + Peer" where
  "GetPeer j h base peerID = decoding (a_peer j) (accepting [200] ''get'' (exchange h ''GET'' (peer_url base peerID) None))"

definition GetBestPeers :: "api \<Rightarrow> http \<Rightarrow> string \<Rightarrow> int \<Rightarrow> client_error + Peer list" where
  "GetBestPeers j h base n =
     decoding (a_peers j) (accepting [200] ''best peers'' (exchange h ''GET'' (peers_url base @ ''/best?n='' @ itoa n) None))"

definition GetBestThickPeers :: "api \<Rightarrow> http \<Rightarrow> string \<Rightarrow> int \<Rightarrow> client_error + Peer list" where
  "GetBestThickPeers j h base n =
     decoding (a_peers j) (accepting [200] ''best thick peers''
       (exchange h ''GET'' (peers_url base @ ''/best/thick?n='' @ itoa n) None))"

definition Heartbeat :: "api \<Rightarrow> http \<Rightarrow> string \<Rightarrow> string \<Rightarrow> int \<Rightarrow> client_error + unit" where
  "Heartbeat j h base peerID ttlSeconds =
     no_content (accepting_found [200] ''heartbeat''
       (exchange h ''POST'' (peer_url base peerID @ ''/heartbeat'') (Some (a_heartbeat j ttlSeconds))))"

definition DeletePeer :: "http \<Rightarrow> string \<Rightarrow> string \<Rightarrow> client_error + unit" where
  "DeletePeer h base peerID = no_content (accepting [200, 204] ''delete'' (exchange h ''DELETE'' (peer_url base peerID) None))"

definition keys_url :: "string \<Rightarrow> string \<Rightarrow> string \<Rightarrow> string" where
  "keys_url base login signature =
     base @ ''/api/v1/keys/'' @ PathEscape login @ ''?signature='' @ QueryEscape signature"

definition GetAllByKey :: "api \<Rightarrow> http \<Rightarrow> string \<Rightarrow> string \<Rightarrow> string \<Rightarrow> client_error + Peer list" where
  "GetAllByKey j h base login signature =
     decoding (a_peers j) (accepting [200] ''get by key'' (exchange h ''GET'' (keys_url base login signature) None))"

text \<open>\<open>GetByKey\<close> takes the address of the first element of the answer.\<close>

definition GetByKey :: "api \<Rightarrow> http \<Rightarrow> string \<Rightarrow> string \<Rightarrow> string \<Rightarrow> (client_error + Peer) go" where
  "GetByKey j h base login signature =
     (case decoding (a_peers j) (accepting [200] ''get by key'' (exchange h ''GET'' (keys_url base login signature) None)) of
        Inl e \<Rightarrow> Ret (Inl e)
      | Inr [] \<Rightarrow> Panic ''index out of range''
      | Inr (p # ps) \<Rightarrow> Ret (Inr p))"

section \<open>Blocks\<close>

definition chunks_url :: "string \<Rightarrow> string \<Rightarrow> string" where
  "chunks_url base fileID = base @ ''/api/v1/files/'' @ fileID @ ''/chunks''"

definition recipient_url :: "string \<Rightarrow> string \<Rightarrow> int \<Rightarrow> string" where
  "recipient_url base recipientID dateFrom =
     base @ ''/api/v1/recipient/chunks?date_from='' @ itoa dateFrom @ ''&recipient_id='' @ QueryEscape recipientID"

definition RegisterChunks :: "api \<Rightarrow> http \<Rightarrow> string \<Rightarrow> string \<Rightarrow> RegisterChunkBatchEntry list \<Rightarrow> client_error + unit" where
  "RegisterChunks j h base fileID req =
     no_content (accepting [200, 204] ''register chunks'' (exchange h ''POST'' (chunks_url base fileID) (Some (a_batch j req))))"

definition RegisterChunk ::
    "api \<Rightarrow> http \<Rightarrow> string \<Rightarrow> string \<Rightarrow> int \<Rightarrow> RegisterChunkRequest \<Rightarrow> client_error + unit" where
  "RegisterChunk j h base fileID chunkIndex req =
     no_content (accepting [200, 204] ''register chunk''
       (exchange h ''PUT'' (chunks_url base fileID @ ''/'' @ itoa chunkIndex) (Some (a_chunk j req))))"

definition ReportChunk :: "api \<Rightarrow> http \<Rightarrow> string \<Rightarrow> string \<Rightarrow> ChunkReportRequest \<Rightarrow> client_error + unit" where
  "ReportChunk j h base sourcePeerID req =
     no_content (accepting [200] ''report chunk''
       (exchange h ''POST'' (peer_url base (PathEscape sourcePeerID) @ ''/chunk-reports'') (Some (a_report j req))))"

definition GetChunksByRecipient :: "api \<Rightarrow> http \<Rightarrow> string \<Rightarrow> string \<Rightarrow> int \<Rightarrow> client_error + ChunkRecord list" where
  "GetChunksByRecipient j h base recipientID dateFrom =
     decoding (a_records j) (accepting [200] ''get chunks'' (exchange h ''GET'' (recipient_url base recipientID dateFrom) None))"

definition GetChunksByFileID :: "api \<Rightarrow> http \<Rightarrow> string \<Rightarrow> string \<Rightarrow> client_error + ChunkRecord list" where
  "GetChunksByFileID j h base fileID =
     decoding (a_records j) (accepting [200] ''get chunks by fileID'' (exchange h ''GET'' (chunks_url base fileID) None))"

definition DeleteChunksByRecipient :: "http \<Rightarrow> string \<Rightarrow> string \<Rightarrow> string \<Rightarrow> client_error + unit" where
  "DeleteChunksByRecipient h base recipientID fileID =
     no_content (accepting [200, 204] ''delete chunks''
       (exchange h ''DELETE'' (base @ ''/api/v1/recipient/'' @ PathEscape recipientID @ ''/chunks/'' @ PathEscape fileID) None))"

definition ReadChunk :: "api \<Rightarrow> http \<Rightarrow> string \<Rightarrow> ReadChunkRequest \<Rightarrow> client_error + unit" where
  "ReadChunk j h base req =
     no_content (accepting [200] ''read chunk'' (exchange h ''POST'' (base @ ''/api/v1/chunks/read'') (Some (a_read j req))))"

definition ConfirmChunk :: "api \<Rightarrow> http \<Rightarrow> string \<Rightarrow> ConfirmChunkRequest \<Rightarrow> client_error + ConfirmChunkResult" where
  "ConfirmChunk j h base req =
     decoding (a_confirmed j) (accepting [200] ''confirm chunk''
       (exchange h ''POST'' (base @ ''/api/v1/chunks/confirm'') (Some (a_confirm j req))))"

definition ConfirmChunkBatch :: "api \<Rightarrow> http \<Rightarrow> string \<Rightarrow> ConfirmChunkBatchRequest \<Rightarrow> client_error + unit" where
  "ConfirmChunkBatch j h base req =
     no_content (accepting [200, 204] ''confirm chunk batch''
       (exchange h ''POST'' (base @ ''/api/v1/chunks/confirm-batch'') (Some (a_confirm_batch j req))))"

section \<open>What an URL can be mistaken for\<close>

text \<open>The characters of an escaped string, and its reader.\<close>

fun unescape_query :: "string \<Rightarrow> string" where
  "unescape_query (CHR 0x25 # a # b # s) =
     char_of (16 * (code a - (if code a < 65 then 48 else 55)) + (code b - (if code b < 65 then 48 else 55)))
       # unescape_query s"
| "unescape_query (CHR 0x2B # s) = CHR '' '' # unescape_query s"
| "unescape_query (c # s) = c # unescape_query s"
| "unescape_query [] = []"

lemma unreserved_code: "unreserved c \<Longrightarrow> c \<noteq> CHR 0x25 \<and> c \<noteq> CHR 0x2B \<and> c \<noteq> CHR ''?'' \<and> c \<noteq> CHR 0x26 \<and> c \<noteq> CHR ''/''
    \<and> c \<noteq> CHR 0x23"
  by (auto simp: unreserved_def between_def less_eq_char_def)

lemma upper_hex_code: "n < 16 \<Longrightarrow> code (upper_hex n) = (if n < 10 then 48 + n else 55 + n)"
  by (simp add: upper_hex_def)

lemma unescape_plain: "c \<noteq> CHR 0x25 \<Longrightarrow> c \<noteq> CHR 0x2B \<Longrightarrow> unescape_query (c # s) = c # unescape_query s"
  by (cases "(c # s)" rule: unescape_query.cases) auto

lemma unescape_percent: "unescape_query (percent c @ s) = c # unescape_query s"
proof -
  have "code c div 16 < 16" using code_less [of c] by (auto simp del: code_less)
  then show ?thesis by (simp add: percent_def upper_hex_code)
qed

lemma unescape_QueryEscape: "unescape_query (QueryEscape s) = s"
  by (induction s) (auto simp: QueryEscape_def unescape_percent unescape_plain dest: unreserved_code)

fun unescape_path :: "string \<Rightarrow> string" where
  "unescape_path (CHR 0x25 # a # b # s) =
     char_of (16 * (code a - (if code a < 65 then 48 else 55)) + (code b - (if code b < 65 then 48 else 55)))
       # unescape_path s"
| "unescape_path (c # s) = c # unescape_path s"
| "unescape_path [] = []"

lemma unescape_path_plain: "c \<noteq> CHR 0x25 \<Longrightarrow> unescape_path (c # s) = c # unescape_path s"
  by (cases "(c # s)" rule: unescape_path.cases) auto

lemma unescape_path_percent: "unescape_path (percent c @ s) = c # unescape_path s"
proof -
  have "code c div 16 < 16" using code_less [of c] by (auto simp del: code_less)
  then show ?thesis by (simp add: percent_def upper_hex_code)
qed

lemma unescape_PathEscape: "unescape_path (PathEscape s) = s"
  by (induction s) (auto simp: PathEscape_def unescape_path_percent unescape_path_plain dest: unreserved_code)

lemma percent_code: "d \<in> set (percent c) \<Longrightarrow> d \<noteq> CHR ''?'' \<and> d \<noteq> CHR 0x26"
proof -
  have "code c div 16 < 16" using code_less [of c] by (auto simp del: code_less)
  moreover have "upper_hex n \<noteq> CHR ''?'' \<and> upper_hex n \<noteq> CHR 0x26" if "n < 16" for n
    using upper_hex_code [OF that] by (auto simp: code_def split: if_splits)
  ultimately show "d \<in> set (percent c) \<Longrightarrow> d \<noteq> CHR ''?'' \<and> d \<noteq> CHR 0x26" by (auto simp: percent_def)
qed

lemma PathEscape_no_query: "CHR ''?'' \<notin> set (PathEscape s)"
  by (auto simp: PathEscape_def dest!: unreserved_code dest: percent_code)

lemma itoa_no_ampersand: "CHR 0x26 \<notin> set (itoa n)"
proof
  assume "CHR 0x26 \<in> set (itoa n)"
  then obtain d :: nat where "d < 10" "digit d = CHR 0x26"
    using dec_nat_digits [of "CHR 0x26"] by (fastforce simp: itoa_def split: if_splits)
  then have "(of_char (CHR 0x26) :: nat) = 48 + d" using of_char_digit by metis
  then show False by simp
qed

lemma same_separator: "c \<notin> set a \<Longrightarrow> c \<notin> set a' \<Longrightarrow> a @ c # b = a' @ c # b' \<longleftrightarrow> a = a' \<and> b = b'"
proof (induction a arbitrary: a')
  case Nil
  then show ?case by (cases a') auto
next
  case (Cons x a)
  then show ?case by (cases a') auto
qed

lemma PathEscape_inj: "PathEscape s = PathEscape t \<longleftrightarrow> s = t"
  by (metis unescape_PathEscape)

lemma QueryEscape_inj: "QueryEscape s = QueryEscape t \<longleftrightarrow> s = t"
  by (metis unescape_QueryEscape)

text \<open>
  A lookup names what it looks up: the URL of a lookup by key determines login and signature
  key, and that of the blocks for a recipient determines the recipient and the date, whatever
  characters they hold.
\<close>

theorem lookup_urls_name_their_object:
  "(keys_url base l s = keys_url base l' s' \<longleftrightarrow> l = l' \<and> s = s') \<and>
   (recipient_url base r d = recipient_url base r' d' \<longleftrightarrow> r = r' \<and> d = d')"
  using same_separator [OF PathEscape_no_query PathEscape_no_query, of l "''signature='' @ QueryEscape s" l' "''signature='' @ QueryEscape s'"]
    same_separator [OF itoa_no_ampersand itoa_no_ampersand, of d "''recipient_id='' @ QueryEscape r" d' "''recipient_id='' @ QueryEscape r'"]
  by (auto simp: keys_url_def recipient_url_def PathEscape_inj QueryEscape_inj itoa_inj)

text \<open>
  Peer ids and file ids stand in the path as they are. An id that holds a slash and a question
  mark turns a request to one endpoint into one to another: an answer to a signal that names
  \<open>p/heartbeat?\<close> as its sender is posted to the heartbeat of \<open>p\<close>.
\<close>

definition url_path :: "string \<Rightarrow> string" where
  "url_path url = takeWhile (\<lambda>c. c \<noteq> CHR ''?'') url"

theorem peer_id_reaches_other_endpoints:
  assumes "CHR ''?'' \<notin> set base" "CHR ''?'' \<notin> set p" "h_parses h (peer_url base (p @ ''/heartbeat?'') @ ''/signals'')"
    and "\<forall>rq. hq_method rq = ''POST'' \<and> url_path (hq_url rq) = peer_url base p @ ''/heartbeat'' \<longrightarrow> h_do h rq = Answer 200 answer"
  shows "SendSignal j h base (p @ ''/heartbeat?'') sig = Inr ()"
proof -
  have "url_path (peer_url base (p @ ''/heartbeat?'') @ ''/signals'') = peer_url base p @ ''/heartbeat''"
    using assms(1,2) by (simp add: url_path_def peer_url_def peers_url_def takeWhile_append)
  then show ?thesis using assms(3,4) by (simp add: SendSignal_def exchange_def accepting_def no_content_def)
qed

text \<open>\<open>GetByKey\<close> panics when Muninn knows no peer under the key and answers with an empty list.\<close>

theorem GetByKey_panics:
  assumes "h_parses h (keys_url base l s)" "a_peers j body = Some []"
    and "h_do h \<lparr>hq_method = ''GET'', hq_url = keys_url base l s, hq_json = False, hq_body = []\<rparr> = Answer 200 body"
  shows "GetByKey j h base l s = Panic ''index out of range'' \<and> GetAllByKey j h base l s = Inr []"
  using assms by (simp add: GetByKey_def GetAllByKey_def exchange_def accepting_def decoding_def)

section \<open>A concrete Muninn\<close>

definition sample_peer :: Peer where
  "sample_peer = \<lparr>peer_id = ''p'', peer_ids = [], peer_login = ''ann'', peer_enc = [], peer_sign = [], peer_seen = 0,
     peer_ttl = 120, peer_flag = [], peer_fake = False\<rparr>"

definition sample_api :: api where
  "sample_api = \<lparr>a_signal = (\<lambda>_. []), a_signals = (\<lambda>_. Some []), a_register = (\<lambda>_. []), a_refresh = (\<lambda>_. []),
     a_peers = (\<lambda>b. Some (if b = [] then [] else [sample_peer])), a_peer = (\<lambda>_. Some sample_peer),
     a_heartbeat = (\<lambda>_. []), a_batch = (\<lambda>_. []), a_chunk = (\<lambda>_. []), a_report = (\<lambda>_. []),
     a_records = (\<lambda>_. Some []), a_read = (\<lambda>_. []), a_confirm = (\<lambda>_. []), a_confirmed = (\<lambda>_. None),
     a_confirm_batch = (\<lambda>_. [])\<rparr>"

text \<open>A server that only knows the heartbeat of \<open>p\<close> and finds nobody under any key.\<close>

definition heartbeat_only :: http where
  "heartbeat_only = \<lparr>h_parses = (\<lambda>_. True), h_do = (\<lambda>rq.
     if hq_method rq = ''POST'' \<and> url_path (hq_url rq) = ''http://m/api/v1/peers/p/heartbeat'' then Answer 200 []
     else if hq_method rq = ''GET'' then Answer 200 [] else Answer 404 [])\<rparr>"

lemma peer_id_reaches_other_endpoints_witness:
  "SendSignal sample_api heartbeat_only ''http://m'' ''p/heartbeat?'' \<lparr>sg_from = [], sg_type = ''answer'', sg_data = []\<rparr> = Inr ()"
  using peer_id_reaches_other_endpoints [where base = "''http://m''" and p = "''p''" and h = heartbeat_only and answer = "[]"]
  by (simp add: heartbeat_only_def peer_url_def peers_url_def)

lemma GetByKey_panics_witness:
  "GetByKey sample_api heartbeat_only ''http://m'' ''ann'' ''k'' = Panic ''index out of range''"
  using GetByKey_panics [of heartbeat_only "''http://m''" "''ann''" "''k''" sample_api "[]"]
  by (simp add: heartbeat_only_def sample_api_def)

end
