(* ===== verification/Startup.thy ===== *)
theory Startup
  imports Receive ReloginSafety MuninnClient
begin

text \<open>
  The life of a messenger in \<open>internal/messenger/messenger.go\<close>: its start on a database, with the
  keys and the configuration found there or made; its registration at Muninn, kept alive by a
  heartbeat; its configuration and its end. With it the search of \<open>peers.go\<close>, and what the
  worker pool does with each job.

  \<open>client_net\<close> is Muninn seen through the HTTP client: what the operations of the messenger ask
  the parameter \<open>net\<close> for, answered by the methods of \<open>MuninnClient\<close>.
\<close>

section \<open>Options\<close>

record ICEServer =
  ice_urls :: "string list"
  ice_user :: string
  ice_credential :: string

record messengerOpts =
  mo_ice :: "ICEServer list"
  mo_ice_set :: bool
  mo_flag :: string
  mo_turn_addr :: string
  mo_turn_user :: string
  mo_turn_pass :: string
  mo_peer :: string
  mo_poll :: bool

definition no_opts :: messengerOpts where
  "no_opts = \<lparr>mo_ice = [], mo_ice_set = False, mo_flag = [], mo_turn_addr = [], mo_turn_user = [], mo_turn_pass = [],
     mo_peer = [], mo_poll = False\<rparr>"

definition WithICEServers :: "ICEServer list \<Rightarrow> messengerOpts \<Rightarrow> messengerOpts" where
  "WithICEServers servers opts = opts\<lparr>mo_ice := servers, mo_ice_set := True\<rparr>"

definition WithPeerFlag :: "string \<Rightarrow> messengerOpts \<Rightarrow> messengerOpts" where
  "WithPeerFlag flag opts = opts\<lparr>mo_flag := flag\<rparr>"

definition WithTURN :: "string \<Rightarrow> string \<Rightarrow> string \<Rightarrow> messengerOpts \<Rightarrow> messengerOpts" where
  "WithTURN addr user pass opts = opts\<lparr>mo_turn_addr := addr, mo_turn_user := user, mo_turn_pass := pass\<rparr>"

definition WithPeerID :: "string \<Rightarrow> messengerOpts \<Rightarrow> messengerOpts" where
  "WithPeerID i opts = opts\<lparr>mo_peer := i\<rparr>"

definition WithPoll :: "messengerOpts \<Rightarrow> messengerOpts" where
  "WithPoll opts = opts\<lparr>mo_poll := True\<rparr>"

section \<open>Starting\<close>

text \<open>The keys of the database, or fresh ones that are saved; failing to save only shows in the log.\<close>

definition load_or_make_keys :: "codec \<Rightarrow> crypto_lib \<Rightarrow> net \<Rightarrow> parsed_keys dbop" where
  "load_or_make_keys c L net d =
     (case GetKeysJSON d of
        (Ret keysJSON, d1) \<Rightarrow>
          (case ParseKeyFile (dec_keys c) (bytes_of keysJSON) of
             Ret keys \<Rightarrow> (Ret keys, d1)
           | Err e \<Rightarrow> (Err (''parse stored keys: '' @ e), d1)
           | Panic e \<Rightarrow> (Panic e, d1))
      | (Panic e, d1) \<Rightarrow> (Panic e, d1)
      | (Err keysErr, d1) \<Rightarrow>
          if keysErr \<noteq> ErrConfigNotFound then (Err (''load keys: '' @ keysErr), d1)
          else (case GenerateSigningKey L (n_random net 0 0) of
              Err e \<Rightarrow> (Err (''generate signing key: '' @ e), d1)
            | Panic e \<Rightarrow> (Panic e, d1)
            | Ret (signPub, signPriv) \<Rightarrow>
               (case GenerateEncryptionKey L (n_random net 0 1) of
                  Err e \<Rightarrow> (Err (''generate encryption key: '' @ e), d1)
                | Panic e \<Rightarrow> (Panic e, d1)
                | Ret (encPriv, encPub) \<Rightarrow>
                   (let keys = \<lparr>k_sign_public = signPub, k_sign_private = signPriv, k_enc_private = encPriv,
                          k_enc_public = encPub\<rparr>
                    in (Ret keys, snd (SaveKeysJSON (string_of (FormatKeyFile (enc_keys c) keys)) d1))))))"

text \<open>The configuration of the database, with the passed user name if there is none.\<close>

definition settle_config :: "string \<Rightarrow> string \<Rightarrow> db \<Rightarrow> Config \<times> db" where
  "settle_config username dbPath d =
     (case LoadAppConfig d of
        (Ret stored, d1) \<Rightarrow>
          (stored\<lparr>cfg_db := dbPath, cfg_username := (if cfg_username stored = [] then username else cfg_username stored)\<rparr>, d1)
      | (Err e, d1) \<Rightarrow>
          (if e = ErrConfigNotFound \<and> username \<noteq> [] then empty_config\<lparr>cfg_db := dbPath, cfg_username := username\<rparr>
           else empty_config\<lparr>cfg_db := dbPath\<rparr>, d1)
      | (Panic e, d1) \<Rightarrow> (empty_config\<lparr>cfg_db := dbPath\<rparr>, d1))"

definition with_defaults :: "Config \<Rightarrow> Config" where
  "with_defaults cfg =
     (let cfg1 = (if cfg_ttl cfg = [] then cfg\<lparr>cfg_ttl := ''1w''\<rparr> else cfg)
      in if cfg_flag cfg1 = [] then cfg1\<lparr>cfg_flag := ''thin''\<rparr> else cfg1)"

text \<open>The peers of the database enter the map by key and the list one by one.\<close>

definition load_peer :: "net \<Rightarrow> StoredPeer \<Rightarrow> Messenger \<Rightarrow> Messenger" where
  "load_peer net sp m =
     (let p = ToMuninnPeer (n_now net) sp
      in m\<lparr>ms_peersMap := AList.update (Key p) p (ms_peersMap m), ms_peers := ms_peers m @ [p]\<rparr>)"

definition load_peers :: "net \<Rightarrow> Messenger \<Rightarrow> Messenger" where
  "load_peers net m =
     (case store GetStoredPeers m of
        (Ret storedPeers, m1) \<Rightarrow> fold (load_peer net) storedPeers m1
      | (_, m1) \<Rightarrow> m1)"

definition ErrMuninnAddressRequired :: string where
  "ErrMuninnAddressRequired = ''Muninn address is required''"

text \<open>
  \<open>New\<close>: \<open>opened\<close> is the end of \<open>store.New\<close>, \<open>client\<close> the address of the client passed in,
  \<open>legacy\<close> and \<open>readFile\<close> are for the files of old versions, and \<open>mkdir\<close> is whether the download
  directory can be made.
\<close>

definition New ::
    "codec \<Rightarrow> crypto_lib \<Rightarrow> net \<Rightarrow> (bytes \<Rightarrow> Config option) \<Rightarrow> (string \<Rightarrow> bytes option) \<Rightarrow> bool \<Rightarrow> string \<Rightarrow> string option
     \<Rightarrow> string \<Rightarrow> db go \<Rightarrow> (messengerOpts \<Rightarrow> messengerOpts) list \<Rightarrow> Messenger go" where
  "New c L net legacy readFile mkdir username client dbPath opened options =
     (let opts = fold (\<lambda>f. f) options no_opts in
      case opened of
        Err e \<Rightarrow> Err (''open store: '' @ e)
      | Panic e \<Rightarrow> Panic e
      | Ret d \<Rightarrow>
         (case load_or_make_keys c L net (snd (ImportLegacyFiles legacy readFile d)) of
            (Err e, d1) \<Rightarrow> Err e
          | (Panic e, d1) \<Rightarrow> Panic e
          | (Ret keys, d1) \<Rightarrow>
             (case settle_config username dbPath d1 of (cfg, d2) \<Rightarrow>
                if client = None \<and> cfg_muninn cfg = [] then Err ErrMuninnAddressRequired
                else (let cfg1 = with_defaults (cfg\<lparr>cfg_muninn := (case client of None \<Rightarrow> cfg_muninn cfg | Some addr \<Rightarrow> addr)\<rparr>);
                          d3 = snd (SaveAppConfig cfg1 d2)
                      in if \<not> mkdir then Err ''create downloads dir''
                         else (let peerID = (if cfg_peer_id cfg1 = [] then n_uuid net 0 else cfg_peer_id cfg1)
                               in Ret (snd (trySubmit ResumeDownloads
                                    (load_peers net (new_messenger peerID (cfg_username cfg1) keys d3 cfg1 (mo_flag opts))))))))))"

section \<open>Registering\<close>

definition peerTTLSeconds :: int where
  "peerTTLSeconds = 120"

definition ErrPeerNotFound :: string where
  "ErrPeerNotFound = ''peer not found''"

definition own_key :: "Messenger \<Rightarrow> string" where
  "own_key m = ms_user m @ '':'' @ EncodeKey (k_sign_public (ms_keys m))"

definition isCurrentPeerRegistered :: "Messenger \<Rightarrow> bool" where
  "isCurrentPeerRegistered m = (own_key m \<in> ms_registered m)"

definition scheduleReplicaConnections :: "Messenger \<Rightarrow> Messenger" where
  "scheduleReplicaConnections m = snd (trySubmit RefreshReplicas m)"

definition own_request :: "Messenger \<Rightarrow> RegisterRequest" where
  "own_request m = \<lparr>rq_id = ms_id m, rq_login = ms_user m, rq_enc = EncodeKey (k_enc_public (ms_keys m)),
     rq_sign = EncodeKey (k_sign_public (ms_keys m)), rq_ttl = peerTTLSeconds, rq_flag = ms_flag m, rq_fake = False\<rparr>"

definition after_registration :: "Messenger \<Rightarrow> Messenger" where
  "after_registration m = scheduleReplicaConnections (registerStoredGroupPeers m)"

definition register_anew :: "net \<Rightarrow> Messenger \<Rightarrow> unit go \<times> Messenger" where
  "register_anew net m =
     (let m1 = send_registration (own_request m) m in
      case n_register net (own_request m) of
        Some e \<Rightarrow> (Err e, m1)
      | None \<Rightarrow> (Ret (), after_registration (m1\<lparr>ms_registered := insert (own_key m) (ms_registered m1)\<rparr>)))"

definition MessengerRegister :: "net \<Rightarrow> Messenger \<Rightarrow> unit go \<times> Messenger" where
  "MessengerRegister net m =
     (if isCurrentPeerRegistered m
      then (case n_refresh net \<lparr>rf_id = ms_id m, rf_login = ms_user m, rf_sign = EncodeKey (k_sign_public (ms_keys m))\<rparr> of
          None \<Rightarrow> (Ret (), after_registration m)
        | Some e \<Rightarrow>
            if e \<noteq> ErrPeerNotFound then (Err e, m)
            else register_anew net (m\<lparr>ms_registered := ms_registered m - {own_key m}\<rparr>))
      else register_anew net m)"

text \<open>A turn of \<open>heartbeatLoop\<close>.\<close>

definition heartbeat :: "net \<Rightarrow> Messenger \<Rightarrow> Messenger" where
  "heartbeat net m =
     (if \<not> isCurrentPeerRegistered m then snd (MessengerRegister net m)
      else (case n_heartbeat net (ms_id m) peerTTLSeconds of
          None \<Rightarrow> m
        | Some e \<Rightarrow> if e = ErrPeerNotFound then snd (MessengerRegister net m) else m))"

section \<open>Configuration and shutdown\<close>

definition DownloadsDir :: "Messenger \<Rightarrow> string" where
  "DownloadsDir m = ms_dir m"

definition SetDownloadsDir :: "string \<Rightarrow> Messenger \<Rightarrow> Messenger" where
  "SetDownloadsDir dir m = m\<lparr>ms_dir := dir\<rparr>"

definition SaveConfig :: "Config option \<Rightarrow> Messenger \<Rightarrow> unit go \<times> Messenger" where
  "SaveConfig cfg m =
     (case cfg of
        None \<Rightarrow> (Err ''config is nil'', m)
      | Some cfg \<Rightarrow> store (SaveAppConfig cfg) (m\<lparr>ms_config := cfg\<rparr>))"

text \<open>\<open>connections\<close> is the order in which the map of connections is read.\<close>

definition Shutdown :: "nat list \<Rightarrow> Messenger \<Rightarrow> Messenger" where
  "Shutdown connections m =
     (if ms_closed m then m else (m\<lparr>ms_closed := True\<rparr>)\<lparr>ms_rtc := CloseAll connections (ms_rtc m)\<rparr>)"

section \<open>Searching peers\<close>

definition found_stored :: "string \<Rightarrow> Peer list \<Rightarrow> (string \<times> Peer) list" where
  "found_stored own ps = fold (\<lambda>s seen. if Key s = own then seen else AList.update (Key s) s seen) ps []"

definition merge_found :: "Peer \<Rightarrow> Peer \<Rightarrow> Peer" where
  "merge_found p existing =
     existing\<lparr>peer_seen := max (peer_seen existing) (peer_seen p),
       peer_enc := (if peer_enc p \<noteq> [] then peer_enc p else peer_enc existing),
       peer_sign := (if peer_sign p \<noteq> [] then peer_sign p else peer_sign existing), peer_ttl := peer_ttl p\<rparr>"

text \<open>What Muninn lists enters the peer table, never as a group, and the result.\<close>

fun merge_listed :: "string \<Rightarrow> Peer list \<Rightarrow> (string \<times> Peer) list \<Rightarrow> Messenger \<Rightarrow> (string \<times> Peer) list \<times> Messenger" where
  "merge_listed q [] seen m = (seen, m)"
| "merge_listed q (p # ps) seen m =
     (if Key p = ms_key m \<or> \<not> Contains (to_lower (Key p)) q then merge_listed q ps seen m
      else merge_listed q ps
        (AList.update (Key p) (case map_of seen (Key p) of Some existing \<Rightarrow> merge_found p existing | None \<Rightarrow> p) seen)
        (upsertPeer (peer_id p) (Key p) (peer_login p) (peer_enc p) (peer_sign p) (peer_seen p) (peer_ttl p) False m))"

definition SearchPeers :: "net \<Rightarrow> string \<Rightarrow> Messenger \<Rightarrow> Peer list \<times> Messenger" where
  "SearchPeers net query m =
     (case store (SearchStoredPeers (n_now net) query) m of (r, m1) \<Rightarrow>
      case merge_listed (to_lower query) (case n_list net of None \<Rightarrow> [] | Some ps \<Rightarrow> ps)
             (case r of Ret stored \<Rightarrow> found_stored (ms_key m1) stored | _ \<Rightarrow> []) m1 of
        (seen, m2) \<Rightarrow> (map snd seen, m2))"

section \<open>The jobs of the pool\<close>

text \<open>
  What a worker does with a job; a panic ends the process. The jobs that only tell Muninn
  something leave the messenger as it is.
\<close>

definition settled :: "Messenger \<Rightarrow> unit go \<times> Messenger" where
  "settled m = (Ret (), m)"

definition unless_panic :: "'a go \<times> Messenger \<Rightarrow> unit go \<times> Messenger" where
  "unless_panic x = (case x of (Panic e, m) \<Rightarrow> (Panic e, m) | (_, m) \<Rightarrow> (Ret (), m))"

fun run_callback :: "codec \<Rightarrow> crypto_lib \<Rightarrow> net \<Rightarrow> string \<Rightarrow> callback \<Rightarrow> Messenger \<Rightarrow> unit go \<times> Messenger" where
  "run_callback c L net p (OnChunkStore req) m = unless_panic (handleChunkStore L net p req m)"
| "run_callback c L net p (OnChunkStoreBatch batch) m =
     (case storeChunkBatch (handleChunkStore L net p) batch m of
        (None, m1) \<Rightarrow> settled m1
      | (Some ack, m1) \<Rightarrow> settled (snd (send p (ChunkStoreAckFrame ack) m1)))"
| "run_callback c L net p (OnChunkGet req) m =
     (case handleChunkGet net req m of
        (result, m1) \<Rightarrow> settled (m1\<lparr>ms_rtc := answer_chunk_get p req result (ms_rtc m1)\<rparr>))"
| "run_callback c L net p (OnReloginRequest sig) m = unless_panic (handleReloginRequest c L net p sig m)"
| "run_callback c L net p (OnReloginResponse resp) m = settled (acceptReloginResponse p resp m)"
| "run_callback c L net p (OnReloginChunk k) m = settled (acceptReloginChunk p k m)"
| "run_callback c L net p OnStateSyncRequest m = settled (handleStateSyncRequest c L net p m)"
| "run_callback c L net p (OnStateSyncManifest manifest) m = settled (handleStateSyncManifest p manifest m)"
| "run_callback c L net p (OnStateSyncChunk k) m = settled (handleStateSyncChunk p k m)"
| "run_callback c L net p (OnStateSyncAck ack) m = settled (handleStateSyncAck p ack m)"
| "run_callback c L net p OnPeerConnected m = settled (handlePeerConnected net p m)"
| "run_callback c L net p OnPeerDisconnected m = settled (handlePeerDisconnected p m)"

fun run_job :: "codec \<Rightarrow> crypto_lib \<Rightarrow> net \<Rightarrow> string list \<Rightarrow> job \<Rightarrow> Messenger \<Rightarrow> unit go \<times> Messenger" where
  "run_job c L net order (FinishStateSync p transfer) m = settled (finishStateSyncImport c L net p transfer m)"
| "run_job c L net order (FinishRelogin ref) m = settled (finishReloginTransfer c L net ref m)"
| "run_job c L net order (ProcessFile f senderID preferred) m =
     unless_panic (processReceivedFileFromPeer c L net (\<lambda>m. m) f senderID preferred m)"
| "run_job c L net order CheckPendingFiles m = checkPendingFileDownloads c L net (\<lambda>m. m) order m"
| "run_job c L net order RefreshReplicas m = settled (refreshReplicaConnections net m)"
| "run_job c L net order (job.ReportChunk p fileID i hash) m = unless_panic (report L p fileID i hash m, m)"
| "run_job c L net order (FetchFrom p req ctx) m = settled (fetch_job net p req ctx m)"
| "run_job c L net order (AwaitPeer p req ctx) m = settled (await_job net p req ctx m)"
| "run_job c L net order (Dial p ctx) m = settled (dial_job net p ctx m)"
| "run_job c L net order CheckPendingMessages m =
     (case checkPendingMessages c L net m of
        (Panic e, m1) \<Rightarrow> (Panic e, m1)
      | (_, m1) \<Rightarrow> checkPendingFileDownloads c L net (\<lambda>m. m) order m1)"
| "run_job c L net order (Deliver msg peer chunks) m = settled (deliverOutgoing net \<lparr>og_message = msg, og_peer = peer, og_chunks = chunks\<rparr> m)"
| "run_job c L net order ResumeDownloads m = settled (resumeFileDownloads c m)"
| "run_job c L net order (Callback p cb) m = run_callback c L net p cb m"

text \<open>
  A frame that arrives, on the goroutine of its channel or through the pool (\<open>submitAsync\<close>), and
  a turn of a worker: after the shutdown a job that is taken is not run.
\<close>

definition receive_frame ::
    "codec \<Rightarrow> crypto_lib \<Rightarrow> net \<Rightarrow> string \<Rightarrow> frame \<Rightarrow> Messenger \<Rightarrow> unit go \<times> Messenger" where
  "receive_frame c L net p f m =
     (case onMessage p f (ms_rtc m) of (w, calling) \<Rightarrow>
      let m1 = m\<lparr>ms_rtc := w\<rparr> in
      case calling of
        NoCall \<Rightarrow> settled m1
      | Direct cb \<Rightarrow> run_callback c L net p cb m1
      | Async cb \<Rightarrow> settled (snd (submit (Callback p cb) m1)))"

definition work :: "codec \<Rightarrow> crypto_lib \<Rightarrow> net \<Rightarrow> string list \<Rightarrow> Messenger \<Rightarrow> unit go \<times> Messenger" where
  "work c L net order m =
     (case ms_jobs m of
        [] \<Rightarrow> settled m
      | j # js \<Rightarrow> if ms_closed m then settled (m\<lparr>ms_jobs := js\<rparr>) else run_job c L net order j (m\<lparr>ms_jobs := js\<rparr>))"

text \<open>
  What the WebRTC library reports besides frames: a channel that opens (\<open>OnOpen\<close> of
  \<open>installDataChannelHandlers\<close>) and a connection that changes. Both reach the messenger through the pool.
\<close>

definition channel_opened :: "string \<Rightarrow> channel \<Rightarrow> Messenger \<Rightarrow> Messenger" where
  "channel_opened p dc m =
     snd (submit (Callback p OnPeerConnected) (m\<lparr>ms_rtc := (ms_rtc m)\<lparr>rtc_open := insert dc (rtc_open (ms_rtc m))\<rparr>\<rparr>))"

definition connection_changed :: "string \<Rightarrow> nat \<Rightarrow> conn_state \<Rightarrow> Messenger \<Rightarrow> Messenger" where
  "connection_changed p pc s m =
     (case OnConnectionStateChange p pc s (ms_rtc m) of
        (w, True) \<Rightarrow> snd (submit (Callback p OnPeerDisconnected) (m\<lparr>ms_rtc := w\<rparr>))
      | (w, False) \<Rightarrow> m\<lparr>ms_rtc := w\<rparr>)"

text \<open>
  The end of the current connection forgets the transfers with the peer; the late end of one that was
  replaced leaves everything as it is, once the peer is connected again.
\<close>

lemma current_end_forgets:
  assumes "rtc_conns (ms_rtc m) p = Some pc" "s \<in> {Disconnected, Failed, Closed}" "ms_jobs m = []" "\<not> ms_closed m"
  shows "\<exists>m'. work c L net order (connection_changed p pc s m) = (Ret (), m')
     \<and> p \<notin> ms_requested m' \<and> ms_incoming m' p = None \<and> ms_outgoing m' p = None \<and> \<not> IsPeerConnected m' p"
  using assms
  by (auto simp: connection_changed_def OnConnectionStateChange_def submit_def work_def settled_def handlePeerDisconnected_def
      IsPeerConnected_def IsConnected_def)

lemma stale_end_harmless:
  assumes "rtc_conns (ms_rtc m) p \<noteq> Some pc" "IsPeerConnected m p" "ms_jobs m = []" "\<not> ms_closed m"
  shows "work c L net order (connection_changed p pc s m) = (Ret (), m)"
  using assms
  by (simp add: connection_changed_def OnConnectionStateChange_def submit_def work_def settled_def handlePeerDisconnected_def
      IsPeerConnected_def)

lemma opened_connects:
  assumes "ms_jobs m = []" "\<not> ms_closed m"
  shows "work c L net order (channel_opened p dc m)
     = (Ret (), handlePeerConnected net p (m\<lparr>ms_rtc := (ms_rtc m)\<lparr>rtc_open := insert dc (rtc_open (ms_rtc m))\<rparr>\<rparr>))"
  using assms by (cases m) (simp add: channel_opened_def submit_def work_def settled_def)

section \<open>Muninn through the HTTP client\<close>

definition ok_or_none :: "client_error + 'a \<Rightarrow> 'a option" where
  "ok_or_none r = (case r of Inl e \<Rightarrow> None | Inr x \<Rightarrow> Some x)"

text \<open>\<open>errors.Is(err, ErrPeerNotFound)\<close> tells one error from the others.\<close>

definition error_of :: "client_error + 'a \<Rightarrow> string option" where
  "error_of r = (case r of Inr x \<Rightarrow> None | Inl (NotFound a b d) \<Rightarrow> Some ErrPeerNotFound | Inl e \<Rightarrow> Some ''muninn'')"

definition client_net :: "api \<Rightarrow> http \<Rightarrow> string \<Rightarrow> net \<Rightarrow> net" where
  "client_net j h base net = net\<lparr>
     n_get := (\<lambda>i. ok_or_none (GetPeer j h base i)),
     n_all := (\<lambda>login sig. ok_or_none (GetAllByKey j h base login sig)),
     n_list := ok_or_none (ListPeers j h base),
     n_best := ok_or_none (GetBestPeers j h base 10),
     n_thick := ok_or_none (GetBestThickPeers j h base 5),
     n_records := (\<lambda>f. ok_or_none (GetChunksByFileID j h base f)),
     n_for := (\<lambda>r d. ok_or_none (GetChunksByRecipient j h base r d)),
     n_place := (\<lambda>f es. ok_or_none (RegisterChunks j h base f es) \<noteq> None),
     n_register := (\<lambda>rq. error_of (Register j h base rq)),
     n_refresh := (\<lambda>rq. error_of (Refresh j h base rq)),
     n_heartbeat := (\<lambda>i ttl. error_of (Heartbeat j h base i ttl)),
     n_read := (\<lambda>rq. ok_or_none (ReadChunk j h base rq) \<noteq> None)\<rparr>"

end
