(* ===== verification/Courier.thy ===== *)
theory Courier
  imports Arrival Startup
begin

text \<open>
  Three devices: a message is accepted on the first, its blocks are stored on a second, and a third
  fetches them there and collects the message. What a device holds is abstracted to a map from blocks to
  their data, which storing updates.
\<close>

section \<open>What a device holds\<close>

definition data_of :: "Messenger \<Rightarrow> string \<times> int \<Rightarrow> bytes option" where
  "data_of m k = map_option c_data (held (db_tables (ms_store m)) k)"

definition put_data :: "ChunkStoreRequest \<Rightarrow> (string \<times> int \<Rightarrow> bytes option) \<Rightarrow> string \<times> int \<Rightarrow> bytes option" where
  "put_data req h = h((cs_file req, cs_index req) \<mapsto> cs_data req)"

lemma data_of_served: "data_of m k = Some d \<Longrightarrow> served now (db_tables (ms_store m)) k = Some d"
  by (auto simp: data_of_def served_def)

lemma put_data_all:
  assumes "\<forall>r \<in> set reqs. cs_data r = D (cs_file r, cs_index r)"
  shows "fold put_data reqs h k = (if k \<in> (\<lambda>r. (cs_file r, cs_index r)) ` set reqs then Some (D k) else h k)"
  using assms by (induction reqs arbitrary: h) (auto simp: put_data_def)

definition well :: "Messenger \<Rightarrow> bool" where
  "well m \<longleftrightarrow> db_faults (ms_store m) = [] \<and> wf_tables (db_tables (ms_store m)) \<and> rtc_faults (ms_rtc m) = []"

text \<open>The messenger after storing \<open>reqs\<close>: blocks, jobs and sent frames apart it is the same.\<close>

definition holds :: "Messenger \<Rightarrow> ChunkStoreRequest list \<Rightarrow> Messenger \<Rightarrow> bool" where
  "holds m reqs m' \<longleftrightarrow> well m' \<and> data_of m' = fold put_data reqs (data_of m) \<and>
     (\<exists>cs js w. m' = m\<lparr>ms_store := (ms_store m)\<lparr>db_tables := (db_tables (ms_store m))\<lparr>t_chunks := cs\<rparr>\<rparr>, ms_jobs := js, ms_rtc := w\<rparr>
        \<and> rtc_chans w = rtc_chans (ms_rtc m) \<and> rtc_open w = rtc_open (ms_rtc m))"

lemma holds_refl: "well m \<Longrightarrow> holds m [] m"
  unfolding holds_def
  by (intro conjI exI [of _ "t_chunks (db_tables (ms_store m))"] exI [of _ "ms_jobs m"] exI [of _ "ms_rtc m"]) simp_all

lemma holdsI:
  assumes "well m'" "data_of m' = fold put_data reqs (data_of m)"
    and "m' = m\<lparr>ms_store := (ms_store m)\<lparr>db_tables := (db_tables (ms_store m))\<lparr>t_chunks := cs\<rparr>\<rparr>, ms_jobs := js, ms_rtc := w\<rparr>"
    and "rtc_chans w = rtc_chans (ms_rtc m)" "rtc_open w = rtc_open (ms_rtc m)"
  shows "holds m reqs m'"
  using assms unfolding holds_def by blast

lemma holdsE:
  assumes "holds m reqs m'"
  obtains cs js w where "well m'" "data_of m' = fold put_data reqs (data_of m)"
    "m' = m\<lparr>ms_store := (ms_store m)\<lparr>db_tables := (db_tables (ms_store m))\<lparr>t_chunks := cs\<rparr>\<rparr>, ms_jobs := js, ms_rtc := w\<rparr>"
    "rtc_chans w = rtc_chans (ms_rtc m)" "rtc_open w = rtc_open (ms_rtc m)"
  using assms unfolding holds_def by blast

lemma holds_trans:
  assumes "holds a r1 b" "holds b r2 d"
  shows "holds a (r1 @ r2) d"
proof -
  obtain cs js w where b: "data_of b = fold put_data r1 (data_of a)"
    "b = a\<lparr>ms_store := (ms_store a)\<lparr>db_tables := (db_tables (ms_store a))\<lparr>t_chunks := cs\<rparr>\<rparr>, ms_jobs := js, ms_rtc := w\<rparr>"
    "rtc_chans w = rtc_chans (ms_rtc a)" "rtc_open w = rtc_open (ms_rtc a)"
    using assms(1) by (rule holdsE)
  obtain cs' js' w' where d: "well d" "data_of d = fold put_data r2 (data_of b)"
    "d = b\<lparr>ms_store := (ms_store b)\<lparr>db_tables := (db_tables (ms_store b))\<lparr>t_chunks := cs'\<rparr>\<rparr>, ms_jobs := js', ms_rtc := w'\<rparr>"
    "rtc_chans w' = rtc_chans (ms_rtc b)" "rtc_open w' = rtc_open (ms_rtc b)"
    using assms(2) by (rule holdsE)
  show ?thesis
    by (rule holdsI [where cs = cs' and js = js' and w = w']) (simp_all add: d(1,2) b(1), simp_all add: d(3-5) b(2-4))
qed

lemma holds_rtc:
  assumes "holds a r b" "rtc_chans w = rtc_chans (ms_rtc b)" "rtc_open w = rtc_open (ms_rtc b)" "rtc_faults w = []"
  shows "holds a r (b\<lparr>ms_rtc := w\<rparr>)"
proof -
  obtain cs js v where b: "well b" "data_of b = fold put_data r (data_of a)"
    "b = a\<lparr>ms_store := (ms_store a)\<lparr>db_tables := (db_tables (ms_store a))\<lparr>t_chunks := cs\<rparr>\<rparr>, ms_jobs := js, ms_rtc := v\<rparr>"
    "rtc_chans v = rtc_chans (ms_rtc a)" "rtc_open v = rtc_open (ms_rtc a)"
    using assms(1) by (rule holdsE)
  have "data_of (b\<lparr>ms_rtc := w\<rparr>) = data_of b" by (simp add: data_of_def fun_eq_iff)
  moreover have "well (b\<lparr>ms_rtc := w\<rparr>)" using b(1) assms(4) by (simp add: well_def)
  ultimately show ?thesis
    by (intro holdsI [where cs = cs and js = js and w = w]) (simp_all add: b(2), use assms(2,3) in \<open>simp_all add: b(3-5)\<close>)
qed

lemma holds_connected:
  assumes "holds m reqs m'"
  shows "IsPeerConnected m' p = IsPeerConnected m p"
proof -
  have "rtc_chans (ms_rtc m') = rtc_chans (ms_rtc m)" "rtc_open (ms_rtc m') = rtc_open (ms_rtc m)"
    using assms by (auto elim: holdsE)
  then show ?thesis unfolding IsPeerConnected_def IsConnected_def by (simp only:)
qed

lemma holds_same:
  assumes "holds m reqs m'"
  shows "ms_id m' = ms_id m" "ms_key m' = ms_key m" "ms_keys m' = ms_keys m" "ms_closed m' = ms_closed m"
    "ms_processing m' = ms_processing m" "ms_events m' = ms_events m" "ms_peersMap m' = ms_peersMap m"
    "t_messages (db_tables (ms_store m')) = t_messages (db_tables (ms_store m))" "db_faults (ms_store m') = []"
proof -
  obtain cs js w where m': "well m'"
    "m' = m\<lparr>ms_store := (ms_store m)\<lparr>db_tables := (db_tables (ms_store m))\<lparr>t_chunks := cs\<rparr>\<rparr>, ms_jobs := js, ms_rtc := w\<rparr>"
    using assms by (rule holdsE)
  show "db_faults (ms_store m') = []" using m'(1) by (simp add: well_def)
qed (use assms in \<open>auto elim: holdsE\<close>)

section \<open>Storing and serving\<close>

text \<open>A frame that arrives, with the job it makes: a worker has taken it.\<close>

definition arrive :: "codec \<Rightarrow> crypto_lib \<Rightarrow> net \<Rightarrow> string \<Rightarrow> frame \<Rightarrow> Messenger \<Rightarrow> Messenger" where
  "arrive c L net p f m =
     (case onMessage p f (ms_rtc m) of (w, calling) \<Rightarrow>
        case calling of
          NoCall \<Rightarrow> m\<lparr>ms_rtc := w\<rparr>
        | Direct cb \<Rightarrow> snd (run_callback c L net p cb (m\<lparr>ms_rtc := w\<rparr>))
        | Async cb \<Rightarrow> snd (run_callback c L net p cb (m\<lparr>ms_rtc := w\<rparr>)))"

definition hash_ok :: "crypto_lib \<Rightarrow> ChunkStoreRequest \<Rightarrow> bool" where
  "hash_ok L req \<longleftrightarrow> cs_hash req = [] \<or> RegisteredHash L (cs_data req) = cs_hash req"

lemma submits_jobs:
  "\<exists>js. (if b then snd (trySubmit j (m\<lparr>ms_jobs := ks\<rparr>)) else m\<lparr>ms_jobs := ks\<rparr>) = m\<lparr>ms_jobs := js\<rparr>"
  by (intro exI [of _ "if b \<and> \<not> ms_closed m \<and> length ks < asyncQueueSize then ks @ [j] else ks"])
    (auto simp: trySubmit_def)

lemma jobs_same: "m\<lparr>ms_jobs := ms_jobs m\<rparr> = m"
  by simp

lemma handleChunkStore_holds:
  assumes "well m" "hash_ok L req"
  shows "\<exists>m'. handleChunkStore L net p req m = (Ret (), m') \<and> holds m [req] m'"
proof -
  let ?row = "\<lparr>c_file = cs_file req, c_index = cs_index req, c_data = cs_data req, c_created = n_now net,
     c_ttl = if cs_ttl req \<le> 0 then 604800 else cs_ttl req\<rparr>"
  define cs where "cs = tbl_replace chunk_key ?row (t_chunks (db_tables (ms_store m)))"
  define m1 where "m1 = m\<lparr>ms_store := (ms_store m)\<lparr>db_tables := (db_tables (ms_store m))\<lparr>t_chunks := cs\<rparr>\<rparr>\<rparr>"
  have st: "store (StoreChunk (n_now net) (cs_file req) (cs_index req) (cs_data req)
      (if cs_ttl req \<le> 0 then 604800 else cs_ttl req)) m = (Ret (), m1)"
    using assms(1) by (simp add: store_def StoreChunk_def sql_write_ok well_def put_chunk_def m1_def cs_def)
  have ok: "\<not> (cs_hash req \<noteq> [] \<and> RegisteredHash L (cs_data req) \<noteq> cs_hash req)" using assms(2) by (auto simp: hash_ok_def)
  obtain ks where ks: "(if cs_recipient req \<noteq> [] \<and> cs_recipient req \<noteq> ms_key m1 \<and> cs_hash req \<noteq> [] \<and> cs_sender req \<noteq> []
      then snd (trySubmit (job.ReportChunk p (cs_file req) (cs_index req) (cs_hash req)) m1) else m1) = m1\<lparr>ms_jobs := ks\<rparr>"
    using submits_jobs [of _ _ "ms_jobs m1" m1] unfolding jobs_same by blast
  obtain js where js: "(if ms_pending (m1\<lparr>ms_jobs := ks\<rparr>) (cs_file req) \<noteq> None
      then snd (trySubmit CheckPendingFiles (m1\<lparr>ms_jobs := ks\<rparr>)) else m1\<lparr>ms_jobs := ks\<rparr>) = m1\<lparr>ms_jobs := js\<rparr>"
    using submits_jobs by blast
  have run: "handleChunkStore L net p req m = (Ret (), m1\<lparr>ms_jobs := js\<rparr>)"
    unfolding handleChunkStore_def if_not_P [OF ok] st prod.case go.case Let_def ks js ..
  have put: "db_tables (ms_store m1) = put_chunk ?row (db_tables (ms_store m))"
    by (simp add: m1_def put_chunk_def cs_def)
  have wf: "wf_tables (db_tables (ms_store m))" using assms(1) by (simp add: well_def)
  have "data_of (m1\<lparr>ms_jobs := js\<rparr>) = put_data req (data_of m)"
    using held_blocks.look_put [OF wf, of ?row] put
    by (auto simp: data_of_def put_data_def fun_eq_iff chunk_key_def)
  moreover have "well (m1\<lparr>ms_jobs := js\<rparr>)"
    using held_blocks.put_inv [OF wf, of ?row] put assms(1) by (simp add: well_def) (simp add: m1_def)
  ultimately have "holds m [req] (m1\<lparr>ms_jobs := js\<rparr>)"
    unfolding holds_def by (intro conjI exI [of _ cs] exI [of _ js] exI [of _ "ms_rtc m"]) (simp_all add: m1_def)
  then show ?thesis using run by blast
qed

lemma store_all_holds:
  assumes "well m" "\<forall>r \<in> set reqs. hash_ok L r"
  shows "\<exists>m'. store_all (handleChunkStore L net p) reqs m = ([], m') \<and> holds m reqs m'"
  using assms
proof (induction reqs arbitrary: m)
  case Nil
  then show ?case using holds_refl by simp
next
  case (Cons r reqs)
  obtain m1 where m1: "handleChunkStore L net p r m = (Ret (), m1)" "holds m [r] m1"
    using handleChunkStore_holds Cons.prems by fastforce
  then have "well m1" by (simp add: holds_def)
  then obtain m2 where m2: "store_all (handleChunkStore L net p) reqs m1 = ([], m2)" "holds m1 reqs m2"
    using Cons by fastforce
  then show ?case using m1 holds_trans [OF m1(2) m2(2)] by simp
qed

lemma send_quiet:
  assumes "rtc_faults (ms_rtc m) = []"
  shows "\<exists>w. snd (send p f m) = m\<lparr>ms_rtc := w\<rparr> \<and> rtc_chans w = rtc_chans (ms_rtc m) \<and> rtc_open w = rtc_open (ms_rtc m)
    \<and> rtc_faults w = [] \<and> (IsPeerConnected m p \<longrightarrow> rtc_sent w = rtc_sent (ms_rtc m) @ [(p, f)])"
  using assms
  by (intro exI [of _ "snd (sendEnvelope p f (ms_rtc m))"])
    (simp add: send_def rtc_def sendEnvelope_def dc_send_def IsPeerConnected_def IsConnected_def split: option.split prod.split)

lemma batch_holds:
  assumes "well m" "\<forall>r \<in> set (cb_chunks b). hash_ok L r"
  shows "holds m (cb_chunks b) (arrive c L net p (ChunkStoreBatchFrame b) m)"
proof -
  obtain m1 where m1: "store_all (handleChunkStore L net p) (cb_chunks b) m = ([], m1)" "holds m (cb_chunks b) m1"
    using store_all_holds [OF assms] by blast
  have quiet: "rtc_faults (ms_rtc m1) = []" using m1(2) by (simp add: holds_def well_def)
  have acked: "holds m (cb_chunks b) (snd (send p f m1))" for f
    using send_quiet [OF quiet, of p f] holds_rtc [OF m1(2)] by force
  show ?thesis
    using m1 acked by (simp add: arrive_def storeChunkBatch_def settled_def)
qed

lemma batches_hold:
  assumes "well m" "\<forall>b \<in> set bs. \<forall>r \<in> set (cb_chunks b). hash_ok L r"
  shows "holds m (concat (map cb_chunks bs)) (fold (\<lambda>b. arrive c L net p (ChunkStoreBatchFrame b)) bs m)"
  using assms
proof (induction bs arbitrary: m)
  case Nil
  then show ?case using holds_refl by simp
next
  case (Cons b bs)
  have h: "holds m (cb_chunks b) (arrive c L net p (ChunkStoreBatchFrame b) m)" using Cons.prems by (intro batch_holds) auto
  then have "well (arrive c L net p (ChunkStoreBatchFrame b) m)" by (simp add: holds_def)
  then show ?case using holds_trans [OF h Cons.IH] Cons.prems by simp
qed

text \<open>
  A device asks another one for a block: the request arrives there, and what it sends to the asking
  device arrives here.
\<close>

definition ask_storage :: "codec \<Rightarrow> crypto_lib \<Rightarrow> net \<Rightarrow> net \<Rightarrow> ChunkGetRequest \<Rightarrow> Messenger \<times> Messenger \<Rightarrow> Messenger \<times> Messenger"
  where
  "ask_storage c L nc nb req devices =
     (case devices of (C, B) \<Rightarrow>
        let C' = arrive c L nc (ms_id B) (ChunkGetFrame req) C
        in (C', fold (\<lambda>(q, f). if q = ms_id B then arrive c L nb (ms_id C) f else (\<lambda>m. m)) (emitted C C') B))"

definition answer_to :: "ChunkGetRequest \<Rightarrow> bytes \<Rightarrow> ChunkStoreRequest" where
  "answer_to req d = \<lparr>cs_file = cg_file req, cs_index = cg_index req, cs_data = d, cs_sender = [], cs_recipient = [],
     cs_hash = [], cs_sig = [], cs_ttl = 0\<rparr>"

lemma ask_holds:
  assumes "well C" "IsPeerConnected C (ms_id B)" "data_of C (cg_file req, cg_index req) = Some d" "well B"
  shows "case ask_storage c L nc nb req (C, B) of (C', B') \<Rightarrow> holds C [] C' \<and> holds B [answer_to req d] B'"
proof -
  have get: "store (GetChunk (n_now nc) (cg_file req) (cg_index req)) C = (Ret (Some d), C)"
    using assms(1,3) by (auto simp: store_def GetChunk_value well_def data_of_def)
  have send: "answer_chunk_get (ms_id B) req (Some d) (ms_rtc C)
      = snd (sendEnvelope (ms_id B) (ChunkDataFrame (answer_to req d)) (ms_rtc C))"
    by (simp add: answer_chunk_get_def answer_to_def)
  have quiet: "rtc_faults (ms_rtc C) = []" using assms(1) by (simp add: well_def)
  obtain w where w: "answer_chunk_get (ms_id B) req (Some d) (ms_rtc C) = w" "rtc_chans w = rtc_chans (ms_rtc C)"
      "rtc_open w = rtc_open (ms_rtc C)" "rtc_faults w = []"
      "rtc_sent w = rtc_sent (ms_rtc C) @ [(ms_id B, ChunkDataFrame (answer_to req d))]"
    using send quiet assms(2)
    by (auto simp: sendEnvelope_def dc_send_def IsPeerConnected_def IsConnected_def split: option.splits)
  have C': "arrive c L nc (ms_id B) (ChunkGetFrame req) C = C\<lparr>ms_rtc := w\<rparr>"
    using get w(1) by (simp add: arrive_def handleChunkGet_def settled_def)
  have "emitted C (C\<lparr>ms_rtc := w\<rparr>) = [(ms_id B, ChunkDataFrame (answer_to req d))]"
    using w(5) by (simp add: emitted_def)
  moreover obtain B' where "handleChunkStore L nb (ms_id C) (answer_to req d) B = (Ret (), B')" "holds B [answer_to req d] B'"
    using handleChunkStore_holds [OF assms(4), of L "answer_to req d" nb "ms_id C"] by (auto simp: hash_ok_def answer_to_def)
  then have "holds B [answer_to req d] (arrive c L nb (ms_id C) (ChunkDataFrame (answer_to req d)) B)"
    by (simp add: arrive_def unless_panic_def)
  ultimately show ?thesis
    using C' holds_rtc [OF holds_refl [OF assms(1)] w(2-4)] by (simp add: ask_storage_def)
qed

lemma asks_hold:
  assumes "well C" "IsPeerConnected C (ms_id B)" "\<forall>r \<in> set reqs. data_of C (cg_file r, cg_index r) = Some (D r)" "well B"
  shows "holds B (map (\<lambda>r. answer_to r (D r)) reqs) (snd (fold (ask_storage c L nc nb) reqs (C, B)))"
  using assms
proof (induction reqs arbitrary: C B)
  case Nil
  then show ?case using holds_refl by simp
next
  case (Cons r reqs)
  obtain C1 B1 where s: "ask_storage c L nc nb r (C, B) = (C1, B1)" by fastforce
  then have h: "holds C [] C1" "holds B [answer_to r (D r)] B1"
    using ask_holds [of C B r "D r" c L nc nb] Cons.prems by simp_all
  then have "well C1" "well B1" "data_of C1 = data_of C" by (simp_all add: holds_def)
  then have "holds B1 (map (\<lambda>r. answer_to r (D r)) reqs) (snd (fold (ask_storage c L nc nb) reqs (C1, B1)))"
    using Cons.prems holds_connected [OF h(1)] holds_same(1) [OF h(2)] by (intro Cons.IH) simp_all
  then show ?case using holds_trans [OF h(2)] s by simp
qed

section \<open>The way of a message\<close>

text \<open>Every part of a block is found from its file and index.\<close>

lemma blocks_data:
  assumes "blocks_of c L f sender recipient es ps" "p \<in> set ps"
  shows "pc_file p = f" "pc_data p = enc_envelope c (es ! nat (pc_index p))" "pc_hash p = RegisteredHash L (pc_data p)"
proof -
  obtain i where "i < length es" "p = ps ! i" using assms by (auto simp: blocks_of_def in_set_conv_nth)
  then show "pc_file p = f" "pc_data p = enc_envelope c (es ! nat (pc_index p))" "pc_hash p = RegisteredHash L (pc_data p)"
    using assms(1) by (simp_all add: blocks_of_def)
qed

lemma blocks_travel:
  assumes blocks: "blocks_of c L f sender recipient es ps"
    and bs: "set (concat (map cb_chunks bs)) = store_request t ` set ps" and C: "well C" "IsPeerConnected C (ms_id B)"
    and reqs: "set reqs = (\<lambda>p. \<lparr>cg_file = f, cg_index = pc_index p\<rparr>) ` set ps" and B: "well B"
  shows "\<exists>as. holds B as (snd (fold (ask_storage c L nc nb) reqs (fold (\<lambda>b. arrive c L nc a (ChunkStoreBatchFrame b)) bs C, B)))
    \<and> (\<forall>p \<in> set ps. fold put_data as (data_of B) (f, pc_index p) = Some (pc_data p))"
proof -
  define D where "D = (\<lambda>k :: string \<times> int. enc_envelope c (es ! nat (snd k)))"
  note data = blocks_data [OF blocks]
  let ?C = "fold (\<lambda>b. arrive c L nc a (ChunkStoreBatchFrame b)) bs C"
  let ?key = "\<lambda>r. (cs_file r, cs_index r)"
  have stored: "cs_data r = D (?key r) \<and> hash_ok L r" if "r \<in> set (concat (map cb_chunks bs))" for r
    using that data unfolding bs by (auto simp: store_request_def D_def hash_ok_def)
  have h: "holds C (concat (map cb_chunks bs)) ?C"
    using stored by (intro batches_hold C) auto
  have keys: "(f, pc_index p) \<in> ?key ` set (concat (map cb_chunks bs))" if "p \<in> set ps" for p
    using that data(1) [OF that] unfolding bs by (force simp: store_request_def)
  have at: "data_of ?C (f, pc_index p) = Some (D (f, pc_index p))" if "p \<in> set ps" for p
    using h keys [OF that] put_data_all [of "concat (map cb_chunks bs)" D] stored by (simp add: holds_def)
  let ?as = "map (\<lambda>r. answer_to r (D (cg_file r, cg_index r))) reqs"
  have "well ?C" using h by (simp add: holds_def)
  moreover have "IsPeerConnected ?C (ms_id B)" using holds_connected [OF h] C(2) by simp
  moreover have "\<forall>r \<in> set reqs. data_of ?C (cg_file r, cg_index r) = Some (D (cg_file r, cg_index r))"
    using at by (auto simp: reqs)
  ultimately have "holds B ?as (snd (fold (ask_storage c L nc nb) reqs (?C, B)))" using B by (rule asks_hold)
  moreover have "fold put_data ?as (data_of B) (f, pc_index p) = Some (pc_data p)" if "p \<in> set ps" for p
  proof -
    have "(f, pc_index p) \<in> ?key ` set ?as" using that by (force simp: reqs answer_to_def)
    moreover have "\<forall>r \<in> set ?as. cs_data r = D (?key r)" by (auto simp: answer_to_def)
    moreover have "D (f, pc_index p) = pc_data p" using data(2) [OF that] by (simp add: D_def)
    ultimately show ?thesis using put_data_all [of ?as D "data_of B" "(f, pc_index p)"] by (simp only: if_True)
  qed
  ultimately show ?thesis by blast
qed

text \<open>
  C26. A message makes its way: it is accepted on one device, its blocks are stored on a second one, in
  batches of any size, in any order and repeatedly, and a third one, the recipient's, asks the second
  for them, in any order and repeatedly. Then the recipient collects the message: its history grows by
  exactly one entry, with the sent text and time, in the chat of the peer whose key verifies the blocks.
  The device in between holds no key of the message.
\<close>

theorem message_through_storage:
  assumes "faithful c"
    and "keys_agree L (k_enc_private (ms_keys B)) (k_enc_public (ms_keys B)) vk (k_sign_private (ms_keys A))"
    and "\<forall>i. n_random na 0 i \<noteq> None"
    and "prepareOutgoing c L na to txt [] ttl A = (Ret og, A')" and f: "f = cm_id (og_message og)"
    and "DecodeKey (peer_enc (og_peer og)) = Ret (k_enc_public (ms_keys B))" "Key (og_peer og) = ms_key B"
    and "set (concat (map cb_chunks bs)) = store_request t ` set (og_chunks og)"
    and "well C" "IsPeerConnected C (ms_id B)"
    and "set reqs = (\<lambda>p. \<lparr>cg_file = f, cg_index = pc_index p\<rparr>) ` set (og_chunks og)"
    and "well B" "\<not> ms_closed B" "f \<notin> ms_processing B" "\<not> tbl_has m_uid f (t_messages (db_tables (ms_store B)))"
    and "announced f (og_chunks og) rs"
    and "knows_sender B (ms_key A) sender" "DecodeKey (peer_sign sender) = Ret vk"
    and "\<not> HasPrefix txt invitePrefix" "n_now na \<noteq> zero_time"
  shows "\<exists>B'. collectAndProcessMessage c L nb f rs
       (snd (fold (ask_storage c L nc nb) reqs (fold (\<lambda>b. arrive c L nc (ms_id A) (ChunkStoreBatchFrame b)) bs C, B))) = (Ret True, B')
     \<and> delivered c f sender txt (n_now na) B B'"
proof -
  obtain es where blocks: "blocks_of c L f (ms_key A) (ms_key B) es (og_chunks og)"
    using accepted_blocks [OF assms(1-4,6)] assms(7) f by metis
  let ?B = "snd (fold (ask_storage c L nc nb) reqs (fold (\<lambda>b. arrive c L nc (ms_id A) (ChunkStoreBatchFrame b)) bs C, B))"
  obtain as where h: "holds B as ?B" and data: "\<forall>p \<in> set (og_chunks og). fold put_data as (data_of B) (f, pc_index p) = Some (pc_data p)"
    using blocks_travel [OF blocks assms(8-12)] by blast
  note same = holds_same [OF h]
  have "served (n_now nb) (db_tables (ms_store ?B)) (f, pc_index p) = Some (pc_data p)" if "p \<in> set (og_chunks og)" for p
    using data that h by (intro data_of_served) (simp add: holds_def)
  then have ready: "can_collect nb f (og_chunks og) ?B" using assms(13-15) same by (simp add: can_collect_def)
  have knows: "knows_sender ?B (ms_key A) sender" using assms(17) same(7) by (simp add: knows_sender_def)
  obtain B' where B': "collectAndProcessMessage c L nb f rs ?B = (Ret True, B')" "delivered c f sender txt (n_now na) ?B B'"
    using collect_message [OF assms(1) _ assms(3,4) _ _ ready assms(16) knows assms(18-20)] assms(2,6,7) same(2,3) by metis
  have "delivered c f sender txt (n_now na) B B'" using B'(2) same(6,8) by (simp add: delivered_def)
  with B'(1) show ?thesis by blast
qed

section \<open>Ann, Bob and a device between them\<close>

definition storage :: Messenger where
  "storage = (sample_messenger ''c'' ''carl'' \<lparr>db_tables = no_tables, db_faults = []\<rparr>)
     \<lparr>ms_rtc := (NewManager ''c'')\<lparr>rtc_chans := (\<lambda>_. Some (Channel 0 0)), rtc_open := {Channel 0 0}\<rparr>\<rparr>"

lemma message_through_storage_witness:
  "\<exists>og A' B'. prepareOutgoing wire_codec toy_lib sample_net ''bob:k'' ''hi'' [] 0 ann = (Ret og, A')
     \<and> collectAndProcessMessage wire_codec toy_lib sample_net ''uuid'' (map (record_of ''uuid'') (og_chunks og))
         (snd (fold (ask_storage wire_codec toy_lib sample_net sample_net)
            (map (\<lambda>p. \<lparr>cg_file = ''uuid'', cg_index = pc_index p\<rparr>) (og_chunks og))
            (arrive wire_codec toy_lib sample_net ''a''
               (ChunkStoreBatchFrame \<lparr>cb_request = ''r'', cb_chunks = map (store_request 0) (og_chunks og)\<rparr>) storage,
             bob ''uuid'' [] []))) = (Ret True, B')
     \<and> delivered wire_codec ''uuid'' ann_peer ''hi'' 0 (bob ''uuid'' [] []) B'"
proof -
  obtain og A' where og: "prepareOutgoing wire_codec toy_lib sample_net ''bob:k'' ''hi'' [] 0 ann = (Ret og, A')"
    "og_peer og = bob_peer" "cm_id (og_message og) = ''uuid''" "\<forall>i < length (og_chunks og). pc_index (og_chunks og ! i) = int i"
    by (rule ann_sends)
  have a: "announced ''uuid'' (og_chunks og) (map (record_of ''uuid'') (og_chunks og))"
    by (rule bob_ready(2) [OF og(4), of _ "[]"]) (simp add: tbl_has_def)
  note b = bob_ready [of "[]" "''uuid''" "[]"]
  have id: "ms_id ann = ''a''" "ms_id (bob ''uuid'' [] []) = ''b''"
    by (simp_all add: ann_def bob_def sample_messenger_def new_messenger_def Let_def)
  have well: "well storage" "IsPeerConnected storage (ms_id (bob ''uuid'' [] []))" "well (bob ''uuid'' [] [])"
    using wf_no_tables
    by (simp_all add: well_def storage_def bob_def IsPeerConnected_def IsConnected_def NewManager_def)
      (simp_all add: sample_messenger_def new_messenger_def Let_def NewManager_def no_tables_def)
  have "\<exists>B'. collectAndProcessMessage wire_codec toy_lib sample_net ''uuid'' (map (record_of ''uuid'') (og_chunks og))
         (snd (fold (ask_storage wire_codec toy_lib sample_net sample_net)
            (map (\<lambda>p. \<lparr>cg_file = ''uuid'', cg_index = pc_index p\<rparr>) (og_chunks og))
            (fold (\<lambda>b. arrive wire_codec toy_lib sample_net (ms_id ann) (ChunkStoreBatchFrame b))
               [\<lparr>cb_request = ''r'', cb_chunks = map (store_request 0) (og_chunks og)\<rparr>] storage,
             bob ''uuid'' [] []))) = (Ret True, B')
     \<and> delivered wire_codec ''uuid'' ann_peer ''hi'' (n_now sample_net) (bob ''uuid'' [] []) B'"
    by (rule message_through_storage [OF faithful_wire _ _ og(1) _ _ _ _ well(1,2) _ well(3) _ _ _ a b(3,4)])
      (use sample_keys in \<open>simp_all add: og(2,3) Key_bob tbl_has_def\<close>,
       simp_all add: bob_peer_def sample_net_def HasPrefix_def invitePrefix_def zero_time_def bob_def sample_messenger_def
         new_messenger_def Let_def)
  then show ?thesis using og(1) by (auto simp: og(3) id sample_net_def)
qed

end
