(* ===== verification/MuninnSocket.thy ===== *)
theory MuninnSocket
  imports MuninnPeer Json
begin

text \<open>
  The WebSocket client of \<open>internal/muninn/rtc.go\<close>: one connection at a time, a reading
  goroutine for each connection there ever was, and requests that wait for the response with
  their id.

  A connection and a channel are numbers; a channel made by \<open>make(chan wsResponse, 1)\<close> holds at
  most one response, and a send to a full one blocks. The calls of the library
  (\<open>gorilla/websocket\<close>) end as the arguments say: whether dialling or writing succeeds and what
  is read. The JSON of frames and parameters is the parameter \<open>frames\<close>. A call to
  \<open>sendRequest\<close> is two steps, as the goroutine waits in between; the calls that wait, with
  their local channel, are \<open>ws_calls\<close>. Results and disconnections are traces.
\<close>

section \<open>State\<close>

record wsResponse =
  wr_id :: string
  wr_result :: bytes
  wr_error :: string

record frames =
  fr_notification :: "bytes \<Rightarrow> (string \<times> bytes) option"
  fr_response :: "bytes \<Rightarrow> wsResponse option"
  fr_signal :: "bytes \<Rightarrow> Signal option"
  fr_request :: "string \<Rightarrow> string \<Rightarrow> bytes \<Rightarrow> bytes"
  fr_relay :: "string \<Rightarrow> string \<Rightarrow> string \<Rightarrow> string \<Rightarrow> bytes"
  fr_connect :: "string \<Rightarrow> string \<Rightarrow> bytes"

record WSClient =
  ws_base :: string
  ws_local :: string
  ws_conn :: "nat option"
  ws_connected :: bool
  ws_pending :: "string \<Rightarrow> nat option"
  ws_chans :: "nat \<Rightarrow> wsResponse option"
  ws_on_signal :: bool
  ws_on_disconnect :: bool
  ws_notified :: "nat set"
  ws_cancelled :: bool
  ws_next :: nat
  ws_reading :: "nat set"
  ws_dialing :: bool
  ws_calls :: "(string \<times> nat) list"
  ws_written :: "(nat \<times> bytes) list"
  ws_signals :: "Signal list"
  ws_disconnects :: nat
  ws_shut :: "nat list"

definition NewWSClient :: "string \<Rightarrow> string \<Rightarrow> WSClient" where
  "NewWSClient baseURL localID =
     \<lparr>ws_base = baseURL, ws_local = localID, ws_conn = None, ws_connected = False, ws_pending = (\<lambda>_. None),
      ws_chans = (\<lambda>_. None), ws_on_signal = False, ws_on_disconnect = False, ws_notified = {}, ws_cancelled = False, ws_next = 0,
      ws_reading = {}, ws_dialing = False, ws_calls = [], ws_written = [], ws_signals = [], ws_disconnects = 0,
      ws_shut = []\<rparr>"

definition SetOnSignal :: "WSClient \<Rightarrow> WSClient" where
  "SetOnSignal c = c\<lparr>ws_on_signal := True\<rparr>"

definition SetOnDisconnect :: "WSClient \<Rightarrow> WSClient" where
  "SetOnDisconnect c = c\<lparr>ws_on_disconnect := True\<rparr>"

definition WSIsConnected :: "WSClient \<Rightarrow> bool" where
  "WSIsConnected c = ws_connected c"

section \<open>Connecting\<close>

text \<open>A parsed URL, and the one that is dialled: encoding the query sorts it by key.\<close>

record URL =
  u_scheme :: string
  u_host :: string
  u_path :: string
  u_query :: "(string \<times> string) list"

definition ws_url :: "string \<Rightarrow> URL \<Rightarrow> URL" where
  "ws_url localID u = u\<lparr>u_scheme := (if u_scheme u = ''https'' then ''wss'' else ''ws''), u_path := ''/api/v1/ws'',
     u_query := sort_key fst (filter (\<lambda>(k, v). k \<noteq> ''peer_id'') (u_query u) @ [(''peer_id'', localID)])\<rparr>"

definition ws_header :: "string \<Rightarrow> (string \<times> string) list" where
  "ws_header localID = [(''X-Peer-Id'', localID)]"

text \<open>
  \<open>Connect\<close> up to the dial, of a URL with a header, under \<open>connectMu\<close>, and from its end on: a connection that comes too
  late, after \<open>Close\<close>, is closed at once. Its reader will call the handler of disconnections
  that is set when it starts, if there is one.
\<close>

definition connect_start :: "URL option \<Rightarrow> WSClient \<Rightarrow> (unit go + URL \<times> (string \<times> string) list) \<times> WSClient" where
  "connect_start parsed c =
     (if ws_cancelled c then (Inl (Err ''websocket client is closed''), c)
      else if ws_connected c \<and> ws_conn c \<noteq> None then (Inl (Ret ()), c)
      else (case parsed of
          None \<Rightarrow> (Inl (Err ''parse base url''), c)
        | Some u \<Rightarrow> (Inr (ws_url (ws_local c) u, ws_header (ws_local c)), c\<lparr>ws_dialing := True\<rparr>)))"

definition connect_end :: "bool \<Rightarrow> WSClient \<Rightarrow> unit go \<times> WSClient" where
  "connect_end ok c =
     (let c1 = c\<lparr>ws_dialing := False\<rparr>; conn = ws_next c; c2 = c1\<lparr>ws_next := conn + 1\<rparr> in
      if \<not> ok then (Err ''websocket dial'', c1)
      else if ws_cancelled c then (Err ''websocket client is closed'', c2\<lparr>ws_shut := ws_shut c @ [conn]\<rparr>)
      else (Ret (), c2\<lparr>ws_conn := Some conn, ws_connected := True, ws_reading := insert conn (ws_reading c),
        ws_notified := (if ws_on_disconnect c then insert conn (ws_notified c) else ws_notified c)\<rparr>))"

section \<open>Reading\<close>

definition handleNotification :: "frames \<Rightarrow> string \<Rightarrow> bytes \<Rightarrow> WSClient \<Rightarrow> WSClient" where
  "handleNotification j methd params c =
     (if methd \<noteq> ''incoming_signal'' then c
      else (case fr_signal j params of
          None \<Rightarrow> c
        | Some sig \<Rightarrow> if ws_on_signal c then c\<lparr>ws_signals := ws_signals c @ [sig]\<rparr> else c))"

text \<open>\<open>None\<close>: the send to the channel of the request blocks.\<close>

definition dispatch :: "wsResponse \<Rightarrow> WSClient \<Rightarrow> WSClient option" where
  "dispatch resp c =
     (let c1 = c\<lparr>ws_pending := (ws_pending c)(wr_id resp := None)\<rparr> in
      case ws_pending c (wr_id resp) of
        None \<Rightarrow> Some c1
      | Some ch \<Rightarrow> if ws_chans c ch \<noteq> None then None else Some (c1\<lparr>ws_chans := (ws_chans c)(ch \<mapsto> resp)\<rparr>))"

definition handleMessage :: "frames \<Rightarrow> bytes \<Rightarrow> WSClient \<Rightarrow> WSClient option" where
  "handleMessage j data c =
     (case (case fr_notification j data of Some (methd, params) \<Rightarrow> if methd = [] then None else Some (methd, params)
            | None \<Rightarrow> None) of
        Some (methd, params) \<Rightarrow> Some (handleNotification j methd params c)
      | None \<Rightarrow>
         (case fr_response j data of
            None \<Rightarrow> Some c
          | Some resp \<Rightarrow> if wr_id resp = [] then Some c else dispatch resp c))"

text \<open>The deferred end of \<open>readLoop\<close>: only the current connection is forgotten.\<close>

definition read_end :: "nat \<Rightarrow> WSClient \<Rightarrow> WSClient" where
  "read_end conn c =
     (let c1 = c\<lparr>ws_shut := ws_shut c @ [conn], ws_reading := ws_reading c - {conn}\<rparr> in
      if ws_conn c = Some conn
      then c1\<lparr>ws_conn := None, ws_connected := False,
             ws_disconnects := ws_disconnects c + (if \<not> ws_cancelled c \<and> conn \<in> ws_notified c then 1 else 0)\<rparr>
      else c1)"

text \<open>A turn of \<open>readLoop\<close>: a message, or an error that ends it.\<close>

definition readLoop :: "frames \<Rightarrow> nat \<Rightarrow> bytes option \<Rightarrow> WSClient \<Rightarrow> WSClient option" where
  "readLoop j conn r c = (case r of None \<Rightarrow> Some (read_end conn c) | Some data \<Rightarrow> handleMessage j data c)"

section \<open>Requests\<close>

definition drop_request :: "string \<Rightarrow> WSClient \<Rightarrow> WSClient" where
  "drop_request i c = c\<lparr>ws_pending := (ws_pending c)(i := None), ws_calls := filter (\<lambda>(j, ch). j \<noteq> i) (ws_calls c)\<rparr>"

definition request_start :: "frames \<Rightarrow> string \<Rightarrow> string \<Rightarrow> bytes \<Rightarrow> bool \<Rightarrow> WSClient \<Rightarrow> unit go \<times> WSClient" where
  "request_start j i methd params ok c =
     (let ch = ws_next c;
          c1 = c\<lparr>ws_next := ch + 1, ws_pending := (ws_pending c)(i \<mapsto> ch), ws_chans := (ws_chans c)(ch := None)\<rparr>
      in case (if ws_connected c then ws_conn c else None) of
           None \<Rightarrow> (Err ''not connected to muninn'', drop_request i c1)
         | Some conn \<Rightarrow>
             if \<not> ok then (Err ''send'', drop_request i c1)
             else (Ret (), c1\<lparr>ws_written := ws_written c @ [(conn, fr_request j i methd params)], ws_calls := ws_calls c @ [(i, ch)]\<rparr>))"

datatype wake = Response | Cancelled | TimedOut

text \<open>The end of the wait; \<open>None\<close> if there is no response to take.\<close>

definition request_end :: "string \<Rightarrow> nat \<Rightarrow> wake \<Rightarrow> WSClient \<Rightarrow> (bytes go \<times> WSClient) option" where
  "request_end i ch wake c =
     (case wake of
        Response \<Rightarrow>
          (case ws_chans c ch of
             None \<Rightarrow> None
           | Some resp \<Rightarrow> Some (if wr_error resp \<noteq> [] then Err (''rpc error: '' @ wr_error resp) else Ret (wr_result resp),
               drop_request i (c\<lparr>ws_chans := (ws_chans c)(ch := None)\<rparr>)))
      | Cancelled \<Rightarrow> Some (Err ''context canceled'', drop_request i c)
      | TimedOut \<Rightarrow> Some (Err ''rpc timeout'', drop_request i c))"

text \<open>
  A whole call: \<open>come\<close> is what is read while it waits, in order, and \<open>late\<close> how it ends if no
  response is there by then. When a response and the other end are there at the same moment,
  \<open>select\<close> picks one at random: \<open>race\<close> says that it picks the other end.
\<close>

fun read_all :: "frames \<Rightarrow> bytes list \<Rightarrow> WSClient \<Rightarrow> WSClient option" where
  "read_all j [] c = Some c"
| "read_all j (data # rest) c = (case handleMessage j data c of None \<Rightarrow> None | Some c1 \<Rightarrow> read_all j rest c1)"

definition sendRequest ::
    "frames \<Rightarrow> string \<Rightarrow> string \<Rightarrow> bytes \<Rightarrow> bool \<Rightarrow> bytes list \<Rightarrow> bool \<Rightarrow> wake \<Rightarrow> WSClient \<Rightarrow> (bytes go \<times> WSClient) option" where
  "sendRequest j i methd params ok come race late c =
     (case request_start j i methd params ok c of
        (Err e, c1) \<Rightarrow> Some (Err e, c1)
      | (Panic e, c1) \<Rightarrow> Some (Panic e, c1)
      | (Ret _, c1) \<Rightarrow>
         (case read_all j come c1 of
            None \<Rightarrow> None
          | Some c2 \<Rightarrow>
             if race then request_end i (ws_next c) late c2
             else (case request_end i (ws_next c) Response c2 of
                 Some r \<Rightarrow> Some r
               | None \<Rightarrow> request_end i (ws_next c) late c2)))"

definition ignoring :: "bytes go \<Rightarrow> unit go" where
  "ignoring r = (case r of Ret _ \<Rightarrow> Ret () | Err e \<Rightarrow> Err e | Panic e \<Rightarrow> Panic e)"

definition RelaySignal ::
    "frames \<Rightarrow> string \<Rightarrow> string \<Rightarrow> string \<Rightarrow> string \<Rightarrow> bool \<Rightarrow> bytes list \<Rightarrow> bool \<Rightarrow> wake \<Rightarrow> WSClient \<Rightarrow> (unit go \<times> WSClient) option" where
  "RelaySignal j i targetID sigType data ok come race late c =
     map_option (map_prod ignoring (\<lambda>c. c))
       (sendRequest j i ''signal_relay'' (fr_relay j targetID (ws_local c) sigType data) ok come race late c)"

definition ConnectToPeer ::
    "frames \<Rightarrow> string \<Rightarrow> string \<Rightarrow> string \<Rightarrow> bool \<Rightarrow> bytes list \<Rightarrow> bool \<Rightarrow> wake \<Rightarrow> WSClient \<Rightarrow> (unit go \<times> WSClient) option" where
  "ConnectToPeer j i targetID offer ok come race late c =
     map_option (map_prod ignoring (\<lambda>c. c))
       (sendRequest j i ''connect_to_peer'' (fr_connect j targetID offer) ok come race late c)"

text \<open>\<open>Close\<close> does its work once.\<close>

definition WSClose :: "WSClient \<Rightarrow> WSClient" where
  "WSClose c =
     (if ws_cancelled c then c
      else c\<lparr>ws_cancelled := True, ws_conn := None, ws_connected := False,
             ws_shut := ws_shut c @ (case ws_conn c of None \<Rightarrow> [] | Some conn \<Rightarrow> [conn])\<rparr>)"

section \<open>Everything that can happen\<close>

text \<open>
  The steps of all goroutines, in any order. \<open>connectMu\<close> keeps a second dial out; ids are fresh
  UUIDs, so no call that waits has the id of a new one.
\<close>

inductive ws_step :: "frames \<Rightarrow> WSClient \<Rightarrow> WSClient \<Rightarrow> bool" for j where
  Dial: "\<not> ws_dialing c \<Longrightarrow> connect_start parsed c = (r, c') \<Longrightarrow> ws_step j c c'"
| Dialled: "ws_dialing c \<Longrightarrow> connect_end ok c = (r, c') \<Longrightarrow> ws_step j c c'"
| Read: "conn \<in> ws_reading c \<Longrightarrow> readLoop j conn r c = Some c' \<Longrightarrow> ws_step j c c'"
| Request: "i \<notin> fst ` set (ws_calls c) \<Longrightarrow> request_start j i methd params ok c = (r, c') \<Longrightarrow> ws_step j c c'"
| Woken: "(i, ch) \<in> set (ws_calls c) \<Longrightarrow> request_end i ch wake c = Some (r, c') \<Longrightarrow> ws_step j c c'"
| Closing: "ws_step j c (WSClose c)"
| OnSignal: "ws_step j c (SetOnSignal c)"
| OnDisconnect: "ws_step j c (SetOnDisconnect c)"

definition ws_reachable :: "frames \<Rightarrow> string \<Rightarrow> string \<Rightarrow> WSClient \<Rightarrow> bool" where
  "ws_reachable j base local c = (ws_step j)\<^sup>*\<^sup>* (NewWSClient base local) c"

text \<open>
  What always holds, of the connections and of the requests: each waiting call has an id and a
  channel of its own, which hold for it either an entry among the pending requests, and then the
  channel is empty, or the response with its id.
\<close>

definition conns_ok :: "WSClient \<Rightarrow> bool" where
  "conns_ok c \<longleftrightarrow>
     (ws_connected c \<longleftrightarrow> ws_conn c \<noteq> None)
     \<and> (ws_cancelled c \<or> ws_dialing c \<longrightarrow> ws_conn c = None)
     \<and> ws_reading c - set (ws_shut c) = set_option (ws_conn c)
     \<and> (\<forall>k \<in> ws_reading c \<union> set (ws_shut c). k < ws_next c)"

definition calls_ok :: "WSClient \<Rightarrow> bool" where
  "calls_ok c \<longleftrightarrow>
     distinct (map fst (ws_calls c)) \<and> distinct (map snd (ws_calls c))
     \<and> (\<forall>k \<in> snd ` set (ws_calls c). k < ws_next c)
     \<and> (\<forall>i ch. ws_pending c i = Some ch \<longrightarrow> (i, ch) \<in> set (ws_calls c) \<and> ws_chans c ch = None)
     \<and> (\<forall>i ch resp. (i, ch) \<in> set (ws_calls c) \<and> ws_chans c ch = Some resp \<longrightarrow> wr_id resp = i)
     \<and> (\<forall>i ch. (i, ch) \<in> set (ws_calls c) \<and> ws_chans c ch = None \<longrightarrow> ws_pending c i = Some ch)"

lemma conns_ok_connect:
  "conns_ok c \<Longrightarrow> \<not> ws_dialing c \<Longrightarrow> conns_ok (snd (connect_start parsed c))"
  "conns_ok c \<Longrightarrow> ws_dialing c \<Longrightarrow> conns_ok (snd (connect_end ok c))"
  by (auto simp: conns_ok_def connect_start_def connect_end_def Let_def less_Suc_eq split: option.splits)

lemma conns_ok_read_end: "conns_ok c \<Longrightarrow> k \<in> ws_reading c \<Longrightarrow> conns_ok (read_end k c)"
  by (cases "ws_conn c") (auto simp: conns_ok_def read_end_def Let_def)

lemma conns_ok_close: "conns_ok c \<Longrightarrow> conns_ok (WSClose c)"
  by (cases "ws_conn c") (auto simp: conns_ok_def WSClose_def)

text \<open>The other operations leave the connections alone, and the connecting ones the requests.\<close>

definition same_conns :: "WSClient \<Rightarrow> WSClient \<Rightarrow> bool" where
  "same_conns c d \<longleftrightarrow> ws_connected d = ws_connected c \<and> ws_conn d = ws_conn c \<and> ws_cancelled d = ws_cancelled c
     \<and> ws_dialing d = ws_dialing c \<and> ws_reading d = ws_reading c \<and> ws_shut d = ws_shut c \<and> ws_next c \<le> ws_next d"

definition same_calls :: "WSClient \<Rightarrow> WSClient \<Rightarrow> bool" where
  "same_calls c d \<longleftrightarrow> ws_calls d = ws_calls c \<and> ws_pending d = ws_pending c \<and> ws_chans d = ws_chans c \<and> ws_next c \<le> ws_next d"

lemma conns_ok_same: "conns_ok c \<Longrightarrow> same_conns c d \<Longrightarrow> conns_ok d"
  unfolding conns_ok_def same_conns_def by (elim conjE, intro conjI) (simp_all, meson less_le_trans)

lemma calls_okD:
  assumes "calls_ok c"
  shows "inj_on snd (set (ws_calls c))" and "distinct (map fst (ws_calls c))" and "distinct (map snd (ws_calls c))"
    and "k \<in> snd ` set (ws_calls c) \<Longrightarrow> k < ws_next c"
    and "ws_pending c i = Some ch \<Longrightarrow> (i, ch) \<in> set (ws_calls c) \<and> ws_chans c ch = None"
    and "(i, ch) \<in> set (ws_calls c) \<Longrightarrow> ws_chans c ch = Some resp \<Longrightarrow> wr_id resp = i"
    and "(i, ch) \<in> set (ws_calls c) \<Longrightarrow> ws_chans c ch = None \<Longrightarrow> ws_pending c i = Some ch"
  using assms unfolding calls_ok_def distinct_map by blast+

lemma calls_okI:
  assumes "distinct (map fst (ws_calls c))" "distinct (map snd (ws_calls c))"
    and "\<And>k. k \<in> snd ` set (ws_calls c) \<Longrightarrow> k < ws_next c"
    and "\<And>i ch. ws_pending c i = Some ch \<Longrightarrow> (i, ch) \<in> set (ws_calls c) \<and> ws_chans c ch = None"
    and "\<And>i ch resp. (i, ch) \<in> set (ws_calls c) \<Longrightarrow> ws_chans c ch = Some resp \<Longrightarrow> wr_id resp = i"
    and "\<And>i ch. (i, ch) \<in> set (ws_calls c) \<Longrightarrow> ws_chans c ch = None \<Longrightarrow> ws_pending c i = Some ch"
  shows "calls_ok c"
  using assms unfolding calls_ok_def by blast

lemma calls_ok_same:
  assumes c: "calls_ok c" and same: "same_calls c d"
  shows "calls_ok d"
proof (rule calls_okI)
  note s = same [unfolded same_calls_def]
  show "distinct (map fst (ws_calls d))" "distinct (map snd (ws_calls d))" using calls_okD(2,3) [OF c] s by simp_all
  show "k < ws_next d" if "k \<in> snd ` set (ws_calls d)" for k using that calls_okD(4) [OF c, of k] s by simp
  show "(i, ch) \<in> set (ws_calls d) \<and> ws_chans d ch = None" if "ws_pending d i = Some ch" for i ch
    using that calls_okD(5) [OF c, of i ch] s by simp
  show "wr_id resp = i" if "(i, ch) \<in> set (ws_calls d)" "ws_chans d ch = Some resp" for i ch resp
    using that calls_okD(6) [OF c, of i ch resp] s by simp
  show "ws_pending d i = Some ch" if "(i, ch) \<in> set (ws_calls d)" "ws_chans d ch = None" for i ch
    using that calls_okD(7) [OF c, of i ch] s by simp
qed

lemma dispatch_ok:
  assumes "calls_ok c"
  obtains d where "dispatch resp c = Some d" "calls_ok d" "same_conns c d" "ws_calls d = ws_calls c"
    "ws_chans d = (case ws_pending c (wr_id resp) of None \<Rightarrow> ws_chans c | Some ch \<Rightarrow> (ws_chans c)(ch \<mapsto> resp))"
    "ws_pending d = (ws_pending c)(wr_id resp := None)"
proof (cases "ws_pending c (wr_id resp)")
  case None
  then have "(ws_pending c)(wr_id resp := None) = ws_pending c" by (simp add: fun_upd_idem)
  then show thesis using that [of c] assms None by (simp add: dispatch_def same_conns_def)
next
  case (Some ch)
  let ?d = "c\<lparr>ws_pending := (ws_pending c)(wr_id resp := None), ws_chans := (ws_chans c)(ch \<mapsto> resp)\<rparr>"
  note ch = calls_okD(5) [OF assms Some]
  have other: "i = wr_id resp" if "(i, ch) \<in> set (ws_calls c)" for i
    using inj_onD [OF calls_okD(1) [OF assms] _ that] ch by fastforce
  have "calls_ok ?d"
  proof (rule calls_okI)
    show "(i, ch') \<in> set (ws_calls ?d) \<and> ws_chans ?d ch' = None" if "ws_pending ?d i = Some ch'" for i ch'
      using that calls_okD(5) [OF assms, of i ch'] other [of i] by (auto split: if_splits)
    show "wr_id r = i" if "(i, ch') \<in> set (ws_calls ?d)" "ws_chans ?d ch' = Some r" for i ch' r
      using that calls_okD(6) [OF assms, of i ch' r] other [of i] by (auto split: if_splits)
    show "ws_pending ?d i = Some ch'" if "(i, ch') \<in> set (ws_calls ?d)" "ws_chans ?d ch' = None" for i ch'
      using that calls_okD(7) [OF assms, of i ch'] Some by (auto split: if_splits)
  qed (use calls_okD(2-4) [OF assms] in simp_all)
  then show thesis using that [of ?d] Some ch by (simp add: dispatch_def same_conns_def Let_def)
qed

lemma same_refl: "same_calls c c" "same_conns c c"
  by (simp_all add: same_calls_def same_conns_def)

lemma same_notification:
  "same_calls c (handleNotification j methd params c)" "same_conns c (handleNotification j methd params c)"
  by (simp_all add: handleNotification_def same_calls_def same_conns_def split: option.split)

text \<open>What a frame answers.\<close>

definition answer_of :: "frames \<Rightarrow> bytes \<Rightarrow> wsResponse option" where
  "answer_of j data =
     (case fr_notification j data of
        Some (methd, params) \<Rightarrow> if methd \<noteq> [] then None else
          (case fr_response j data of None \<Rightarrow> None | Some resp \<Rightarrow> if wr_id resp = [] then None else Some resp)
      | None \<Rightarrow> (case fr_response j data of None \<Rightarrow> None | Some resp \<Rightarrow> if wr_id resp = [] then None else Some resp))"

lemma handleMessage_answer: "answer_of j data = Some resp \<Longrightarrow> handleMessage j data c = dispatch resp c"
  by (auto simp: answer_of_def handleMessage_def split: option.splits if_splits)

lemma handleMessage_other:
  "answer_of j data = None \<Longrightarrow> \<exists>d. handleMessage j data c = Some d \<and> same_calls c d \<and> same_conns c d"
  using same_refl [of c] same_notification [of c j]
  by (auto simp: answer_of_def handleMessage_def split: option.splits if_splits)

lemma message_ok:
  assumes "calls_ok c"
  obtains d where "handleMessage j data c = Some d" "calls_ok d" "same_conns c d" "ws_calls d = ws_calls c"
proof (cases "answer_of j data")
  case None
  then obtain d where "handleMessage j data c = Some d" "same_calls c d" "same_conns c d" using handleMessage_other by blast
  then show thesis using that [of d] calls_ok_same [OF assms] by (simp add: same_calls_def)
next
  case (Some resp)
  then show thesis using dispatch_ok [OF assms, of resp] that by (metis handleMessage_answer)
qed

lemma calls_ok_drop: "calls_ok c \<Longrightarrow> calls_ok (drop_request i c)"
proof (rule calls_okI)
  assume c: "calls_ok c"
  show "distinct (map fst (ws_calls (drop_request i c)))" "distinct (map snd (ws_calls (drop_request i c)))"
    using calls_okD(2,3) [OF c] by (simp_all add: drop_request_def distinct_map_filter)
  show "k < ws_next (drop_request i c)" if "k \<in> snd ` set (ws_calls (drop_request i c))" for k
    using that calls_okD(4) [OF c, of k] by (auto simp: drop_request_def)
  show "(i', ch) \<in> set (ws_calls (drop_request i c)) \<and> ws_chans (drop_request i c) ch = None"
    if "ws_pending (drop_request i c) i' = Some ch" for i' ch
    using that calls_okD(5) [OF c, of i' ch] by (auto simp: drop_request_def split: if_splits)
  show "wr_id resp = i'" if "(i', ch) \<in> set (ws_calls (drop_request i c))" "ws_chans (drop_request i c) ch = Some resp" for i' ch resp
    using that calls_okD(6) [OF c, of i' ch resp] by (auto simp: drop_request_def)
  show "ws_pending (drop_request i c) i' = Some ch" if "(i', ch) \<in> set (ws_calls (drop_request i c))" "ws_chans (drop_request i c) ch = None" for i' ch
    using that calls_okD(7) [OF c, of i' ch] by (auto simp: drop_request_def)
qed

lemma calls_ok_taken:
  assumes c: "calls_ok c" and call: "(i, ch) \<in> set (ws_calls c)"
  shows "calls_ok (drop_request i (c\<lparr>ws_chans := (ws_chans c)(ch := None)\<rparr>))"
proof -
  note d = calls_ok_drop [OF c, of i]
  have other: "ch' \<noteq> ch" if "(i', ch') \<in> set (ws_calls (drop_request i c))" for i' ch'
    using inj_onD [OF calls_okD(1) [OF c] _ _ call, of "(i', ch')"] that by (auto simp: drop_request_def)
  have e: "drop_request i (c\<lparr>ws_chans := (ws_chans c)(ch := None)\<rparr>)
      = (drop_request i c)\<lparr>ws_chans := (ws_chans c)(ch := None)\<rparr>" by (simp add: drop_request_def)
  let ?d = "drop_request i c" and ?e = "(drop_request i c)\<lparr>ws_chans := (ws_chans c)(ch := None)\<rparr>"
  have same: "ws_chans ?d = ws_chans c" by (simp add: drop_request_def)
  have "calls_ok ?e"
  proof (rule calls_okI)
    show "distinct (map fst (ws_calls ?e))" "distinct (map snd (ws_calls ?e))" using calls_okD(2,3) [OF d] by simp_all
    show "k < ws_next ?e" if "k \<in> snd ` set (ws_calls ?e)" for k using that calls_okD(4) [OF d, of k] by simp
    show "(i', k) \<in> set (ws_calls ?e) \<and> ws_chans ?e k = None" if "ws_pending ?e i' = Some k" for i' k
      using that calls_okD(5) [OF d, of i' k] same by simp
    show "wr_id resp = i'" if "(i', k) \<in> set (ws_calls ?e)" "ws_chans ?e k = Some resp" for i' k resp
      using that calls_okD(6) [OF d, of i' k resp] same by (simp split: if_splits)
    show "ws_pending ?e i' = Some k" if "(i', k) \<in> set (ws_calls ?e)" "ws_chans ?e k = None" for i' k
      using that calls_okD(7) [OF d, of i' k] same other [of i' k] by simp
  qed
  then show ?thesis unfolding e .
qed

lemma calls_ok_made: "calls_ok c \<Longrightarrow> i \<notin> fst ` set (ws_calls c) \<Longrightarrow>
    calls_ok (c\<lparr>ws_next := ws_next c + 1, ws_pending := (ws_pending c)(i \<mapsto> ws_next c),
      ws_chans := (ws_chans c)(ws_next c := None), ws_calls := ws_calls c @ [(i, ws_next c)]\<rparr>)"
  (is "calls_ok c \<Longrightarrow> _ \<Longrightarrow> calls_ok ?d")
proof (rule calls_okI)
  assume c: "calls_ok c" and i: "i \<notin> fst ` set (ws_calls c)"
  have new: "ws_next c \<notin> snd ` set (ws_calls c)" using calls_okD(4) [OF c, of "ws_next c"] by blast
  show "distinct (map fst (ws_calls ?d))" "distinct (map snd (ws_calls ?d))"
    using calls_okD(2,3) [OF c] i new by simp_all
  show "k < ws_next ?d" if "k \<in> snd ` set (ws_calls ?d)" for k
    using that calls_okD(4) [OF c, of k] by (auto simp: less_Suc_eq)
  show "(i', ch) \<in> set (ws_calls ?d) \<and> ws_chans ?d ch = None" if "ws_pending ?d i' = Some ch" for i' ch
    using that calls_okD(5) [OF c, of i' ch] by (auto split: if_splits)
  show "wr_id resp = i'" if "(i', ch) \<in> set (ws_calls ?d)" "ws_chans ?d ch = Some resp" for i' ch resp
    using that calls_okD(6) [OF c, of i' ch resp] by (auto split: if_splits)
  show "ws_pending ?d i' = Some ch" if "(i', ch) \<in> set (ws_calls ?d)" "ws_chans ?d ch = None" for i' ch
    using that calls_okD(7) [OF c, of i' ch] i new by (force split: if_splits)
qed

lemma request_start_ok:
  assumes "calls_ok c" "i \<notin> fst ` set (ws_calls c)" "request_start j i methd params ok c = (r, d)"
  shows "calls_ok d \<and> same_conns c d"
proof -
  let ?m = "c\<lparr>ws_next := ws_next c + 1, ws_pending := (ws_pending c)(i \<mapsto> ws_next c),
      ws_chans := (ws_chans c)(ws_next c := None), ws_calls := ws_calls c @ [(i, ws_next c)]\<rparr>"
  have made: "calls_ok ?m" using calls_ok_made assms(1,2) by blast
  have "drop_request i (c\<lparr>ws_next := ws_next c + 1, ws_pending := (ws_pending c)(i \<mapsto> ws_next c),
      ws_chans := (ws_chans c)(ws_next c := None)\<rparr>) = drop_request i ?m"
    by (simp add: drop_request_def)
  then have "same_calls (drop_request i ?m) d \<or> same_calls ?m d"
    using assms(3) by (auto simp: request_start_def Let_def same_calls_def split: option.splits if_splits)
  then have "calls_ok d" using calls_ok_drop [OF made] made calls_ok_same by blast
  moreover have "same_conns c d"
    using assms(3) by (auto simp: request_start_def Let_def same_conns_def drop_request_def split: option.splits if_splits)
  ultimately show ?thesis by simp
qed

lemma request_end_cases:
  assumes "request_end i ch wake c = Some (r, d)"
  shows "d = drop_request i c \<or> d = drop_request i (c\<lparr>ws_chans := (ws_chans c)(ch := None)\<rparr>)"
  using assms by (cases wake) (simp_all add: request_end_def split: option.splits)

lemma request_end_ok:
  assumes "calls_ok c" "(i, ch) \<in> set (ws_calls c)" "request_end i ch wake c = Some (r, d)"
  shows "calls_ok d \<and> same_conns c d"
proof -
  have "same_conns c (drop_request i c)" "same_conns c (drop_request i (c\<lparr>ws_chans := (ws_chans c)(ch := None)\<rparr>))"
    by (simp_all add: same_conns_def drop_request_def)
  from request_end_cases [OF assms(3)] this calls_ok_drop [OF assms(1), of i] calls_ok_taken [OF assms(1,2)]
  show ?thesis by (elim disjE) simp_all
qed

lemma ws_step_ok: "ws_step j c d \<Longrightarrow> conns_ok c \<and> calls_ok c \<Longrightarrow> conns_ok d \<and> calls_ok d"
proof (induction rule: ws_step.induct)
  case (Dial c parsed r c')
  have "same_calls c c'" using Dial(2) by (auto simp: connect_start_def same_calls_def split: if_splits option.splits)
  then show ?case using Dial conns_ok_connect(1) calls_ok_same by (metis snd_conv)
next
  case (Dialled c ok r c')
  have "same_calls c c'" using Dialled(2) by (auto simp: connect_end_def same_calls_def Let_def split: if_splits)
  then show ?case using Dialled conns_ok_connect(2) calls_ok_same by (metis snd_conv)
next
  case (Read conn c r c')
  show ?case
  proof (cases r)
    case None
    then have "c' = read_end conn c" using Read(2) by (simp add: readLoop_def)
    moreover have "same_calls c (read_end conn c)" by (simp add: read_end_def same_calls_def Let_def)
    ultimately show ?thesis using Read conns_ok_read_end calls_ok_same by blast
  next
    case (Some data)
    then show ?thesis using Read message_ok [of c j data] conns_ok_same by (metis option.inject option.simps(5) readLoop_def)
  qed
next
  case (Request i c methd params ok r c')
  then show ?case using request_start_ok conns_ok_same by blast
next
  case (Woken i ch c wake r c')
  then show ?case using request_end_ok conns_ok_same by blast
next
  case (Closing c)
  have "same_calls c (WSClose c)" by (simp add: WSClose_def same_calls_def)
  then show ?case using Closing conns_ok_close calls_ok_same by blast
next
  case (OnSignal c)
  have "same_calls c (SetOnSignal c)" "same_conns c (SetOnSignal c)" by (simp_all add: SetOnSignal_def same_calls_def same_conns_def)
  then show ?case using OnSignal conns_ok_same calls_ok_same by blast
next
  case (OnDisconnect c)
  have "same_calls c (SetOnDisconnect c)" "same_conns c (SetOnDisconnect c)"
    by (simp_all add: SetOnDisconnect_def same_calls_def same_conns_def)
  then show ?case using OnDisconnect conns_ok_same calls_ok_same by blast
qed

lemma ws_reachable_ok: "ws_reachable j base local c \<Longrightarrow> conns_ok c \<and> calls_ok c"
  unfolding ws_reachable_def
proof (induction rule: rtranclp_induct)
  case base
  show ?case by (simp add: NewWSClient_def conns_ok_def calls_ok_def)
next
  case (step c d)
  then show ?case using ws_step_ok by blast
qed

text \<open>
  C32. However dials, readers, requests and the shutdown interleave: a reader never blocks while it
  hands a response over, and at most one connection is open, the current one; every other was
  closed. No two waiting calls share an id or a channel. A call waits either registered as pending
  under its id with its own channel, which is then empty, or with the response to its id, and no
  other, in its channel; nothing else is pending.
\<close>

theorem socket_invariant:
  assumes "ws_reachable j base local c"
  shows "handleMessage j data c \<noteq> None \<and> ws_reading c - set (ws_shut c) = set_option (ws_conn c)
     \<and> (ws_cancelled c \<longrightarrow> ws_reading c \<subseteq> set (ws_shut c))
     \<and> distinct (map fst (ws_calls c)) \<and> distinct (map snd (ws_calls c))
     \<and> (\<forall>i ch. (i, ch) \<in> set (ws_calls c) \<longrightarrow>
          (case ws_chans c ch of None \<Rightarrow> ws_pending c i = Some ch
           | Some resp \<Rightarrow> wr_id resp = i \<and> ws_pending c i = None))
     \<and> (\<forall>i ch. ws_pending c i = Some ch \<longrightarrow> (i, ch) \<in> set (ws_calls c))"
proof -
  have c: "conns_ok c" "calls_ok c" using ws_reachable_ok [OF assms] by simp_all
  obtain d where d: "handleMessage j data c = Some d" by (rule message_ok [OF c(2)])
  have "ws_pending c i = None" if call: "(i, ch) \<in> set (ws_calls c)" and "ws_chans c ch = Some resp" for i ch resp
  proof (rule ccontr)
    assume "ws_pending c i \<noteq> None"
    then obtain k where "ws_pending c i = Some k" by blast
    then have k: "(i, k) \<in> set (ws_calls c)" "ws_chans c k = None" using calls_okD(5) [OF c(2)] by blast+
    then have "k = ch" using call calls_okD(2) [OF c(2)] by (meson eq_key_imp_eq_value)
    then show False using k(2) that(2) by simp
  qed
  then have "\<forall>i ch. (i, ch) \<in> set (ws_calls c) \<longrightarrow>
      (case ws_chans c ch of None \<Rightarrow> ws_pending c i = Some ch | Some resp \<Rightarrow> wr_id resp = i \<and> ws_pending c i = None)"
    using calls_okD(6,7) [OF c(2)] by (simp split: option.split)
  then show ?thesis using c(1) d calls_okD(2,3,5) [OF c(2)] by (auto simp: conns_ok_def)
qed

section \<open>A request and its response\<close>

lemma read_all_ok:
  assumes "calls_ok c" "(i, ch) \<in> set (ws_calls c)" "ws_pending c i = (if ws_chans c ch = None then Some ch else None)"
  shows "\<exists>d. read_all j come c = Some d \<and>
    ws_chans d ch = (case ws_chans c ch of Some r \<Rightarrow> Some r
       | None \<Rightarrow> find (\<lambda>r. wr_id r = i) (List.map_filter (answer_of j) come))"
  using assms
proof (induction come arbitrary: c)
  case (Cons data come)
  show ?case
  proof (cases "answer_of j data")
    case None
    then obtain d where d: "handleMessage j data c = Some d" "same_calls c d" using handleMessage_other by blast
    have "calls_ok d" using calls_ok_same [OF Cons.prems(1) d(2)] .
    then show ?thesis using Cons.IH [of d] Cons.prems d None
      by (auto simp: same_calls_def map_filter_simps split: option.split)
  next
    case (Some resp)
    obtain d where d: "dispatch resp c = Some d" "calls_ok d" "ws_calls d = ws_calls c"
      "ws_chans d = (case ws_pending c (wr_id resp) of None \<Rightarrow> ws_chans c | Some k \<Rightarrow> (ws_chans c)(k \<mapsto> resp))"
      "ws_pending d = (ws_pending c)(wr_id resp := None)"
      by (rule dispatch_ok [OF Cons.prems(1), of resp]) blast
    have other: "ws_chans d ch = (if wr_id resp = i \<and> ws_chans c ch = None then Some resp else ws_chans c ch)"
    proof (cases "ws_pending c (wr_id resp)")
      case (Some k)
      have "wr_id resp = i \<Longrightarrow> k = ch" using Some Cons.prems(3) by (simp split: if_splits)
      moreover have "k = ch \<Longrightarrow> wr_id resp = i"
        using inj_onD [OF calls_okD(1) [OF Cons.prems(1)], of "(wr_id resp, k)" "(i, ch)"] calls_okD(5) [OF Cons.prems(1) Some]
          Cons.prems(2) by simp
      ultimately have "k = ch \<longleftrightarrow> wr_id resp = i" by blast
      then show ?thesis using d(4) Some Cons.prems(3) by (auto split: if_splits)
    qed (use d(4) Cons.prems(3) in \<open>auto split: if_splits\<close>)
    have "ws_pending d i = (if ws_chans d ch = None then Some ch else None)"
      using Cons.prems(3) other d(5) by (auto split: if_splits)
    moreover have "(i, ch) \<in> set (ws_calls d)" using Cons.prems(2) d(3) by simp
    ultimately obtain e where e: "read_all j come d = Some e" "ws_chans e ch = (case ws_chans d ch of Some r \<Rightarrow> Some r
        | None \<Rightarrow> find (\<lambda>r. wr_id r = i) (List.map_filter (answer_of j) come))"
      using Cons.IH [OF d(2)] by blast
    have "read_all j (data # come) c = Some e" using d(1) e(1) handleMessage_answer [OF Some, of c] by simp
    moreover have "List.map_filter (answer_of j) (data # come) = resp # List.map_filter (answer_of j) come"
      using Some by (simp add: map_filter_simps)
    ultimately show ?thesis using e(2) other by (auto split: option.split)
  qed
qed (simp add: map_filter_simps split: option.split)

text \<open>
  C33. A request ends with the first response that carries its id, whatever else is read while it
  waits - signals, responses to other requests, responses to requests long over - and only if
  there is none, or \<open>select\<close> picked the other end at the same moment, with the timeout or the
  cancellation; afterwards nothing waits for the id.
\<close>

theorem request_gets_its_response:
  assumes "ws_reachable j base local c" "ws_connected c" "i \<notin> fst ` set (ws_calls c)" "late \<noteq> Response"
  shows "\<exists>d. sendRequest j i methd params True come race late c = Some
      (case (if race then None else find (\<lambda>r. wr_id r = i) (List.map_filter (answer_of j) come)) of
         Some resp \<Rightarrow> if wr_error resp = [] then Ret (wr_result resp) else Err (''rpc error: '' @ wr_error resp)
       | None \<Rightarrow> Err (if late = Cancelled then ''context canceled'' else ''rpc timeout''), d)
     \<and> ws_pending d i = None"
proof -
  have c: "conns_ok c" "calls_ok c" using ws_reachable_ok [OF assms(1)] by simp_all
  obtain conn where conn: "ws_conn c = Some conn" using c(1) assms(2) by (auto simp: conns_ok_def)
  obtain c1 where c1: "request_start j i methd params True c = (Ret (), c1)" "ws_calls c1 = ws_calls c @ [(i, ws_next c)]"
    "ws_pending c1 i = Some (ws_next c)" "ws_chans c1 (ws_next c) = None"
    using conn assms(2) by (simp add: request_start_def Let_def)
  have ok1: "calls_ok c1" using request_start_ok [OF c(2) assms(3) c1(1)] by simp
  let ?first = "find (\<lambda>r. wr_id r = i) (List.map_filter (answer_of j) come)"
  obtain c2 where c2: "read_all j come c1 = Some c2" "ws_chans c2 (ws_next c) = ?first"
    using read_all_ok [OF ok1, of i "ws_next c" j come] c1 by auto
  show ?thesis
  proof (cases "if race then None else ?first")
    case None
    have "sendRequest j i methd params True come race late c = request_end i (ws_next c) late c2"
      using c1(1) c2 None by (cases race) (simp_all add: sendRequest_def request_end_def)
    then show ?thesis using None assms(4) by (cases late) (simp_all add: request_end_def drop_request_def)
  next
    case (Some resp)
    then have "\<not> race" "?first = Some resp" by (simp_all split: if_splits)
    then show ?thesis using c1(1) c2 by (simp add: sendRequest_def request_end_def drop_request_def)
  qed
qed

section \<open>A concrete exchange\<close>

text \<open>Frames of one byte for signals and of two for responses, with the id in the first.\<close>

definition toy_frames :: frames where
  "toy_frames = \<lparr>fr_notification = (\<lambda>b. if length b = 1 then Some (''incoming_signal'', b) else None),
     fr_response = (\<lambda>b. if length b = 2 then Some \<lparr>wr_id = string_of [hd b], wr_result = tl b, wr_error = []\<rparr> else None),
     fr_signal = (\<lambda>b. Some \<lparr>sg_from = string_of b, sg_type = ''offer'', sg_data = []\<rparr>),
     fr_request = (\<lambda>i m p. p), fr_relay = (\<lambda>a b c d. []), fr_connect = (\<lambda>a b. [])\<rparr>"

definition toy_socket :: WSClient where
  "toy_socket = snd (connect_end True (snd (connect_start
     (Some \<lparr>u_scheme = ''https'', u_host = ''m'', u_path = [], u_query = []\<rparr>) (NewWSClient ''https://m'' ''a''))))"

lemma toy_socket_reachable: "ws_reachable toy_frames ''https://m'' ''a'' toy_socket"
proof -
  let ?u = "Some \<lparr>u_scheme = ''https'', u_host = ''m'', u_path = [], u_query = []\<rparr>"
  let ?d = "snd (connect_start ?u (NewWSClient ''https://m'' ''a''))"
  have "ws_step toy_frames (NewWSClient ''https://m'' ''a'') ?d"
    by (rule ws_step.Dial [OF _ surjective_pairing]) (simp add: NewWSClient_def)
  moreover have "ws_step toy_frames ?d toy_socket"
    unfolding toy_socket_def by (rule ws_step.Dialled [OF _ surjective_pairing]) (simp add: connect_start_def NewWSClient_def)
  ultimately show ?thesis unfolding ws_reachable_def by (meson converse_rtranclp_into_rtranclp rtranclp.rtrancl_refl)
qed

lemma socket_invariant_witness: "ws_reading toy_socket - set (ws_shut toy_socket) = {0}"
  using socket_invariant [OF toy_socket_reachable]
  by (simp add: toy_socket_def connect_end_def connect_start_def NewWSClient_def Let_def)

lemma request_gets_its_response_witness:
  "\<exists>d. sendRequest toy_frames ''7'' ''signal_relay'' [] True [[65], [56, 1], [55, 2], [55, 3]] False TimedOut toy_socket = Some (Ret [2], d)"
proof -
  have "find (\<lambda>r. wr_id r = ''7'') (List.map_filter (answer_of toy_frames) [[65], [56, 1], [55, 2], [55, 3]])
      = Some \<lparr>wr_id = ''7'', wr_result = [2], wr_error = []\<rparr>"
    by code_simp
  then show ?thesis
    using request_gets_its_response [OF toy_socket_reachable, where i = "''7''" and race = False and late = TimedOut and methd = "''signal_relay''"
        and params = "[]" and come = "[[65], [56, 1], [55, 2], [55, 3]]"]
    by (auto simp: toy_socket_def connect_end_def connect_start_def NewWSClient_def Let_def)
qed

end
