(* ===== verification/StartupSafety.thy ===== *)
theory StartupSafety
  imports Startup WireCodec
begin

text \<open>
  What is shown of the start of a messenger: the keys it runs with are the saved ones, and what a
  restart on the same database keeps of the messenger.
\<close>

section \<open>A restart\<close>

definition saved :: "tables \<Rightarrow> string \<Rightarrow> string" where
  "saved t name = (case config_value t name of None \<Rightarrow> [] | Some v \<Rightarrow> v)"

lemma LoadAppConfig_value:
  assumes "db_faults d = []" "LoadAppConfig d = (Ret cfg, d')"
  shows "d' = d \<and> cfg_username cfg = saved (db_tables d) ''username''
    \<and> cfg_peer_id cfg = saved (db_tables d) ''peer_id''"
proof -
  have "d' = d" "cfg = fold (\<lambda>(n, g, s) c. case config_value (db_tables d) n of None \<Rightarrow> c | Some v \<Rightarrow> s v c) config_fields empty_config"
    using assms by (auto simp: LoadAppConfig_def load_fields_ok split: if_splits)
  then show ?thesis by (simp add: config_fields_def empty_config_def set_field saved_def cong: option.case_cong)
qed

lemma LoadAppConfig_missing:
  "db_faults d = [] \<Longrightarrow> LoadAppConfig d = (r, d') \<Longrightarrow> d' = d \<and> ((\<exists>cfg. r = Ret cfg) \<or> (r = Err ErrConfigNotFound
    \<and> saved (db_tables d) ''username'' = [] \<and> saved (db_tables d) ''peer_id'' = []))"
proof -
  assume d: "db_faults d = []" "LoadAppConfig d = (r, d')"
  have "\<not> list_ex (\<lambda>(n, g, s). config_value (db_tables d) n \<noteq> None) config_fields \<Longrightarrow>
      saved (db_tables d) ''username'' = [] \<and> saved (db_tables d) ''peer_id'' = []"
    by (simp add: config_fields_def saved_def)
  then show ?thesis using d by (auto simp: LoadAppConfig_def load_fields_ok split: if_splits)
qed

lemma SaveAppConfig_value:
  assumes "db_faults d = []" "d' = snd (SaveAppConfig cfg d)"
  shows "db_faults d' = [] \<and> config_value (db_tables d') ''crypto_keys'' = config_value (db_tables d) ''crypto_keys''
    \<and> saved (db_tables d') ''username'' = (if cfg_username cfg \<noteq> [] then cfg_username cfg else saved (db_tables d) ''username'')
    \<and> saved (db_tables d') ''peer_id'' = (if cfg_peer_id cfg \<noteq> [] then cfg_peer_id cfg else saved (db_tables d) ''peer_id'')"
proof -
  have "distinct (map fst config_fields)" by (simp add: config_fields_def)
  from save_fields_ok [OF assms(1) this, of cfg] obtain t where
    "SaveAppConfig cfg d = (Ret (), d\<lparr>db_tables := t\<rparr>)"
    and "\<forall>m. config_value t m = (case map_of config_fields m of
          Some (g, s) \<Rightarrow> if g cfg \<noteq> [] then Some (g cfg) else config_value (db_tables d) m
        | None \<Rightarrow> config_value (db_tables d) m)"
    unfolding SaveAppConfig_def by blast
  then show ?thesis using assms by (simp add: config_fields_def saved_def)
qed

text \<open>Without files of old versions nothing is imported.\<close>

lemma ImportLegacyFiles_none: "db_faults d = [] \<Longrightarrow> snd (ImportLegacyFiles legacy (\<lambda>_. None) d) = d"
  by (auto simp: ImportLegacyFiles_def db_then_def import_keys_def import_config_def GetConfigValue_ok
      dest: LoadAppConfig_missing split: option.splits go.splits prod.splits)

lemma load_or_make_keys_saved:
  assumes "db_faults d = []" "\<forall>kf. dec_keys c (enc_keys c kf) = Some kf" "load_or_make_keys c L net d = (Ret keys, d')"
  shows "db_faults d' = [] \<and> (\<exists>s. config_value (db_tables d') ''crypto_keys'' = Some s \<and> ParseKeyFile (dec_keys c) (bytes_of s) = Ret keys)
    \<and> (\<forall>n. n \<noteq> ''crypto_keys'' \<longrightarrow> config_value (db_tables d') n = config_value (db_tables d) n)"
proof (cases "config_value (db_tables d) ''crypto_keys''")
  case None
  let ?s = "string_of (FormatKeyFile (enc_keys c) keys)"
  have "d' = snd (SaveKeysJSON ?s d)"
    using assms(1,3) None
    by (auto simp: load_or_make_keys_def GetKeysJSON_def GetConfigValue_ok Let_def split: go.splits)
  then have "d' = d\<lparr>db_tables := (db_tables d)\<lparr>t_config := tbl_upsert fst (\<lambda>old new. new) (''crypto_keys'', ?s) (t_config (db_tables d))\<rparr>\<rparr>"
    using assms(1) by (simp add: SaveKeysJSON_def SetConfigValue_def sql_write_ok)
  then show ?thesis using assms(1) ParseKeyFile_FormatKeyFile [OF assms(2), of keys] by (simp add: config_value_upsert)
next
  case (Some s)
  then have "d' = d" "ParseKeyFile (dec_keys c) (bytes_of s) = Ret keys"
    using assms(1,3) by (auto simp: load_or_make_keys_def GetKeysJSON_def GetConfigValue_ok split: go.splits)
  then show ?thesis using assms(1) Some by simp
qed

lemma load_or_make_keys_stored:
  assumes "db_faults d = []" "config_value (db_tables d) ''crypto_keys'' = Some s" "ParseKeyFile (dec_keys c) (bytes_of s) = Ret keys"
  shows "load_or_make_keys c L net d = (Ret keys, d)"
  using assms by (simp add: load_or_make_keys_def GetKeysJSON_def GetConfigValue_ok)

lemma load_peer_same:
  "ms_id (fold (load_peer net) ps m) = ms_id m" "ms_user (fold (load_peer net) ps m) = ms_user m"
  "ms_key (fold (load_peer net) ps m) = ms_key m" "ms_keys (fold (load_peer net) ps m) = ms_keys m"
  "ms_store (fold (load_peer net) ps m) = ms_store m"
  by (induction ps arbitrary: m) (simp_all add: load_peer_def Let_def)

lemma load_peers_same:
  "ms_id (load_peers net m) = ms_id m" "ms_user (load_peers net m) = ms_user m" "ms_key (load_peers net m) = ms_key m"
  "ms_keys (load_peers net m) = ms_keys m" "db_faults (ms_store m) = [] \<Longrightarrow> ms_store (load_peers net m) = ms_store m"
  by (auto simp: load_peers_def store_def GetStoredPeers_def sql_read_ok load_peer_same split: go.splits prod.splits)

lemma settle_config_value:
  assumes "db_faults d = []" "settle_config user path d = (cfg, d')"
  shows "d' = d \<and> cfg_peer_id cfg = saved (db_tables d) ''peer_id''
    \<and> cfg_username cfg = (if saved (db_tables d) ''username'' = [] then user else saved (db_tables d) ''username'')"
proof -
  obtain r d1 where load: "LoadAppConfig d = (r, d1)" by fastforce
  show ?thesis
  proof (cases r)
    case (Ret stored)
    then show ?thesis using assms load LoadAppConfig_value [OF assms(1)] by (auto simp: settle_config_def)
  next
    case (Err e)
    then show ?thesis using assms load LoadAppConfig_missing [OF assms(1) load]
      by (auto simp: settle_config_def empty_config_def split: if_splits)
  qed (use LoadAppConfig_missing [OF assms(1) load] in simp)
qed

lemma New_RetD:
  assumes "db_faults d = []" "\<forall>kf. dec_keys c (enc_keys c kf) = Some kf" "user \<noteq> []"
    and "New c L net legacy (\<lambda>_. None) True user client path (Ret d) opts = Ret m"
  shows "db_faults (ms_store m) = []"
    and "\<exists>s. config_value (db_tables (ms_store m)) ''crypto_keys'' = Some s \<and> ParseKeyFile (dec_keys c) (bytes_of s) = Ret (ms_keys m)"
    and "\<forall>s keys. config_value (db_tables d) ''crypto_keys'' = Some s \<and> ParseKeyFile (dec_keys c) (bytes_of s) = Ret keys \<longrightarrow> ms_keys m = keys"
    and "ms_user m = (if saved (db_tables d) ''username'' = [] then user else saved (db_tables d) ''username'')"
    and "saved (db_tables (ms_store m)) ''username'' = ms_user m"
    and "ms_id m = (if saved (db_tables d) ''peer_id'' = [] then n_uuid net 0 else saved (db_tables d) ''peer_id'')"
    and "saved (db_tables (ms_store m)) ''peer_id'' = saved (db_tables d) ''peer_id''"
    and "ms_key m = ms_user m @ '':'' @ EncodeKey (k_sign_public (ms_keys m))"
proof -
  obtain keys d1 where keys: "load_or_make_keys c L net d = (Ret keys, d1)"
    using assms(4) by (auto simp: New_def Let_def ImportLegacyFiles_none [OF assms(1)] split: go.splits prod.splits)
  obtain cfg d2 where cfg: "settle_config user path d1 = (cfg, d2)" by fastforce
  let ?cfg = "with_defaults (cfg\<lparr>cfg_muninn := (case client of None \<Rightarrow> cfg_muninn cfg | Some addr \<Rightarrow> addr)\<rparr>)"
  let ?id = "if cfg_peer_id ?cfg = [] then n_uuid net 0 else cfg_peer_id ?cfg"
  let ?m = "new_messenger ?id (cfg_username ?cfg) keys (snd (SaveAppConfig ?cfg d2)) ?cfg (mo_flag (fold (\<lambda>f. f) opts no_opts))"
  have m: "m = snd (trySubmit ResumeDownloads (load_peers net ?m))"
    using assms(4) keys cfg by (auto simp: New_def Let_def ImportLegacyFiles_none [OF assms(1)] split: if_splits)
  note made = load_or_make_keys_saved [OF assms(1,2) keys]
  have same: "saved (db_tables d1) n = saved (db_tables d) n" if "n \<noteq> ''crypto_keys''" for n using made that by (simp add: saved_def)
  have fields: "cfg_username ?cfg = cfg_username cfg" "cfg_peer_id ?cfg = cfg_peer_id cfg" by (simp_all add: with_defaults_def Let_def)
  have d2: "d2 = d1" and c: "cfg_peer_id cfg = saved (db_tables d) ''peer_id''"
    "cfg_username cfg = (if saved (db_tables d) ''username'' = [] then user else saved (db_tables d) ''username'')"
    using settle_config_value [OF _ cfg] made same by simp_all
  have d3: "db_faults (ms_store ?m) = []" and v: "ms_store m = ms_store ?m"
    using SaveAppConfig_value [of d2 _ ?cfg] made d2
    by (simp_all add: m new_messenger_def Let_def trySubmit_def load_peers_same)
  note val = SaveAppConfig_value [of d2 _ ?cfg, OF _ refl]
  show "db_faults (ms_store m) = []" using d3 v by simp
  have k: "ms_keys m = keys" by (simp add: m trySubmit_def load_peers_same new_messenger_def Let_def)
  show "\<exists>s. config_value (db_tables (ms_store m)) ''crypto_keys'' = Some s \<and> ParseKeyFile (dec_keys c) (bytes_of s) = Ret (ms_keys m)"
    using made val d2 v k by (simp add: new_messenger_def Let_def)
  show "\<forall>s keys. config_value (db_tables d) ''crypto_keys'' = Some s \<and> ParseKeyFile (dec_keys c) (bytes_of s) = Ret keys \<longrightarrow> ms_keys m = keys"
    using keys k load_or_make_keys_stored [OF assms(1)] by auto
  have u: "ms_user m = cfg_username cfg"
    using c(2) assms(3) by (simp add: m trySubmit_def load_peers_same new_messenger_def Let_def fields)
  then show "ms_user m = (if saved (db_tables d) ''username'' = [] then user else saved (db_tables d) ''username'')" using c by simp
  show "saved (db_tables (ms_store m)) ''username'' = ms_user m"
    using val made d2 v u c assms(3) fields by (simp add: new_messenger_def Let_def)
  show "ms_id m = (if saved (db_tables d) ''peer_id'' = [] then n_uuid net 0 else saved (db_tables d) ''peer_id'')"
    using c by (simp add: m trySubmit_def load_peers_same new_messenger_def Let_def fields)
  show "saved (db_tables (ms_store m)) ''peer_id'' = saved (db_tables d) ''peer_id''"
    using val made d2 v c fields same by (simp add: new_messenger_def Let_def)
  show "ms_key m = ms_user m @ '':'' @ EncodeKey (k_sign_public (ms_keys m))"
    by (simp add: m trySubmit_def load_peers_same new_messenger_def Let_def)
qed

text \<open>
  C34. Starting again on the same database keeps the keys, the user name and with them the key under
  which the messenger is known. The id of the device is another matter: it is made before the
  configuration it is put into is saved, so that unless a configuration with an id was saved
  otherwise each start is a new device; and the option \<open>WithPeerID\<close> has no effect on it.
\<close>

theorem restart_keeps_keys_not_id:
  assumes "db_faults d = []" "\<forall>kf. dec_keys c (enc_keys c kf) = Some kf" "user \<noteq> []"
    and "New c L net1 legacy (\<lambda>_. None) True user client path (Ret d) opts1 = Ret m1"
    and "New c L net2 legacy (\<lambda>_. None) True user client path (Ret (ms_store m1)) opts2 = Ret m2"
  shows "ms_keys m2 = ms_keys m1 \<and> ms_user m2 = ms_user m1 \<and> ms_key m2 = ms_key m1
     \<and> ms_id m2 = (if saved (db_tables d) ''peer_id'' = [] then n_uuid net2 0 else saved (db_tables d) ''peer_id'')"
proof -
  note one = New_RetD [OF assms(1-4)]
  note two = New_RetD [OF one(1) assms(2,3,5)]
  have "ms_keys m2 = ms_keys m1" using one(2) two(3) by blast
  moreover have "ms_user m1 \<noteq> []" using one(4) assms(3) by simp
  ultimately show ?thesis using one(5,7,8) two(4,6,8) by simp
qed


section \<open>A first start\<close>

lemma load_or_make_keys_runs:
  assumes "db_faults d = []" "config_value (db_tables d) ''crypto_keys'' = None"
    and "GenerateSigningKey L (n_random net 0 0) = Ret sk" "GenerateEncryptionKey L (n_random net 0 1) = Ret ek"
  shows "\<exists>keys d'. load_or_make_keys c L net d = (Ret keys, d')"
  using assms by (cases sk; cases ek) (simp add: load_or_make_keys_def GetKeysJSON_def GetConfigValue_ok Let_def)

lemma New_runs:
  assumes "db_faults d = []" "load_or_make_keys c L net d = (Ret keys, d')"
  shows "\<exists>m. New c L net legacy (\<lambda>_. None) True user (Some addr) path (Ret d) opts = Ret m"
  using assms by (cases "settle_config user path d'") (simp add: New_def Let_def ImportLegacyFiles_none)

definition key_codec :: codec where
  "key_codec = wire_codec\<lparr>
     enc_keys := (\<lambda>k. put_strs [kf_sign_public k, kf_sign_private k, kf_enc_private k, kf_enc_public k]),
     dec_keys := (\<lambda>b. map_option (\<lambda>(ss, r). \<lparr>kf_sign_public = ss ! 0, kf_sign_private = ss ! 1, kf_enc_private = ss ! 2,
        kf_enc_public = ss ! 3\<rparr>) (get_strs 4 b))\<rparr>"

lemma key_codec_keys: "dec_keys key_codec (enc_keys key_codec kf) = Some kf"
  using get_strs_put [of "[kf_sign_public kf, kf_sign_private kf, kf_enc_private kf, kf_enc_public kf]" 4 "[]"]
  by (simp add: key_codec_def)

definition other_net :: net where
  "other_net = sample_net\<lparr>n_uuid := (\<lambda>_. ''other'')\<rparr>"

definition empty_db :: db where
  "empty_db = \<lparr>db_tables = no_tables, db_faults = []\<rparr>"

lemma restart_keeps_keys_not_id_witness:
  "\<exists>m1 m2. New key_codec toy_lib sample_net (\<lambda>_. None) (\<lambda>_. None) True ''ann'' (Some ''http://m'') ''/h/db'' (Ret empty_db) [WithPeerID ''me''] = Ret m1
     \<and> New key_codec toy_lib other_net (\<lambda>_. None) (\<lambda>_. None) True ''ann'' (Some ''http://m'') ''/h/db'' (Ret (ms_store m1)) [WithPeerID ''me''] = Ret m2
     \<and> ms_key m2 = ms_key m1 \<and> ms_id m1 = ''uuid'' \<and> ms_id m2 = ''other''"
proof -
  let ?start = "\<lambda>net d. New key_codec toy_lib net (\<lambda>_. None) (\<lambda>_. None) True ''ann'' (Some ''http://m'') ''/h/db'' (Ret d) [WithPeerID ''me'']"
  have new: "db_faults empty_db = []" "config_value (db_tables empty_db) n = None" for n
    by (simp_all add: empty_db_def no_tables_def config_value_def)
  have sk: "GenerateSigningKey toy_lib (n_random sample_net 0 0) = Ret (replicate 32 1, replicate 32 1 @ replicate 32 1)"
    by (simp add: GenerateSigningKey_def toy_lib_def sample_net_def read_full_def)
  have ek: "\<exists>ek. GenerateEncryptionKey toy_lib (n_random sample_net 0 1) = Ret ek"
    by (simp add: GenerateEncryptionKey_def toy_lib_def sample_net_def read_full_def Let_def)
  obtain keys d' where made: "load_or_make_keys key_codec toy_lib sample_net empty_db = (Ret keys, d')"
    using ek load_or_make_keys_runs [OF new(1) new(2) sk] by blast
  obtain m1 where m1: "?start sample_net empty_db = Ret m1"
    using New_runs [OF new(1) made] by blast
  note one = New_RetD [OF new(1) allI [OF key_codec_keys] _ m1, simplified]
  obtain s where s: "config_value (db_tables (ms_store m1)) ''crypto_keys'' = Some s"
    "ParseKeyFile (dec_keys key_codec) (bytes_of s) = Ret (ms_keys m1)" using one(2) by blast
  obtain m2 where m2: "?start other_net (ms_store m1) = Ret m2"
    using New_runs [OF one(1) load_or_make_keys_stored [OF one(1) s]] by blast
  show ?thesis
    using m1 m2 restart_keeps_keys_not_id [OF new(1) allI [OF key_codec_keys] _ m1 m2] one(6) new(2)
    by (auto simp: saved_def sample_net_def other_net_def)
qed

end
