(* ===== verification/Bridge.thy ===== *)
theory Bridge
  imports StartupSafety
begin

text \<open>
  The C interface of \<open>bridge.go\<close>: messengers behind integer handles. Each exported function looks
  its handle up, calls the messenger and answers with JSON; here the answer is the value that is
  put into the JSON. The configuration of an instance and that of its messenger are one object
  (\<open>createMessenger\<close> hands its own over with \<open>SaveConfig\<close>), here \<open>ms_config\<close>.
\<close>

section \<open>Handles\<close>

datatype 'a answer = Failed string | Answer 'a | Crashed string

datatype pushed = PeersPushed "(Peer \<times> bool) list" | MessagePushed ChatMessage | FilePushed FileReadyEvent

record messenger_instance =
  in_m :: Messenger
  in_events :: "pushed list"
  in_done :: bool

record bridge =
  br_instances :: "int \<Rightarrow> messenger_instance option"
  br_next :: int

definition no_bridge :: bridge where
  "no_bridge = \<lparr>br_instances = (\<lambda>_. None), br_next = 1\<rparr>"

definition getInstance :: "int \<Rightarrow> bridge \<Rightarrow> messenger_instance option" where
  "getInstance handle b = br_instances b handle"

definition storeInstance :: "messenger_instance \<Rightarrow> bridge \<Rightarrow> int \<times> bridge" where
  "storeInstance inst b =
     (br_next b, b\<lparr>br_instances := (br_instances b)(br_next b \<mapsto> inst), br_next := br_next b + 1\<rparr>)"

definition removeInstance :: "int \<Rightarrow> bridge \<Rightarrow> bridge" where
  "removeInstance handle b = b\<lparr>br_instances := (br_instances b)(handle := None)\<rparr>"

definition put_instance :: "int \<Rightarrow> messenger_instance \<Rightarrow> bridge \<Rightarrow> bridge" where
  "put_instance handle inst b = b\<lparr>br_instances := (br_instances b)(handle \<mapsto> inst)\<rparr>"

text \<open>What every exported function does around its call.\<close>

definition answer_of :: "'a go \<Rightarrow> 'a answer" where
  "answer_of r = (case r of Ret x \<Rightarrow> Answer x | Err e \<Rightarrow> Failed e | Panic e \<Rightarrow> Crashed e)"

definition ask :: "int \<Rightarrow> (Messenger \<Rightarrow> 'a go \<times> Messenger) \<Rightarrow> bridge \<Rightarrow> 'a answer \<times> bridge" where
  "ask handle f b =
     (case getInstance handle b of
        None \<Rightarrow> (Failed ''invalid handle'', b)
      | Some inst \<Rightarrow> (case f (in_m inst) of (r, m) \<Rightarrow> (answer_of r, put_instance handle (inst\<lparr>in_m := m\<rparr>) b)))"

section \<open>Creating and destroying\<close>

definition parsePeerFlag :: "string \<Rightarrow> string option" where
  "parsePeerFlag value =
     (if value = [] then Some ''thin''
      else if value \<in> {''thin'', ''thick'', ''very_thick''} then Some value else None)"

text \<open>The configuration that was passed, filled up and overridden from the one in use.\<close>

definition given_config :: "string \<Rightarrow> string \<Rightarrow> string \<Rightarrow> string \<Rightarrow> string \<Rightarrow> string \<Rightarrow> string \<Rightarrow> string \<Rightarrow> Config" where
  "given_config user muninn path ttl flag turnAddr turnUser turnPass =
     \<lparr>cfg_muninn = muninn, cfg_username = user, cfg_peer_id = [], cfg_db = path, cfg_ttl = ttl, cfg_flag = flag,
      cfg_turn_addr = turnAddr, cfg_turn_user = turnUser, cfg_turn_pass = turnPass\<rparr>"

definition take_stored :: "string \<Rightarrow> Config \<Rightarrow> Config \<Rightarrow> Config" where
  "take_stored requested storedCfg cfg = cfg\<lparr>
     cfg_username := (if cfg_username storedCfg \<noteq> [] then cfg_username storedCfg else cfg_username cfg),
     cfg_muninn := (if cfg_muninn storedCfg \<noteq> [] then cfg_muninn storedCfg else cfg_muninn cfg),
     cfg_ttl := (if cfg_ttl storedCfg \<noteq> [] then cfg_ttl storedCfg else cfg_ttl cfg),
     cfg_flag := (if cfg_flag storedCfg \<noteq> [] \<and> requested = [] then cfg_flag storedCfg else cfg_flag cfg),
     cfg_turn_addr := (if cfg_turn_addr storedCfg \<noteq> [] then cfg_turn_addr storedCfg else cfg_turn_addr cfg),
     cfg_turn_user := (if cfg_turn_user storedCfg \<noteq> [] then cfg_turn_user storedCfg else cfg_turn_user cfg),
     cfg_turn_pass := (if cfg_turn_pass storedCfg \<noteq> [] then cfg_turn_pass storedCfg else cfg_turn_pass cfg),
     cfg_peer_id := (if cfg_peer_id storedCfg \<noteq> [] then cfg_peer_id storedCfg else cfg_peer_id cfg)\<rparr>"

definition take_given :: "string \<Rightarrow> string \<Rightarrow> string \<Rightarrow> string \<Rightarrow> string \<Rightarrow> string \<Rightarrow> string \<Rightarrow> Config \<Rightarrow> Config" where
  "take_given requested flag path ttl turnAddr turnUser turnPass cfg =
     (let c1 = cfg\<lparr>cfg_db := path\<rparr>;
          c2 = (if turnAddr \<noteq> [] then c1\<lparr>cfg_turn_addr := turnAddr, cfg_turn_user := turnUser, cfg_turn_pass := turnPass\<rparr> else c1);
          c3 = (if ttl \<noteq> [] \<and> ttl \<noteq> ''1w'' then c2\<lparr>cfg_ttl := ttl\<rparr> else c2)
      in if requested \<noteq> [] then c3\<lparr>cfg_flag := flag\<rparr> else c3)"

text \<open>
  \<open>absPath\<close> is \<open>filepath.Abs\<close>, \<open>opened\<close> the store that is opened at a path. A negative number is the
  answer when there is no messenger. The registration is left to a goroutine.
\<close>

definition createMessenger ::
    "codec \<Rightarrow> crypto_lib \<Rightarrow> net \<Rightarrow> (bytes \<Rightarrow> Config option) \<Rightarrow> (string \<Rightarrow> bytes option) \<Rightarrow> bool \<Rightarrow> (string \<Rightarrow> string option)
     \<Rightarrow> (string \<Rightarrow> db go) \<Rightarrow> string \<Rightarrow> string \<Rightarrow> string \<Rightarrow> string \<Rightarrow> string \<Rightarrow> string \<Rightarrow> string \<Rightarrow> string \<Rightarrow> bridge
     \<Rightarrow> int answer \<times> bridge" where
  "createMessenger c L net legacy readFile mkdir absPath opened user muninn dbPath chunkTTL turnAddr turnUser turnPass requested b =
     (if user = [] then (Answer (-1), b)
      else let db1 = (if dbPath = [] then ''huginn.db'' else dbPath);
               ttl = (if chunkTTL = [] then ''1w'' else chunkTTL)
           in case parsePeerFlag requested of
                None \<Rightarrow> (Answer (-3), b)
              | Some flag \<Rightarrow>
                 (let path = (case absPath db1 of Some p \<Rightarrow> p | None \<Rightarrow> db1);
                      cfg = given_config user muninn path ttl flag turnAddr turnUser turnPass
                  in case New c L net legacy readFile mkdir user (if muninn = [] then None else Some muninn) path (opened path)
                            [WithPeerFlag flag, WithTURN turnAddr turnUser turnPass] of
                       Err e \<Rightarrow> (Answer (if e = ErrMuninnAddressRequired then -4 else -2), b)
                     | Panic e \<Rightarrow> (Crashed e, b)
                     | Ret m \<Rightarrow>
                        (let cfg1 = take_given requested flag path ttl turnAddr turnUser turnPass (take_stored requested (ms_config m) cfg);
                             m1 = snd (SaveConfig (Some cfg1) m)
                         in case storeInstance \<lparr>in_m = m1, in_events = [], in_done = False\<rparr> b of
                              (handle, b1) \<Rightarrow> (Answer handle, b1))))"

text \<open>\<open>messenger_destroy\<close> in the steps between which another call may run.\<close>

definition destroy_close :: "int \<Rightarrow> bridge \<Rightarrow> unit answer \<times> bridge" where
  "destroy_close handle b =
     (case getInstance handle b of
        None \<Rightarrow> (Answer (), b)
      | Some inst \<Rightarrow>
          if in_done inst then (Crashed ''close of closed channel'', b)
          else (Answer (), put_instance handle (inst\<lparr>in_done := True\<rparr>) b))"

definition destroy_shutdown :: "nat list \<Rightarrow> int \<Rightarrow> bridge \<Rightarrow> bridge" where
  "destroy_shutdown connections handle b =
     (case getInstance handle b of
        None \<Rightarrow> b
      | Some inst \<Rightarrow> removeInstance handle (put_instance handle (inst\<lparr>in_m := Shutdown connections (in_m inst)\<rparr>) b))"

definition messenger_destroy :: "nat list \<Rightarrow> int \<Rightarrow> bridge \<Rightarrow> unit answer \<times> bridge" where
  "messenger_destroy connections handle b =
     (case destroy_close handle b of
        (Answer _, b1) \<Rightarrow> (Answer (), destroy_shutdown connections handle b1)
      | (r, b1) \<Rightarrow> (r, b1))"

section \<open>The calls\<close>

definition messenger_get_me :: "int \<Rightarrow> bridge \<Rightarrow> (string \<times> string \<times> string) answer \<times> bridge" where
  "messenger_get_me handle = ask handle (\<lambda>m. (Ret (ms_id m, ms_user m, cfg_peer_id (ms_config m)), m))"

definition peersToJSON :: "int \<Rightarrow> Messenger \<Rightarrow> Peer list \<Rightarrow> (Peer \<times> bool) list" where
  "peersToJSON now m ps = map (\<lambda>p. (p, IsPeerOnline now m (peer_id p))) ps"

definition messenger_get_peers :: "net \<Rightarrow> int \<Rightarrow> bridge \<Rightarrow> (Peer \<times> bool) list answer \<times> bridge" where
  "messenger_get_peers net handle = ask handle (\<lambda>m. (Ret (peersToJSON (n_now net) m (GetPeers m)), m))"

definition messenger_search_peers :: "net \<Rightarrow> int \<Rightarrow> string \<Rightarrow> bridge \<Rightarrow> (Peer \<times> bool) list answer \<times> bridge" where
  "messenger_search_peers net handle query =
     ask handle (\<lambda>m. case SearchPeers net query m of (ps, m1) \<Rightarrow> (Ret (peersToJSON (n_now net) m1 ps), m1))"

definition messenger_get_messages :: "codec \<Rightarrow> int \<Rightarrow> string \<Rightarrow> bridge \<Rightarrow> ChatMessage list answer \<times> bridge" where
  "messenger_get_messages c handle peerID = ask handle (\<lambda>m. case MessengerGetMessages c peerID m of (r, m1) \<Rightarrow> (Ret r, m1))"

definition messenger_get_messages_paginated ::
    "codec \<Rightarrow> int \<Rightarrow> string \<Rightarrow> int \<Rightarrow> int \<Rightarrow> bridge \<Rightarrow> ChatMessage list answer \<times> bridge" where
  "messenger_get_messages_paginated c handle peerID limit offset =
     ask handle (\<lambda>m. case MessengerGetMessagesDesc c peerID limit offset m of (r, m1) \<Rightarrow> (Ret r, m1))"

definition ttl_or_default :: "int \<Rightarrow> Messenger \<Rightarrow> int" where
  "ttl_or_default ttl m = (if ttl \<le> 0 then ChunkTTLSeconds (cfg_ttl (ms_config m)) else ttl)"

definition messenger_send_message ::
    "codec \<Rightarrow> crypto_lib \<Rightarrow> net \<Rightarrow> int \<Rightarrow> string \<Rightarrow> string \<Rightarrow> int \<Rightarrow> bridge \<Rightarrow> unit answer \<times> bridge" where
  "messenger_send_message c L net handle to txt ttl =
     ask handle (\<lambda>m. SendMessage c L net to txt [] (ttl_or_default ttl m) m)"

definition messenger_send_file ::
    "codec \<Rightarrow> crypto_lib \<Rightarrow> net \<Rightarrow> int \<Rightarrow> string \<Rightarrow> string \<Rightarrow> string \<Rightarrow> int \<Rightarrow> bridge \<Rightarrow> unit answer \<times> bridge" where
  "messenger_send_file c L net handle to txt filePath ttl =
     ask handle (\<lambda>m. SendMessage c L net to txt [filePath] (ttl_or_default ttl m) m)"

text \<open>What is told of the configuration: all but the flag.\<close>

record config_answer =
  ca_username :: string
  ca_peer_id :: string
  ca_muninn :: string
  ca_chunk_ttl :: string
  ca_db_path :: string
  ca_turn_addr :: string
  ca_turn_user :: string
  ca_turn_pass :: string

definition told_config :: "Config \<Rightarrow> config_answer" where
  "told_config cfg =
     \<lparr>ca_username = cfg_username cfg, ca_peer_id = cfg_peer_id cfg, ca_muninn = cfg_muninn cfg,
      ca_chunk_ttl = cfg_ttl cfg, ca_db_path = cfg_db cfg, ca_turn_addr = cfg_turn_addr cfg,
      ca_turn_user = cfg_turn_user cfg, ca_turn_pass = cfg_turn_pass cfg\<rparr>"

definition messenger_get_config :: "int \<Rightarrow> bridge \<Rightarrow> config_answer answer \<times> bridge" where
  "messenger_get_config handle = ask handle (\<lambda>m. (Ret (told_config (ms_config m)), m))"

text \<open>The request is JSON; \<open>decode\<close> reads it. An empty field keeps what is there.\<close>

record config_request =
  cr_username :: string
  cr_peer_id :: string
  cr_muninn :: string
  cr_chunk_ttl :: string
  cr_turn_addr :: string
  cr_turn_user :: string
  cr_turn_pass :: string

definition or_keep :: "string \<Rightarrow> string \<Rightarrow> string" where
  "or_keep new old = (if new \<noteq> [] then new else old)"

definition changed_config :: "config_request \<Rightarrow> Config \<Rightarrow> Config" where
  "changed_config req cfg = cfg\<lparr>
     cfg_username := or_keep (cr_username req) (cfg_username cfg), cfg_peer_id := or_keep (cr_peer_id req) (cfg_peer_id cfg),
     cfg_muninn := or_keep (cr_muninn req) (cfg_muninn cfg), cfg_ttl := or_keep (cr_chunk_ttl req) (cfg_ttl cfg),
     cfg_turn_addr := or_keep (cr_turn_addr req) (cfg_turn_addr cfg), cfg_turn_user := or_keep (cr_turn_user req) (cfg_turn_user cfg),
     cfg_turn_pass := or_keep (cr_turn_pass req) (cfg_turn_pass cfg)\<rparr>"

definition messenger_save_config :: "(string \<Rightarrow> config_request option) \<Rightarrow> int \<Rightarrow> string \<Rightarrow> bridge \<Rightarrow> unit answer \<times> bridge" where
  "messenger_save_config decode handle jsonConfig =
     ask handle (\<lambda>m. case decode jsonConfig of
        None \<Rightarrow> (Err ''bad request'', m)
      | Some req \<Rightarrow>
         (case SaveConfig (Some (changed_config req (ms_config m))) m of
            (Err e, m1) \<Rightarrow> (Err (''failed to save: '' @ e), m1)
          | (r, m1) \<Rightarrow> (r, m1)))"

definition messenger_create_group :: "crypto_lib \<Rightarrow> net \<Rightarrow> int \<Rightarrow> string \<Rightarrow> bridge \<Rightarrow> GroupChat answer \<times> bridge" where
  "messenger_create_group L net handle name = ask handle (CreateGroupChat L net name)"

definition messenger_get_groups :: "int \<Rightarrow> bridge \<Rightarrow> GroupChat list answer \<times> bridge" where
  "messenger_get_groups handle = ask handle (store GetGroupChats)"

definition messenger_invite_to_group ::
    "codec \<Rightarrow> crypto_lib \<Rightarrow> net \<Rightarrow> int \<Rightarrow> string \<Rightarrow> string \<Rightarrow> bridge \<Rightarrow> unit answer \<times> bridge" where
  "messenger_invite_to_group c L net handle groupUID userID = ask handle (InviteToGroupChat c L net groupUID userID)"

definition messenger_mark_read :: "crypto_lib \<Rightarrow> net \<Rightarrow> int \<Rightarrow> string \<Rightarrow> bridge \<Rightarrow> unit answer \<times> bridge" where
  "messenger_mark_read L net handle msgID = ask handle (\<lambda>m. (MarkMessageRead L net msgID m, m))"

definition messenger_generate_relogin_signature :: "crypto_lib \<Rightarrow> bytes option \<Rightarrow> int \<Rightarrow> bridge \<Rightarrow> string answer \<times> bridge" where
  "messenger_generate_relogin_signature L random handle = ask handle (\<lambda>m. (GenerateReloginSignature L random m, m))"

text \<open>
  \<open>ApplyReloginSignature\<close> waits twice; \<open>connecting\<close> and \<open>transferring\<close> are what the messenger
  does meanwhile, \<open>w\<close> is how the second wait ends.
\<close>

definition ApplyReloginSignature ::
    "codec \<Rightarrow> crypto_lib \<Rightarrow> net \<Rightarrow> (Messenger \<Rightarrow> Messenger) \<Rightarrow> (Messenger \<Rightarrow> Messenger) \<Rightarrow> awaited \<Rightarrow> string
     \<Rightarrow> Messenger \<Rightarrow> unit go \<times> Messenger" where
  "ApplyReloginSignature c L net connecting transferring w signature m =
     (case relogin_connect L net signature m of
        (Err e, m1) \<Rightarrow> (Err e, m1)
      | (Panic e, m1) \<Rightarrow> (Panic e, m1)
      | (Ret (peerID, peer), m1) \<Rightarrow>
         (case relogin_start peerID signature (connecting m1) of
            (Err e, m2) \<Rightarrow> (Err e, m2)
          | (Panic e, m2) \<Rightarrow> (Panic e, m2)
          | (Ret ref, m2) \<Rightarrow> relogin_finish c net peerID peer ref w (transferring m2)))"

definition messenger_apply_relogin_signature ::
    "codec \<Rightarrow> crypto_lib \<Rightarrow> net \<Rightarrow> (Messenger \<Rightarrow> Messenger) \<Rightarrow> (Messenger \<Rightarrow> Messenger) \<Rightarrow> awaited \<Rightarrow> int \<Rightarrow> string
     \<Rightarrow> bridge \<Rightarrow> unit answer \<times> bridge" where
  "messenger_apply_relogin_signature c L net connecting transferring w handle signature =
     ask handle (ApplyReloginSignature c L net connecting transferring w signature)"

definition messenger_get_file_downloads :: "net \<Rightarrow> int \<Rightarrow> bridge \<Rightarrow> FileDownloadProgress list answer \<times> bridge" where
  "messenger_get_file_downloads net handle = ask handle (GetFileDownloads net)"

definition messenger_cancel_file_download :: "net \<Rightarrow> int \<Rightarrow> string \<Rightarrow> bridge \<Rightarrow> unit answer \<times> bridge" where
  "messenger_cancel_file_download net handle fileID = ask handle (cancelDownload net fileID)"

text \<open>\<open>made\<close>: the directory can be made.\<close>

definition messenger_set_downloads_dir :: "bool \<Rightarrow> int \<Rightarrow> string \<Rightarrow> bridge \<Rightarrow> unit answer \<times> bridge" where
  "messenger_set_downloads_dir made handle dir =
     ask handle (\<lambda>m. if dir = [] then (Err ''empty path'', m)
        else if \<not> made then (Err ''mkdir'', m) else (Ret (), SetDownloadsDir dir m))"

definition messenger_get_downloads_dir :: "int \<Rightarrow> bridge \<Rightarrow> string" where
  "messenger_get_downloads_dir handle b =
     (case getInstance handle b of None \<Rightarrow> [] | Some inst \<Rightarrow> DownloadsDir (in_m inst))"

definition messenger_get_file_path :: "int \<Rightarrow> string \<Rightarrow> bridge \<Rightarrow> string" where
  "messenger_get_file_path handle fileID b =
     (case getInstance handle b of None \<Rightarrow> [] | Some inst \<Rightarrow> DownloadsDir (in_m inst) @ ''/'' @ fileID)"

definition messenger_is_peer_online :: "net \<Rightarrow> int \<Rightarrow> string \<Rightarrow> bridge \<Rightarrow> int" where
  "messenger_is_peer_online net handle peerID b =
     (case getInstance handle b of
        None \<Rightarrow> 0 | Some inst \<Rightarrow> if IsPeerOnline (n_now net) (in_m inst) peerID then 1 else 0)"

section \<open>Events\<close>

definition event_capacity :: nat where
  "event_capacity = 100"

definition pushEvent :: "pushed \<Rightarrow> messenger_instance \<Rightarrow> messenger_instance" where
  "pushEvent e inst =
     (if length (in_events inst) < event_capacity then inst\<lparr>in_events := in_events inst @ [e]\<rparr> else inst)"

text \<open>A turn of \<open>eventLoop\<close> for an event of one of its channels.\<close>

fun event_turn :: "int \<Rightarrow> event \<Rightarrow> messenger_instance \<Rightarrow> messenger_instance" where
  "event_turn now PeersChanged inst = pushEvent (PeersPushed (peersToJSON now (in_m inst) (GetPeers (in_m inst)))) inst"
| "event_turn now (MessageEvent msg) inst = pushEvent (MessagePushed msg) inst"
| "event_turn now (FileReady f) inst = pushEvent (FilePushed f) inst"

text \<open>The event that is there, or that comes before the timer; the empty string otherwise.\<close>

definition messenger_get_event :: "int \<Rightarrow> bridge \<Rightarrow> pushed option \<times> bridge" where
  "messenger_get_event handle b =
     (case getInstance handle b of
        None \<Rightarrow> (None, b)
      | Some inst \<Rightarrow>
         (case in_events inst of
            [] \<Rightarrow> (None, b)
          | e # es \<Rightarrow> (Some e, put_instance handle (inst\<lparr>in_events := es\<rparr>) b)))"

end
