(* ===== verification/BridgeSafety.thy ===== *)
theory BridgeSafety
  imports Bridge
begin

text \<open>
  What is shown of the C interface: which of the passed and the saved settings a new messenger
  runs with, that starting again through it keeps the identity of the device, and that a handle
  names the same messenger for ever.
\<close>

section \<open>The saved configuration\<close>

definition saved_config :: "tables \<Rightarrow> Config" where
  "saved_config t = \<lparr>cfg_muninn = saved t ''muninn'', cfg_username = saved t ''username'', cfg_peer_id = saved t ''peer_id'',
     cfg_db = [], cfg_ttl = saved t ''chunk_ttl'', cfg_flag = saved t ''peer_flag'', cfg_turn_addr = saved t ''turn_addr'',
     cfg_turn_user = saved t ''turn_user'', cfg_turn_pass = saved t ''turn_pass''\<rparr>"

text \<open>Saving writes only what is not empty.\<close>

definition overlay :: "Config \<Rightarrow> Config \<Rightarrow> Config" where
  "overlay new old = \<lparr>cfg_muninn = or_keep (cfg_muninn new) (cfg_muninn old),
     cfg_username = or_keep (cfg_username new) (cfg_username old), cfg_peer_id = or_keep (cfg_peer_id new) (cfg_peer_id old),
     cfg_db = cfg_db old, cfg_ttl = or_keep (cfg_ttl new) (cfg_ttl old), cfg_flag = or_keep (cfg_flag new) (cfg_flag old),
     cfg_turn_addr = or_keep (cfg_turn_addr new) (cfg_turn_addr old),
     cfg_turn_user = or_keep (cfg_turn_user new) (cfg_turn_user old),
     cfg_turn_pass = or_keep (cfg_turn_pass new) (cfg_turn_pass old)\<rparr>"

lemma LoadAppConfig_saved:
  assumes "db_faults d = []" "LoadAppConfig d = (r, d')"
  shows "d' = d \<and> (r = Ret (saved_config (db_tables d)) \<or> r = Err ErrConfigNotFound \<and> saved_config (db_tables d) = empty_config)"
proof -
  let ?t = "db_tables d"
  have "fold (\<lambda>(n, g, s) c. case config_value ?t n of None \<Rightarrow> c | Some v \<Rightarrow> s v c) config_fields empty_config = saved_config ?t"
    by (rule Config.equality)
      (simp_all add: config_fields_def empty_config_def set_field saved_def saved_config_def cong: option.case_cong)
  moreover have "saved_config ?t = empty_config" if "\<not> list_ex (\<lambda>(n, g, s). config_value ?t n \<noteq> None) config_fields"
    using that by (simp add: config_fields_def saved_def saved_config_def empty_config_def)
  ultimately show ?thesis using assms by (auto simp: LoadAppConfig_def load_fields_ok split: if_splits)
qed

lemma SaveAppConfig_saved:
  assumes "db_faults d = []" "d' = snd (SaveAppConfig cfg d)"
  shows "db_faults d' = [] \<and> fst (SaveAppConfig cfg d) = Ret () \<and> saved_config (db_tables d') = overlay cfg (saved_config (db_tables d))
    \<and> config_value (db_tables d') ''crypto_keys'' = config_value (db_tables d) ''crypto_keys''"
proof -
  have "distinct (map fst config_fields)" by (simp add: config_fields_def)
  from save_fields_ok [OF assms(1) this, of cfg] obtain t where
    "SaveAppConfig cfg d = (Ret (), d\<lparr>db_tables := t\<rparr>)"
    and "\<forall>m. config_value t m = (case map_of config_fields m of
          Some (g, s) \<Rightarrow> if g cfg \<noteq> [] then Some (g cfg) else config_value (db_tables d) m
        | None \<Rightarrow> config_value (db_tables d) m)"
    unfolding SaveAppConfig_def by blast
  then show ?thesis using assms by (simp add: config_fields_def saved_def saved_config_def overlay_def or_keep_def)
qed

lemma settle_config_saved:
  assumes "db_faults d = []" "user \<noteq> []"
  shows "settle_config user path d = ((saved_config (db_tables d))
     \<lparr>cfg_db := path, cfg_username := or_keep (saved (db_tables d) ''username'') user\<rparr>, d)"
proof -
  obtain r d1 where load: "LoadAppConfig d = (r, d1)" by fastforce
  have "cfg_username (saved_config (db_tables d)) = saved (db_tables d) ''username''" by (simp add: saved_config_def)
  then show ?thesis using LoadAppConfig_saved [OF assms(1) load] load assms(2)
    by (auto simp: settle_config_def or_keep_def empty_config_def)
qed

section \<open>The messenger that New makes\<close>

lemma New_settings:
  assumes "db_faults d = []" "\<forall>kf. dec_keys c (enc_keys c kf) = Some kf" "user \<noteq> []"
    and "New c L net legacy (\<lambda>_. None) True user client path (Ret d) opts = Ret m"
    and "old = saved_config (db_tables d)"
    and "cfg = with_defaults (old\<lparr>cfg_db := path, cfg_username := or_keep (cfg_username old) user,
           cfg_muninn := (case client of None \<Rightarrow> cfg_muninn old | Some addr \<Rightarrow> addr)\<rparr>)"
  shows "ms_config m = cfg\<lparr>cfg_peer_id := ms_id m\<rparr>" "saved_config (db_tables (ms_store m)) = overlay cfg old"
    and "ms_flag m = mo_flag (fold (\<lambda>f. f) opts no_opts)"
    and "ms_id m = or_keep (cfg_peer_id old) (n_uuid net 0)"
proof -
  obtain keys d1 where keys: "load_or_make_keys c L net d = (Ret keys, d1)"
    using assms(4) by (auto simp: New_def Let_def ImportLegacyFiles_none [OF assms(1)] split: go.splits prod.splits)
  note made = load_or_make_keys_saved [OF assms(1,2) keys]
  have same: "saved_config (db_tables d1) = old" "saved (db_tables d1) ''username'' = cfg_username old"
    using made assms(5) by (simp_all add: saved_config_def saved_def)
  have settle: "settle_config user path d1 = (old\<lparr>cfg_db := path, cfg_username := or_keep (cfg_username old) user\<rparr>, d1)"
    using settle_config_saved [of d1 user path] made assms(3) same by simp
  define db where "db = snd (SaveAppConfig cfg d1)"
  define made_m where "made_m = new_messenger (if cfg_peer_id cfg = [] then n_uuid net 0 else cfg_peer_id cfg) (cfg_username cfg) keys db cfg
    (mo_flag (fold (\<lambda>f. f) opts no_opts))"
  have m: "m = snd (trySubmit ResumeDownloads (load_peers net made_m))"
    using assms(4,6) keys settle by (auto simp: New_def Let_def ImportLegacyFiles_none [OF assms(1)] made_m_def db_def cong: option.case_cong split: if_splits)
  have save: "db_faults db = [] \<and> saved_config (db_tables db) = overlay cfg old"
    using SaveAppConfig_saved [of d1 db cfg] made same by (simp add: db_def)
  have "ms_config (load_peers net made_m) = ms_config made_m \<and> ms_flag (load_peers net made_m) = ms_flag made_m"
  proof -
    have "ms_config (fold (load_peer net) ps x) = ms_config x \<and> ms_flag (fold (load_peer net) ps x) = ms_flag x" for ps x
      by (induction ps arbitrary: x) (simp_all add: load_peer_def Let_def)
    then show ?thesis by (auto simp: load_peers_def store_def split: go.splits prod.splits)
  qed
  moreover have "ms_store (load_peers net made_m) = db"
    using load_peers_same(5) [of made_m net] save by (simp add: made_m_def new_messenger_def Let_def)
  moreover have "cfg_peer_id cfg = cfg_peer_id old" using assms(6) by (simp add: with_defaults_def Let_def)
  ultimately show "ms_config m = cfg\<lparr>cfg_peer_id := ms_id m\<rparr>" "saved_config (db_tables (ms_store m)) = overlay cfg old"
    "ms_flag m = mo_flag (fold (\<lambda>f. f) opts no_opts)" "ms_id m = or_keep (cfg_peer_id old) (n_uuid net 0)"
    using save by (simp_all add: m trySubmit_def load_peers_same made_m_def new_messenger_def Let_def or_keep_def)
qed

section \<open>Which settings apply\<close>

text \<open>
  The settings of a new instance, in terms of what was passed and what was saved: the name that
  was saved, the address that was passed, a TTL and a flag if they were passed, a TURN server with
  its credentials if it was passed, and for the rest what was saved.
\<close>

definition settings :: "string \<Rightarrow> string \<Rightarrow> string \<Rightarrow> string \<Rightarrow> string \<Rightarrow> string \<Rightarrow> string \<Rightarrow> string \<Rightarrow> string \<Rightarrow> Config \<Rightarrow> Config" where
  "settings newID path user muninn ttl turnAddr turnUser turnPass requested old = \<lparr>
     cfg_muninn = or_keep muninn (cfg_muninn old), cfg_username = or_keep (cfg_username old) user,
     cfg_peer_id = or_keep (cfg_peer_id old) newID, cfg_db = path,
     cfg_ttl = (if ttl \<in> {[], ''1w''} then or_keep (cfg_ttl old) ''1w'' else ttl),
     cfg_flag = or_keep requested (or_keep (cfg_flag old) ''thin''),
     cfg_turn_addr = or_keep turnAddr (cfg_turn_addr old),
     cfg_turn_user = (if turnAddr \<noteq> [] then turnUser else or_keep (cfg_turn_user old) turnUser),
     cfg_turn_pass = (if turnAddr \<noteq> [] then turnPass else or_keep (cfg_turn_pass old) turnPass)\<rparr>"

text \<open>A start that succeeds, taken apart.\<close>

lemma createMessenger_AnswerD:
  assumes "createMessenger c L net legacy readFile mkdir absPath opened user muninn dbPath chunkTTL turnAddr turnUser turnPass requested b
      = (Answer handle, b')" "0 < handle"
  obtains flag path m where "user \<noteq> []" "parsePeerFlag requested = Some flag"
    "path = (case absPath (or_keep dbPath ''huginn.db'') of Some p \<Rightarrow> p | None \<Rightarrow> or_keep dbPath ''huginn.db'')"
    "New c L net legacy readFile mkdir user (if muninn = [] then None else Some muninn) path (opened path)
       [WithPeerFlag flag, WithTURN turnAddr turnUser turnPass] = Ret m"
    "storeInstance \<lparr>in_m = snd (SaveConfig (Some (take_given requested flag path (or_keep chunkTTL ''1w'') turnAddr turnUser turnPass
         (take_stored requested (ms_config m) (given_config user muninn path (or_keep chunkTTL ''1w'') flag turnAddr turnUser turnPass)))) m),
       in_events = [], in_done = False\<rparr> b = (handle, b')"
proof -
  have db: "(if dbPath = [] then ''huginn.db'' else dbPath) = or_keep dbPath ''huginn.db''"
    and ttl: "(if chunkTTL = [] then ''1w'' else chunkTTL) = or_keep chunkTTL ''1w''" by (simp_all add: or_keep_def)
  have user: "user \<noteq> []" using assms by (auto simp: createMessenger_def)
  then obtain flag where flag: "parsePeerFlag requested = Some flag"
    using assms by (cases "parsePeerFlag requested") (auto simp: createMessenger_def)
  let ?path = "case absPath (or_keep dbPath ''huginn.db'') of Some p \<Rightarrow> p | None \<Rightarrow> or_keep dbPath ''huginn.db''"
  obtain m where m: "New c L net legacy readFile mkdir user (if muninn = [] then None else Some muninn) ?path (opened ?path)
       [WithPeerFlag flag, WithTURN turnAddr turnUser turnPass] = Ret m"
    using assms user flag unfolding createMessenger_def db by (auto simp: Let_def split: go.splits if_splits)
  show ?thesis
    by (rule that [OF user flag refl m]) (use assms user flag m in \<open>auto simp: createMessenger_def db ttl Let_def split: prod.splits\<close>)
qed

lemma with_defaults_fields:
  "with_defaults cfg = cfg\<lparr>cfg_ttl := or_keep (cfg_ttl cfg) ''1w'', cfg_flag := or_keep (cfg_flag cfg) ''thin''\<rparr>"
  by (cases cfg) (simp add: with_defaults_def or_keep_def)

lemma take_given_fields:
  "take_given requested flag path ttl turnAddr turnUser turnPass cfg = cfg\<lparr>cfg_db := path,
     cfg_ttl := (if ttl \<in> {[], ''1w''} then cfg_ttl cfg else ttl), cfg_flag := (if requested = [] then cfg_flag cfg else flag),
     cfg_turn_addr := or_keep turnAddr (cfg_turn_addr cfg),
     cfg_turn_user := (if turnAddr = [] then cfg_turn_user cfg else turnUser),
     cfg_turn_pass := (if turnAddr = [] then cfg_turn_pass cfg else turnPass)\<rparr>"
  by (cases cfg) (simp add: take_given_def or_keep_def Let_def)

lemma take_stored_fields:
  "take_stored requested storedCfg cfg = cfg\<lparr>cfg_username := or_keep (cfg_username storedCfg) (cfg_username cfg),
     cfg_muninn := or_keep (cfg_muninn storedCfg) (cfg_muninn cfg), cfg_ttl := or_keep (cfg_ttl storedCfg) (cfg_ttl cfg),
     cfg_flag := (if requested = [] then or_keep (cfg_flag storedCfg) (cfg_flag cfg) else cfg_flag cfg),
     cfg_turn_addr := or_keep (cfg_turn_addr storedCfg) (cfg_turn_addr cfg),
     cfg_turn_user := or_keep (cfg_turn_user storedCfg) (cfg_turn_user cfg),
     cfg_turn_pass := or_keep (cfg_turn_pass storedCfg) (cfg_turn_pass cfg),
     cfg_peer_id := or_keep (cfg_peer_id storedCfg) (cfg_peer_id cfg)\<rparr>"
  unfolding take_stored_def or_keep_def by (cases "requested = []") simp_all

lemma or_keep_simps [simp]:
  "or_keep [] b = b" "or_keep a [] = a" "or_keep (x # xs) b = x # xs" "or_keep (or_keep a b) c = or_keep a (or_keep b c)"
  by (simp_all add: or_keep_def)

lemma take_given_settings:
  assumes "cfg = (with_defaults (old\<lparr>cfg_db := path, cfg_username := or_keep (cfg_username old) user,
           cfg_muninn := (case if muninn = [] then None else Some muninn of None \<Rightarrow> cfg_muninn old | Some addr \<Rightarrow> addr)\<rparr>))
         \<lparr>cfg_peer_id := or_keep (cfg_peer_id old) newID\<rparr>"
    and "parsePeerFlag requested = Some flag"
  shows "take_given requested flag path (or_keep ttl ''1w'') turnAddr turnUser turnPass
      (take_stored requested cfg (given_config user muninn path (or_keep ttl ''1w'') flag turnAddr turnUser turnPass))
    = settings newID path user muninn ttl turnAddr turnUser turnPass requested old"
proof -
  have flag: "flag = or_keep requested ''thin''" using assms(2) by (auto simp: parsePeerFlag_def or_keep_def split: if_splits)
  have muninn: "(case if muninn = [] then None else Some muninn of None \<Rightarrow> cfg_muninn old | Some addr \<Rightarrow> addr) = or_keep muninn (cfg_muninn old)"
    by (simp add: or_keep_def)
  show ?thesis
    unfolding assms(1) muninn with_defaults_fields take_given_fields take_stored_fields settings_def given_config_def flag
    by (intro Config.equality) (simp_all (no_asm_simp), simp_all (no_asm_simp) add: or_keep_def)
qed

lemma SaveConfig_settings:
  assumes "db_faults (ms_store m) = []" "m1 = snd (SaveConfig (Some cfg) m)"
  shows "ms_config m1 = cfg \<and> saved_config (db_tables (ms_store m1)) = overlay cfg (saved_config (db_tables (ms_store m)))
    \<and> db_faults (ms_store m1) = [] \<and> ms_flag m1 = ms_flag m \<and> ms_id m1 = ms_id m \<and> ms_user m1 = ms_user m \<and> ms_key m1 = ms_key m
    \<and> ms_keys m1 = ms_keys m
    \<and> config_value (db_tables (ms_store m1)) ''crypto_keys'' = config_value (db_tables (ms_store m)) ''crypto_keys''"
  using SaveAppConfig_saved [OF assms(1) refl, of cfg] assms(2)
  by (cases "SaveAppConfig cfg (ms_store m)") (simp add: SaveConfig_def store_def)

lemma overlay_settings:
  "overlay (settings newID path user muninn ttl turnAddr turnUser turnPass requested old)
     (overlay (with_defaults (old\<lparr>cfg_db := path, cfg_username := or_keep (cfg_username old) user,
        cfg_muninn := or_keep muninn (cfg_muninn old)\<rparr>)) old)
   = overlay (settings newID path user muninn ttl turnAddr turnUser turnPass requested old) old"
  unfolding overlay_def settings_def with_defaults_fields
  by (intro Config.equality) (simp_all (no_asm_simp), simp_all (no_asm_simp) add: or_keep_def)

text \<open>The instance that is made, from the messenger of \<open>New\<close>.\<close>

lemma create_instance:
  assumes "db_faults d = []" "\<forall>kf. dec_keys c (enc_keys c kf) = Some kf"
    and "createMessenger c L net legacy (\<lambda>_. None) True absPath (\<lambda>_. Ret d) user muninn dbPath ttl turnAddr turnUser turnPass
        requested b = (Answer handle, b')" "0 < handle"
    and "path = (case absPath (or_keep dbPath ''huginn.db'') of Some p \<Rightarrow> p | None \<Rightarrow> or_keep dbPath ''huginn.db'')"
    and "cfg = settings (n_uuid net 0) path user muninn ttl turnAddr turnUser turnPass requested (saved_config (db_tables d))"
  obtains flag m inst where "user \<noteq> []" "parsePeerFlag requested = Some flag"
    "New c L net legacy (\<lambda>_. None) True user (if muninn = [] then None else Some muninn) path (Ret d)
       [WithPeerFlag flag, WithTURN turnAddr turnUser turnPass] = Ret m"
    "getInstance handle b' = Some inst" "in_m inst = snd (SaveConfig (Some cfg) m)"
    "saved_config (db_tables (ms_store (in_m inst))) = overlay cfg (saved_config (db_tables d))"
proof -
  obtain flag m where user: "user \<noteq> []" and flag: "parsePeerFlag requested = Some flag"
    and m: "New c L net legacy (\<lambda>_. None) True user (if muninn = [] then None else Some muninn) path (Ret d)
       [WithPeerFlag flag, WithTURN turnAddr turnUser turnPass] = Ret m"
    and stored: "storeInstance \<lparr>in_m = snd (SaveConfig (Some (take_given requested flag path (or_keep ttl ''1w'') turnAddr turnUser turnPass
         (take_stored requested (ms_config m) (given_config user muninn path (or_keep ttl ''1w'') flag turnAddr turnUser turnPass)))) m),
       in_events = [], in_done = False\<rparr> b = (handle, b')"
    by (rule createMessenger_AnswerD [OF assms(3,4)]) (use assms(5) in auto)
  let ?old = "saved_config (db_tables d)"
  note new = New_settings [OF assms(1,2) user m refl refl]
  have cfg: "take_given requested flag path (or_keep ttl ''1w'') turnAddr turnUser turnPass
      (take_stored requested (ms_config m) (given_config user muninn path (or_keep ttl ''1w'') flag turnAddr turnUser turnPass)) = cfg"
    unfolding assms(6) by (rule take_given_settings [OF _ flag]) (simp only: new(1,4))
  have muninn: "(case if muninn = [] then None else Some muninn of None \<Rightarrow> cfg_muninn ?old | Some addr \<Rightarrow> addr) = or_keep muninn (cfg_muninn ?old)"
    by (simp add: or_keep_def)
  define m1 where "m1 = snd (SaveConfig (Some cfg) m)"
  note m1 = SaveConfig_settings [OF New_RetD(1) [OF assms(1,2) user m] m1_def]
  have inst: "getInstance handle b' = Some \<lparr>in_m = m1, in_events = [], in_done = False\<rparr>"
    using stored unfolding cfg m1_def [symmetric] by (auto simp: storeInstance_def getInstance_def)
  have "saved_config (db_tables (ms_store m1)) = overlay cfg ?old"
    using m1 overlay_settings [of "n_uuid net 0" path user muninn ttl turnAddr turnUser turnPass requested ?old]
    by (simp add: new(2) assms(6) muninn)
  then show ?thesis by (intro that [OF user flag m inst]) (simp_all add: m1_def)
qed

text \<open>
  C35. The settings that the chain of assignments in \<open>createMessenger\<close> and \<open>New\<close> arrives at are those
  of the table \<open>settings\<close>; they are saved, but for empty ones, which leave what was saved before:
  the credentials of a TURN server stay when a server without credentials is passed. The flag that
  the messenger registers with is the passed one, or \<open>thin\<close>, whatever the settings say.
\<close>

theorem create_settings:
  assumes "db_faults d = []" "\<forall>kf. dec_keys c (enc_keys c kf) = Some kf"
    and "createMessenger c L net legacy (\<lambda>_. None) True absPath (\<lambda>_. Ret d) user muninn dbPath ttl turnAddr turnUser turnPass
        requested b = (Answer handle, b')" "0 < handle"
    and "path = (case absPath (or_keep dbPath ''huginn.db'') of Some p \<Rightarrow> p | None \<Rightarrow> or_keep dbPath ''huginn.db'')"
    and "cfg = settings (n_uuid net 0) path user muninn ttl turnAddr turnUser turnPass requested (saved_config (db_tables d))"
  shows "\<exists>inst. getInstance handle b' = Some inst \<and> ms_config (in_m inst) = cfg
     \<and> saved_config (db_tables (ms_store (in_m inst))) = overlay cfg (saved_config (db_tables d))
     \<and> rq_flag (own_request (in_m inst)) = or_keep requested ''thin''"
proof -
  obtain flag m inst where user: "user \<noteq> []" and flag: "parsePeerFlag requested = Some flag"
    and m: "New c L net legacy (\<lambda>_. None) True user (if muninn = [] then None else Some muninn) path (Ret d)
       [WithPeerFlag flag, WithTURN turnAddr turnUser turnPass] = Ret m"
    and inst: "getInstance handle b' = Some inst" "in_m inst = snd (SaveConfig (Some cfg) m)"
      "saved_config (db_tables (ms_store (in_m inst))) = overlay cfg (saved_config (db_tables d))"
    by (rule create_instance [OF assms])
  note m1 = SaveConfig_settings [OF New_RetD(1) [OF assms(1,2) user m] inst(2)]
  have "rq_flag (own_request (in_m inst)) = or_keep requested ''thin''"
    using m1 New_settings(3) [OF assms(1,2) user m refl refl] flag
    by (auto simp: own_request_def WithPeerFlag_def WithTURN_def no_opts_def parsePeerFlag_def or_keep_def split: if_splits)
  then show ?thesis using m1 inst by blast
qed

section \<open>Starting again\<close>

lemma create_identity:
  assumes "db_faults d = []" "\<forall>kf. dec_keys c (enc_keys c kf) = Some kf"
    and "createMessenger c L net legacy (\<lambda>_. None) True absPath (\<lambda>_. Ret d) user muninn dbPath ttl turnAddr turnUser turnPass
        requested b = (Answer handle, b')" "0 < handle" "getInstance handle b' = Some inst" "old = saved_config (db_tables d)"
  shows "db_faults (ms_store (in_m inst)) = []"
    and "ms_id (in_m inst) = or_keep (cfg_peer_id old) (n_uuid net 0)"
    and "ms_user (in_m inst) = or_keep (cfg_username old) user" and "user \<noteq> []"
    and "ms_key (in_m inst) = ms_user (in_m inst) @ '':'' @ EncodeKey (k_sign_public (ms_keys (in_m inst)))"
    and "\<exists>s. config_value (db_tables (ms_store (in_m inst))) ''crypto_keys'' = Some s
          \<and> ParseKeyFile (dec_keys c) (bytes_of s) = Ret (ms_keys (in_m inst))"
    and "\<forall>s keys. config_value (db_tables d) ''crypto_keys'' = Some s \<and> ParseKeyFile (dec_keys c) (bytes_of s) = Ret keys
          \<longrightarrow> ms_keys (in_m inst) = keys"
    and "cfg_peer_id (saved_config (db_tables (ms_store (in_m inst)))) = ms_id (in_m inst)"
    and "cfg_username (saved_config (db_tables (ms_store (in_m inst)))) = ms_user (in_m inst)"
proof -
  let ?path = "case absPath (or_keep dbPath ''huginn.db'') of Some p \<Rightarrow> p | None \<Rightarrow> or_keep dbPath ''huginn.db''"
  let ?cfg = "settings (n_uuid net 0) ?path user muninn ttl turnAddr turnUser turnPass requested (saved_config (db_tables d))"
  obtain flag m where user: "user \<noteq> []"
    and m: "New c L net legacy (\<lambda>_. None) True user (if muninn = [] then None else Some muninn) ?path (Ret d)
       [WithPeerFlag flag, WithTURN turnAddr turnUser turnPass] = Ret m"
    and m1: "in_m inst = snd (SaveConfig (Some ?cfg) m)"
    and config: "saved_config (db_tables (ms_store (in_m inst))) = overlay ?cfg (saved_config (db_tables d))"
    by (rule create_instance [OF assms(1-4) refl refl]) (use assms(5) in auto)
  note made = New_RetD [OF assms(1,2) user m] and new = New_settings [OF assms(1,2) user m assms(6) refl]
  note kept = SaveConfig_settings [OF made(1) m1]
  show "user \<noteq> []" by (rule user)
  show "db_faults (ms_store (in_m inst)) = []" "ms_id (in_m inst) = or_keep (cfg_peer_id old) (n_uuid net 0)"
    "ms_user (in_m inst) = or_keep (cfg_username old) user"
    "ms_key (in_m inst) = ms_user (in_m inst) @ '':'' @ EncodeKey (k_sign_public (ms_keys (in_m inst)))"
    using kept made(4,8) new(4) by (simp_all add: assms(6) saved_config_def or_keep_def)
  show "\<exists>s. config_value (db_tables (ms_store (in_m inst))) ''crypto_keys'' = Some s
      \<and> ParseKeyFile (dec_keys c) (bytes_of s) = Ret (ms_keys (in_m inst))" using kept made(2) by simp
  show "\<forall>s keys. config_value (db_tables d) ''crypto_keys'' = Some s \<and> ParseKeyFile (dec_keys c) (bytes_of s) = Ret keys
      \<longrightarrow> ms_keys (in_m inst) = keys" using kept made(3) by simp
  show "cfg_peer_id (saved_config (db_tables (ms_store (in_m inst)))) = ms_id (in_m inst)"
    unfolding config using kept new(4) by (simp add: overlay_def settings_def assms(6) or_keep_def)
  show "cfg_username (saved_config (db_tables (ms_store (in_m inst)))) = ms_user (in_m inst)"
    unfolding config using kept made(4) user by (simp add: overlay_def settings_def assms(6) or_keep_def saved_config_def)
qed

text \<open>
  Through the C interface a second start on the same database is the same device of the same user
  with the same keys, whatever else is passed: the configuration that \<open>createMessenger\<close> saves has
  the id in it.
\<close>

theorem bridge_restart_keeps_identity:
  assumes "db_faults d = []" "\<forall>kf. dec_keys c (enc_keys c kf) = Some kf" "n_uuid net1 0 \<noteq> []"
    and "createMessenger c L net1 legacy (\<lambda>_. None) True abs1 (\<lambda>_. Ret d) user1 muninn1 path1 ttl1 ta1 tu1 tp1 flag1 b1 = (Answer h1, b1')"
      "0 < h1" "getInstance h1 b1' = Some i1"
    and "createMessenger c L net2 legacy (\<lambda>_. None) True abs2 (\<lambda>_. Ret (ms_store (in_m i1))) user2 muninn2 path2 ttl2 ta2 tu2 tp2 flag2 b2
        = (Answer h2, b2')" "0 < h2" "getInstance h2 b2' = Some i2"
  shows "ms_id (in_m i2) = ms_id (in_m i1) \<and> ms_user (in_m i2) = ms_user (in_m i1) \<and> ms_key (in_m i2) = ms_key (in_m i1)
     \<and> ms_keys (in_m i2) = ms_keys (in_m i1)"
proof -
  note one = create_identity [OF assms(1,2,4,5,6) refl]
  note two = create_identity [OF one(1) assms(2,7,8,9) refl]
  have "ms_keys (in_m i2) = ms_keys (in_m i1)" using one(6) two(7) by blast
  moreover have "ms_id (in_m i1) \<noteq> []" "ms_user (in_m i1) \<noteq> []" using one(2-4) assms(3) by (simp_all add: or_keep_def)
  ultimately show ?thesis using two(2,3,5) one(5,8,9) by (simp add: or_keep_def)
qed

section \<open>Starts\<close>

lemma create_runs:
  assumes "db_faults d = []" "load_or_make_keys c L net d = (Ret keys, d')" "user \<noteq> []" "muninn \<noteq> []"
    and "parsePeerFlag requested = Some flag"
  shows "\<exists>b' inst. createMessenger c L net legacy (\<lambda>_. None) True absPath (\<lambda>_. Ret d) user muninn dbPath ttl turnAddr turnUser turnPass
        requested b = (Answer (br_next b), b') \<and> getInstance (br_next b) b' = Some inst \<and> \<not> in_done inst"
proof -
  let ?path = "case absPath (if dbPath = [] then ''huginn.db'' else dbPath) of Some p \<Rightarrow> p | None \<Rightarrow> (if dbPath = [] then ''huginn.db'' else dbPath)"
  obtain m where "New c L net legacy (\<lambda>_. None) True user (Some muninn) ?path (Ret d) [WithPeerFlag flag, WithTURN turnAddr turnUser turnPass] = Ret m"
    using New_runs [OF assms(1,2)] by blast
  then show ?thesis using assms(3-5) by (simp add: createMessenger_def Let_def storeInstance_def getInstance_def)
qed

lemma sample_keys_made:
  assumes "db_faults d = []" "config_value (db_tables d) ''crypto_keys'' = None" "n_random net = n_random sample_net"
  shows "\<exists>keys d'. load_or_make_keys key_codec toy_lib net d = (Ret keys, d')"
proof -
  have "GenerateSigningKey toy_lib (n_random sample_net 0 0) = Ret (replicate 32 1, replicate 32 1 @ replicate 32 1)"
    by (simp add: GenerateSigningKey_def toy_lib_def sample_net_def read_full_def)
  moreover obtain ek where "GenerateEncryptionKey toy_lib (n_random sample_net 0 1) = Ret ek"
    by (simp add: GenerateEncryptionKey_def toy_lib_def sample_net_def read_full_def Let_def)
  ultimately show ?thesis using load_or_make_keys_runs [OF assms(1,2)] assms(3) by metis
qed

text \<open>A database with the flag of a storing device, started without a flag.\<close>

definition thick_db :: db where
  "thick_db = \<lparr>db_tables = no_tables\<lparr>t_config := [(''peer_flag'', ''thick'')]\<rparr>, db_faults = []\<rparr>"

lemma sample_create_runs:
  assumes "db_faults d = []" "load_or_make_keys key_codec toy_lib net d = (Ret keys, d')" "user \<noteq> []"
  shows "\<exists>b inst. createMessenger key_codec toy_lib net (\<lambda>_. None) (\<lambda>_. None) True Some (\<lambda>_. Ret d)
        user ''http://m'' [] [] [] [] [] [] no_bridge = (Answer 1, b) \<and> getInstance 1 b = Some inst \<and> \<not> in_done inst"
proof -
  have "parsePeerFlag [] = Some ''thin''" by (simp add: parsePeerFlag_def)
  then show ?thesis
    using create_runs [OF assms, of "''http://m''" "[]" "''thin''" "\<lambda>_. None" Some "[]" "[]" "[]" "[]" "[]" no_bridge]
    by (simp add: no_bridge_def)
qed

lemma create_settings_witness:
  "\<exists>b' inst. createMessenger key_codec toy_lib sample_net (\<lambda>_. None) (\<lambda>_. None) True Some (\<lambda>_. Ret thick_db)
        ''ann'' ''http://m'' [] [] [] [] [] [] no_bridge = (Answer 1, b')
     \<and> getInstance 1 b' = Some inst \<and> cfg_flag (ms_config (in_m inst)) = ''thick'' \<and> rq_flag (own_request (in_m inst)) = ''thin''"
proof -
  have d: "db_faults thick_db = []" "config_value (db_tables thick_db) ''crypto_keys'' = None"
    and flag: "cfg_flag (saved_config (db_tables thick_db)) = ''thick''"
    by (simp_all add: thick_db_def no_tables_def config_value_def saved_config_def saved_def tbl_find_def)
  obtain b' where made: "createMessenger key_codec toy_lib sample_net (\<lambda>_. None) (\<lambda>_. None) True Some (\<lambda>_. Ret thick_db)
        ''ann'' ''http://m'' [] [] [] [] [] [] no_bridge = (Answer 1, b')"
    using sample_keys_made [OF d refl] sample_create_runs [OF d(1), of sample_net _ _ "''ann''"] by auto
  show ?thesis
    using create_settings [OF d(1) allI [OF key_codec_keys] made _ refl refl] made flag by (auto simp: settings_def)
qed

lemma bridge_restart_keeps_identity_witness:
  "\<exists>b1 i1 b2 i2. createMessenger key_codec toy_lib sample_net (\<lambda>_. None) (\<lambda>_. None) True Some (\<lambda>_. Ret empty_db)
        ''ann'' ''http://m'' [] [] [] [] [] [] no_bridge = (Answer 1, b1) \<and> getInstance 1 b1 = Some i1
     \<and> createMessenger key_codec toy_lib other_net (\<lambda>_. None) (\<lambda>_. None) True Some (\<lambda>_. Ret (ms_store (in_m i1)))
        ''eve'' ''http://m'' [] [] [] [] [] [] no_bridge = (Answer 1, b2) \<and> getInstance 1 b2 = Some i2
     \<and> ms_key (in_m i2) = ms_key (in_m i1) \<and> ms_id (in_m i2) = ms_id (in_m i1)"
proof -
  have d: "db_faults empty_db = []" "config_value (db_tables empty_db) ''crypto_keys'' = None"
    by (simp_all add: empty_db_def no_tables_def config_value_def)
  let ?create = "\<lambda>net d user. createMessenger key_codec toy_lib net (\<lambda>_. None) (\<lambda>_. None) True Some (\<lambda>_. Ret d)
        user ''http://m'' [] [] [] [] [] [] no_bridge"
  obtain b1 i1 where one: "?create sample_net empty_db ''ann'' = (Answer 1, b1)" "getInstance 1 b1 = Some i1"
    using sample_keys_made [OF d refl] sample_create_runs [OF d(1), of sample_net _ _ "''ann''"] by auto
  note made = create_identity [OF d(1) allI [OF key_codec_keys] one(1) _ one(2) refl, simplified]
  obtain s where s: "config_value (db_tables (ms_store (in_m i1))) ''crypto_keys'' = Some s"
    "ParseKeyFile (dec_keys key_codec) (bytes_of s) = Ret (ms_keys (in_m i1))" using made(6) by blast
  obtain b2 i2 where two: "?create other_net (ms_store (in_m i1)) ''eve'' = (Answer 1, b2)" "getInstance 1 b2 = Some i2"
    using sample_create_runs [OF made(1) load_or_make_keys_stored [OF made(1) s, of toy_lib other_net], of "''eve''"] by auto
  have "n_uuid sample_net 0 \<noteq> []" by (simp add: sample_net_def)
  then show ?thesis
    using bridge_restart_keeps_identity [OF d(1) allI [OF key_codec_keys] _ one(1) _ one(2) two(1) _ two(2)] one two by auto
qed

section \<open>Handles\<close>

text \<open>Whatever is called, and whatever the messengers behind the handles do meanwhile.\<close>

inductive bridge_step :: "bridge \<Rightarrow> bridge \<Rightarrow> bool" where
  creating: "createMessenger c L net legacy readFile mkdir absPath opened user muninn dbPath chunkTTL turnAddr turnUser turnPass requested b
    = (r, b') \<Longrightarrow> bridge_step b b'"
| closing: "destroy_close handle b = (u, b') \<Longrightarrow> bridge_step b b'"
| shutting: "bridge_step b (destroy_shutdown connections handle b)"
| running: "getInstance handle b = Some inst \<Longrightarrow> bridge_step b (put_instance handle inst' b)"

lemma ask_step: "bridge_step\<^sup>*\<^sup>* b (snd (ask handle f b))"
proof (cases "getInstance handle b")
  case (Some inst)
  then show ?thesis using bridge_step.running [OF Some]
    by (auto simp: ask_def split: prod.split)
qed (simp add: ask_def)

lemma destroy_step: "bridge_step\<^sup>*\<^sup>* b (snd (messenger_destroy connections handle b))"
proof -
  obtain r b1 where r: "destroy_close handle b = (r, b1)" by fastforce
  then have "bridge_step b b1" by (rule bridge_step.closing)
  then have "bridge_step\<^sup>*\<^sup>* b b1" "bridge_step\<^sup>*\<^sup>* b (destroy_shutdown connections handle b1)"
    using bridge_step.shutting [of b1 connections handle] by auto
  then show ?thesis using r by (cases r) (simp_all add: messenger_destroy_def)
qed

definition handles_ok :: "bridge \<Rightarrow> bool" where
  "handles_ok b \<longleftrightarrow> 1 \<le> br_next b \<and> (\<forall>h. getInstance h b \<noteq> None \<longrightarrow> 1 \<le> h \<and> h < br_next b)"

lemma createMessenger_bridge:
  "createMessenger c L net legacy readFile mkdir absPath opened user muninn dbPath chunkTTL turnAddr turnUser turnPass requested b = (r, b')
   \<Longrightarrow> b' = b \<or> (\<exists>inst. b' = snd (storeInstance inst b) \<and> r = Answer (br_next b))"
  by (auto simp: createMessenger_def Let_def storeInstance_def split: if_splits option.splits go.splits prod.splits)

lemma handles_ok_store: "handles_ok b \<Longrightarrow> handles_ok (snd (storeInstance inst b))"
proof -
  assume ok: "handles_ok b"
  have "1 \<le> h \<and> h < br_next b + 1" if "getInstance h (snd (storeInstance inst b)) \<noteq> None" for h
    using ok that by (cases "h = br_next b") (fastforce simp: handles_ok_def storeInstance_def getInstance_def)+
  then show ?thesis using ok by (simp add: handles_ok_def) (simp add: storeInstance_def)
qed

lemma bridge_step_handles:
  assumes "bridge_step b b'" "handles_ok b"
  shows "handles_ok b' \<and> br_next b \<le> br_next b' \<and> (\<forall>h < br_next b. getInstance h b = None \<longrightarrow> getInstance h b' = None)"
  using assms(1)
proof (cases rule: bridge_step.cases)
  case (creating c L net legacy readFile mkdir absPath opened user muninn dbPath chunkTTL turnAddr turnUser turnPass requested r)
  then show ?thesis using createMessenger_bridge [OF creating] assms(2) handles_ok_store [OF assms(2)]
    by (auto simp: storeInstance_def getInstance_def)
next
  case (closing handle u)
  then show ?thesis using assms(2)
    by (auto simp: destroy_close_def handles_ok_def getInstance_def put_instance_def split: option.splits if_splits)
next
  case (shutting connections handle)
  then show ?thesis using assms(2)
    by (auto simp: destroy_shutdown_def handles_ok_def getInstance_def put_instance_def removeInstance_def split: option.splits)
next
  case (running handle inst inst')
  then show ?thesis using assms(2) by (auto simp: handles_ok_def getInstance_def put_instance_def)
qed

lemma bridge_steps_handles:
  "bridge_step\<^sup>*\<^sup>* b b' \<Longrightarrow> handles_ok b \<Longrightarrow>
   handles_ok b' \<and> br_next b \<le> br_next b' \<and> (\<forall>h < br_next b. getInstance h b = None \<longrightarrow> getInstance h b' = None)"
proof (induction rule: rtranclp_induct)
  case (step y z)
  then show ?case using bridge_step_handles [OF step(2)] by (meson order.trans order_less_le_trans)
qed simp

text \<open>
  A handle names one messenger for ever: after its destruction every call with it is refused,
  whatever messengers are made and destroyed afterwards.
\<close>

theorem destroyed_handle_stays_invalid:
  assumes "bridge_step\<^sup>*\<^sup>* no_bridge b" "getInstance handle b = Some inst" "\<not> in_done inst"
    and "messenger_destroy connections handle b = (r, b1)" "bridge_step\<^sup>*\<^sup>* b1 b2"
  shows "r = Answer () \<and> ask handle f b2 = (Failed ''invalid handle'', b2)"
proof -
  have "handles_ok no_bridge" by (simp add: handles_ok_def no_bridge_def getInstance_def)
  then have b: "handles_ok b" using bridge_steps_handles [OF assms(1)] by blast
  have "bridge_step\<^sup>*\<^sup>* b b1" using destroy_step [of b connections handle] assms(4) by simp
  then have b1: "handles_ok b1" "br_next b \<le> br_next b1" using bridge_steps_handles b by blast+
  have r: "r = Answer ()" "getInstance handle b1 = None"
    using assms(2-4) by (auto simp: messenger_destroy_def destroy_close_def destroy_shutdown_def getInstance_def put_instance_def
        removeInstance_def)
  have "handle < br_next b1" using b assms(2) b1(2) by (auto simp: handles_ok_def)
  then have "getInstance handle b2 = None" using bridge_steps_handles [OF assms(5) b1(1)] r(2) by blast
  then show ?thesis using r by (simp add: ask_def)
qed

lemma destroyed_handle_stays_invalid_witness:
  "\<exists>b r b1. messenger_destroy [] 1 b = (r, b1) \<and> fst (messenger_get_me 1 b) \<noteq> Failed ''invalid handle''
     \<and> messenger_get_me 1 b1 = (Failed ''invalid handle'', b1)"
proof -
  have d: "db_faults empty_db = []" "config_value (db_tables empty_db) ''crypto_keys'' = None"
    by (simp_all add: empty_db_def no_tables_def config_value_def)
  obtain b inst where made: "createMessenger key_codec toy_lib sample_net (\<lambda>_. None) (\<lambda>_. None) True Some (\<lambda>_. Ret empty_db)
        ''ann'' ''http://m'' [] [] [] [] [] [] no_bridge = (Answer 1, b)" "getInstance 1 b = Some inst" "\<not> in_done inst"
    using sample_keys_made [OF d refl] sample_create_runs [OF d(1), of sample_net _ _ "''ann''"] by auto
  obtain r b1 where r: "messenger_destroy [] 1 b = (r, b1)" by fastforce
  have "bridge_step\<^sup>*\<^sup>* no_bridge b" using bridge_step.creating [OF made(1)] by simp
  then have "messenger_get_me 1 b1 = (Failed ''invalid handle'', b1)"
    unfolding messenger_get_me_def
    by (rule conjunct2 [OF destroyed_handle_stays_invalid [OF _ made(2,3) r rtranclp.rtrancl_refl]])
  moreover have "fst (messenger_get_me 1 b) \<noteq> Failed ''invalid handle''"
    using made(2) by (simp add: messenger_get_me_def ask_def answer_of_def)
  ultimately show ?thesis using r by blast
qed

end
