(* ===== verification/Invariants.thy ===== *)
theory Invariants
  imports BridgeSafety
begin

text \<open>
  What every operation of a messenger keeps of the store. Whatever predicate of the tables each
  statement that writes keeps, the whole messenger keeps: the interface \<open>kept\<close> asks for the first,
  and shows the second for every operation, up to \<open>messenger_step\<close>, any of them in any order. The
  interpretations are the primary keys of the tables, a message in the history, a cancelled download, and
  the state every download is in.
\<close>

named_theorems kept_rules

definition tables_of :: "Messenger \<Rightarrow> tables" where
  "tables_of m = db_tables (ms_store m)"

section \<open>Statements\<close>

lemma keeps_reads:
  "keeps I (GetChunk now f i)" "keeps I (GetFileDownload f)" "keeps I (GetGroupChat g)" "keeps I (GetGroupChatByName g)"
  "keeps I GetGroupChats" "keeps I GetKeysJSON" "keeps I (GetLastStateCheck p)" "keeps I (GetMessages c)"
  "keeps I (GetMessagesDesc c lim off)" "keeps I GetStoredPeers" "keeps I GetUnplacedChunks" "keeps I (ListActiveFileDownloads now)"
  "keeps I (ListChunks f)" "keeps I (ListFailedChunks q)" "keeps I (SearchStoredPeers now q)" "keeps I (FindMessageById u)"
  "keeps I (ExportMessagesForStateSync since now)" "keeps I ExportReplicationSnapshot"
  unfolding GetGroupChat_def GetGroupChatByName_def GetGroupChats_def GetKeysJSON_def GetConfigValue_def GetLastStateCheck_def
    GetMessages_def GetMessagesDesc_def GetStoredPeers_def GetUnplacedChunks_def ListActiveFileDownloads_def ListChunks_def
    ListFailedChunks_def SearchStoredPeers_def FindMessageById_def ExportMessagesForStateSync_def ExportReplicationSnapshot_def
    readReplicatedMessages_def readReplicatedPeers_def readReplicatedGroups_def scan_row_def Let_def
  by (intro keeps_GetChunk keeps_GetFileDownload keeps_then keeps_read keeps_if keeps_err keeps_ret keeps_transaction;
      simp add: keeps_ret keeps_err split: option.split prod.split)+

lemma keeps_or_else: "keeps I f \<Longrightarrow> I (db_tables d) \<Longrightarrow> I (db_tables (snd (or_else x f d)))"
  by (auto simp: or_else_def keeps_def split: go.split prod.split)

section \<open>What a messenger does\<close>

text \<open>
  Everything that runs on a messenger, one operation after the other: the frames and signals that
  arrive, the jobs, the turns of the loops and the calls of the program around it, the last with the two
  parts of \<open>Shutdown\<close>; what the WebRTC library reports, and the parts of a negotiation that runs beside them
  (\<open>rtc_step\<close>); and the disk, which other programs write too.
\<close>

inductive messenger_step :: "codec \<Rightarrow> crypto_lib \<Rightarrow> Messenger \<Rightarrow> Messenger \<Rightarrow> bool" for c L where
  frame: "messenger_step c L m (snd (receive_frame c L net p f m))"
| job: "messenger_step c L m (snd (work c L net order m))"
| chat: "messenger_step c L m (processRTCMessages c net m)"
| signals: "messenger_step c L m (processPendingSignals net polled arrived poll m)"
| beat: "messenger_step c L m (heartbeat net m)"
| groups: "messenger_step c L m (registerStoredGroupPeers m)"
| cleaning: "messenger_step c L m (cleanup net m)"
| placing: "messenger_step c L m (distributePendingChunks net m)"
| polling: "messenger_step c L m (snd (checkPendingMessages c L net m))"
| files: "messenger_step c L m (snd (checkPendingFileDownloads c L net (\<lambda>m. m) order m))"
| registering: "messenger_step c L m (snd (MessengerRegister net m))"
| sending: "messenger_step c L m (snd (SendMessage c L net to txt paths ttl m))"
| sending_now: "messenger_step c L m (snd (SendMessageSync c L net to txt paths ttl m))"
| grouping: "messenger_step c L m (snd (CreateGroupChat L net name m))"
| inviting: "messenger_step c L m (snd (InviteToGroupChat c L net g who m))"
| searching: "messenger_step c L m (snd (SearchPeers net query m))"
| finding: "messenger_step c L m (snd (findPeerByID net i m))"
| finding_key: "messenger_step c L m (snd (findPeerByKey net key m))"
| reading: "messenger_step c L m (snd (MessengerGetMessages c peer m))"
| paging: "messenger_step c L m (snd (MessengerGetMessagesDesc c peer lim off m))"
| downloads: "messenger_step c L m (snd (GetFileDownloads net m))"
| cancelling: "messenger_step c L m (snd (cancelDownload net file m))"
| injecting: "messenger_step c L m (InjectChunk net file index data m)"
| returning: "messenger_step c L m (deleteChunksAndReturn file m)"
| configuring: "messenger_step c L m (snd (SaveConfig cfg m))"
| dialling: "messenger_step c L m (snd (relogin_connect L net signature m))"
| asking: "messenger_step c L m (snd (relogin_start peer signature m))"
| taking_over: "messenger_step c L m (snd (relogin_finish c net peer p ref w m))"
| opened: "messenger_step c L m (channel_opened p dc m)"
| changed: "messenger_step c L m (connection_changed p pc s m)"
| linking: "rtc_step (ms_rtc m) w \<Longrightarrow> messenger_step c L m (m\<lparr>ms_rtc := w\<rparr>)"
| choosing: "messenger_step c L m (SetDownloadsDir dir m)"
| writing: "messenger_step c L m (m\<lparr>ms_disk := disk\<rparr>)"
| closing: "messenger_step c L m (m\<lparr>ms_closed := True\<rparr>)"
| shutting: "messenger_step c L m (m\<lparr>ms_rtc := CloseAll connections (ms_rtc m)\<rparr>)"

section \<open>The interface\<close>

text \<open>
  The rules follow the shape of the definitions, so that each lemma about an operation is its
  definition and \<open>intro kept_rules\<close>.
\<close>

locale kept =
  fixes I :: "tables \<Rightarrow> bool"
  assumes SaveMessage: "keeps I (SaveMessage now u l s chat dat at)"
    and QueueOutgoing: "keeps I (QueueOutgoing now u l s chat dat at cs)"
    and ImportStateSyncMessages: "keeps I (ImportStateSyncMessages now rs)"
    and ImportReplicationSnapshot: "keeps I (ImportReplicationSnapshot now snap)"
    and SetLastStateCheck: "keeps I (SetLastStateCheck p at)"
    and StoreChunk: "keeps I (StoreChunk now f i data ttl)"
    and DeleteChunks: "keeps I (DeleteChunks f)"
    and DeleteChunk: "keeps I (DeleteChunk f i)"
    and DeleteChunksWithMessage: "keeps I DeleteChunksWithMessage"
    and DeleteExpiredChunks: "keeps I (DeleteExpiredChunks now)"
    and DeleteExpiredPendingChunks: "keeps I (DeleteExpiredPendingChunks now)"
    and MarkChunkPlaced: "keeps I (MarkChunkPlaced f i)"
    and StorePeer: "keeps I (StorePeer l p e s at fake)"
    and StoreCreateGroupChat: "keeps I (StoreCreateGroupChat gc)"
    and SetLastChunkCheck: "keeps I (SetLastChunkCheck q checked)"
    and StoreFailedChunk: "keeps I (StoreFailedChunk now f i q ttl)"
    and DeleteFailedChunk: "keeps I (DeleteFailedChunk f i)"
    and DeleteExpiredFailedChunks: "keeps I (DeleteExpiredFailedChunks now)"
    and DeleteFailedMessage: "keeps I (DeleteFailedMessage f)"
    and TrackFileDownload: "keeps I (TrackFileDownload f name k at ttl)"
    and MarkFileDownloadCompleted: "keeps I (MarkFileDownloadCompleted f path at)"
    and CancelFileDownload: "keeps I (CancelFileDownload f now)"
    and ResetFileDownloadCompletion: "keeps I (ResetFileDownloadCompletion f)"
    and MarkFileDownloadStopped: "keeps I (MarkFileDownloadStopped f at)"
    and SetConfigValue: "keeps I (SetConfigValue n v)"
begin

definition good :: "Messenger \<Rightarrow> bool" where
  "good m \<longleftrightarrow> I (tables_of m)"

definition safe :: "'a \<times> Messenger \<Rightarrow> bool" where
  "safe x \<longleftrightarrow> good (snd x)"

lemma safe_pair [kept_rules]: "good m \<Longrightarrow> safe (a, m)"
  by (simp add: safe_def)

lemma good_snd [kept_rules]: "safe x \<Longrightarrow> good (snd x)"
  by (simp add: safe_def)

lemma safe_bind [kept_rules]:
  "safe x \<Longrightarrow> (\<And>a m. x = (a, m) \<Longrightarrow> good m \<Longrightarrow> safe (f a m)) \<Longrightarrow> safe (case x of (a, m) \<Rightarrow> f a m)"
  "safe x \<Longrightarrow> (\<And>a m. x = (a, m) \<Longrightarrow> good m \<Longrightarrow> good (g a m)) \<Longrightarrow> good (case x of (a, m) \<Rightarrow> g a m)"
  by (auto simp: safe_def split: prod.split)

lemma safe_tuple [kept_rules]:
  "(\<And>a b. y = (a, b) \<Longrightarrow> safe (f a b)) \<Longrightarrow> safe (case y of (a, b) \<Rightarrow> f a b)"
  "(\<And>a b. y = (a, b) \<Longrightarrow> good (g a b)) \<Longrightarrow> good (case y of (a, b) \<Rightarrow> g a b)"
  "(\<And>a b. y = (a, b) \<Longrightarrow> good (h a b m)) \<Longrightarrow> good ((case y of (a, b) \<Rightarrow> h a b) m)"
  by (auto split: prod.split)

lemma safe_go [kept_rules]:
  "(\<And>x. r = Ret x \<Longrightarrow> safe (f x)) \<Longrightarrow> (\<And>e. r = Err e \<Longrightarrow> safe (g e)) \<Longrightarrow> (\<And>e. r = Panic e \<Longrightarrow> safe (h e))
    \<Longrightarrow> safe (case r of Ret x \<Rightarrow> f x | Err e \<Rightarrow> g e | Panic e \<Rightarrow> h e)"
  "(\<And>x. r = Ret x \<Longrightarrow> good (f' x)) \<Longrightarrow> (\<And>e. r = Err e \<Longrightarrow> good (g' e)) \<Longrightarrow> (\<And>e. r = Panic e \<Longrightarrow> good (h' e))
    \<Longrightarrow> good (case r of Ret x \<Rightarrow> f' x | Err e \<Rightarrow> g' e | Panic e \<Rightarrow> h' e)"
  by (auto split: go.split)

lemma safe_option [kept_rules]:
  "(r = None \<Longrightarrow> safe f) \<Longrightarrow> (\<And>x. r = Some x \<Longrightarrow> safe (g x)) \<Longrightarrow> safe (case r of None \<Rightarrow> f | Some x \<Rightarrow> g x)"
  "(r = None \<Longrightarrow> good f') \<Longrightarrow> (\<And>x. r = Some x \<Longrightarrow> good (g' x)) \<Longrightarrow> good (case r of None \<Rightarrow> f' | Some x \<Rightarrow> g' x)"
  by (auto split: option.split)

lemma safe_list [kept_rules]:
  "(r = [] \<Longrightarrow> safe f) \<Longrightarrow> (\<And>x xs. r = x # xs \<Longrightarrow> safe (g x xs)) \<Longrightarrow> safe (case r of [] \<Rightarrow> f | x # xs \<Rightarrow> g x xs)"
  "(r = [] \<Longrightarrow> good f') \<Longrightarrow> (\<And>x xs. r = x # xs \<Longrightarrow> good (g' x xs)) \<Longrightarrow> good (case r of [] \<Rightarrow> f' | x # xs \<Rightarrow> g' x xs)"
  by (auto split: list.split)

lemma safe_if [kept_rules]:
  "(c \<Longrightarrow> safe f) \<Longrightarrow> (\<not> c \<Longrightarrow> safe g) \<Longrightarrow> safe (if c then f else g)"
  "(c \<Longrightarrow> good f') \<Longrightarrow> (\<not> c \<Longrightarrow> good g') \<Longrightarrow> good (if c then f' else g')"
  by auto

lemma safe_bool [kept_rules]: "(c \<Longrightarrow> safe f) \<Longrightarrow> (\<not> c \<Longrightarrow> safe g) \<Longrightarrow> safe (case c of True \<Rightarrow> f | False \<Rightarrow> g)"
  by (cases c) auto

lemma safe_awaited [kept_rules]:
  "safe f \<Longrightarrow> safe g \<Longrightarrow> safe h \<Longrightarrow> safe (case w of Answered \<Rightarrow> f | TimedOut \<Rightarrow> g | Stopped \<Rightarrow> h)"
  by (cases w) auto

lemma safe_calling [kept_rules]:
  "safe f \<Longrightarrow> (\<And>cb. safe (g cb)) \<Longrightarrow> (\<And>cb. safe (h cb)) \<Longrightarrow> safe (case w of NoCall \<Rightarrow> f | Direct cb \<Rightarrow> g cb | Async cb \<Rightarrow> h cb)"
  by (cases w) auto

lemma good_fold [kept_rules]: "(\<And>x m. good m \<Longrightarrow> good (f x m)) \<Longrightarrow> good m \<Longrightarrow> good (fold f xs m)"
  by (induction xs arbitrary: m) auto

lemma good_update:
  "good (m\<lparr>ms_rtc := a1\<rparr>) = good m" "good (m\<lparr>ms_jobs := a2\<rparr>) = good m" "good (m\<lparr>ms_events := a3\<rparr>) = good m"
  "good (m\<lparr>ms_peersMap := a4\<rparr>) = good m" "good (m\<lparr>ms_peers := a5\<rparr>) = good m" "good (m\<lparr>ms_connecting := a6\<rparr>) = good m"
  "good (m\<lparr>ms_registered := a7\<rparr>) = good m" "good (m\<lparr>ms_closed := a8\<rparr>) = good m" "good (m\<lparr>ms_pending := a9\<rparr>) = good m"
  "good (m\<lparr>ms_downloads := b1\<rparr>) = good m" "good (m\<lparr>ms_cancelled := b2\<rparr>) = good m" "good (m\<lparr>ms_processing := b3\<rparr>) = good m"
  "good (m\<lparr>ms_config := b4\<rparr>) = good m" "good (m\<lparr>ms_heap := b5\<rparr>) = good m" "good (m\<lparr>ms_relogin := b6\<rparr>) = good m"
  "good (m\<lparr>ms_next := b7\<rparr>) = good m" "good (m\<lparr>ms_requested := b8\<rparr>) = good m" "good (m\<lparr>ms_incoming := b9\<rparr>) = good m"
  "good (m\<lparr>ms_outgoing := c1\<rparr>) = good m" "good (m\<lparr>ms_replicas := c2\<rparr>) = good m" "good (m\<lparr>ms_signals := c3\<rparr>) = good m"
  "good (m\<lparr>ms_disk := c4\<rparr>) = good m" "good (m\<lparr>ms_dir := c5\<rparr>) = good m" "good (m\<lparr>ms_delivering := c6\<rparr>) = good m"
  "good (m\<lparr>ms_adverts := c7\<rparr>) = good m" "good (m\<lparr>ms_registrations := c8\<rparr>) = good m" "good (m\<lparr>ms_keys := c9\<rparr>) = good m"
  "good (m\<lparr>ms_key := d1\<rparr>) = good m" "good (m\<lparr>ms_user := d2\<rparr>) = good m" "good (m\<lparr>ms_id := d3\<rparr>) = good m"
  by (simp_all add: good_def tables_of_def)

lemmas good_updates [kept_rules] = good_update [THEN iffD2]

lemma safe_store [kept_rules]: "keeps I f \<Longrightarrow> good m \<Longrightarrow> safe (store f m)"
  by (auto simp: safe_def good_def tables_of_def store_def keeps_def split: prod.split)

lemma safe_rtc [kept_rules]: "good m \<Longrightarrow> safe (rtc f m)"
  by (auto simp: safe_def good_def tables_of_def rtc_def split: prod.split)

lemma good_or_else:
  "keeps I f \<Longrightarrow> good m \<Longrightarrow> or_else x f (ms_store m) = (a, d) \<Longrightarrow> good (m\<lparr>ms_store := d\<rparr>)"
  using keeps_or_else [of I f "ms_store m" x] by (simp add: good_def tables_of_def)

lemma safe_track [kept_rules]:
  "good m \<Longrightarrow> (\<And>a d. IsChunkFailed f i (ms_store m) = (a, d) \<Longrightarrow> good (m\<lparr>ms_store := d\<rparr>) \<Longrightarrow> safe (k a d))
    \<Longrightarrow> safe (case IsChunkFailed f i (ms_store m) of (a, d) \<Rightarrow> k a d)"
  "good m \<Longrightarrow> (\<And>a d. GetLastChunkCheck q (ms_store m) = (a, d) \<Longrightarrow> good (m\<lparr>ms_store := d\<rparr>) \<Longrightarrow> safe (k' a d))
    \<Longrightarrow> safe (case GetLastChunkCheck q (ms_store m) of (a, d) \<Rightarrow> k' a d)"
  by (auto simp: IsChunkFailed_def GetLastChunkCheck_def split: prod.split dest: good_or_else [OF keeps_read])

lemmas writes [kept_rules] = SaveMessage QueueOutgoing ImportStateSyncMessages ImportReplicationSnapshot SetLastStateCheck
  StoreChunk DeleteChunks DeleteChunk DeleteChunksWithMessage DeleteExpiredChunks DeleteExpiredPendingChunks MarkChunkPlaced
  StorePeer StoreCreateGroupChat SetLastChunkCheck StoreFailedChunk DeleteFailedChunk DeleteExpiredFailedChunks
  DeleteFailedMessage TrackFileDownload MarkFileDownloadCompleted CancelFileDownload ResetFileDownloadCompletion
  MarkFileDownloadStopped SetConfigValue

lemma saves [kept_rules]: "keeps I (SaveAppConfig cfg)" "keeps I (SaveKeysJSON data)"
  unfolding SaveAppConfig_def SaveKeysJSON_def
  by (auto intro!: keeps_each SetConfigValue simp: keeps_ret split: prod.split)

lemma reads [kept_rules]:
  "keeps I (GetChunk now f i)" "keeps I (GetFileDownload f)" "keeps I (GetGroupChat g)" "keeps I (GetGroupChatByName g)"
  "keeps I GetGroupChats" "keeps I GetKeysJSON" "keeps I (GetLastStateCheck p)" "keeps I (GetMessages c)"
  "keeps I (GetMessagesDesc c lim off)" "keeps I GetStoredPeers" "keeps I GetUnplacedChunks" "keeps I (ListActiveFileDownloads now)"
  "keeps I (ListChunks f)" "keeps I (ListFailedChunks q)" "keeps I (SearchStoredPeers now q)" "keeps I (FindMessageById u)"
  "keeps I (ExportMessagesForStateSync since now)" "keeps I ExportReplicationSnapshot"
  by (simp_all add: keeps_reads)

subsection \<open>The store, the connections and the pool\<close>

lemma send [kept_rules]: "good m \<Longrightarrow> safe (send a0 a1 m)"
  unfolding send_def Let_def by (intro kept_rules; simp)

lemma notify [kept_rules]: "good m \<Longrightarrow> good (notify a0 m)"
  unfolding notify_def Let_def by (intro kept_rules; simp)

lemma submit [kept_rules]: "good m \<Longrightarrow> safe (submit a0 m)"
  unfolding submit_def Let_def by (intro kept_rules; simp)

lemma trySubmit [kept_rules]: "good m \<Longrightarrow> safe (trySubmit a0 m)"
  unfolding trySubmit_def Let_def by (intro kept_rules; simp)

subsection \<open>Signals and dialling\<close>

lemma dial_start [kept_rules]: "good m \<Longrightarrow> good (dial_start a0 m)"
  unfolding dial_start_def Let_def by (intro kept_rules; simp)

lemma dial_end [kept_rules]: "good m \<Longrightarrow> good (dial_end a0 m)"
  unfolding dial_end_def Let_def by (intro kept_rules; simp)

lemma send_signal [kept_rules]: "good m \<Longrightarrow> safe (send_signal a0 a1 a2 a3 m)"
  unfolding send_signal_def Let_def by (intro kept_rules; simp)

lemma dial [kept_rules]: "good m \<Longrightarrow> safe (dial a0 a1 m)"
  unfolding dial_def Let_def by (intro kept_rules; simp)

lemma ConnectPeer [kept_rules]: "good m \<Longrightarrow> safe (ConnectPeer a0 a1 m)"
  unfolding ConnectPeer_def Let_def by (intro kept_rules; simp)

lemma DisconnectPeer [kept_rules]: "good m \<Longrightarrow> good (DisconnectPeer a0 m)"
  unfolding DisconnectPeer_def Let_def by (intro kept_rules; simp)

lemma handleSignal [kept_rules]: "good m \<Longrightarrow> good (handleSignal a0 a1 m)"
  unfolding handleSignal_def Let_def by (intro kept_rules; simp)

lemma processPendingSignals [kept_rules]: "good m \<Longrightarrow> good (processPendingSignals a0 a1 a2 a3 m)"
  unfolding processPendingSignals_def Let_def by (intro kept_rules; simp)

subsection \<open>State synchronisation\<close>

lemma isAuthorizedReplicaPeer [kept_rules]: "good m \<Longrightarrow> safe (isAuthorizedReplicaPeer a0 a1 m)"
  unfolding isAuthorizedReplicaPeer_def Let_def by (intro kept_rules; simp)

lemma handlePeerConnected [kept_rules]: "good m \<Longrightarrow> good (handlePeerConnected a0 a1 m)"
  unfolding handlePeerConnected_def Let_def by (intro kept_rules; simp)

lemma handlePeerDisconnected [kept_rules]: "good m \<Longrightarrow> good (handlePeerDisconnected a0 m)"
  unfolding handlePeerDisconnected_def Let_def by (intro kept_rules; simp)

lemma connect_replicas [kept_rules]: "good m \<Longrightarrow> good (connect_replicas a0 a1 a2 m)"
proof (induction a2 arbitrary: a0 a1 m)
  case Nil
  then show ?case by (simp add: safe_def)
next
  case (Cons x xs)
  show ?case unfolding connect_replicas.simps Let_def by (intro kept_rules Cons.IH; simp add: Cons.prems)
qed

lemma refreshReplicaConnections [kept_rules]: "good m \<Longrightarrow> good (refreshReplicaConnections a0 m)"
  unfolding refreshReplicaConnections_def Let_def by (intro kept_rules; simp)

lemma send_blocks [kept_rules]: "good m \<Longrightarrow> safe (send_blocks a0 a1 a2 a3 m)"
proof (induction a3 arbitrary: a0 a1 a2 m)
  case Nil
  then show ?case by (simp add: safe_def)
next
  case (Cons x xs)
  show ?case unfolding send_blocks.simps Let_def by (intro kept_rules Cons.IH; simp add: Cons.prems)
qed

lemma drop_outgoing [kept_rules]: "good m \<Longrightarrow> good (drop_outgoing a0 a1 m)"
  unfolding drop_outgoing_def Let_def by (intro kept_rules; simp)

lemma start_outgoing [kept_rules]: "good m \<Longrightarrow> good (start_outgoing a0 a1 a2 m)"
  unfolding start_outgoing_def Let_def by (intro kept_rules; simp)

lemma transmit [kept_rules]: "good m \<Longrightarrow> safe (transmit a0 a1 a2 a3 a4 a5 m)"
  unfolding transmit_def Let_def by (intro kept_rules; simp)

lemma sendStateSync [kept_rules]: "good m \<Longrightarrow> safe (sendStateSync a0 a1 a2 a3 m)"
  unfolding sendStateSync_def Let_def by (intro kept_rules; simp)

lemma handleStateSyncRequest [kept_rules]: "good m \<Longrightarrow> good (handleStateSyncRequest a0 a1 a2 a3 m)"
  unfolding handleStateSyncRequest_def Let_def by (intro kept_rules; simp)

lemma end_sync [kept_rules]: "good m \<Longrightarrow> good (end_sync a0 m)"
  unfolding end_sync_def Let_def by (intro kept_rules; simp)

lemma handleStateSyncManifest [kept_rules]: "good m \<Longrightarrow> good (handleStateSyncManifest a0 a1 m)"
  unfolding handleStateSyncManifest_def Let_def by (intro kept_rules; simp)

lemma clearIncomingStateSync [kept_rules]: "good m \<Longrightarrow> good (clearIncomingStateSync a0 a1 m)"
  unfolding clearIncomingStateSync_def Let_def by (intro kept_rules; simp)

lemma failStateSyncImport [kept_rules]: "good m \<Longrightarrow> good (failStateSyncImport a0 a1 a2 m)"
  unfolding failStateSyncImport_def Let_def by (intro kept_rules; simp)

lemma handleStateSyncChunk [kept_rules]: "good m \<Longrightarrow> good (handleStateSyncChunk a0 a1 m)"
  unfolding handleStateSyncChunk_def Let_def by (intro kept_rules; simp)

lemma queue_files [kept_rules]: "good m \<Longrightarrow> good (queue_files a0 a1 a2 m)"
proof (induction a2 arbitrary: a0 a1 m)
  case Nil
  then show ?case by (simp add: safe_def)
next
  case (Cons x xs)
  show ?case unfolding queue_files.simps Let_def by (intro kept_rules Cons.IH; simp add: Cons.prems)
qed

lemma queueFileDownloads [kept_rules]: "good m \<Longrightarrow> good (queueFileDownloads a0 a1 a2 a3 m)"
proof (induction a1 arbitrary: a0 a2 a3 m)
  case Nil
  then show ?case by (simp add: safe_def)
next
  case (Cons x xs)
  show ?case unfolding queueFileDownloads.simps Let_def by (intro kept_rules Cons.IH; simp add: Cons.prems)
qed

lemma finishStateSyncImport [kept_rules]: "good m \<Longrightarrow> good (finishStateSyncImport a0 a1 a2 a3 a4 m)"
  unfolding finishStateSyncImport_def Let_def by (intro kept_rules; simp)

lemma handleStateSyncAck [kept_rules]: "good m \<Longrightarrow> good (handleStateSyncAck a0 a1 m)"
  unfolding handleStateSyncAck_def Let_def by (intro kept_rules; simp)

subsection \<open>Peers\<close>

lemma upsertPeer [kept_rules]: "good m \<Longrightarrow> good (upsertPeer a0 a1 a2 a3 a4 a5 a6 a7 m)"
  unfolding upsertPeer_def Let_def by (intro kept_rules; simp)

lemma upsert_found [kept_rules]: "good m \<Longrightarrow> good (upsert_found a0 m)"
  unfolding upsert_found_def Let_def by (intro kept_rules; simp)

lemma findPeerByID [kept_rules]: "good m \<Longrightarrow> safe (findPeerByID a0 a1 m)"
  unfolding findPeerByID_def Let_def by (intro kept_rules; simp)

lemma findPeerByKey [kept_rules]: "good m \<Longrightarrow> safe (findPeerByKey a0 a1 m)"
  unfolding findPeerByKey_def Let_def by (intro kept_rules; simp)

lemma reloadReplicatedPeers [kept_rules]: "good m \<Longrightarrow> good (reloadReplicatedPeers a0 m)"
  unfolding reloadReplicatedPeers_def Let_def by (intro kept_rules; simp)

subsection \<open>Blocks\<close>

lemma meet [kept_rules]: "good m \<Longrightarrow> good (meet a0 a1 m)"
  unfolding meet_def Let_def by (intro kept_rules; simp)

lemma waitForPeerConnection [kept_rules]: "good m \<Longrightarrow> safe (waitForPeerConnection a0 a1 m)"
  unfolding waitForPeerConnection_def Let_def by (intro kept_rules; simp)

lemma send_get [kept_rules]: "good m \<Longrightarrow> good (send_get a0 a1 m)"
  unfolding send_get_def Let_def by (intro kept_rules; simp)

lemma handleChunkStore [kept_rules]: "good m \<Longrightarrow> safe (handleChunkStore a0 a1 a2 a3 m)"
  unfolding handleChunkStore_def Let_def by (intro kept_rules; simp)

lemma handleChunkGet [kept_rules]: "good m \<Longrightarrow> safe (handleChunkGet a0 a1 m)"
  unfolding handleChunkGet_def Let_def by (intro kept_rules; simp)

lemma StoredChunkData [kept_rules]: "good m \<Longrightarrow> safe (StoredChunkData a0 a1 a2 m)"
  unfolding StoredChunkData_def Let_def by (intro kept_rules; simp)

lemma InjectChunk [kept_rules]: "good m \<Longrightarrow> good (InjectChunk a0 a1 a2 a3 m)"
  unfolding InjectChunk_def Let_def by (intro kept_rules; simp)

lemma deleteChunksAndReturn [kept_rules]: "good m \<Longrightarrow> good (deleteChunksAndReturn a0 m)"
  unfolding deleteChunksAndReturn_def Let_def by (intro kept_rules; simp)

lemma cleanup [kept_rules]: "good m \<Longrightarrow> good (cleanup a0 m)"
  unfolding cleanup_def Let_def by (intro kept_rules; simp)

lemma ask_devices [kept_rules]: "good m \<Longrightarrow> good (ask_devices a0 a1 a2 a3 m)"
proof (induction a3 arbitrary: a0 a1 a2 m)
  case Nil
  then show ?case by (simp add: safe_def)
next
  case (Cons x xs)
  show ?case unfolding ask_devices.simps Let_def by (intro kept_rules Cons.IH; simp add: Cons.prems)
qed

lemma requestMissingChunkWithContext [kept_rules]: "good m \<Longrightarrow> good (requestMissingChunkWithContext a0 a1 a2 a3 a4 m)"
  unfolding requestMissingChunkWithContext_def Let_def by (intro kept_rules; simp)

lemma requestMissingChunk [kept_rules]: "good m \<Longrightarrow> good (requestMissingChunk a0 a1 a2 a3 m)"
  unfolding requestMissingChunk_def Let_def by (intro kept_rules; simp)

lemma getChunkDataWithContext [kept_rules]: "good m \<Longrightarrow> safe (getChunkDataWithContext a0 a1 a2 m)"
  unfolding getChunkDataWithContext_def Let_def by (intro kept_rules; simp)

lemma getChunkData [kept_rules]: "good m \<Longrightarrow> safe (getChunkData a0 a1 m)"
  unfolding getChunkData_def Let_def by (intro kept_rules; simp)

lemma try_records [kept_rules]: "good m \<Longrightarrow> good (try_records a0 a1 a2 a3 m)"
proof (induction a3 arbitrary: a0 a1 a2 m)
  case Nil
  then show ?case by (simp add: safe_def)
next
  case (Cons x xs)
  show ?case unfolding try_records.simps Let_def by (intro kept_rules Cons.IH; simp add: Cons.prems)
qed

lemma ask_preferred [kept_rules]: "good m \<Longrightarrow> good (ask_preferred a0 a1 a2 a3 m)"
  unfolding ask_preferred_def Let_def by (intro kept_rules; simp)

lemma requestMissingChunkFromPeer [kept_rules]: "good m \<Longrightarrow> good (requestMissingChunkFromPeer a0 a1 a2 a3 a4 a5 m)"
  unfolding requestMissingChunkFromPeer_def Let_def by (intro kept_rules; simp)

lemma dial_job [kept_rules]: "good m \<Longrightarrow> good (dial_job a0 a1 a2 m)"
  unfolding dial_job_def Let_def by (intro kept_rules; simp)

lemma await_job [kept_rules]: "good m \<Longrightarrow> good (await_job a0 a1 a2 a3 m)"
  unfolding await_job_def Let_def by (intro kept_rules; simp)

lemma fetch_job [kept_rules]: "good m \<Longrightarrow> good (fetch_job a0 a1 a2 a3 m)"
  unfolding fetch_job_def Let_def by (intro kept_rules; simp)

subsection \<open>Downloads\<close>

lemma removePendingFileDownload [kept_rules]: "good m \<Longrightarrow> good (removePendingFileDownload a0 m)"
  unfolding removePendingFileDownload_def Let_def by (intro kept_rules; simp)

lemma endFileDownload [kept_rules]: "good m \<Longrightarrow> good (endFileDownload a0 m)"
  unfolding endFileDownload_def Let_def by (intro kept_rules; simp)

lemma cancelDownload [kept_rules]: "good m \<Longrightarrow> safe (cancelDownload a0 a1 m)"
  unfolding cancelDownload_def Let_def by (intro kept_rules; simp)

lemma beginFileDownload [kept_rules]: "good m \<Longrightarrow> safe (beginFileDownload a0 m)"
  unfolding beginFileDownload_def Let_def by (intro kept_rules; simp)

lemma GetFileDownloads [kept_rules]: "good m \<Longrightarrow> safe (GetFileDownloads a0 m)"
  unfolding GetFileDownloads_def Let_def by (intro kept_rules; simp)

lemma completeFileDownload [kept_rules]: "(\<And>m. good m \<Longrightarrow> good (g1 m)) \<Longrightarrow> good m \<Longrightarrow> safe (completeFileDownload a0 g1 a2 a3 a4 a5 m)"
  unfolding completeFileDownload_def Let_def by (intro kept_rules; simp)

lemma notifyFileReady [kept_rules]: "good m \<Longrightarrow> good (notifyFileReady a0 a1 a2 m)"
  unfolding notifyFileReady_def Let_def by (intro kept_rules; simp)

lemma find_local [kept_rules]: "good m \<Longrightarrow> safe (find_local a0 a1 a2 a3 a4 m)"
  unfolding find_local_def Let_def by (intro kept_rules; simp)

lemma prepareFileDownload [kept_rules]: "good m \<Longrightarrow> safe (prepareFileDownload a0 a1 a2 a3 m)"
  unfolding prepareFileDownload_def Let_def by (intro kept_rules; simp)

lemma tryProcessMsg [kept_rules]: "good m \<Longrightarrow> safe (tryProcessMsg a0 m)"
  unfolding tryProcessMsg_def Let_def by (intro kept_rules; simp)

lemma releaseProcessMsg [kept_rules]: "good m \<Longrightarrow> good (releaseProcessMsg a0 m)"
  unfolding releaseProcessMsg_def Let_def by (intro kept_rules; simp)

lemma ask_missing [kept_rules]: "good m \<Longrightarrow> good (ask_missing a0 a1 a2 a3 a4 a5 a6 m)"
proof (induction a6 arbitrary: a0 a1 a2 a3 a4 a5 m)
  case Nil
  then show ?case by (simp add: safe_def)
next
  case (Cons x xs)
  show ?case unfolding ask_missing.simps Let_def by (intro kept_rules Cons.IH; simp add: Cons.prems)
qed

lemma sender_sign_key [kept_rules]: "good m \<Longrightarrow> safe (sender_sign_key a0 a1 m)"
  unfolding sender_sign_key_def Let_def by (intro kept_rules; simp)

lemma save_file [kept_rules]: "(\<And>m. good m \<Longrightarrow> good (g3 m)) \<Longrightarrow> good m \<Longrightarrow> safe (save_file a0 a1 a2 g3 a4 a5 a6 a7 m)"
  unfolding save_file_def Let_def by (intro kept_rules; simp)

lemma advance_download [kept_rules]: "(\<And>m. good m \<Longrightarrow> good (g3 m)) \<Longrightarrow> good m \<Longrightarrow> safe (advance_download a0 a1 a2 g3 a4 a5 a6 m)"
  unfolding advance_download_def Let_def by (intro kept_rules; simp)

lemma processReceivedFileFromPeer [kept_rules]: "(\<And>m. good m \<Longrightarrow> good (g3 m)) \<Longrightarrow> good m \<Longrightarrow> safe (processReceivedFileFromPeer a0 a1 a2 g3 a4 a5 a6 m)"
  unfolding processReceivedFileFromPeer_def Let_def by (intro kept_rules; simp)

lemma processReceivedFile [kept_rules]: "good m \<Longrightarrow> safe (processReceivedFile a0 a1 a2 a3 a4 m)"
  unfolding processReceivedFile_def Let_def by (intro kept_rules; simp)

lemma checkPendingFileDownloads [kept_rules]: "(\<And>m. good m \<Longrightarrow> good (g3 m)) \<Longrightarrow> good m \<Longrightarrow> safe (checkPendingFileDownloads a0 a1 a2 g3 a4 m)"
proof (induction a4 arbitrary: a0 a1 a2 m)
  case Nil
  then show ?case by (simp add: safe_def)
next
  case (Cons x xs)
  show ?case unfolding checkPendingFileDownloads.simps Let_def by (intro kept_rules Cons.IH; simp add: Cons.prems)
qed

lemma resumeFileDownloads [kept_rules]: "good m \<Longrightarrow> good (resumeFileDownloads a0 m)"
  unfolding resumeFileDownloads_def Let_def by (intro kept_rules; simp)

lemma restore_path [kept_rules]: "good m \<Longrightarrow> safe (restore_path a0 m)"
  unfolding restore_path_def Let_def by (intro kept_rules; simp)

lemma restore_paths [kept_rules]: "good m \<Longrightarrow> safe (restore_paths a0 m)"
proof (induction a0 arbitrary: m)
  case Nil
  then show ?case by (simp add: safe_def)
next
  case (Cons x xs)
  show ?case unfolding restore_paths.simps Let_def by (intro kept_rules Cons.IH; simp add: Cons.prems)
qed

lemma restoreDownloadedFilePaths [kept_rules]: "good m \<Longrightarrow> safe (restoreDownloadedFilePaths a0 m)"
  unfolding restoreDownloadedFilePaths_def Let_def by (intro kept_rules; simp)

subsection \<open>Sending and placing\<close>

lemma find_recipient [kept_rules]: "good m \<Longrightarrow> safe (find_recipient a0 a1 m)"
  unfolding find_recipient_def Let_def by (intro kept_rules; simp)

lemma prepareOutgoing [kept_rules]: "good m \<Longrightarrow> safe (prepareOutgoing a0 a1 a2 a3 a4 a5 a6 m)"
  unfolding prepareOutgoing_def Let_def by (intro kept_rules; simp)

lemma SendMessage [kept_rules]: "good m \<Longrightarrow> safe (SendMessage a0 a1 a2 a3 a4 a5 a6 m)"
  unfolding SendMessage_def Let_def by (intro kept_rules; simp)

lemma registerChunkLocation [kept_rules]: "good m \<Longrightarrow> safe (registerChunkLocation a0 a1 a2 a3 m)"
  unfolding registerChunkLocation_def Let_def by (intro kept_rules; simp)

lemma mark_placed [kept_rules]: "good m \<Longrightarrow> good (mark_placed a0 m)"
  unfolding mark_placed_def Let_def by (intro kept_rules; simp)

lemma place_batch [kept_rules]: "good m \<Longrightarrow> good (place_batch a0 a1 a2 a3 a4 m)"
  unfolding place_batch_def Let_def by (intro kept_rules; simp)

lemma place_file [kept_rules]: "good m \<Longrightarrow> good (place_file a0 a1 a2 m)"
  unfolding place_file_def Let_def by (intro kept_rules; simp)

lemma reach [kept_rules]: "good m \<Longrightarrow> safe (reach a0 a1 m)"
  unfolding reach_def Let_def by (intro kept_rules; simp)

lemma place_peers [kept_rules]: "good m \<Longrightarrow> good (place_peers a0 a1 a2 a3 m)"
proof (induction a3 arbitrary: a0 a1 a2 m)
  case Nil
  then show ?case by (simp add: safe_def)
next
  case (Cons x xs)
  show ?case unfolding place_peers.simps Let_def by (intro kept_rules Cons.IH; simp add: Cons.prems)
qed

lemma distributeChunksForRecipient [kept_rules]: "good m \<Longrightarrow> good (distributeChunksForRecipient a0 a1 m)"
  unfolding distributeChunksForRecipient_def Let_def by (intro kept_rules; simp)

lemma distributeChunks [kept_rules]: "good m \<Longrightarrow> good (distributeChunks a0 a1 m)"
  unfolding distributeChunks_def Let_def by (intro kept_rules; simp)

lemma distributePendingChunks [kept_rules]: "good m \<Longrightarrow> good (distributePendingChunks a0 m)"
  unfolding distributePendingChunks_def Let_def by (intro kept_rules; simp)

lemma send_direct [kept_rules]: "good m \<Longrightarrow> good (send_direct a0 a1 a2 m)"
  unfolding send_direct_def Let_def by (intro kept_rules; simp)

lemma deliverOutgoing [kept_rules]: "good m \<Longrightarrow> good (deliverOutgoing a0 a1 m)"
  unfolding deliverOutgoing_def Let_def by (intro kept_rules; simp)

lemma SendMessageSync [kept_rules]: "good m \<Longrightarrow> safe (SendMessageSync a0 a1 a2 a3 a4 a5 a6 m)"
  unfolding SendMessageSync_def Let_def by (intro kept_rules; simp)

subsection \<open>Groups\<close>

lemma checkInviteText [kept_rules]: "good m \<Longrightarrow> safe (checkInviteText a0 a1 a2 m)"
  unfolding checkInviteText_def Let_def by (intro kept_rules; simp)

lemma CreateGroupChat [kept_rules]: "good m \<Longrightarrow> safe (CreateGroupChat a0 a1 a2 m)"
  unfolding CreateGroupChat_def Let_def by (intro kept_rules; simp)

lemma send_registration [kept_rules]: "good m \<Longrightarrow> good (send_registration a0 m)"
  unfolding send_registration_def Let_def by (intro kept_rules; simp)

lemma registerGroupPeer [kept_rules]: "good m \<Longrightarrow> good (registerGroupPeer a0 m)"
  unfolding registerGroupPeer_def Let_def by (intro kept_rules; simp)

lemma registerStoredGroupPeers [kept_rules]: "good m \<Longrightarrow> good (registerStoredGroupPeers m)"
  unfolding registerStoredGroupPeers_def Let_def by (intro kept_rules; simp)

lemma InviteToGroupChat [kept_rules]: "good m \<Longrightarrow> safe (InviteToGroupChat a0 a1 a2 a3 a4 m)"
  unfolding InviteToGroupChat_def Let_def by (intro kept_rules; simp)

subsection \<open>Receiving\<close>

lemma rtc_message [kept_rules]: "good m \<Longrightarrow> good (rtc_message a0 a1 a2 m)"
  unfolding rtc_message_def Let_def by (intro kept_rules; simp)

lemma processRTCMessages [kept_rules]: "good m \<Longrightarrow> good (processRTCMessages a0 a1 m)"
  unfolding processRTCMessages_def Let_def by (intro kept_rules; simp)

lemma track_records [kept_rules]: "good m \<Longrightarrow> safe (track_records a0 a1 a2 m)"
proof (induction a2 arbitrary: a0 a1 m)
  case Nil
  then show ?case by (simp add: safe_def)
next
  case (Cons x xs)
  show ?case unfolding track_records.simps Let_def by (intro kept_rules Cons.IH; simp add: Cons.prems)
qed

lemma collect_blocks [kept_rules]: "good m \<Longrightarrow> safe (collect_blocks a0 a1 a2 a3 a4 m)"
proof (induction a2 arbitrary: a0 a1 a3 a4 m)
  case Nil
  then show ?case by (simp add: safe_def)
next
  case (Cons x xs)
  show ?case unfolding collect_blocks.simps Let_def by (intro kept_rules Cons.IH; simp add: Cons.prems)
qed

lemma reading_keys [kept_rules]: "good m \<Longrightarrow> safe (reading_keys a0 m)"
  unfolding reading_keys_def Let_def by (intro kept_rules; simp)

lemma chat_of [kept_rules]: "good m \<Longrightarrow> safe (chat_of a0 a1 m)"
  unfolding chat_of_def Let_def by (intro kept_rules; simp)

lemma process_files [kept_rules]: "good m \<Longrightarrow> safe (process_files a0 a1 a2 a3 a4 m)"
proof (induction a3 arbitrary: a0 a1 a2 a4 m)
  case Nil
  then show ?case by (simp add: safe_def)
next
  case (Cons x xs)
  show ?case unfolding process_files.simps Let_def by (intro kept_rules Cons.IH; simp add: Cons.prems)
qed

lemma deliver_message [kept_rules]: "good m \<Longrightarrow> safe (deliver_message a0 a1 a2 a3 a4 a5 a6 a7 m)"
  unfolding deliver_message_def Let_def by (intro kept_rules; simp)

lemma open_message [kept_rules]: "good m \<Longrightarrow> safe (open_message a0 a1 a2 a3 a4 a5 m)"
  unfolding open_message_def Let_def by (intro kept_rules; simp)

lemma collect_new [kept_rules]: "good m \<Longrightarrow> safe (collect_new a0 a1 a2 a3 a4 m)"
  unfolding collect_new_def Let_def by (intro kept_rules; simp)

lemma find_message [kept_rules]: "good m \<Longrightarrow> safe (find_message a0 m)"
  unfolding find_message_def Let_def by (intro kept_rules; simp)

lemma collectAndProcessMessage [kept_rules]: "good m \<Longrightarrow> safe (collectAndProcessMessage a0 a1 a2 a3 a4 m)"
  unfolding collectAndProcessMessage_def Let_def by (intro kept_rules; simp)

lemma unseen_records [kept_rules]: "good m \<Longrightarrow> safe (unseen_records a0 m)"
proof (induction a0 arbitrary: m)
  case Nil
  then show ?case by (simp add: safe_def)
next
  case (Cons x xs)
  show ?case unfolding unseen_records.simps Let_def by (intro kept_rules Cons.IH; simp add: Cons.prems)
qed

lemma collect_all [kept_rules]: "good m \<Longrightarrow> safe (collect_all a0 a1 a2 a3 m)"
proof (induction a3 arbitrary: a0 a1 a2 m)
  case Nil
  then show ?case by (simp add: safe_def)
next
  case (Cons x xs)
  show ?case by (cases x; simp only: collect_all.simps; intro kept_rules Cons.IH; simp add: Cons.prems)
qed

lemma retry_each [kept_rules]: "good m \<Longrightarrow> safe (retry_each a0 a1 a2 a3 a4 m)"
proof (induction a3 arbitrary: a0 a1 a2 a4 m)
  case Nil
  then show ?case by (simp add: safe_def)
next
  case (Cons x xs)
  show ?case unfolding retry_each.simps Let_def by (intro kept_rules Cons.IH; simp add: Cons.prems)
qed

lemma retryFailedChunks [kept_rules]: "good m \<Longrightarrow> safe (retryFailedChunks a0 a1 a2 a3 m)"
  unfolding retryFailedChunks_def Let_def by (intro kept_rules; simp)

lemma scan_page [kept_rules]: "good m \<Longrightarrow> safe (scan_page a0 a1 a2 a3 a4 a5 m)"
  unfolding scan_page_def Let_def by (intro kept_rules; simp)

lemma checkRecipientMessages [kept_rules]: "good m \<Longrightarrow> safe (checkRecipientMessages a0 a1 a2 a3 m)"
  unfolding checkRecipientMessages_def Let_def by (intro kept_rules; simp)

lemma check_each [kept_rules]: "good m \<Longrightarrow> safe (check_each a0 a1 a2 a3 m)"
proof (induction a3 arbitrary: a0 a1 a2 m)
  case Nil
  then show ?case by (simp add: safe_def)
next
  case (Cons x xs)
  show ?case unfolding check_each.simps Let_def by (intro kept_rules Cons.IH; simp add: Cons.prems)
qed

lemma checkPendingMessages [kept_rules]: "good m \<Longrightarrow> safe (checkPendingMessages a0 a1 a2 m)"
  unfolding checkPendingMessages_def Let_def by (intro kept_rules; simp)

lemma read_history [kept_rules]: "good m \<Longrightarrow> safe (read_history a0 a1 m)"
proof (induction a1 arbitrary: a0 m)
  case Nil
  then show ?case by (simp add: safe_def)
next
  case (Cons x xs)
  show ?case unfolding read_history.simps Let_def by (intro kept_rules Cons.IH; simp add: Cons.prems)
qed

lemma MessengerGetMessages [kept_rules]: "good m \<Longrightarrow> safe (MessengerGetMessages a0 a1 m)"
  unfolding MessengerGetMessages_def Let_def by (intro kept_rules; simp)

lemma MessengerGetMessagesDesc [kept_rules]: "good m \<Longrightarrow> safe (MessengerGetMessagesDesc a0 a1 a2 a3 m)"
  unfolding MessengerGetMessagesDesc_def Let_def by (intro kept_rules; simp)

subsection \<open>Relogin\<close>

lemma buildReloginReplica [kept_rules]: "good m \<Longrightarrow> safe (buildReloginReplica a0 a1 m)"
  unfolding buildReloginReplica_def Let_def by (intro kept_rules; simp)

lemma send_replica [kept_rules]: "good m \<Longrightarrow> good (send_replica a0 a1 a2 a3 m)"
  unfolding send_replica_def Let_def by (intro kept_rules; simp)

lemma handleReloginRequest [kept_rules]: "good m \<Longrightarrow> safe (handleReloginRequest a0 a1 a2 a3 a4 m)"
  unfolding handleReloginRequest_def Let_def by (intro kept_rules; simp)

lemma put_transfer [kept_rules]: "good m \<Longrightarrow> good (put_transfer a0 a1 m)"
  unfolding put_transfer_def Let_def by (intro kept_rules; simp)

lemma completeReloginTransfer [kept_rules]: "good m \<Longrightarrow> good (completeReloginTransfer a0 a1 m)"
  unfolding completeReloginTransfer_def Let_def by (intro kept_rules; simp)

lemma clearReloginTransfer [kept_rules]: "good m \<Longrightarrow> good (clearReloginTransfer a0 m)"
  unfolding clearReloginTransfer_def Let_def by (intro kept_rules; simp)

lemma acceptReloginResponse [kept_rules]: "good m \<Longrightarrow> good (acceptReloginResponse a0 a1 m)"
  unfolding acceptReloginResponse_def Let_def by (intro kept_rules; simp)

lemma acceptReloginChunk [kept_rules]: "good m \<Longrightarrow> good (acceptReloginChunk a0 a1 m)"
  unfolding acceptReloginChunk_def Let_def by (intro kept_rules; simp)

lemma finishReloginTransfer [kept_rules]: "good m \<Longrightarrow> good (finishReloginTransfer a0 a1 a2 a3 m)"
  unfolding finishReloginTransfer_def Let_def by (intro kept_rules; simp)

lemma relogin_connect [kept_rules]: "good m \<Longrightarrow> safe (relogin_connect a0 a1 a2 m)"
  unfolding relogin_connect_def Let_def by (intro kept_rules; simp)

lemma relogin_start [kept_rules]: "good m \<Longrightarrow> safe (relogin_start a0 a1 m)"
  unfolding relogin_start_def Let_def by (intro kept_rules; simp)

lemma take_over [kept_rules]: "good m \<Longrightarrow> safe (take_over a0 a1 a2 a3 a4 m)"
  unfolding take_over_def Let_def by (intro kept_rules; simp)

lemma relogin_finish [kept_rules]: "good m \<Longrightarrow> safe (relogin_finish a0 a1 a2 a3 a4 a5 m)"
  unfolding relogin_finish_def Let_def by (intro kept_rules; simp)

subsection \<open>Registering, searching and the jobs of the pool\<close>

lemma load_peer [kept_rules]: "good m \<Longrightarrow> good (load_peer a0 a1 m)"
  unfolding load_peer_def Let_def by (intro kept_rules; simp)

lemma load_peers [kept_rules]: "good m \<Longrightarrow> good (load_peers a0 m)"
  unfolding load_peers_def Let_def by (intro kept_rules; simp)

lemma scheduleReplicaConnections [kept_rules]: "good m \<Longrightarrow> good (scheduleReplicaConnections m)"
  unfolding scheduleReplicaConnections_def Let_def by (intro kept_rules; simp)

lemma after_registration [kept_rules]: "good m \<Longrightarrow> good (after_registration m)"
  unfolding after_registration_def Let_def by (intro kept_rules; simp)

lemma register_anew [kept_rules]: "good m \<Longrightarrow> safe (register_anew a0 m)"
  unfolding register_anew_def Let_def by (intro kept_rules; simp)

lemma MessengerRegister [kept_rules]: "good m \<Longrightarrow> safe (MessengerRegister a0 m)"
  unfolding MessengerRegister_def Let_def by (intro kept_rules; simp)

lemma heartbeat [kept_rules]: "good m \<Longrightarrow> good (heartbeat a0 m)"
  unfolding heartbeat_def Let_def by (intro kept_rules; simp)

lemma SetDownloadsDir [kept_rules]: "good m \<Longrightarrow> good (SetDownloadsDir a0 m)"
  unfolding SetDownloadsDir_def Let_def by (intro kept_rules; simp)

lemma SaveConfig [kept_rules]: "good m \<Longrightarrow> safe (SaveConfig a0 m)"
  unfolding SaveConfig_def Let_def by (intro kept_rules; simp)

lemma Shutdown [kept_rules]: "good m \<Longrightarrow> good (Shutdown a0 m)"
  unfolding Shutdown_def Let_def by (intro kept_rules; simp)

lemma merge_listed [kept_rules]: "good m \<Longrightarrow> safe (merge_listed a0 a1 a2 m)"
proof (induction a1 arbitrary: a0 a2 m)
  case Nil
  then show ?case by (simp add: safe_def)
next
  case (Cons x xs)
  show ?case unfolding merge_listed.simps Let_def by (intro kept_rules Cons.IH; simp add: Cons.prems)
qed

lemma SearchPeers [kept_rules]: "good m \<Longrightarrow> safe (SearchPeers a0 a1 m)"
  unfolding SearchPeers_def Let_def by (intro kept_rules; simp)

lemma settled [kept_rules]: "good m \<Longrightarrow> safe (settled m)"
  unfolding settled_def Let_def by (intro kept_rules; simp)

lemma unless_panic [kept_rules]: "safe x \<Longrightarrow> safe (unless_panic x)"
  by (auto simp: unless_panic_def safe_def split: prod.split go.split)

lemma store_all [kept_rules]:
  "(\<And>req m. good m \<Longrightarrow> safe (f req m)) \<Longrightarrow> good m \<Longrightarrow> safe (store_all f reqs m)"
proof (induction reqs arbitrary: m)
  case (Cons x xs)
  show ?case unfolding store_all.simps by (intro kept_rules Cons.IH; simp add: Cons.prems)
qed (simp add: safe_def)

lemma storeChunkBatch [kept_rules]:
  "(\<And>req m. good m \<Longrightarrow> safe (f req m)) \<Longrightarrow> good m \<Longrightarrow> safe (storeChunkBatch f batch m)"
  unfolding storeChunkBatch_def Let_def by (intro kept_rules; simp)

lemma run_callback [kept_rules]: "good m \<Longrightarrow> safe (run_callback a0 a1 a2 a3 a4 m)"
  by (cases a4; simp only: run_callback.simps; intro kept_rules; simp)

lemma run_job [kept_rules]: "good m \<Longrightarrow> safe (run_job a0 a1 a2 a3 a4 m)"
  by (cases a4; simp only: run_job.simps; intro kept_rules; simp)

lemma receive_frame [kept_rules]: "good m \<Longrightarrow> safe (receive_frame a0 a1 a2 a3 a4 m)"
  unfolding receive_frame_def Let_def by (intro kept_rules; simp)

lemma work [kept_rules]: "good m \<Longrightarrow> safe (work a0 a1 a2 a3 m)"
  unfolding work_def Let_def by (intro kept_rules; simp)

subsection \<open>Applying a relogin signature\<close>

lemma ApplyReloginSignature [kept_rules]: "(\<And>m. good m \<Longrightarrow> good (g3 m)) \<Longrightarrow> (\<And>m. good m \<Longrightarrow> good (g4 m)) \<Longrightarrow> good m \<Longrightarrow> safe (ApplyReloginSignature a0 a1 a2 g3 g4 a5 a6 m)"
  unfolding ApplyReloginSignature_def Let_def by (intro kept_rules; simp)

lemma messenger_step_good: "messenger_step c L m m' \<Longrightarrow> good m \<Longrightarrow> good m'"
proof (induction rule: messenger_step.induct)
qed (intro kept_rules; simp | simp add: channel_opened_def connection_changed_def SetDownloadsDir_def submit_def
  good_def tables_of_def split: prod.split bool.split)+

lemma kept_for_ever: "(messenger_step c L)\<^sup>*\<^sup>* m m' \<Longrightarrow> I (tables_of m) \<Longrightarrow> I (tables_of m')"
  unfolding good_def [symmetric] by (induction rule: rtranclp_induct) (auto dest: messenger_step_good)

text \<open>The start.\<close>

lemma GetConfigValue_kept: "keeps I (GetConfigValue n)"
  unfolding GetConfigValue_def by (intro keeps_then keeps_read) (simp add: keeps_err keeps_ret split: option.split)

lemma load_fields_kept: "I (db_tables d) \<Longrightarrow> I (db_tables (snd (load_fields fs cfg b d)))"
proof (induction fs cfg b d rule: load_fields.induct)
  case (2 n g s fs cfg b d)
  obtain r d1 where r: "GetConfigValue n d = (r, d1)" by fastforce
  have "I (db_tables d1)" by (rule keepsD [where I = I, OF GetConfigValue_kept r]) (rule 2(4))
  then show ?case using 2 r by (auto split: go.split)
qed simp

lemma LoadAppConfig_kept: "keeps I LoadAppConfig"
  using load_fields_kept by (auto simp: keeps_def LoadAppConfig_def split: prod.split) (metis snd_conv)+

lemma load_or_make_keys_kept: "keeps I (load_or_make_keys c L net)"
proof -
  have "I (db_tables (snd (load_or_make_keys c L net d)))" if d: "I (db_tables d)" for d
  proof -
    obtain r d1 where r: "GetKeysJSON d = (r, d1)" by fastforce
    have d1: "I (db_tables d1)" by (rule keepsD [where I = I, OF reads(6) r]) (rule d)
    have "I (db_tables (snd (SaveKeysJSON s d1)))" for s using saves(2) [of s] d1 by (simp add: keeps_def)
    then show ?thesis using d1 r by (auto simp: load_or_make_keys_def Let_def split: go.split prod.split)
  qed
  then show ?thesis by (simp add: keeps_def)
qed

lemma import_keys_kept: "keeps I (import_keys readFile)"
proof -
  have "I (db_tables (snd (import_keys readFile d)))" if d: "I (db_tables d)" for d
  proof -
    obtain r d1 where r: "GetConfigValue ''crypto_keys'' d = (r, d1)" by fastforce
    have d1: "I (db_tables d1)" by (rule keepsD [where I = I, OF GetConfigValue_kept r]) (rule d)
    have "I (db_tables (snd (SaveKeysJSON s d1)))" for s using saves(2) [of s] d1 by (simp add: keeps_def)
    then show ?thesis using d1 r by (auto simp: import_keys_def split: go.split option.split)
  qed
  then show ?thesis by (simp add: keeps_def)
qed

lemma import_config_kept: "keeps I (import_config legacy readFile)"
proof -
  have "I (db_tables (snd (import_config legacy readFile d)))" if d: "I (db_tables d)" for d
  proof -
    obtain r d1 where r: "LoadAppConfig d = (r, d1)" by fastforce
    have d1: "I (db_tables d1)" by (rule keepsD [where I = I, OF LoadAppConfig_kept r]) (rule d)
    have "I (db_tables (snd (SaveAppConfig cfg d1)))" for cfg using saves(1) [of cfg] d1 by (simp add: keeps_def)
    then show ?thesis using d1 r by (auto simp: import_config_def split: go.split option.split)
  qed
  then show ?thesis by (simp add: keeps_def)
qed

lemma settle_config_kept: "I (db_tables d) \<Longrightarrow> I (db_tables (snd (settle_config user path d)))"
proof -
  assume d: "I (db_tables d)"
  obtain r d1 where r: "LoadAppConfig d = (r, d1)" by fastforce
  have "I (db_tables d1)" by (rule keepsD [where I = I, OF LoadAppConfig_kept r]) (rule d)
  then show ?thesis using r by (simp add: settle_config_def split: go.split)
qed

lemma New_good:
  assumes "New c L net legacy readFile mkdir user client path (Ret d) opts = Ret m" "I (db_tables d)"
  shows "good m"
proof -
  define d0 where "d0 = snd (ImportLegacyFiles legacy readFile d)"
  have "keeps I (ImportLegacyFiles legacy readFile)"
    unfolding ImportLegacyFiles_def by (intro keeps_then import_keys_kept import_config_kept)
  then have d0: "I (db_tables d0)" using assms(2) by (simp add: keeps_def d0_def)
  obtain keys d1 where keys: "load_or_make_keys c L net d0 = (Ret keys, d1)"
    using assms(1) by (auto simp: New_def Let_def d0_def split: go.splits prod.splits)
  have d1: "I (db_tables d1)" by (rule keepsD [where I = I, OF load_or_make_keys_kept keys]) (rule d0)
  obtain cfg d2 where cfg: "settle_config user path d1 = (cfg, d2)" by fastforce
  have d2: "I (db_tables d2)" using settle_config_kept [OF d1, of user path] cfg by simp
  have "I (db_tables (snd (SaveAppConfig x d2)))" for x using saves(1) [of x] d2 by (simp add: keeps_def)
  then have "good (new_messenger i u keys (snd (SaveAppConfig x d2)) y flag)" for i u x y flag
    by (simp add: good_def tables_of_def new_messenger_def Let_def)
  then have "good (load_peers net (new_messenger i u keys (snd (SaveAppConfig x d2)) y flag))" for i u x y flag
    by (rule load_peers)
  then show ?thesis
    using assms(1) keys cfg
    by (auto simp: New_def Let_def d0_def [symmetric] trySubmit_def good_update split: if_splits)
qed

lemma New_kept_for_ever:
  "New c L net legacy readFile mkdir user client path (Ret d) opts = Ret m \<Longrightarrow> I (db_tables d) \<Longrightarrow>
   (messenger_step c L)\<^sup>*\<^sup>* m m' \<Longrightarrow> I (tables_of m')"
  using kept_for_ever New_good by (auto simp: good_def)

end

section \<open>A message in the history\<close>

definition in_history :: "string \<Rightarrow> tables \<Rightarrow> bool" where
  "in_history u t = tbl_has m_uid u (t_messages t)"

lemmas write_defs = SaveMessage_def QueueOutgoing_def queue_chunk_def ImportStateSyncMessages_def ImportReplicationSnapshot_def
  SetLastStateCheck_def StoreChunk_def DeleteChunks_def DeleteChunk_def DeleteChunksWithMessage_def DeleteExpiredChunks_def
  DeleteExpiredPendingChunks_def MarkChunkPlaced_def StorePeer_def StoreCreateGroupChat_def SetLastChunkCheck_def
  StoreFailedChunk_def DeleteFailedChunk_def DeleteExpiredFailedChunks_def DeleteFailedMessage_def TrackFileDownload_def
  MarkFileDownloadCompleted_def CancelFileDownload_def ResetFileDownloadCompletion_def MarkFileDownloadStopped_def
  SetConfigValue_def update_downloads_def

lemma has_insert: "tbl_insert key r t = Some t' \<Longrightarrow> tbl_has key k t \<Longrightarrow> tbl_has key k t'"
  by (auto simp: tbl_insert_def tbl_has_def split: if_splits)

lemma has_ignore: "tbl_has key k t \<Longrightarrow> tbl_has key k (tbl_ignore key r t)"
  by (auto simp: tbl_ignore_def tbl_has_def)

lemma tbl_has_map: "tbl_has key k t \<longleftrightarrow> k \<in> set (map key t)"
  by (auto simp: tbl_has_iff)

lemma has_upsert:
  assumes "\<And>x. key (f x r) = key r" "tbl_has key k t"
  shows "tbl_has key k (tbl_upsert key f r t)"
proof -
  have "key (if key x = key r then f x r else x) = key x" for x using assms(1) by simp
  then have "map key (tbl_update (\<lambda>x. key x = key r) (\<lambda>x. f x r) t) = map key t" by (simp add: tbl_update_def)
  then have "tbl_has key k (tbl_update (\<lambda>x. key x = key r) (\<lambda>x. f x r) t)"
    using assms(2) unfolding tbl_has_map by simp
  then show ?thesis using assms(2) by (simp add: tbl_upsert_def tbl_has_def)
qed

lemma import_history: "keeps (in_history u) (import_messages at rs)"
  by (induction rs) (auto simp: insert_absent_def in_history_def has_ignore intro!: keeps_then keeps_ret keeps_sql)

interpretation history: kept "in_history u" for u
proof unfold_locales
qed (unfold write_defs Let_def; intro keeps_write keeps_sql keeps_then keeps_transaction keeps_each keeps_if keeps_ret keeps_err
   keeps_deleteExpiredPayloads keeps_GetFileDownload keeps_read import_history;
   auto simp: in_history_def insert_message_def insert_chunk_def insert_pending_def put_chunk_def upsert_message_def
     upsert_peer_row_def upsert_group_def del_chunk_def del_pending_def intro!: has_upsert dest: has_insert)+

section \<open>The primary keys, and a cancelled download\<close>

interpretation well_formed: kept wf_tables
  by unfold_locales (rule keeps_SaveMessage keeps_QueueOutgoing keeps_ImportStateSyncMessages keeps_ImportReplicationSnapshot
    keeps_SetLastStateCheck keeps_StoreChunk keeps_DeleteChunks keeps_DeleteChunk keeps_DeleteChunksWithMessage
    keeps_DeleteExpiredChunks keeps_DeleteExpiredPendingChunks keeps_MarkChunkPlaced keeps_StorePeer keeps_StoreCreateGroupChat
    keeps_SetLastChunkCheck keeps_StoreFailedChunk keeps_DeleteFailedChunk keeps_DeleteExpiredFailedChunks keeps_DeleteFailedMessage
    keeps_TrackFileDownload keeps_MarkFileDownloadCompleted keeps_CancelFileDownload keeps_ResetFileDownloadCompletion
    keeps_MarkFileDownloadStopped keeps_SetConfigValue)+

definition cancelled_at :: "string \<Rightarrow> int \<Rightarrow> tables \<Rightarrow> bool" where
  "cancelled_at f at t \<longleftrightarrow> (\<exists>a. tbl_find d_file (t_downloads t) f = Some a \<and> d_cancelled a = Some at \<and> d_completed a = None)"

lemma keeps_cancelled:
  assumes "\<And>d r d'. m d = (r, d') \<Longrightarrow> download_step d d'"
  shows "keeps (cancelled_at f at) m"
  unfolding keeps_def
proof (intro allI impI)
  fix d :: db
  assume "cancelled_at f at (db_tables d)"
  then obtain a where a: "download d f = Some a" "d_cancelled a = Some at" "d_completed a = None"
    by (auto simp: cancelled_at_def download_def)
  have "moved d (snd (m d)) f" by (rule download_step_moved) (rule assms [OF prod.collapse [symmetric]])
  then obtain b where "download (snd (m d)) f = Some b" "row_step a b" using a(1) by (auto simp: moved_def)
  then show "cancelled_at f at (db_tables (snd (m d)))"
    using a by (auto simp: cancelled_at_def download_def row_step_def)
qed

lemma import_cancelled: "keeps (cancelled_at f at) (import_messages now rs)"
  by (induction rs) (auto simp: insert_absent_def cancelled_at_def intro!: keeps_then keeps_ret keeps_sql)

interpretation cancelled: kept "cancelled_at f at" for f at
proof unfold_locales
qed (rule keeps_cancelled, erule download_step.intros | (unfold write_defs Let_def; intro keeps_write keeps_sql keeps_then keeps_transaction keeps_each keeps_if keeps_ret keeps_err
   keeps_deleteExpiredPayloads keeps_GetFileDownload keeps_read import_cancelled;
   auto simp: cancelled_at_def insert_message_def insert_chunk_def insert_pending_def put_chunk_def upsert_message_def
     upsert_peer_row_def upsert_group_def del_chunk_def del_pending_def))+

section \<open>The state of a download\<close>

definition row_ok :: "download_row \<Rightarrow> bool" where
  "row_ok d \<longleftrightarrow> (d_completed d = None \<or> d_cancelled d = None) \<and> (d_completed d \<noteq> None \<longrightarrow> d_stopped d = None)
     \<and> (d_cancelled d \<noteq> None \<longrightarrow> d_stopped d \<noteq> None) \<and> (d_completed d = None \<longrightarrow> d_path d = [])
     \<and> d_file d \<noteq> [] \<and> d_first d \<le> d_expires d"

definition downloads_ok :: "tables \<Rightarrow> bool" where
  "downloads_ok t \<longleftrightarrow> list_all row_ok (t_downloads t)"

lemma all_update: "list_all Q t \<Longrightarrow> (\<And>x. Q x \<Longrightarrow> P x \<Longrightarrow> Q (f x)) \<Longrightarrow> list_all Q (tbl_update P f t)"
  by (auto simp: list_all_iff tbl_update_def)

lemma all_upsert:
  "list_all Q t \<Longrightarrow> Q r \<Longrightarrow> (\<And>x. Q x \<Longrightarrow> Q (f x r)) \<Longrightarrow> list_all Q (tbl_upsert key f r t)"
  by (simp add: tbl_upsert_def all_update)

lemma row_ok_retrack: "row_ok x \<Longrightarrow> row_ok (retrack x y)"
  by (simp add: row_ok_def retrack_def)

lemma row_ok_new: "f \<noteq> [] \<Longrightarrow> 0 < ttl \<Longrightarrow> row_ok (new_download f n k at ttl)"
  by (simp add: row_ok_def new_download_def unix_def zdiv_mono1)

lemma track_ok: "keeps downloads_ok (TrackFileDownload f n k at ttl)"
proof (cases "f = [] \<or> ttl \<le> 0")
  case True
  then show ?thesis by (auto simp: TrackFileDownload_def keeps_err)
next
  case False
  then show ?thesis
    unfolding TrackFileDownload_def
    by (simp, intro keeps_then keeps_GetFileDownload keeps_write)
      (simp add: downloads_ok_def all_upsert row_ok_new row_ok_retrack)
qed

lemma update_ok:
  "(\<And>x. row_ok x \<Longrightarrow> P x \<Longrightarrow> row_ok (u x)) \<Longrightarrow> keeps downloads_ok (update_downloads P u)"
  unfolding update_downloads_def by (rule keeps_sql) (auto simp: downloads_ok_def all_update)

lemma states_ok:
  "keeps downloads_ok (MarkFileDownloadCompleted f p at)" "keeps downloads_ok (CancelFileDownload f at)"
  "keeps downloads_ok (ResetFileDownloadCompletion f)" "keeps downloads_ok (MarkFileDownloadStopped f at)"
proof -
  show "keeps downloads_ok (MarkFileDownloadCompleted f p at)"
    unfolding MarkFileDownloadCompleted_def
    by (intro keeps_then update_ok keeps_if keeps_err keeps_ret) (auto simp: completable_def row_ok_def)
  show "keeps downloads_ok (CancelFileDownload f at)"
    unfolding CancelFileDownload_def
    by (intro keeps_then update_ok keeps_if keeps_err keeps_ret) (auto simp: cancellable_def row_ok_def)
  show "keeps downloads_ok (ResetFileDownloadCompletion f)"
    unfolding ResetFileDownloadCompletion_def
    by (intro keeps_write) (auto simp: downloads_ok_def row_ok_def intro!: all_update)
  show "keeps downloads_ok (MarkFileDownloadStopped f at)"
    unfolding MarkFileDownloadStopped_def
    by (intro keeps_write) (auto simp: downloads_ok_def row_ok_def intro!: all_update)
qed

lemma import_downloads: "keeps downloads_ok (import_messages at rs)"
  by (induction rs) (auto simp: insert_absent_def downloads_ok_def intro!: keeps_then keeps_ret keeps_sql)

interpretation one_state: kept downloads_ok
proof unfold_locales
  fix f name p :: string and k at ttl :: int
  show "keeps downloads_ok (TrackFileDownload f name k at ttl)" by (rule track_ok)
  show "keeps downloads_ok (MarkFileDownloadCompleted f p at)" by (rule states_ok)
  show "keeps downloads_ok (CancelFileDownload f at)" by (rule states_ok)
  show "keeps downloads_ok (ResetFileDownloadCompletion f)" by (rule states_ok)
  show "keeps downloads_ok (MarkFileDownloadStopped f at)" by (rule states_ok)
qed ((unfold write_defs Let_def; intro keeps_write keeps_sql keeps_then keeps_transaction keeps_each
   keeps_if keeps_ret keeps_err keeps_deleteExpiredPayloads keeps_GetFileDownload keeps_read import_downloads;
   auto simp: downloads_ok_def insert_message_def insert_chunk_def insert_pending_def put_chunk_def upsert_message_def
     upsert_peer_row_def upsert_group_def del_chunk_def del_pending_def)[1])+

section \<open>What holds of the whole program\<close>

text \<open>
  C39. Every download a messenger knows is in one state: under way (perhaps stopped), complete, or
  cancelled. None is both complete and cancelled, a complete one is not stopped, a cancelled one is, only a
  complete one has a place on the disk, and its deadline is not before its start. This holds from the start
  on, whatever frames and signals arrive, whatever is called in whatever order, and whichever statements fail.
\<close>

theorem downloads_in_one_state:
  assumes "New c L net legacy readFile mkdir user client path (Ret d) opts = Ret m"
    and "list_all row_ok (t_downloads (db_tables d))"
    and "(messenger_step c L)\<^sup>*\<^sup>* m m'" "b \<in> set (t_downloads (tables_of m'))"
  shows "(d_completed b = None \<or> d_cancelled b = None)
    \<and> (d_completed b \<noteq> None \<longrightarrow> d_stopped b = None)
    \<and> (d_cancelled b \<noteq> None \<longrightarrow> d_stopped b \<noteq> None)
    \<and> (d_completed b = None \<longrightarrow> d_path b = [])
    \<and> d_file b \<noteq> [] \<and> d_first b \<le> d_expires b"
proof -
  have "downloads_ok (tables_of m')"
    by (rule one_state.New_kept_for_ever [OF assms(1) _ assms(3)]) (simp add: downloads_ok_def assms(2))
  then have "row_ok b" using assms(4) by (simp add: downloads_ok_def list_all_iff)
  then show ?thesis by (simp add: row_ok_def)
qed

text \<open>
  C40. A message that is in the history stays in it, whatever anyone sends: no operation of a messenger
  removes the entry, neither a transfer from another device nor a message with the same id.
\<close>

theorem history_is_kept:
  assumes "tbl_has m_uid u (t_messages (tables_of m))" "(messenger_step c L)\<^sup>*\<^sup>* m m'"
  shows "tbl_has m_uid u (t_messages (tables_of m'))"
  using history.kept_for_ever [OF assms(2), of u] assms(1) by (simp add: in_history_def)

text \<open>
  C16. A download that was cancelled before it was complete stays so, with the time it was cancelled:
  neither the message arriving again, nor a late block, nor another device brings it back.
\<close>

theorem cancelled_for_ever:
  assumes "tbl_find d_file (t_downloads (tables_of m)) f = Some a" "d_cancelled a = Some at" "d_completed a = None"
    and "(messenger_step c L)\<^sup>*\<^sup>* m m'"
  shows "\<exists>b. tbl_find d_file (t_downloads (tables_of m')) f = Some b \<and> d_cancelled b = Some at \<and> d_completed b = None"
  using cancelled.kept_for_ever [OF assms(4), of f at] assms(1-3) by (simp add: cancelled_at_def)

section \<open>Instances\<close>

definition one_cancelled :: download_row where
  "one_cancelled = (new_download ''f'' ''a.txt'' 2 5000000000 60000000000)\<lparr>d_stopped := Some 6, d_cancelled := Some 6\<rparr>"

lemma downloads_in_one_state_witness:
  "\<exists>m b. New key_codec toy_lib sample_net (\<lambda>_. None) (\<lambda>_. None) True ''ann'' (Some ''http://m'') ''/h/db''
       (Ret (empty_db\<lparr>db_tables := no_tables\<lparr>t_downloads := [one_cancelled]\<rparr>\<rparr>)) [] = Ret m
     \<and> tbl_find d_file (t_downloads (tables_of (snd (cancelDownload sample_net ''f'' m)))) ''f'' = Some b
     \<and> d_completed b = None \<and> d_stopped b \<noteq> None \<and> d_path b = []"
proof -
  let ?d = "empty_db\<lparr>db_tables := no_tables\<lparr>t_downloads := [one_cancelled]\<rparr>\<rparr>"
  have d: "db_faults ?d = []" "config_value (db_tables ?d) ''crypto_keys'' = None" "cancelled_at ''f'' 6 (db_tables ?d)"
      "list_all row_ok (t_downloads (db_tables ?d))"
    by (simp_all add: empty_db_def no_tables_def config_value_def cancelled_at_def one_cancelled_def new_download_def
        row_ok_def unix_def tbl_find_def)
  obtain m where m: "New key_codec toy_lib sample_net (\<lambda>_. None) (\<lambda>_. None) True ''ann'' (Some ''http://m'') ''/h/db'' (Ret ?d) [] = Ret m"
    using sample_keys_made [OF d(1,2) refl] New_runs [OF d(1)] by blast
  have step: "(messenger_step key_codec toy_lib)\<^sup>*\<^sup>* m (snd (cancelDownload sample_net ''f'' m))"
    by (rule r_into_rtranclp, rule cancelling)
  obtain b where b: "tbl_find d_file (t_downloads (tables_of (snd (cancelDownload sample_net ''f'' m)))) ''f'' = Some b"
      "d_cancelled b = Some 6"
    using cancelled.New_kept_for_ever [OF m d(3) step] by (auto simp: cancelled_at_def)
  have "b \<in> set (t_downloads (tables_of (snd (cancelDownload sample_net ''f'' m))))"
    using b(1) by (auto dest: tbl_find_SomeD)
  from downloads_in_one_state [OF m d(4) step this] show ?thesis using m b by auto
qed

definition one_message :: Messenger where
  "one_message = sample_messenger ''b'' ''bob'' (snd (SaveMessage 0 ''u'' [] [] ''ann'' [1] 0 empty_db))"

lemma cancelled_open: "\<exists>a. download cancelled_db ''f'' = Some a \<and> d_cancelled a = Some 6 \<and> d_completed a = None"
proof -
  have t: "t_downloads (db_tables tracked_db) = [new_download ''f'' ''a.txt'' 2 5000000000 60000000000]"
    and q: "db_faults tracked_db = []"
    by (simp_all add: tracked_db_def TrackFileDownload_def fresh_db_def db_then_def sql_write_ok no_tables_def
      GetFileDownload_def sql_read_ok readFileDownloadState_def db_ret_def tbl_upsert_def tbl_has_def
      tbl_find_def new_download_def)
  then show ?thesis
    by (simp add: cancelled_db_def CancelFileDownload_def db_then_def update_downloads_def sql_ok download_def
        cancellable_def new_download_def tbl_update_def tbl_find_def unix_def db_ret_def)
qed

lemma history_is_kept_witness:
  "tbl_has m_uid ''u'' (t_messages (tables_of (cleanup sample_net
     (snd (receive_frame sample_codec toy_lib sample_net ''eve'' (ReloginRequestFrame ''x'') one_message)))))"
proof -
  let ?m = "snd (receive_frame sample_codec toy_lib sample_net ''eve'' (ReloginRequestFrame ''x'') one_message)"
  have "tbl_has m_uid ''u'' (t_messages (tables_of one_message))"
    by (simp add: one_message_def tables_of_def sample_messenger_def new_messenger_def Let_def SaveMessage_def empty_db_def no_tables_def
        sql_ok insert_message_def tbl_insert_def tbl_has_def new_message_def)
  moreover have "(messenger_step sample_codec toy_lib)\<^sup>*\<^sup>* one_message (cleanup sample_net ?m)"
    by (rule rtranclp.rtrancl_into_rtrancl, rule r_into_rtranclp, rule frame, rule cleaning)
  ultimately show ?thesis by (rule history_is_kept)
qed

lemma cancelled_for_ever_witness:
  "\<exists>b. tbl_find d_file (t_downloads (tables_of (snd (cancelDownload sample_net ''f'' (sample_messenger ''b'' ''bob'' cancelled_db))))) ''f''
      = Some b \<and> d_cancelled b = Some 6 \<and> d_completed b = None"
proof -
  let ?m = "sample_messenger ''b'' ''bob'' cancelled_db"
  obtain a where a: "download cancelled_db ''f'' = Some a" "d_cancelled a = Some 6" "d_completed a = None"
    using cancelled_open by blast
  have "tbl_find d_file (t_downloads (tables_of ?m)) ''f'' = Some a"
    using a(1) by (simp add: tables_of_def download_def sample_messenger_def new_messenger_def Let_def)
  moreover have "(messenger_step sample_codec toy_lib)\<^sup>*\<^sup>* ?m (snd (cancelDownload sample_net ''f'' ?m))"
    by (rule r_into_rtranclp, rule cancelling)
  ultimately show ?thesis using cancelled_for_ever a(2,3) by blast
qed

end
