(* ===== verification/AsyncPool.thy ===== *)
theory AsyncPool
  imports Messenger "HOL-Library.Multiset"
begin

text \<open>
  The worker pool of \<open>internal/messenger/async_pool.go\<close> as the interleaving of its goroutines:
  callers of \<open>submit\<close> and \<open>trySubmit\<close> that passed the first test and stand at the \<open>select\<close>, the
  buffered channel, and the workers. The rest of the model takes jobs off one list
  (\<open>Startup.work\<close>); here is what makes that right: no accepted job is lost or run twice, they are
  taken in their order, and after the cancellation the pool comes to rest.
\<close>

section \<open>The pool\<close>

datatype 'j caller = Submit (call_job: 'j) | TrySubmit (call_job: 'j)

datatype 'j worker = Idle | Taken 'j | Running 'j | Stopped

record 'j pool =
  pl_cancelled :: bool
  pl_jobs :: "'j list"
  pl_callers :: "'j caller multiset"
  pl_workers :: "'j worker list"

definition asyncWorkerCount :: nat where
  "asyncWorkerCount = 8"

definition newAsyncPool :: "nat \<Rightarrow> 'j pool" where
  "newAsyncPool workers = \<lparr>pl_cancelled = False, pl_jobs = [], pl_callers = {#}, pl_workers = replicate workers Idle\<rparr>"

text \<open>\<open>wait\<close> returns once every worker has.\<close>

definition wait_returns :: "'j pool \<Rightarrow> bool" where
  "wait_returns s = list_all (\<lambda>w. w = Stopped) (pl_workers s)"

section \<open>Steps\<close>

datatype 'j pool_event = Called "'j caller" | Accepted 'j | Refused 'j | Took 'j | Started 'j | Dropped 'j | Ended 'j | Quit | Cancelled

text \<open>
  A caller enters while the pool is not cancelled; a call after that is refused at once and is no
  step of the pool. At the \<open>select\<close> a free place and the cancellation may both be there: either
  is taken. \<open>trySubmit\<close> gives up when there is no place.
\<close>

inductive caller_step :: "'j pool \<Rightarrow> 'j pool_event \<Rightarrow> 'j pool \<Rightarrow> bool" where
  enter: "\<not> pl_cancelled s \<Longrightarrow> caller_step s (Called c) (s\<lparr>pl_callers := add_mset c (pl_callers s)\<rparr>)"
| place: "c \<in># pl_callers s \<Longrightarrow> length (pl_jobs s) < asyncQueueSize \<Longrightarrow>
    caller_step s (Accepted (call_job c)) (s\<lparr>pl_jobs := pl_jobs s @ [call_job c], pl_callers := pl_callers s - {#c#}\<rparr>)"
| closed: "Submit j \<in># pl_callers s \<Longrightarrow> pl_cancelled s \<Longrightarrow>
    caller_step s (Refused j) (s\<lparr>pl_callers := pl_callers s - {#Submit j#}\<rparr>)"
| full: "TrySubmit j \<in># pl_callers s \<Longrightarrow> asyncQueueSize \<le> length (pl_jobs s) \<Longrightarrow>
    caller_step s (Refused j) (s\<lparr>pl_callers := pl_callers s - {#TrySubmit j#}\<rparr>)"

text \<open>A worker takes a job off the channel, looks at the cancellation again, and runs it.\<close>

inductive worker_step :: "'j pool \<Rightarrow> 'j pool_event \<Rightarrow> 'j pool \<Rightarrow> bool" where
  take_job: "i < length (pl_workers s) \<Longrightarrow> pl_workers s ! i = Idle \<Longrightarrow> pl_jobs s = j # js \<Longrightarrow>
    worker_step s (Took j) (s\<lparr>pl_jobs := js, pl_workers := (pl_workers s)[i := Taken j]\<rparr>)"
| run_it: "i < length (pl_workers s) \<Longrightarrow> pl_workers s ! i = Taken j \<Longrightarrow> \<not> pl_cancelled s \<Longrightarrow>
    worker_step s (Started j) (s\<lparr>pl_workers := (pl_workers s)[i := Running j]\<rparr>)"
| drop_it: "i < length (pl_workers s) \<Longrightarrow> pl_workers s ! i = Taken j \<Longrightarrow> pl_cancelled s \<Longrightarrow>
    worker_step s (Dropped j) (s\<lparr>pl_workers := (pl_workers s)[i := Stopped]\<rparr>)"
| job_ends: "i < length (pl_workers s) \<Longrightarrow> pl_workers s ! i = Running j \<Longrightarrow>
    worker_step s (Ended j) (s\<lparr>pl_workers := (pl_workers s)[i := Idle]\<rparr>)"
| leave: "i < length (pl_workers s) \<Longrightarrow> pl_workers s ! i = Idle \<Longrightarrow> pl_cancelled s \<Longrightarrow>
    worker_step s Quit (s\<lparr>pl_workers := (pl_workers s)[i := Stopped]\<rparr>)"

inductive pool_step :: "'j pool \<Rightarrow> 'j pool_event \<Rightarrow> 'j pool \<Rightarrow> bool" where
  by_caller: "caller_step s e t \<Longrightarrow> pool_step s e t"
| by_worker: "worker_step s e t \<Longrightarrow> pool_step s e t"
| cancelling: "\<not> pl_cancelled s \<Longrightarrow> pool_step s Cancelled (s\<lparr>pl_cancelled := True\<rparr>)"

inductive_cases caller_stepE: "caller_step s e t"
inductive_cases worker_stepE: "worker_step s e t"
inductive_cases pool_stepE: "pool_step s e t"

inductive pool_run :: "'j pool \<Rightarrow> 'j pool_event list \<Rightarrow> 'j pool \<Rightarrow> bool" where
  no_event: "pool_run s [] s"
| one_event: "pool_run s es t \<Longrightarrow> pool_step t e u \<Longrightarrow> pool_run s (es @ [e]) u"

text \<open>What a run accepted, took, started, dropped and finished, in order.\<close>

fun accepted_of :: "'j pool_event \<Rightarrow> 'j list" where "accepted_of (Accepted j) = [j]" | "accepted_of _ = []"
fun took_of :: "'j pool_event \<Rightarrow> 'j list" where "took_of (Took j) = [j]" | "took_of _ = []"
fun started_of :: "'j pool_event \<Rightarrow> 'j list" where "started_of (Started j) = [j]" | "started_of _ = []"
fun dropped_of :: "'j pool_event \<Rightarrow> 'j list" where "dropped_of (Dropped j) = [j]" | "dropped_of _ = []"
fun ended_of :: "'j pool_event \<Rightarrow> 'j list" where "ended_of (Ended j) = [j]" | "ended_of _ = []"

definition of_run :: "('j pool_event \<Rightarrow> 'j list) \<Rightarrow> 'j pool_event list \<Rightarrow> 'j list" where
  "of_run f es = concat (map f es)"

lemma of_run_simps [simp]: "of_run f [] = []" "of_run f (es @ [e]) = of_run f es @ f e"
  by (simp_all add: of_run_def)

section \<open>What the workers hold\<close>

fun taken_by :: "'j worker \<Rightarrow> 'j multiset" where
  "taken_by (Taken j) = {#j#}" | "taken_by _ = {#}"

fun run_by :: "'j worker \<Rightarrow> 'j multiset" where
  "run_by (Running j) = {#j#}" | "run_by _ = {#}"

definition all_of :: "('j worker \<Rightarrow> 'a :: comm_monoid_add) \<Rightarrow> 'j pool \<Rightarrow> 'a" where
  "all_of f s = sum_list (map f (pl_workers s))"

lemma sum_list_swap:
  "i < length xs \<Longrightarrow> sum_list (map f (xs[i := x])) + f (xs ! i) = sum_list (map f xs) + (f x :: 'a :: comm_monoid_add)"
  by (induction xs arbitrary: i) (auto simp: ac_simps split: nat.split)

lemma all_of_swap:
  "i < length (pl_workers s) \<Longrightarrow>
   all_of f (s\<lparr>pl_workers := (pl_workers s)[i := w]\<rparr>) + f (pl_workers s ! i) = all_of f s + (f w :: 'a :: comm_monoid_add)"
  by (simp add: all_of_def sum_list_swap)

lemma all_of_update [simp]: "all_of f (s\<lparr>pl_jobs := js\<rparr>) = all_of f s" "all_of f (s\<lparr>pl_callers := cs\<rparr>) = all_of f s"
  "all_of f (s\<lparr>pl_cancelled := b\<rparr>) = all_of f s"
  "all_of f (s\<lparr>pl_jobs := js, pl_workers := ws\<rparr>) = all_of f (s\<lparr>pl_workers := ws\<rparr>)"
  by (simp_all add: all_of_def)

section \<open>Every accepted job\<close>

definition pool_ok :: "nat \<Rightarrow> 'j pool_event list \<Rightarrow> 'j pool \<Rightarrow> bool" where
  "pool_ok n es s \<longleftrightarrow> of_run accepted_of es = of_run took_of es @ pl_jobs s
     \<and> mset (of_run took_of es) = all_of taken_by s + mset (of_run started_of es) + mset (of_run dropped_of es)
     \<and> mset (of_run started_of es) = all_of run_by s + mset (of_run ended_of es)
     \<and> (\<not> pl_cancelled s \<longrightarrow> of_run dropped_of es = [] \<and> Stopped \<notin> set (pl_workers s))
     \<and> length (pl_workers s) = n \<and> length (pl_jobs s) \<le> asyncQueueSize"

lemma sum_list_replicate_0: "sum_list (replicate n (0 :: 'a :: comm_monoid_add)) = 0"
  by (induction n) simp_all

lemma pool_ok_start: "pool_ok n [] (newAsyncPool n)"
  by (simp add: pool_ok_def newAsyncPool_def all_of_def sum_list_replicate_0)

lemma pool_ok_caller: "pool_ok n es s \<Longrightarrow> caller_step s e t \<Longrightarrow> pool_ok n (es @ [e]) t"
  by (erule caller_stepE) (simp_all add: pool_ok_def)

lemma pool_ok_worker:
  assumes "pool_ok n es s" "worker_step s e t"
  shows "pool_ok n (es @ [e]) t"
  using assms(2)
proof (cases rule: worker_step.cases)
  case (take_job i j js)
  then show ?thesis using assms(1) all_of_swap [OF take_job(3), of taken_by "Taken j"] all_of_swap [OF take_job(3), of run_by "Taken j"]
    by (auto simp: pool_ok_def dest!: subsetD [OF set_update_subset_insert])
next
  case (run_it i j)
  then show ?thesis using assms(1) all_of_swap [OF run_it(3), of taken_by "Running j"] all_of_swap [OF run_it(3), of run_by "Running j"]
    by (auto simp: pool_ok_def dest!: subsetD [OF set_update_subset_insert])
next
  case (drop_it i j)
  then show ?thesis using assms(1) all_of_swap [OF drop_it(3), of taken_by Stopped] all_of_swap [OF drop_it(3), of run_by Stopped]
    by (auto simp: pool_ok_def dest!: subsetD [OF set_update_subset_insert])
next
  case (job_ends i j)
  then show ?thesis using assms(1) all_of_swap [OF job_ends(3), of taken_by Idle] all_of_swap [OF job_ends(3), of run_by Idle]
    by (auto simp: pool_ok_def dest!: subsetD [OF set_update_subset_insert])
next
  case (leave i)
  then show ?thesis using assms(1) all_of_swap [OF leave(3), of taken_by Stopped] all_of_swap [OF leave(3), of run_by Stopped]
    by (auto simp: pool_ok_def dest!: subsetD [OF set_update_subset_insert])
qed

lemma pool_ok_step: "pool_ok n es s \<Longrightarrow> pool_step s e t \<Longrightarrow> pool_ok n (es @ [e]) t"
  by (erule pool_stepE) (auto simp: pool_ok_caller pool_ok_worker, simp add: pool_ok_def)

lemma pool_ok_run: "pool_run (newAsyncPool n) es s \<Longrightarrow> pool_ok n es s"
  by (induction "newAsyncPool n :: 'a pool" es s rule: pool_run.induct) (auto intro: pool_ok_start pool_ok_step)

text \<open>
  C36. Whatever the callers, the workers and the cancellation do in whatever order, the accepted jobs
  are taken in the order in which they were accepted; each of them is waiting, in the hands of one
  worker, finished, or was taken after the cancellation and dropped.
\<close>

theorem pool_loses_no_job:
  assumes "pool_run (newAsyncPool asyncWorkerCount) es s"
  shows "of_run accepted_of es = of_run took_of es @ pl_jobs s
    \<and> mset (of_run accepted_of es) = mset (pl_jobs s) + all_of taken_by s + all_of run_by s
        + mset (of_run ended_of es) + mset (of_run dropped_of es)
    \<and> (\<not> pl_cancelled s \<longrightarrow> of_run dropped_of es = [])"
  using pool_ok_run [OF assms] by (simp add: pool_ok_def ac_simps)

lemma one_job_each: "size (sum_list (map run_by ws)) \<le> length ws"
proof (induction ws)
  case (Cons w ws)
  then show ?case by (cases w) simp_all
qed simp

text \<open>
  C37. Never more than eight jobs run at once, and never more than 128 wait in the channel.
\<close>

theorem pool_is_bounded:
  assumes "pool_run (newAsyncPool asyncWorkerCount) es s"
  shows "size (all_of run_by s) \<le> 8 \<and> length (pl_jobs s) \<le> 128"
  using pool_ok_run [OF assms] one_job_each [of "pl_workers s"]
  by (simp add: pool_ok_def all_of_def asyncWorkerCount_def asyncQueueSize_def)

section \<open>Coming to rest\<close>

fun worker_left :: "'j worker \<Rightarrow> nat" where
  "worker_left Stopped = 0" | "worker_left Idle = 1" | "worker_left (Running j) = 2" | "worker_left (Taken j) = 3"

text \<open>A bound of the steps that are left if nobody calls any more.\<close>

definition work_left :: "'j pool \<Rightarrow> nat" where
  "work_left s = 4 * size (pl_callers s) + 3 * length (pl_jobs s) + all_of worker_left s + (if pl_cancelled s then 0 else 1)"

lemma worker_left_less:
  "i < length (pl_workers s) \<Longrightarrow> worker_left w < worker_left (pl_workers s ! i) \<Longrightarrow>
   all_of worker_left (s\<lparr>pl_workers := (pl_workers s)[i := w]\<rparr>) < all_of worker_left s"
  using all_of_swap [of i s worker_left w] by simp

lemma caller_step_left: "caller_step s e t \<Longrightarrow> (\<forall>c. e \<noteq> Called c) \<Longrightarrow> work_left t < work_left s"
  by (erule caller_stepE) (auto simp: work_left_def dest!: multi_member_split)

lemma worker_step_left: "worker_step s e t \<Longrightarrow> work_left t < work_left s"
proof (induction rule: worker_step.induct)
  case (take_job i s j js)
  then show ?case using all_of_swap [OF take_job(1), of worker_left "Taken j"] by (simp add: work_left_def)
qed (use worker_left_less in \<open>fastforce simp: work_left_def\<close>)+

lemma pool_step_left: "pool_step s e t \<Longrightarrow> (\<forall>c. e \<noteq> Called c) \<Longrightarrow> work_left t < work_left s"
  by (erule pool_stepE) (auto dest: caller_step_left worker_step_left simp: work_left_def)

lemma pool_run_left: "pool_run s es t \<Longrightarrow> (\<forall>c. Called c \<notin> set es) \<Longrightarrow> length es + work_left t \<le> work_left s"
proof (induction rule: pool_run.induct)
  case (one_event s es t e u)
  then have "length es + work_left t \<le> work_left s" "work_left u < work_left t"
    using pool_step_left [OF one_event(2)] by auto
  then show ?case by simp
qed simp

definition at_rest :: "'j pool \<Rightarrow> bool" where
  "at_rest s \<longleftrightarrow> (\<forall>e t. pool_step s e t \<longrightarrow> (\<exists>c. e = Called c) \<or> e = Cancelled)"

lemma at_rest_worker: "at_rest s \<Longrightarrow> \<not> worker_step s e t"
  by (auto simp: at_rest_def dest: by_worker elim: worker_stepE)

lemma at_rest_caller: "at_rest s \<Longrightarrow> \<forall>c. e \<noteq> Called c \<Longrightarrow> \<not> caller_step s e t"
  by (auto simp: at_rest_def dest: by_caller elim: caller_stepE)

lemma at_rest_workers:
  assumes "at_rest s" "w \<in> set (pl_workers s)"
  shows "if pl_cancelled s then w = Stopped else w = Stopped \<or> w = Idle \<and> pl_jobs s = []"
proof -
  obtain i where i: "i < length (pl_workers s)" "pl_workers s ! i = w" using assms(2) by (auto simp: in_set_conv_nth)
  note none = at_rest_worker [OF assms(1)]
  show ?thesis
  proof (cases w)
    case Idle
    then show ?thesis using worker_step.take_job [of i s] worker_step.leave [of i s] none i by (cases "pl_jobs s") auto
  next
    case (Taken j)
    then show ?thesis using worker_step.run_it [of i s j] worker_step.drop_it [of i s j] none i by auto
  next
    case (Running j)
    then show ?thesis using worker_step.job_ends [of i s j] none i by auto
  qed simp
qed

lemma at_rest_callers:
  assumes "at_rest s" "pl_cancelled s \<or> pl_jobs s = []"
  shows "pl_callers s = {#}"
proof -
  note none = at_rest_caller [OF assms(1)]
  have "c \<notin># pl_callers s" for c
    using caller_step.place [of c s] caller_step.closed [of "call_job c" s] caller_step.full [of "call_job c" s] none assms(2)
    by (cases c; cases "length (pl_jobs s) < asyncQueueSize") (auto simp: asyncQueueSize_def)
  then show ?thesis by (simp add: multiset_eq_iff not_in_iff)
qed

text \<open>
  The pool comes to rest: when nobody calls any more, a run has no more than \<open>work_left\<close> steps;
  and where no step is left, every call has been answered, and after the cancellation \<open>wait\<close> returns,
  before it every accepted job has run to its end.
\<close>

theorem pool_comes_to_rest:
  assumes "pool_run (newAsyncPool asyncWorkerCount) es s"
  shows "(\<forall>fs t. pool_run s fs t \<and> (\<forall>c. Called c \<notin> set fs) \<longrightarrow> length fs \<le> work_left s)
    \<and> (at_rest s \<longrightarrow> pl_callers s = {#}
        \<and> (if pl_cancelled s then wait_returns s else mset (of_run ended_of es) = mset (of_run accepted_of es)))"
proof (intro conjI impI allI)
  fix fs t
  assume "pool_run s fs t \<and> (\<forall>c. Called c \<notin> set fs)"
  then show "length fs \<le> work_left s" using pool_run_left [of s fs t] by simp
next
  assume rest: "at_rest s"
  have ok: "pool_ok asyncWorkerCount es s" using pool_ok_run [OF assms] .
  then have "length (pl_workers s) = 8" by (simp add: pool_ok_def asyncWorkerCount_def)
  then obtain w where w: "w \<in> set (pl_workers s)" by (cases "pl_workers s") auto
  have idle: "\<not> pl_cancelled s \<Longrightarrow> (\<forall>w \<in> set (pl_workers s). w = Idle) \<and> pl_jobs s = []"
    using at_rest_workers [OF rest] w ok by (auto simp: pool_ok_def)
  show "pl_callers s = {#}" using at_rest_callers [OF rest] idle by blast
  show "if pl_cancelled s then wait_returns s else mset (of_run ended_of es) = mset (of_run accepted_of es)"
  proof (cases "pl_cancelled s")
    case True
    then show ?thesis using at_rest_workers [OF rest] by (simp add: wait_returns_def list_all_iff)
  next
    case False
    have "all_of f s = {#}" if "f Idle = {#}" for f :: "'a worker \<Rightarrow> 'a multiset"
    proof -
      have "map f (pl_workers s) = replicate (length (pl_workers s)) {#}"
        by (rule replicate_eqI) (use idle [OF False] that in auto)
      then show ?thesis by (simp only: all_of_def sum_list_replicate_0)
    qed
    then show ?thesis using ok idle [OF False] False by (simp add: pool_ok_def)
  qed
qed

section \<open>A run\<close>

definition busy_pool :: "nat pool" where
  "busy_pool = \<lparr>pl_cancelled = False, pl_jobs = [], pl_callers = {#}, pl_workers = Running 7 # replicate 7 Idle\<rparr>"

lemma busy_run: "pool_run (newAsyncPool asyncWorkerCount) [Called (Submit 7), Accepted 7, Took 7, Started 7] busy_pool"
proof -
  let ?n = "newAsyncPool asyncWorkerCount :: nat pool"
  have n: "?n = \<lparr>pl_cancelled = False, pl_jobs = [], pl_callers = {#}, pl_workers = replicate 8 Idle\<rparr>"
    by (simp add: newAsyncPool_def asyncWorkerCount_def)
  let ?a = "?n\<lparr>pl_callers := {#Submit 7#}\<rparr>" and ?b = "?n\<lparr>pl_jobs := [7]\<rparr>"
    and ?c = "?n\<lparr>pl_workers := Taken 7 # replicate 7 Idle\<rparr>"
  have r: "replicate 8 Idle = Idle # replicate 7 (Idle :: nat worker)" by (simp add: numeral_eq_Suc)
  have "caller_step ?n (Called (Submit 7)) ?a" using caller_step.enter [of ?n "Submit 7"] by (simp add: n)
  moreover have "caller_step ?a (Accepted 7) ?b"
    using caller_step.place [of "Submit 7" ?a] by (simp add: n asyncQueueSize_def)
  moreover have "worker_step ?b (Took 7) ?c" using worker_step.take_job [of 0 ?b 7 "[]"] by (simp add: n r)
  moreover have "worker_step ?c (Started 7) busy_pool" using worker_step.run_it [of 0 ?c 7] by (simp add: n busy_pool_def)
  ultimately show ?thesis
    using pool_run.no_event [of ?n] pool_run.one_event [of ?n] by_caller by_worker by (metis append_Cons append_Nil)
qed

lemma pool_loses_no_job_witness: "all_of run_by busy_pool = {#7#}"
  using pool_loses_no_job [OF busy_run] by (simp add: of_run_def all_of_def busy_pool_def)

lemma pool_is_bounded_witness: "size (all_of run_by busy_pool) \<le> 8"
  using pool_is_bounded [OF busy_run] by simp

lemma pool_comes_to_rest_witness:
  "pool_run busy_pool [Ended 7] (newAsyncPool asyncWorkerCount) \<and> length [Ended (7 :: nat)] \<le> work_left busy_pool"
proof -
  have "worker_step busy_pool (Ended 7) (newAsyncPool asyncWorkerCount)"
    using worker_step.job_ends [of 0 busy_pool 7] by (simp add: busy_pool_def newAsyncPool_def asyncWorkerCount_def numeral_eq_Suc)
  then have run: "pool_run busy_pool [Ended 7] (newAsyncPool asyncWorkerCount)"
    using pool_run.one_event [OF pool_run.no_event] by_worker by (metis append_Nil)
  then show ?thesis using pool_comes_to_rest [OF busy_run] by fastforce
qed

end
