(* ===== verification/Background.thy ===== *)
theory Background
  imports Invariants AsyncPool MuninnSocket Arrival
begin

text \<open>
  The goroutines \<open>New\<close> starts and how \<open>Shutdown\<close> ends them: the loops of the messenger, the socket they
  keep connected, the signals it delivers to them, and the worker pool, in any interleaving.
\<close>

section \<open>State\<close>

datatype loop = RtcReconnect | Heartbeat | GroupRefresh | PeerRefresh | SignalPoll | RTCMessages | PendingChunks
  | FileDownloads | ChunkCleanup

text \<open>How far \<open>Shutdown\<close> has come.\<close>

datatype stage = Serving | Deleting | ClosingSocket | ClosingConns | AwaitingLoops | AwaitingPool | ShutDown

text \<open>
  \<open>bk_signals\<close> is \<open>signalChan\<close>, \<open>bk_loops\<close> the goroutines \<open>backgroundWG\<close> counts. The pool's queue is
  \<open>bk_pool\<close>; what a job does to the messenger are steps of it while a worker runs one.
\<close>

record background =
  bk_m :: Messenger
  bk_ws :: WSClient
  bk_signals :: "Signal list"
  bk_loops :: "loop list"
  bk_pool :: "job pool"
  bk_cancelled :: bool
  bk_stage :: stage

definition startBackground :: "loop \<Rightarrow> background \<Rightarrow> background" where
  "startBackground l s = s\<lparr>bk_loops := bk_loops s @ [l]\<rparr>"

definition started :: "string \<Rightarrow> Messenger \<Rightarrow> background" where
  "started base m =
     fold startBackground
       [RtcReconnect, Heartbeat, GroupRefresh, PeerRefresh, SignalPoll, RTCMessages, PendingChunks, FileDownloads, ChunkCleanup]
       \<lparr>bk_m = m, bk_ws = SetOnDisconnect (SetOnSignal (NewWSClient base (ms_id m))), bk_signals = [], bk_loops = [],
        bk_pool = newAsyncPool asyncWorkerCount, bk_cancelled = False, bk_stage = Serving\<rparr>"

text \<open>The callback of the socket: a signal that finds the channel full is dropped.\<close>

definition signal_capacity :: nat where
  "signal_capacity = 100"

definition push_signal :: "Signal \<Rightarrow> Signal list \<Rightarrow> Signal list" where
  "push_signal sig waiting_sigs = (if length waiting_sigs < signal_capacity then waiting_sigs @ [sig] else waiting_sigs)"

section \<open>Turns\<close>

text \<open>
  A turn of each loop but the two with a channel of their own; those of \<open>heartbeatLoop\<close>,
  \<open>processRTCMessages\<close> and \<open>chunkCleanupLoop\<close> stand with their parts. \<open>groupRefreshLoop\<close> makes its first
  turn before it waits. \<open>order\<close> is the order in which the map of pending files is read; that a turn panics
  is the end of the process and not followed.
\<close>

definition groupRefreshLoop :: "Messenger \<Rightarrow> Messenger" where
  "groupRefreshLoop = registerStoredGroupPeers"

definition peerRefreshLoop :: "codec \<Rightarrow> crypto_lib \<Rightarrow> net \<Rightarrow> Messenger \<Rightarrow> Messenger" where
  "peerRefreshLoop c L net m = snd (checkPendingMessages c L net m)"

definition pendingChunkLoop :: "net \<Rightarrow> Messenger \<Rightarrow> Messenger" where
  "pendingChunkLoop = distributePendingChunks"

definition fileDownloadLoop :: "codec \<Rightarrow> crypto_lib \<Rightarrow> net \<Rightarrow> string list \<Rightarrow> Messenger \<Rightarrow> Messenger" where
  "fileDownloadLoop c L net order m = snd (checkPendingFileDownloads c L net (\<lambda>m. m) order m)"

fun loop_turn :: "codec \<Rightarrow> crypto_lib \<Rightarrow> net \<Rightarrow> string list \<Rightarrow> loop \<Rightarrow> Messenger \<Rightarrow> Messenger" where
  "loop_turn c L net order Heartbeat m = heartbeat net m"
| "loop_turn c L net order GroupRefresh m = groupRefreshLoop m"
| "loop_turn c L net order PeerRefresh m = peerRefreshLoop c L net m"
| "loop_turn c L net order RTCMessages m = processRTCMessages c net m"
| "loop_turn c L net order PendingChunks m = pendingChunkLoop net m"
| "loop_turn c L net order FileDownloads m = fileDownloadLoop c L net order m"
| "loop_turn c L net order ChunkCleanup m = cleanup net m"
| "loop_turn c L net order RtcReconnect m = m"
| "loop_turn c L net order SignalPoll m = m"

text \<open>The two cases of \<open>signalPollLoop\<close>: the ticker, and a signal the socket delivered.\<close>

definition poll_tick :: "net \<Rightarrow> Signal list option \<Rightarrow> bool \<Rightarrow> background \<Rightarrow> background" where
  "poll_tick net polled pollSignal s = s\<lparr>bk_m := processPendingSignals net polled (bk_signals s) pollSignal (bk_m s),
     bk_signals := (if pollSignal \<and> polled = None then bk_signals s else [])\<rparr>"

definition poll_signal :: "net \<Rightarrow> background \<Rightarrow> background" where
  "poll_signal net s =
     (case bk_signals s of [] \<Rightarrow> s | sig # sigs \<Rightarrow> s\<lparr>bk_m := handleSignal net sig (bk_m s), bk_signals := sigs\<rparr>)"

text \<open>
  \<open>rtcReconnectLoop\<close> dials when there is no connection, which takes until it ends; a dial that fails ends
  the loop if the messenger was cancelled. A cancelled context makes a dial fail at once.
\<close>

definition reconnect_start :: "URL option \<Rightarrow> background \<Rightarrow> background" where
  "reconnect_start parsed s =
     (if WSIsConnected (bk_ws s) then s else s\<lparr>bk_ws := snd (connect_start parsed (bk_ws s))\<rparr>)"

definition reconnect_end :: "bool \<Rightarrow> background \<Rightarrow> background" where
  "reconnect_end ok s =
     (case connect_end ok (bk_ws s) of (r, w) \<Rightarrow>
        s\<lparr>bk_ws := w, bk_loops := (if r \<noteq> Ret () \<and> bk_cancelled s then removeAll RtcReconnect (bk_loops s) else bk_loops s)\<rparr>)"

section \<open>Shutdown\<close>

text \<open>
  \<open>Shutdown\<close> step by step: the cancellation, the request to Muninn to forget the device, whose result does
  not matter, the socket, the connections, and the two waits before the store is closed.
\<close>

fun shutdown_step :: "nat list \<Rightarrow> background \<Rightarrow> background option" where
  "shutdown_step connections s =
     (case bk_stage s of
        Serving \<Rightarrow> Some (s\<lparr>bk_cancelled := True, bk_pool := (bk_pool s)\<lparr>pl_cancelled := True\<rparr>,
          bk_m := (bk_m s)\<lparr>ms_closed := True\<rparr>, bk_stage := Deleting\<rparr>)
      | Deleting \<Rightarrow> Some (s\<lparr>bk_stage := ClosingSocket\<rparr>)
      | ClosingSocket \<Rightarrow> Some (s\<lparr>bk_ws := WSClose (bk_ws s), bk_stage := ClosingConns\<rparr>)
      | ClosingConns \<Rightarrow> Some (s\<lparr>bk_m := (bk_m s)\<lparr>ms_rtc := CloseAll connections (ms_rtc (bk_m s))\<rparr>, bk_stage := AwaitingLoops\<rparr>)
      | AwaitingLoops \<Rightarrow> if bk_loops s = [] then Some (s\<lparr>bk_stage := AwaitingPool\<rparr>) else None
      | AwaitingPool \<Rightarrow> if wait_returns (bk_pool s) then Some (s\<lparr>bk_stage := ShutDown\<rparr>) else None
      | ShutDown \<Rightarrow> None)"

section \<open>Everything that happens\<close>

datatype happening = LoopTurn loop | LoopEnds loop | DialStarts | DialEnds | PoolMoves "job pool_event" | JobActs
  | SocketMoves | FromOutside | ShuttingDown

text \<open>
  A loop that finds both its ticker and the cancellation takes either. \<open>FromOutside\<close> are the calls of the
  host and the callbacks of the WebRTC library.
\<close>

inductive bk_step :: "codec \<Rightarrow> crypto_lib \<Rightarrow> frames \<Rightarrow> background \<Rightarrow> happening \<Rightarrow> background \<Rightarrow> bool" for c L j where
  turn: "l \<in> set (bk_loops s) \<Longrightarrow> bk_step c L j s (LoopTurn l) (s\<lparr>bk_m := loop_turn c L net order l (bk_m s)\<rparr>)"
| tick: "SignalPoll \<in> set (bk_loops s) \<Longrightarrow> bk_step c L j s (LoopTurn SignalPoll) (poll_tick net polled pollSignal s)"
| signal: "SignalPoll \<in> set (bk_loops s) \<Longrightarrow> bk_step c L j s (LoopTurn SignalPoll) (poll_signal net s)"
| dial: "RtcReconnect \<in> set (bk_loops s) \<Longrightarrow> \<not> ws_dialing (bk_ws s) \<Longrightarrow> \<not> bk_cancelled s \<Longrightarrow>
    bk_step c L j s DialStarts (reconnect_start parsed s)"
| dialled: "RtcReconnect \<in> set (bk_loops s) \<Longrightarrow> ws_dialing (bk_ws s) \<Longrightarrow> bk_step c L j s DialEnds (reconnect_end ok s)"
| ends: "l \<in> set (bk_loops s) \<Longrightarrow> bk_cancelled s \<Longrightarrow> l = RtcReconnect \<longrightarrow> \<not> ws_dialing (bk_ws s) \<Longrightarrow>
    bk_step c L j s (LoopEnds l) (s\<lparr>bk_loops := removeAll l (bk_loops s)\<rparr>)"
| pool: "pool_step (bk_pool s) e p \<Longrightarrow> e \<noteq> pool_event.Cancelled \<Longrightarrow> bk_step c L j s (PoolMoves e) (s\<lparr>bk_pool := p\<rparr>)"
| job: "Running jb \<in> set (pl_workers (bk_pool s)) \<Longrightarrow> messenger_step c L (bk_m s) m \<Longrightarrow> bk_step c L j s JobActs (s\<lparr>bk_m := m\<rparr>)"
| socket: "ws_step j (bk_ws s) w \<Longrightarrow> ws_dialing w = ws_dialing (bk_ws s) \<Longrightarrow> ws_cancelled w = ws_cancelled (bk_ws s) \<Longrightarrow>
    ws_signals w = ws_signals (bk_ws s) @ sigs \<Longrightarrow>
    bk_step c L j s SocketMoves (s\<lparr>bk_ws := w, bk_signals := fold push_signal sigs (bk_signals s)\<rparr>)"
| outside: "messenger_step c L (bk_m s) m \<Longrightarrow> bk_step c L j s FromOutside (s\<lparr>bk_m := m\<rparr>)"
| shutting: "shutdown_step connections s = Some s' \<Longrightarrow> bk_step c L j s ShuttingDown s'"

inductive bk_run :: "codec \<Rightarrow> crypto_lib \<Rightarrow> frames \<Rightarrow> background \<Rightarrow> happening list \<Rightarrow> background \<Rightarrow> bool" for c L j where
  none: "bk_run c L j s [] s"
| one: "bk_run c L j s es t \<Longrightarrow> bk_step c L j t e u \<Longrightarrow> bk_run c L j s (es @ [e]) u"

inductive_cases bk_stepE: "bk_step c L j s e t"

section \<open>A messenger all the same\<close>

text \<open>The interleaving refines the messenger as a sequence of operations.\<close>

lemma idle: "messenger_step c L m m"
  using messenger_step.writing [of c L m "ms_disk m"] by simp

lemma turn_is_step: "messenger_step c L m (loop_turn c L net order l m)"
  by (cases l) (auto simp: groupRefreshLoop_def peerRefreshLoop_def pendingChunkLoop_def fileDownloadLoop_def
      intro: messenger_step.intros idle)

lemma handleSignal_is_step: "messenger_step c L m (handleSignal net sig m)"
  using messenger_step.signals [of c L m net None "[sig]" False] by (simp add: processPendingSignals_def)

lemma bk_step_refines: "bk_step c L j s e t \<Longrightarrow> (messenger_step c L)\<^sup>*\<^sup>* (bk_m s) (bk_m t)"
proof (induction rule: bk_step.induct)
  case (turn l s net order)
  then show ?case using turn_is_step by auto
next
  case (tick s net polled pollSignal)
  then show ?case by (auto simp: poll_tick_def intro: messenger_step.signals)
next
  case (signal s net)
  then show ?case by (auto simp: poll_signal_def handleSignal_is_step split: list.split)
next
  case (dialled s ok)
  then show ?case by (simp add: reconnect_end_def split: prod.split)
next
  case (shutting connections s s')
  then show ?case by (auto split: stage.splits if_splits intro!: r_into_rtranclp messenger_step.closing messenger_step.shutting idle)
qed (auto simp: reconnect_start_def)

lemma bk_run_refines: "bk_run c L j s es t \<Longrightarrow> (messenger_step c L)\<^sup>*\<^sup>* (bk_m s) (bk_m t)"
  by (induction rule: bk_run.induct) (auto dest: bk_step_refines)

section \<open>Shutting down\<close>

definition bk_ok :: "background \<Rightarrow> bool" where
  "bk_ok s \<longleftrightarrow> pl_cancelled (bk_pool s) = bk_cancelled s \<and> bk_cancelled s = (bk_stage s \<noteq> Serving)
     \<and> (bk_stage s \<in> {AwaitingPool, ShutDown} \<longrightarrow> bk_loops s = [])
     \<and> (bk_stage s = ShutDown \<longrightarrow> wait_returns (bk_pool s))"

lemma started_ok: "bk_ok (started base m)"
  by (simp add: bk_ok_def started_def startBackground_def newAsyncPool_def)

lemma pool_step_cancelled: "pool_step p e q \<Longrightarrow> e \<noteq> pool_event.Cancelled \<Longrightarrow> pl_cancelled q = pl_cancelled p"
  by (auto elim!: pool_stepE caller_stepE worker_stepE)

lemma stopped_stays: "pool_step p e q \<Longrightarrow> wait_returns p \<Longrightarrow> pl_workers q = pl_workers p
   \<and> (\<exists>x. e = Called x \<or> e = pool_event.Cancelled) \<or> (\<exists>x. e = Accepted x \<or> e = Refused x) \<and> pl_workers q = pl_workers p"
  by (auto elim!: pool_stepE caller_stepE worker_stepE simp: wait_returns_def list_all_length)

lemma bk_step_ok: "bk_step c L j s e t \<Longrightarrow> bk_ok s \<Longrightarrow> bk_ok t"
proof (induction rule: bk_step.induct)
  case (pool s e p)
  then show ?case using pool_step_cancelled [OF pool(1,2)] stopped_stays [OF pool(1)]
    by (auto simp: bk_ok_def wait_returns_def)
next
  case (signal s net)
  then show ?case by (auto simp: bk_ok_def poll_signal_def split: list.split)
next
  case (shutting connections s s')
  then show ?case by (auto simp: bk_ok_def wait_returns_def split: stage.splits if_splits)
qed (auto simp: bk_ok_def poll_tick_def reconnect_start_def reconnect_end_def split: prod.split)

lemma bk_run_ok: "bk_run c L j s es t \<Longrightarrow> bk_ok s \<Longrightarrow> bk_ok t"
  by (induction rule: bk_run.induct) (auto dest: bk_step_ok)

text \<open>The steps that bring a shutdown nearer, and how many of them are left.\<close>

fun ending :: "happening \<Rightarrow> bool" where
  "ending (LoopEnds l) = True" | "ending DialEnds = True" | "ending (PoolMoves e) = True" | "ending ShuttingDown = True"
| "ending _ = False"

fun stages_left :: "stage \<Rightarrow> nat" where
  "stages_left Serving = 6" | "stages_left Deleting = 5" | "stages_left ClosingSocket = 4" | "stages_left ClosingConns = 3"
| "stages_left AwaitingLoops = 2" | "stages_left AwaitingPool = 1" | "stages_left ShutDown = 0"

definition bk_left :: "background \<Rightarrow> nat" where
  "bk_left s = length (bk_loops s) + work_left (bk_pool s) + stages_left (bk_stage s) + (if ws_dialing (bk_ws s) then 1 else 0)"

lemma pool_step_not_called: "pool_step p e q \<Longrightarrow> pl_cancelled p \<Longrightarrow> \<forall>x. e \<noteq> Called x"
  by (auto elim!: pool_stepE caller_stepE worker_stepE)

lemma bk_step_left:
  assumes "bk_step c L j s e t" "bk_ok s" "bk_cancelled s"
  shows "bk_cancelled t \<and> (if ending e then bk_left t < bk_left s else bk_left t \<le> bk_left s)"
  using assms
proof (induction rule: bk_step.induct)
  case (dialled s ok)
  then show ?case
    by (auto simp: bk_left_def reconnect_end_def connect_end_def Let_def less_Suc_eq_le length_removeAll_less_eq)
next
  case (ends l s)
  then show ?case using length_removeAll_less [OF ends(1)] by (simp add: bk_left_def)
next
  case (pool s e p)
  have "\<forall>x. e \<noteq> Called x" using pool_step_not_called [OF pool(1)] pool(3,4) by (simp add: bk_ok_def)
  from pool_step_left [OF pool(1) this] show ?case using pool(4) by (simp add: bk_left_def)
next
  case (shutting connections s s')
  then show ?case by (auto simp: bk_ok_def bk_left_def WSClose_def split: stage.splits if_splits)
qed (auto simp: bk_left_def poll_tick_def poll_signal_def reconnect_start_def split: list.splits)

lemma bk_run_left:
  "bk_run c L j s es t \<Longrightarrow> bk_ok s \<Longrightarrow> bk_cancelled s \<Longrightarrow>
    bk_cancelled t \<and> length (filter ending es) + bk_left t \<le> bk_left s"
proof (induction rule: bk_run.induct)
  case (one s es t e u)
  then have "bk_cancelled t" "length (filter ending es) + bk_left t \<le> bk_left s" by simp_all
  with bk_step_left [OF one(2) bk_run_ok [OF one(1,4)]] show ?case by (auto split: if_splits)
qed simp

text \<open>While \<open>Shutdown\<close> has not returned, there is a step towards its end.\<close>

lemma shutdown_goes_on:
  assumes "bk_ok s" "bk_cancelled s" "bk_stage s \<noteq> ShutDown"
  shows "\<exists>e t. ending e \<and> bk_step c L j s e t"
proof (cases "\<exists>s'. shutdown_step [] s = Some s'")
  case True
  then show ?thesis using bk_step.shutting ending.simps(4) by blast
next
  case False
  then consider "bk_stage s = AwaitingLoops" "bk_loops s \<noteq> []" | "bk_stage s = AwaitingPool" "\<not> wait_returns (bk_pool s)"
    using assms(3) by (auto split: stage.splits if_splits)
  then show ?thesis
  proof cases
    case 1
    then obtain l where l: "l \<in> set (bk_loops s)" by (cases "bk_loops s") auto
    show ?thesis
    proof (cases "l = RtcReconnect \<and> ws_dialing (bk_ws s)")
      case True
      then show ?thesis using bk_step.dialled [of s c L j True] l ending.simps(2) by blast
    next
      case False
      then show ?thesis using bk_step.ends [OF l assms(2), of c L j] ending.simps(1) by blast
    qed
  next
    case 2
    then obtain w where w: "w \<in> set (pl_workers (bk_pool s))" "w \<noteq> Stopped" by (auto simp: wait_returns_def list_all_iff)
    have "\<not> at_rest (bk_pool s)" using at_rest_workers [OF _ w(1)] w(2) assms(1,2) by (auto simp: bk_ok_def)
    then obtain e p where "pool_step (bk_pool s) e p" "e \<noteq> pool_event.Cancelled" by (auto simp: at_rest_def)
    then show ?thesis using bk_step.pool [of s e p c L j] ending.simps(3) by blast
  qed
qed

text \<open>What may still happen once \<open>Shutdown\<close> has returned: none of it touches the messenger.\<close>

fun idle_step :: "happening \<Rightarrow> bool" where
  "idle_step SocketMoves = True" | "idle_step (PoolMoves (Accepted x)) = True" | "idle_step (PoolMoves (Refused x)) = True"
| "idle_step _ = False"

lemma after_shutdown:
  assumes "bk_ok s" "bk_stage s = ShutDown" "bk_step c L j s e t" "e \<noteq> FromOutside"
  shows "idle_step e \<and> bk_m t = bk_m s"
  using assms(3,1,2,4)
proof (induction rule: bk_step.induct)
  case (pool s e p)
  then have "\<forall>x. e \<noteq> Called x" using pool_step_not_called [OF pool(1)] by (simp add: bk_ok_def)
  then show ?case using stopped_stays [OF pool(1)] pool by (auto simp: bk_ok_def)
qed (auto simp: bk_ok_def wait_returns_def list_all_iff)

text \<open>
  C38. Whatever the loops, the jobs, the socket, the host and the WebRTC library did before and do meanwhile:
  once \<open>Shutdown\<close> was called, no more than \<open>bk_left\<close> of the steps that end something are left, and until it
  has returned one of them is always possible, so that it returns. It returns only after every loop has ended
  and every worker stopped; from then on nothing but a call from outside touches the messenger. All along the
  messenger does what some sequence of its operations does. (A turn of a loop and an operation of a job are one
  step here; that each of them ends is what their definitions show.)
\<close>

theorem shutdown_returns:
  assumes "bk_run c L j (started base m) es s"
  shows "(bk_cancelled s \<longrightarrow> (\<forall>fs t. bk_run c L j s fs t \<longrightarrow> length (filter ending fs) \<le> bk_left s))
    \<and> (bk_cancelled s \<and> bk_stage s \<noteq> ShutDown \<longrightarrow> (\<exists>e t. ending e \<and> bk_step c L j s e t))
    \<and> (bk_stage s = ShutDown \<longrightarrow> bk_loops s = [] \<and> wait_returns (bk_pool s)
         \<and> (\<forall>e t. bk_step c L j s e t \<longrightarrow> e = FromOutside \<or> idle_step e \<and> bk_m t = bk_m s))
    \<and> (messenger_step c L)\<^sup>*\<^sup>* m (bk_m s)"
proof -
  have ok: "bk_ok s" using bk_run_ok [OF assms started_ok] .
  have "length (filter ending fs) \<le> bk_left s" if "bk_cancelled s" "bk_run c L j s fs t" for fs t
    using bk_run_left [OF that(2) ok that(1)] by simp
  moreover have "(messenger_step c L)\<^sup>*\<^sup>* m (bk_m s)"
    using bk_run_refines [OF assms] by (simp add: started_def startBackground_def)
  moreover have "bk_loops s = [] \<and> wait_returns (bk_pool s)" if "bk_stage s = ShutDown"
    using ok that by (simp add: bk_ok_def)
  ultimately show ?thesis using shutdown_goes_on [OF ok] after_shutdown [OF ok] by blast
qed

text \<open>A run from the start to the end.\<close>

lemma bk_run_append: "bk_run c L j t fs u \<Longrightarrow> bk_run c L j s es t \<Longrightarrow> bk_run c L j s (es @ fs) u"
proof (induction rule: bk_run.induct)
  case (one t fs u e v)
  then show ?case using bk_run.one [of c L j s "es @ fs" u e v] by simp
qed simp

lemma shutdown_reached:
  assumes "bk_ok s" "bk_cancelled s"
  shows "\<exists>fs t. bk_run c L j s fs t \<and> bk_stage t = ShutDown"
  using assms
proof (induction "bk_left s" arbitrary: s rule: less_induct)
  case less
  show ?case
  proof (cases "bk_stage s = ShutDown")
    case True
    then show ?thesis using bk_run.none by blast
  next
    case False
    then obtain e t where t: "ending e" "bk_step c L j s e t" using shutdown_goes_on less.prems by blast
    have "bk_left t < bk_left s" "bk_cancelled t" "bk_ok t"
      using bk_step_left [OF t(2) less.prems] t(1) bk_step_ok [OF t(2) less.prems(1)] by simp_all
    then obtain fs u where "bk_run c L j t fs u" "bk_stage u = ShutDown" using less.hyps by blast
    then show ?thesis using bk_run_append [OF _ bk_run.one [OF bk_run.none t(2)]] by blast
  qed
qed

lemma shutdown_returns_witness:
  "\<exists>es s. bk_run wire_codec toy_lib toy_frames (started ''http://m'' ann) es s
     \<and> bk_stage s = ShutDown \<and> bk_loops s = [] \<and> wait_returns (bk_pool s)"
proof -
  define s0 where "s0 = started ''http://m'' ann"
  define s1 where "s1 = s0\<lparr>bk_cancelled := True, bk_pool := (bk_pool s0)\<lparr>pl_cancelled := True\<rparr>,
          bk_m := (bk_m s0)\<lparr>ms_closed := True\<rparr>, bk_stage := Deleting\<rparr>"
  have s1: "bk_step wire_codec toy_lib toy_frames s0 ShuttingDown s1"
    by (rule bk_step.shutting [of "[]"]) (simp add: s1_def s0_def started_def startBackground_def)
  have s1_cancelled: "bk_cancelled s1" by (simp add: s1_def)
  have ok: "bk_ok s1" using bk_step_ok [OF s1] started_ok by (simp add: s0_def)
  obtain fs s where s: "bk_run wire_codec toy_lib toy_frames s1 fs s" "bk_stage s = ShutDown"
    using shutdown_reached [OF ok, of wire_codec toy_lib toy_frames] s1_cancelled by blast
  have "bk_run wire_codec toy_lib toy_frames s0 (([] @ [ShuttingDown]) @ fs) s"
    by (rule bk_run_append [OF s(1) bk_run.one [OF bk_run.none s1]])
  then have "bk_run wire_codec toy_lib toy_frames (started ''http://m'' ann) (([] @ [ShuttingDown]) @ fs) s"
    by (simp only: s0_def)
  then show ?thesis using shutdown_returns s(2) by blast
qed

end
