(* ===== verification/Subscriptions.thy ===== *)
theory Subscriptions
  imports Bridge "HOL-Library.Sublist"
begin

text \<open>
  How events reach the host of the library. Subscribers of the messenger are channels with a bounded
  buffer (\<open>SubscribeMessages\<close>, \<open>SubscribeFileReady\<close>, \<open>SubscribePeers\<close>); telling them never blocks, an
  event that finds a buffer full is dropped. \<open>eventLoop\<close> of \<open>bridge.go\<close> moves the events into the queue
  that \<open>messenger_get_event\<close> is polled from.
\<close>

section \<open>Subscribers\<close>

text \<open>
  The channels are numbered: those that are subscribed, in order, what each holds and may hold, and which
  are closed. Closing a channel twice and sending on a closed one panic.
\<close>

record 'e subscribers =
  sb_subs :: "nat list"
  sb_buf :: "nat \<Rightarrow> 'e list"
  sb_cap :: "nat \<Rightarrow> nat"
  sb_closed :: "nat set"
  sb_next :: nat

definition no_subscribers :: "'e subscribers" where
  "no_subscribers = \<lparr>sb_subs = [], sb_buf = (\<lambda>_. []), sb_cap = (\<lambda>_. 0), sb_closed = {}, sb_next = 0\<rparr>"

definition subscribe :: "nat \<Rightarrow> 'e subscribers \<Rightarrow> nat \<times> 'e subscribers" where
  "subscribe capacity s =
     (sb_next s, s\<lparr>sb_subs := sb_subs s @ [sb_next s], sb_buf := (sb_buf s)(sb_next s := []),
        sb_cap := (sb_cap s)(sb_next s := capacity), sb_next := Suc (sb_next s)\<rparr>)"

definition SubscribeMessages :: "ChatMessage subscribers \<Rightarrow> nat \<times> ChatMessage subscribers" where
  "SubscribeMessages = subscribe 50"

definition SubscribeFileReady :: "FileReadyEvent subscribers \<Rightarrow> nat \<times> FileReadyEvent subscribers" where
  "SubscribeFileReady = subscribe 50"

definition SubscribePeers :: "unit subscribers \<Rightarrow> nat \<times> unit subscribers" where
  "SubscribePeers = subscribe 1"

definition unsubscribe :: "nat \<Rightarrow> 'e subscribers \<Rightarrow> 'e subscribers go" where
  "unsubscribe ch s =
     (if ch \<notin> set (sb_subs s) then Ret s
      else if ch \<in> sb_closed s then Panic ''close of closed channel''
      else Ret (s\<lparr>sb_subs := remove1 ch (sb_subs s), sb_closed := insert ch (sb_closed s)\<rparr>))"

definition UnsubscribeMessages :: "nat \<Rightarrow> ChatMessage subscribers \<Rightarrow> ChatMessage subscribers go" where
  "UnsubscribeMessages = unsubscribe"

definition UnsubscribeFileReady :: "nat \<Rightarrow> FileReadyEvent subscribers \<Rightarrow> FileReadyEvent subscribers go" where
  "UnsubscribeFileReady = unsubscribe"

definition UnsubscribePeers :: "nat \<Rightarrow> unit subscribers \<Rightarrow> unit subscribers go" where
  "UnsubscribePeers = unsubscribe"

definition offer :: "'e \<Rightarrow> nat \<Rightarrow> 'e subscribers \<Rightarrow> 'e subscribers go" where
  "offer e ch s =
     (if ch \<in> sb_closed s then Panic ''send on closed channel''
      else if length (sb_buf s ch) < sb_cap s ch then Ret (s\<lparr>sb_buf := (sb_buf s)(ch := sb_buf s ch @ [e])\<rparr>)
      else Ret s)"

fun tell :: "'e \<Rightarrow> nat list \<Rightarrow> 'e subscribers \<Rightarrow> 'e subscribers go" where
  "tell e [] s = Ret s"
| "tell e (ch # chs) s =
     (case offer e ch s of Ret s1 \<Rightarrow> tell e chs s1 | Err x \<Rightarrow> Err x | Panic x \<Rightarrow> Panic x)"

definition notify_all :: "'e \<Rightarrow> 'e subscribers \<Rightarrow> 'e subscribers go" where
  "notify_all e s = tell e (sb_subs s) s"

definition receive :: "nat \<Rightarrow> 'e subscribers \<Rightarrow> ('e \<times> 'e subscribers) option" where
  "receive ch s =
     (case sb_buf s ch of [] \<Rightarrow> None | e # es \<Rightarrow> Some (e, s\<lparr>sb_buf := (sb_buf s)(ch := es)\<rparr>))"

definition subs_ok :: "'e subscribers \<Rightarrow> bool" where
  "subs_ok s \<longleftrightarrow> distinct (sb_subs s) \<and> set (sb_subs s) \<inter> sb_closed s = {}
     \<and> (\<forall>ch \<in> set (sb_subs s) \<union> sb_closed s. ch < sb_next s)"

text \<open>What \<open>ch\<close> holds once \<open>e\<close> was told.\<close>

definition taken :: "'e \<Rightarrow> nat \<Rightarrow> 'e subscribers \<Rightarrow> 'e list" where
  "taken e ch s = (if length (sb_buf s ch) < sb_cap s ch then sb_buf s ch @ [e] else sb_buf s ch)"

lemma tell_all:
  assumes "distinct chs" "set chs \<inter> sb_closed s = {}"
  shows "tell e chs s = Ret (s\<lparr>sb_buf := \<lambda>ch. if ch \<in> set chs then taken e ch s else sb_buf s ch\<rparr>)"
  using assms
proof (induction chs arbitrary: s)
  case (Cons c chs)
  define s1 where "s1 = s\<lparr>sb_buf := (sb_buf s)(c := taken e c s)\<rparr>"
  have "offer e c s = Ret s1" using Cons.prems by (simp add: offer_def taken_def s1_def)
  moreover have "tell e chs s1 = Ret (s1\<lparr>sb_buf := \<lambda>ch. if ch \<in> set chs then taken e ch s1 else sb_buf s1 ch\<rparr>)"
    using Cons.prems by (intro Cons.IH) (simp_all add: s1_def)
  moreover have "(\<lambda>ch. if ch \<in> set chs then taken e ch s1 else sb_buf s1 ch)
      = (\<lambda>ch. if ch \<in> set (c # chs) then taken e ch s else sb_buf s ch)"
    using Cons.prems(1) by (auto simp: fun_eq_iff s1_def taken_def)
  ultimately show ?case by (simp add: s1_def)
qed simp

text \<open>Whoever subscribes, leaves and is told, in whatever order: nothing panics.\<close>

lemma notify_all_ok:
  assumes "subs_ok s"
  shows "\<exists>s'. notify_all e s = Ret s' \<and> subs_ok s' \<and> sb_subs s' = sb_subs s \<and> sb_cap s' = sb_cap s
    \<and> (\<forall>ch. sb_buf s' ch = (if ch \<in> set (sb_subs s) then taken e ch s else sb_buf s ch))"
  using assms tell_all [of "sb_subs s" s e] by (auto simp: notify_all_def subs_ok_def)

lemma unsubscribe_ok:
  assumes "subs_ok s"
  shows "\<exists>s'. unsubscribe ch s = Ret s' \<and> subs_ok s' \<and> ch \<notin> set (sb_subs s')"
  using assms by (auto simp: unsubscribe_def subs_ok_def set_remove1_eq distinct_remove1)

lemma subscribe_ok:
  assumes "subs_ok s" "subscribe n s = (ch, s')"
  shows "subs_ok s' \<and> ch \<in> set (sb_subs s') \<and> sb_buf s' ch = [] \<and> sb_cap s' ch = n"
  using assms by (auto simp: subscribe_def subs_ok_def less_Suc_eq)

lemma receive_ok:
  assumes "subs_ok s" "receive ch s = Some (e, s')"
  shows "subs_ok s' \<and> sb_subs s' = sb_subs s \<and> sb_cap s' = sb_cap s \<and> sb_buf s ch = e # sb_buf s' ch"
  using assms by (auto simp: receive_def subs_ok_def split: list.splits)

text \<open>What other subscribers do beside the owner of a channel.\<close>

inductive other_step :: "nat \<Rightarrow> 'e subscribers \<Rightarrow> 'e subscribers \<Rightarrow> bool" for own where
  joins: "subscribe n s = (ch, r) \<Longrightarrow> other_step own s r"
| leaves: "ch \<noteq> own \<Longrightarrow> unsubscribe ch s = Ret r \<Longrightarrow> other_step own s r"
| takes: "ch \<noteq> own \<Longrightarrow> receive ch s = Some (e, r) \<Longrightarrow> other_step own s r"

lemma other_step_ok: "other_step own s r \<Longrightarrow> subs_ok s \<Longrightarrow> subs_ok r"
proof (induction rule: other_step.induct)
  case (joins n s ch r)
  then show ?case using subscribe_ok [OF joins(2,1)] by simp
next
  case (leaves ch s r)
  then show ?case using unsubscribe_ok [of s ch] by auto
next
  case (takes ch s e r)
  then show ?case using receive_ok [OF takes(3,2)] by simp
qed

lemma other_step_own:
  "other_step own s r \<Longrightarrow> subs_ok s \<Longrightarrow> own \<in> set (sb_subs s) \<Longrightarrow>
    own \<in> set (sb_subs r) \<and> sb_buf r own = sb_buf s own \<and> sb_cap r own = sb_cap s own"
proof (induction rule: other_step.induct)
  case (joins n s ch r)
  then have "own < sb_next s" by (simp add: subs_ok_def)
  then show ?case using joins by (auto simp: subscribe_def)
next
  case (leaves ch s r)
  then show ?case by (simp add: unsubscribe_def in_set_remove1 split: if_splits) auto
next
  case (takes ch s e r)
  then show ?case by (cases "sb_buf s ch") (auto simp: receive_def)
qed

section \<open>From the messenger to the host\<close>

text \<open>
  The three lists of subscribers, the instance with its queue, and for the theorems what the host has
  been given.
\<close>

record pipe =
  pi_msgs :: "ChatMessage subscribers"
  pi_files :: "FileReadyEvent subscribers"
  pi_peers :: "unit subscribers"
  pi_inst :: messenger_instance
  pi_polled :: "pushed list"

text \<open>The channels of the loop.\<close>

record loop_channels =
  lc_msgs :: nat
  lc_files :: nat
  lc_peers :: nat

definition loop_start :: "pipe \<Rightarrow> loop_channels \<times> pipe" where
  "loop_start s =
     (case SubscribePeers (pi_peers s) of (p, peers) \<Rightarrow>
      case SubscribeMessages (pi_msgs s) of (m, msgs) \<Rightarrow>
      case SubscribeFileReady (pi_files s) of (f, files) \<Rightarrow>
        (\<lparr>lc_msgs = m, lc_files = f, lc_peers = p\<rparr>, s\<lparr>pi_peers := peers, pi_msgs := msgs, pi_files := files\<rparr>))"

text \<open>Every place that tells of an event goes through the list of its kind.\<close>

fun publish :: "event \<Rightarrow> pipe \<Rightarrow> pipe go" where
  "publish (MessageEvent x) s =
     (case notify_all x (pi_msgs s) of Ret r \<Rightarrow> Ret (s\<lparr>pi_msgs := r\<rparr>) | Err e \<Rightarrow> Err e | Panic e \<Rightarrow> Panic e)"
| "publish (FileReady f) s =
     (case notify_all f (pi_files s) of Ret r \<Rightarrow> Ret (s\<lparr>pi_files := r\<rparr>) | Err e \<Rightarrow> Err e | Panic e \<Rightarrow> Panic e)"
| "publish PeersChanged s =
     (case notify_all () (pi_peers s) of Ret r \<Rightarrow> Ret (s\<lparr>pi_peers := r\<rparr>) | Err e \<Rightarrow> Err e | Panic e \<Rightarrow> Panic e)"

definition loop_end :: "loop_channels \<Rightarrow> pipe \<Rightarrow> pipe go" where
  "loop_end l s =
     (case UnsubscribeFileReady (lc_files l) (pi_files s) of
        Ret files \<Rightarrow>
          (case UnsubscribeMessages (lc_msgs l) (pi_msgs s) of
             Ret msgs \<Rightarrow>
               (case UnsubscribePeers (lc_peers l) (pi_peers s) of
                  Ret peers \<Rightarrow> Ret (s\<lparr>pi_files := files, pi_msgs := msgs, pi_peers := peers\<rparr>)
                | Err e \<Rightarrow> Err e | Panic e \<Rightarrow> Panic e)
           | Err e \<Rightarrow> Err e | Panic e \<Rightarrow> Panic e)
      | Err e \<Rightarrow> Err e | Panic e \<Rightarrow> Panic e)"

text \<open>
  The messenger tells of an event or does something else, the loop takes an event from one of its
  channels, whichever \<open>select\<close> chooses, the host polls, and other subscribers come, take and go.
\<close>

inductive pipe_step :: "loop_channels \<Rightarrow> pipe \<Rightarrow> pipe \<Rightarrow> bool" for l where
  told: "ms_events m = ms_events (in_m (pi_inst s)) @ [e] \<Longrightarrow> publish e s = Ret s' \<Longrightarrow>
    pipe_step l s (s'\<lparr>pi_inst := (pi_inst s')\<lparr>in_m := m\<rparr>\<rparr>)"
| silent: "ms_events m = ms_events (in_m (pi_inst s)) \<Longrightarrow> pipe_step l s (s\<lparr>pi_inst := (pi_inst s)\<lparr>in_m := m\<rparr>\<rparr>)"
| loop_message: "receive (lc_msgs l) (pi_msgs s) = Some (x, r) \<Longrightarrow>
    pipe_step l s (s\<lparr>pi_msgs := r, pi_inst := event_turn now (MessageEvent x) (pi_inst s)\<rparr>)"
| loop_file: "receive (lc_files l) (pi_files s) = Some (f, r') \<Longrightarrow>
    pipe_step l s (s\<lparr>pi_files := r', pi_inst := event_turn now (FileReady f) (pi_inst s)\<rparr>)"
| loop_peers: "receive (lc_peers l) (pi_peers s) = Some (u, r'') \<Longrightarrow>
    pipe_step l s (s\<lparr>pi_peers := r'', pi_inst := event_turn now PeersChanged (pi_inst s)\<rparr>)"
| polled: "in_events (pi_inst s) = ev # es \<Longrightarrow>
    pipe_step l s (s\<lparr>pi_inst := (pi_inst s)\<lparr>in_events := es\<rparr>, pi_polled := pi_polled s @ [ev]\<rparr>)"
| other_messages: "other_step (lc_msgs l) (pi_msgs s) ms \<Longrightarrow> pipe_step l s (s\<lparr>pi_msgs := ms\<rparr>)"
| other_files: "other_step (lc_files l) (pi_files s) fs \<Longrightarrow> pipe_step l s (s\<lparr>pi_files := fs\<rparr>)"
| other_peers: "other_step (lc_peers l) (pi_peers s) ps \<Longrightarrow> pipe_step l s (s\<lparr>pi_peers := ps\<rparr>)"

section \<open>What the host gets\<close>

definition messages_told :: "event list \<Rightarrow> ChatMessage list" where
  "messages_told = List.map_filter (\<lambda>e. case e of MessageEvent x \<Rightarrow> Some x | _ \<Rightarrow> None)"

definition files_told :: "event list \<Rightarrow> FileReadyEvent list" where
  "files_told = List.map_filter (\<lambda>e. case e of FileReady f \<Rightarrow> Some f | _ \<Rightarrow> None)"

definition messages_pushed :: "pushed list \<Rightarrow> ChatMessage list" where
  "messages_pushed = List.map_filter (\<lambda>e. case e of MessagePushed x \<Rightarrow> Some x | _ \<Rightarrow> None)"

definition files_pushed :: "pushed list \<Rightarrow> FileReadyEvent list" where
  "files_pushed = List.map_filter (\<lambda>e. case e of FilePushed f \<Rightarrow> Some f | _ \<Rightarrow> None)"

lemma told_simps [simp]:
  "messages_told [] = []" "files_told [] = []" "messages_pushed [] = []" "files_pushed [] = []"
  "messages_told (es @ es') = messages_told es @ messages_told es'" "files_told (es @ es') = files_told es @ files_told es'"
  "messages_pushed (ps @ ps') = messages_pushed ps @ messages_pushed ps'" "files_pushed (ps @ ps') = files_pushed ps @ files_pushed ps'"
  by (simp_all add: messages_told_def files_told_def messages_pushed_def files_pushed_def List.map_filter_def)

lemma told_one [simp]:
  "messages_told (MessageEvent x # es) = x # messages_told es" "files_told (MessageEvent x # es) = files_told es"
  "messages_told (FileReady f # es) = messages_told es" "files_told (FileReady f # es) = f # files_told es"
  "messages_told (PeersChanged # es) = messages_told es" "files_told (PeersChanged # es) = files_told es"
  "messages_pushed (MessagePushed x # ps) = x # messages_pushed ps" "files_pushed (MessagePushed x # ps) = files_pushed ps"
  "messages_pushed (FilePushed f # ps) = messages_pushed ps" "files_pushed (FilePushed f # ps) = f # files_pushed ps"
  "messages_pushed (PeersPushed q # ps) = messages_pushed ps" "files_pushed (PeersPushed q # ps) = files_pushed ps"
  by (simp_all add: messages_told_def files_told_def messages_pushed_def files_pushed_def List.map_filter_def)

text \<open>What is on its way to the host, oldest first: polled, in the queue, in the channel.\<close>

definition messages_flow :: "loop_channels \<Rightarrow> pipe \<Rightarrow> ChatMessage list" where
  "messages_flow l s = messages_pushed (pi_polled s @ in_events (pi_inst s)) @ sb_buf (pi_msgs s) (lc_msgs l)"

definition files_flow :: "loop_channels \<Rightarrow> pipe \<Rightarrow> FileReadyEvent list" where
  "files_flow l s = files_pushed (pi_polled s @ in_events (pi_inst s)) @ sb_buf (pi_files s) (lc_files l)"

text \<open>Whether there is room in each buffer, and a run of the system that knows if there always was.\<close>

definition roomy :: "loop_channels \<Rightarrow> pipe \<Rightarrow> bool" where
  "roomy l s \<longleftrightarrow> length (sb_buf (pi_msgs s) (lc_msgs l)) < 50 \<and> length (sb_buf (pi_files s) (lc_files l)) < 50
     \<and> length (in_events (pi_inst s)) < event_capacity"

inductive pipe_run :: "loop_channels \<Rightarrow> pipe \<Rightarrow> bool \<Rightarrow> pipe \<Rightarrow> bool" for l s where
  start: "pipe_run l s True s"
| step: "pipe_run l s b s1 \<Longrightarrow> pipe_step l s1 s2 \<Longrightarrow> pipe_run l s (b \<and> roomy l s1) s2"

definition listening :: "loop_channels \<Rightarrow> pipe \<Rightarrow> bool" where
  "listening l s \<longleftrightarrow> subs_ok (pi_msgs s) \<and> subs_ok (pi_files s) \<and> subs_ok (pi_peers s)
     \<and> lc_msgs l \<in> set (sb_subs (pi_msgs s)) \<and> sb_cap (pi_msgs s) (lc_msgs l) = 50
     \<and> lc_files l \<in> set (sb_subs (pi_files s)) \<and> sb_cap (pi_files s) (lc_files l) = 50"

lemma publish_ok:
  assumes "listening l s"
  shows "\<exists>s'. publish e s = Ret s' \<and> listening l s' \<and> pi_inst s' = pi_inst s \<and> pi_polled s' = pi_polled s
    \<and> (messages_flow l s' = messages_flow l s @ messages_told [e] \<or> messages_flow l s' = messages_flow l s \<and> \<not> roomy l s)
    \<and> (files_flow l s' = files_flow l s @ files_told [e] \<or> files_flow l s' = files_flow l s \<and> \<not> roomy l s)"
proof (cases e)
  case PeersChanged
  then show ?thesis using assms notify_all_ok [of "pi_peers s" "()"]
    by (auto simp: listening_def messages_flow_def files_flow_def)
next
  case (MessageEvent x)
  then show ?thesis using assms notify_all_ok [of "pi_msgs s" x]
    by (auto simp: listening_def messages_flow_def files_flow_def taken_def roomy_def)
next
  case (FileReady f)
  then show ?thesis using assms notify_all_ok [of "pi_files s" f]
    by (auto simp: listening_def messages_flow_def files_flow_def taken_def roomy_def)
qed

lemma pushEvent_flow:
  "in_m (pushEvent e inst) = in_m inst"
  "in_events (pushEvent e inst) =
     (if length (in_events inst) < event_capacity then in_events inst @ [e] else in_events inst)"
  by (auto simp: pushEvent_def)

lemma subseq_one_out [simp]: "subseq (xs @ ys @ zs) (xs @ ys @ z # zs)"
  unfolding subseq_append' by (rule list_emb_Cons) simp

lemma subseq_through: "subseq xs (ys @ zs) \<Longrightarrow> subseq ys ys' \<Longrightarrow> subseq xs (ys' @ zs)"
  by (erule subseq_order.order_trans) simp

lemma subseq_front: "subseq (xs @ ys) zs \<Longrightarrow> subseq xs zs"
  by (rule subseq_order.order_trans [of xs "xs @ ys"]) auto

lemma step_flow:
  assumes "pipe_step l s s'" "listening l s"
  shows "listening l s' \<and> (\<exists>es. ms_events (in_m (pi_inst s')) = ms_events (in_m (pi_inst s)) @ es
    \<and> subseq (messages_flow l s') (messages_flow l s @ messages_told es)
    \<and> subseq (files_flow l s') (files_flow l s @ files_told es)
    \<and> (roomy l s \<longrightarrow> messages_flow l s' = messages_flow l s @ messages_told es
         \<and> files_flow l s' = files_flow l s @ files_told es))"
  using assms
proof cases
  case (told m e s1)
  with publish_ok [OF assms(2), of e] show ?thesis
    by (auto simp: listening_def messages_flow_def files_flow_def roomy_def intro!: exI [of _ "[e]"])
next
  case (silent m)
  with assms(2) show ?thesis
    by (auto simp: listening_def messages_flow_def files_flow_def intro!: exI [of _ "[]"])
next
  case (loop_message x r now)
  with assms(2) receive_ok [OF _ loop_message(2)] show ?thesis
    by (auto simp: listening_def messages_flow_def files_flow_def roomy_def pushEvent_flow intro!: exI [of _ "[]"])
next
  case (loop_file f r now)
  with assms(2) receive_ok [OF _ loop_file(2)] show ?thesis
    by (auto simp: listening_def messages_flow_def files_flow_def roomy_def pushEvent_flow intro!: exI [of _ "[]"])
next
  case (loop_peers u r now)
  with loop_peers assms(2) receive_ok [OF _ loop_peers(2)] show ?thesis
    by (auto simp: listening_def messages_flow_def files_flow_def pushEvent_flow intro!: exI [of _ "[]"])
next
  case (polled ev es)
  with assms(2) show ?thesis
    by (auto simp: listening_def messages_flow_def files_flow_def intro!: exI [of _ "[]"])
next
  case (other_messages ms)
  with assms(2) other_step_ok [OF other_messages(2)] other_step_own [OF other_messages(2)] show ?thesis
    by (auto simp: listening_def messages_flow_def files_flow_def intro!: exI [of _ "[]"])
next
  case (other_files fs)
  with assms(2) other_step_ok [OF other_files(2)] other_step_own [OF other_files(2)] show ?thesis
    by (auto simp: listening_def messages_flow_def files_flow_def intro!: exI [of _ "[]"])
next
  case (other_peers ps)
  with assms(2) other_step_ok [OF other_peers(2)] show ?thesis
    by (auto simp: listening_def messages_flow_def files_flow_def intro!: exI [of _ "[]"])
qed

lemma run_flow:
  assumes "pipe_run l s b s'" "listening l s"
  shows "listening l s' \<and> (\<exists>es. ms_events (in_m (pi_inst s')) = ms_events (in_m (pi_inst s)) @ es
    \<and> subseq (messages_flow l s') (messages_flow l s @ messages_told es)
    \<and> subseq (files_flow l s') (files_flow l s @ files_told es)
    \<and> (b \<longrightarrow> messages_flow l s' = messages_flow l s @ messages_told es
         \<and> files_flow l s' = files_flow l s @ files_told es))"
  using assms
proof induction
  case (step b s1 s2)
  then obtain es es' where es: "listening l s1" "listening l s2"
    "ms_events (in_m (pi_inst s1)) = ms_events (in_m (pi_inst s)) @ es"
    "subseq (messages_flow l s1) (messages_flow l s @ messages_told es)"
    "subseq (files_flow l s1) (files_flow l s @ files_told es)"
    "b \<longrightarrow> messages_flow l s1 = messages_flow l s @ messages_told es \<and> files_flow l s1 = files_flow l s @ files_told es"
    "ms_events (in_m (pi_inst s2)) = ms_events (in_m (pi_inst s1)) @ es'"
    "subseq (messages_flow l s2) (messages_flow l s1 @ messages_told es')"
    "subseq (files_flow l s2) (files_flow l s1 @ files_told es')"
    "roomy l s1 \<longrightarrow> messages_flow l s2 = messages_flow l s1 @ messages_told es' \<and> files_flow l s2 = files_flow l s1 @ files_told es'"
    using step_flow [OF step.hyps(2)] by blast
  have "subseq (messages_flow l s2) (messages_flow l s @ messages_told (es @ es'))"
    "subseq (files_flow l s2) (files_flow l s @ files_told (es @ es'))"
    using subseq_through [OF es(8,4)] subseq_through [OF es(9,5)] by simp_all
  then show ?case using es by (intro conjI exI [of _ "es @ es'"]) auto
qed (auto intro: exI [of _ "[]"])

text \<open>The channels of the loop are its own, and empty at first.\<close>

lemma loop_start_listening:
  assumes "subs_ok (pi_msgs s0)" "subs_ok (pi_files s0)" "subs_ok (pi_peers s0)" "loop_start s0 = (l, s)"
  shows "listening l s \<and> pi_inst s = pi_inst s0 \<and> pi_polled s = pi_polled s0
    \<and> sb_buf (pi_msgs s) (lc_msgs l) = [] \<and> sb_buf (pi_files s) (lc_files l) = []"
  using assms
  by (auto simp: loop_start_def SubscribePeers_def SubscribeMessages_def SubscribeFileReady_def listening_def
      split: prod.splits dest: subscribe_ok)

lemma loop_end_ok:
  assumes "listening l s"
  shows "\<exists>s'. loop_end l s = Ret s' \<and> lc_msgs l \<notin> set (sb_subs (pi_msgs s')) \<and> lc_files l \<notin> set (sb_subs (pi_files s'))"
proof -
  obtain r where "unsubscribe (lc_msgs l) (pi_msgs s) = Ret r" "lc_msgs l \<notin> set (sb_subs r)"
    using assms unsubscribe_ok [of "pi_msgs s" "lc_msgs l"] by (auto simp: listening_def)
  moreover obtain r' where "unsubscribe (lc_files l) (pi_files s) = Ret r'" "lc_files l \<notin> set (sb_subs r')"
    using assms unsubscribe_ok [of "pi_files s" "lc_files l"] by (auto simp: listening_def)
  moreover obtain r'' where "unsubscribe (lc_peers l) (pi_peers s) = Ret r''"
    using assms unsubscribe_ok [of "pi_peers s" "lc_peers l"] by (auto simp: listening_def)
  ultimately show ?thesis by (simp add: loop_end_def UnsubscribeMessages_def UnsubscribeFileReady_def UnsubscribePeers_def)
qed

text \<open>
  C18. Whatever the messenger tells of while the event loop runs, in whatever order the loop takes it
  and the host polls, and whoever else subscribes or leaves: the messages the host is given are among
  those told since the loop started, none twice and in the order they were told, and so are the finished
  files. While no buffer on the way was full, nothing is lost: what the host was given, what waits in
  the queue and what waits in the channel are together all that was told. At no time does telling of an
  event or ending the loop panic.
\<close>

theorem events_in_order:
  assumes "subs_ok (pi_msgs s0)" "subs_ok (pi_files s0)" "subs_ok (pi_peers s0)"
    and "in_events (pi_inst s0) = []" "pi_polled s0 = []" "loop_start s0 = (l, s)" "pipe_run l s b s'"
  shows "(\<exists>es. ms_events (in_m (pi_inst s')) = ms_events (in_m (pi_inst s0)) @ es
      \<and> subseq (messages_pushed (pi_polled s')) (messages_told es) \<and> subseq (files_pushed (pi_polled s')) (files_told es)
      \<and> (b \<longrightarrow> messages_flow l s' = messages_told es \<and> files_flow l s' = files_told es))
    \<and> (\<forall>e. \<exists>s''. publish e s' = Ret s'') \<and> (\<exists>s''. loop_end l s' = Ret s'')"
proof -
  note start = loop_start_listening [OF assms(1-3,6)]
  then have empty: "messages_flow l s = []" "files_flow l s = []"
    using assms(4,5) by (simp_all add: messages_flow_def files_flow_def)
  obtain es where es: "listening l s'" "ms_events (in_m (pi_inst s')) = ms_events (in_m (pi_inst s0)) @ es"
    "subseq (messages_flow l s') (messages_told es)" "subseq (files_flow l s') (files_told es)"
    "b \<longrightarrow> messages_flow l s' = messages_told es \<and> files_flow l s' = files_told es"
    using run_flow [OF assms(7)] start empty by auto
  have "subseq (messages_pushed (pi_polled s')) (messages_told es)" "subseq (files_pushed (pi_polled s')) (files_told es)"
    using es(3,4) by (auto simp: messages_flow_def files_flow_def dest: subseq_front)
  then show ?thesis using es publish_ok [OF es(1)] loop_end_ok [OF es(1)] by blast
qed

definition quiet_pipe :: pipe where
  "quiet_pipe = \<lparr>pi_msgs = no_subscribers, pi_files = no_subscribers, pi_peers = no_subscribers,
     pi_inst = \<lparr>in_m = sample_messenger ''a'' ''ann'' \<lparr>db_tables = no_tables, db_faults = []\<rparr>, in_events = [], in_done = False\<rparr>,
     pi_polled = []\<rparr>"

definition hello :: ChatMessage where
  "hello = \<lparr>cm_from = ''b'', cm_chat = ''b'', cm_text = ''hi'', cm_time = 0, cm_id = ''m'', cm_files = []\<rparr>"

lemma events_in_order_witness:
  "\<exists>l s s1 s2 s3. loop_start quiet_pipe = (l, s) \<and> pipe_step l s s1 \<and> pipe_step l s1 s2 \<and> pipe_step l s2 s3
     \<and> pi_polled s3 = [MessagePushed hello] \<and> ms_events (in_m (pi_inst s3)) = [MessageEvent hello]
     \<and> (\<exists>s4. loop_end l s3 = Ret s4)"
proof -
  define l where "l = \<lparr>lc_msgs = 0, lc_files = 0, lc_peers = 0\<rparr>"
  define s where "s = snd (loop_start quiet_pipe)"
  define m where "m = notify (MessageEvent hello) (in_m (pi_inst quiet_pipe))"
  have start: "loop_start quiet_pipe = (l, s)"
    by (simp add: s_def l_def loop_start_def quiet_pipe_def no_subscribers_def SubscribePeers_def SubscribeMessages_def
        SubscribeFileReady_def subscribe_def)
  have events: "ms_events m = ms_events (in_m (pi_inst s)) @ [MessageEvent hello]" "ms_events m = [MessageEvent hello]"
    by (simp_all add: m_def notify_def s_def loop_start_def quiet_pipe_def SubscribePeers_def SubscribeMessages_def
        SubscribeFileReady_def subscribe_def sample_messenger_def new_messenger_def Let_def)
  obtain r where r: "notify_all hello (pi_msgs s) = Ret r" "sb_buf r 0 = [hello]"
    by (simp add: notify_all_def s_def loop_start_def quiet_pipe_def no_subscribers_def SubscribePeers_def SubscribeMessages_def
        SubscribeFileReady_def subscribe_def offer_def)
  define s1 where "s1 = s\<lparr>pi_msgs := r, pi_inst := (pi_inst s)\<lparr>in_m := m\<rparr>\<rparr>"
  have step1: "pipe_step l s s1"
    using pipe_step.told [OF events(1), of _ l] r(1) by (simp add: s1_def)
  define s2 where "s2 = s1\<lparr>pi_msgs := r\<lparr>sb_buf := (sb_buf r)(0 := [])\<rparr>, pi_inst := event_turn 0 (MessageEvent hello) (pi_inst s1)\<rparr>"
  have step2: "pipe_step l s1 s2"
    unfolding s2_def by (rule pipe_step.loop_message) (simp add: receive_def s1_def l_def r(2))
  have empty: "in_events (pi_inst s) = []" "pi_polled s = []"
    by (simp_all add: s_def loop_start_def quiet_pipe_def SubscribePeers_def SubscribeMessages_def SubscribeFileReady_def subscribe_def)
  have queue: "in_events (pi_inst s2) = [MessagePushed hello]" "pi_polled s2 = []" "in_m (pi_inst s2) = m"
    using empty by (simp_all add: s2_def s1_def pushEvent_flow event_capacity_def)
  define s3 where "s3 = s2\<lparr>pi_inst := (pi_inst s2)\<lparr>in_events := []\<rparr>, pi_polled := pi_polled s2 @ [MessagePushed hello]\<rparr>"
  have step3: "pipe_step l s2 s3" unfolding s3_def by (rule pipe_step.polled [OF queue(1)])
  obtain s4 where s4: "loop_end l s3 = Ret s4"
    using events_in_order [OF _ _ _ _ _ start pipe_run.step [OF pipe_run.step [OF pipe_run.step [OF pipe_run.start step1] step2] step3]]
    by (auto simp: quiet_pipe_def no_subscribers_def subs_ok_def)
  with start step1 step2 step3 queue events(2) show ?thesis
    by (intro exI conjI) (assumption | rule s4 | simp add: s3_def)+
qed

end
