(* ===== verification/EntryPoints.thy ===== *)
theory EntryPoints
  imports StartupSafety
begin

text \<open>
  What runs outside the messenger: \<open>main.go\<close>, which runs one from the configuration file and the
  command line until a signal ends it, and the log writer of \<open>android_log.go\<close>.
\<close>

section \<open>The command line program\<close>

text \<open>
  \<open>main\<close> up to the wait: the messenger after \<open>Register\<close>, and how that went.
\<close>

definition main_options :: "Config \<Rightarrow> (messengerOpts \<Rightarrow> messengerOpts) list" where
  "main_options cfg =
     WithPeerFlag (cfg_flag cfg) # (if cfg_peer_id cfg \<noteq> [] then [WithPeerID (cfg_peer_id cfg)] else [])"

definition main_start ::
    "codec \<Rightarrow> crypto_lib \<Rightarrow> net \<Rightarrow> (bytes \<Rightarrow> Config option) \<Rightarrow> (string \<Rightarrow> bytes option) \<Rightarrow> bool
     \<Rightarrow> (string \<Rightarrow> db go) \<Rightarrow> Config \<Rightarrow> (unit go \<times> Messenger) go" where
  "main_start c L net legacy readFile mkdir opened cfg =
     (case New c L net legacy readFile mkdir (cfg_username cfg)
             (if cfg_muninn cfg \<noteq> [] then Some (cfg_muninn cfg) else None)
             (cfg_db cfg) (opened (cfg_db cfg)) (main_options cfg) of
        Err e \<Rightarrow> Err (''failed to create messenger: '' @ e)
      | Panic e \<Rightarrow> Panic e
      | Ret m \<Rightarrow> Ret (MessengerRegister net m))"

text \<open>
  The whole program: what its process ends with, what it wrote to the log, and the messenger it leaves.
  \<open>meanwhile\<close> is what the messenger does until the process is sent a signal. An error of \<open>Register\<close> only
  shows in the log; a panic ends the process with 2.
\<close>

record run_end =
  re_exit :: int
  re_log :: "string list"
  re_messenger :: "Messenger option"

definition started_line :: "Config \<Rightarrow> Messenger \<Rightarrow> string" where
  "started_line cfg m =
     ''started: username='' @ cfg_username cfg @ '' muninn='' @ cfg_muninn (ms_config m) @ '' db='' @ cfg_db cfg"

definition main ::
    "codec \<Rightarrow> crypto_lib \<Rightarrow> net \<Rightarrow> (bytes \<Rightarrow> Config option) \<Rightarrow> (string \<Rightarrow> bytes option) \<Rightarrow> bool
     \<Rightarrow> (string \<Rightarrow> db go) \<Rightarrow> (Messenger \<Rightarrow> Messenger) \<Rightarrow> nat list \<Rightarrow> Config option \<Rightarrow> run_end" where
  "main c L net legacy readFile mkdir opened meanwhile connections parsed =
     (case parsed of
        None \<Rightarrow> \<lparr>re_exit = 1, re_log = [], re_messenger = None\<rparr>
      | Some cfg \<Rightarrow>
         (case main_start c L net legacy readFile mkdir opened cfg of
            Err e \<Rightarrow> \<lparr>re_exit = 1, re_log = [e], re_messenger = None\<rparr>
          | Panic e \<Rightarrow> \<lparr>re_exit = 2, re_log = [], re_messenger = None\<rparr>
          | Ret (Panic e, m) \<Rightarrow> \<lparr>re_exit = 2, re_log = [], re_messenger = Some m\<rparr>
          | Ret (Err e, m) \<Rightarrow>
              \<lparr>re_exit = 0, re_log = [''warning: register failed: '' @ e, started_line cfg m, ''shutting down...''],
               re_messenger = Some (Shutdown connections (meanwhile m))\<rparr>
          | Ret (Ret _, m) \<Rightarrow>
              \<lparr>re_exit = 0, re_log = [started_line cfg m, ''shutting down...''],
               re_messenger = Some (Shutdown connections (meanwhile m))\<rparr>))"

text \<open>
  With a configuration \<open>Parse\<close> returns, the program ends with 1 just when no messenger could be made, and
  otherwise, whether or not the directory server could be reached, with a messenger that is shut down.
\<close>

lemma register_not_panic: "fst (MessengerRegister net m) \<noteq> Panic e"
  by (simp add: MessengerRegister_def register_anew_def Let_def split: option.splits prod.splits)

lemma main_ends:
  assumes "parsed = Some (Parse unmarshal file muninnEnv flag uuid)"
    and "result = main c L net legacy readFile mkdir opened meanwhile connections parsed"
    and "\<And>cfg e. main_start c L net legacy readFile mkdir opened cfg \<noteq> Panic e"
  shows "re_exit result = 1 \<and> re_messenger result = None
       \<and> (\<exists>e. re_log result = [''failed to create messenger: '' @ e])
     \<or> re_exit result = 0 \<and> last (re_log result) = ''shutting down...''
       \<and> (\<exists>m. re_messenger result = Some m \<and> ms_closed m)"
proof (cases "main_start c L net legacy readFile mkdir opened (Parse unmarshal file muninnEnv flag uuid)")
  case (Ret x)
  obtain r m where x: "x = (r, m)" by (cases x)
  have "r \<noteq> Panic e" for e
    using Ret register_not_panic by (auto simp: main_start_def x split: go.splits) (metis fst_conv)
  then show ?thesis using Ret assms(1,2) by (cases r) (auto simp: main_def x Shutdown_def)
next
  case (Err e)
  then show ?thesis using assms(1,2) by (auto simp: main_def main_start_def split: go.splits)
next
  case (Panic e)
  then show ?thesis using assms(3) by blast
qed

lemma New_flag:
  "mo_flag (fold (\<lambda>f. f) os no_opts) = mo_flag (fold (\<lambda>f. f) os' no_opts) \<Longrightarrow>
   New c L net legacy readFile mkdir username client dbPath opened os = New c L net legacy readFile mkdir username client dbPath opened os'"
  by (simp only: New_def Let_def)

text \<open>The peer id of the configuration file reaches no one: a messenger started with it is the same as without.\<close>

theorem main_ignores_peer_id:
  "main_start c L net legacy readFile mkdir opened cfg
     = main_start c L net legacy readFile mkdir opened (cfg\<lparr>cfg_peer_id := other\<rparr>)"
proof -
  have "mo_flag (fold (\<lambda>f. f) (main_options k) no_opts) = cfg_flag k" for k
    by (simp add: main_options_def WithPeerFlag_def WithPeerID_def)
  then have "mo_flag (fold (\<lambda>f. f) (main_options cfg) no_opts) = mo_flag (fold (\<lambda>f. f) (main_options (cfg\<lparr>cfg_peer_id := other\<rparr>)) no_opts)"
    by simp
  note New_flag [OF this]
  then show ?thesis by (simp add: main_start_def)
qed

section \<open>The log writer on Android\<close>

text \<open>
  The buffer, the tag and the priority, and for the theorems the lines handed to
  \<open>__android_log_write\<close>.
\<close>

record androidWriter =
  aw_buf :: string
  aw_tag :: string
  aw_prio :: int
  aw_log :: "(int \<times> string \<times> string) list"

text \<open>\<open>ReadString\<close> of \<open>bytes.Buffer\<close>: up to the delimiter, or all there is with an error; what it returns is consumed.\<close>

definition ReadString :: "char \<Rightarrow> string \<Rightarrow> (string \<times> bool) \<times> string" where
  "ReadString delim buf =
     (case dropWhile (\<lambda>x. x \<noteq> delim) buf of
        [] \<Rightarrow> ((buf, False), [])
      | d # rest \<Rightarrow> ((takeWhile (\<lambda>x. x \<noteq> delim) buf @ [d], True), rest))"

definition trim_newlines :: "string \<Rightarrow> string" where
  "trim_newlines line = rev (dropWhile (\<lambda>x. x = CHR 0x0D \<or> x = CHR 0x0A) (rev line))"

lemma ReadString_shorter: "ReadString delim buf = ((line, True), rest) \<Longrightarrow> length rest < length buf"
proof -
  assume "ReadString delim buf = ((line, True), rest)"
  then obtain d where "dropWhile (\<lambda>x. x \<noteq> delim) buf = d # rest" by (auto simp: ReadString_def split: list.splits)
  then show ?thesis using length_dropWhile_le [of "\<lambda>x. x \<noteq> delim" buf] by simp
qed

function write_lines :: "androidWriter \<Rightarrow> androidWriter" where
  "write_lines w =
     (case ReadString (CHR 0x0A) (aw_buf w) of
        ((line, False), rest) \<Rightarrow> w\<lparr>aw_buf := rest\<rparr>
      | ((line, True), rest) \<Rightarrow>
          if trim_newlines line = [] then write_lines (w\<lparr>aw_buf := rest\<rparr>)
          else write_lines (w\<lparr>aw_buf := rest, aw_log := aw_log w @ [(aw_prio w, aw_tag w, trim_newlines line)]\<rparr>))"
  by pat_completeness auto
termination by (relation "measure (\<lambda>w. length (aw_buf w))") (auto dest: ReadString_shorter [OF sym])

declare write_lines.simps [simp del]

definition Write :: "string \<Rightarrow> androidWriter \<Rightarrow> nat \<times> androidWriter" where
  "Write p w = (length p, write_lines (w\<lparr>aw_buf := aw_buf w @ p\<rparr>))"

definition android_log :: androidWriter where
  "android_log = \<lparr>aw_buf = [], aw_tag = ''huginn'', aw_prio = 4, aw_log = []\<rparr>"

lemma ReadString_line:
  "delim \<notin> set l \<Longrightarrow> ReadString delim (l @ delim # rest) = ((l @ [delim], True), rest)"
  "delim \<notin> set l \<Longrightarrow> ReadString delim l = ((l, False), [])"
proof -
  assume l: "delim \<notin> set l"
  then have "\<And>x. x \<in> set l \<Longrightarrow> x \<noteq> delim" by blast
  then show "ReadString delim (l @ delim # rest) = ((l @ [delim], True), rest)"
    by (simp add: ReadString_def)
next
  assume "delim \<notin> set l"
  then have "dropWhile (\<lambda>x. x \<noteq> delim) l = []" by (auto simp: dropWhile_eq_Nil_conv)
  then show "ReadString delim l = ((l, False), [])" unfolding ReadString_def by (simp only: list.case)
qed

definition shown :: "androidWriter \<Rightarrow> string list \<Rightarrow> (int \<times> string \<times> string) list" where
  "shown w ls = map (\<lambda>l. (aw_prio w, aw_tag w, l)) (filter (\<lambda>l. l \<noteq> []) (map trim_newlines ls))"

lemma trim_newlines_nl: "trim_newlines (l @ [CHR 0x0A]) = trim_newlines l"
  by (simp add: trim_newlines_def)

lemma write_lines_all:
  assumes "\<forall>l \<in> set ls. CHR 0x0A \<notin> set l" "CHR 0x0A \<notin> set p"
    "aw_buf w = concat (map (\<lambda>l. l @ [CHR 0x0A]) ls) @ p"
  shows "write_lines w = w\<lparr>aw_buf := [], aw_log := aw_log w @ shown w ls\<rparr>"
  using assms
proof (induction ls arbitrary: w)
  case Nil
  then show ?case by (subst write_lines.simps) (simp add: ReadString_line shown_def)
next
  case (Cons l ls)
  let ?rest = "concat (map (\<lambda>l. l @ [CHR 0x0A]) ls) @ p"
  have read: "ReadString (CHR 0x0A) (aw_buf w) = ((l @ [CHR 0x0A], True), ?rest)"
    using Cons.prems ReadString_line(1) [of "CHR 0x0A" l ?rest] by simp
  have IH: "write_lines v = v\<lparr>aw_buf := [], aw_log := aw_log v @ shown v ls\<rparr>" if "aw_buf v = ?rest" for v
    by (rule Cons.IH) (use Cons.prems that in auto)
  show ?case by (subst write_lines.simps) (simp add: read trim_newlines_nl IH shown_def)
qed

text \<open>
  Each write shows the non-empty lines that it completes, in order, and forgets what follows the last
  of them: \<open>ReadString\<close> had taken it out of the buffer, so that the rest of that line, in the next
  write, appears without its beginning.
\<close>

theorem Write_shows_whole_lines:
  assumes "\<forall>l \<in> set ls. CHR 0x0A \<notin> set l" "CHR 0x0A \<notin> set p" "aw_buf w = []"
  shows "snd (Write (concat (map (\<lambda>l. l @ [CHR 0x0A]) ls) @ p) w) = w\<lparr>aw_log := aw_log w @ shown w ls\<rparr>"
proof -
  let ?w = "w\<lparr>aw_buf := concat (map (\<lambda>l. l @ [CHR 0x0A]) ls) @ p\<rparr>"
  have "write_lines ?w = ?w\<lparr>aw_buf := [], aw_log := aw_log ?w @ shown ?w ls\<rparr>"
    by (rule write_lines_all [OF assms(1,2)]) simp
  then show ?thesis using assms(3) by (simp add: Write_def shown_def)
qed

lemma Write_shows_whole_lines_witness:
  "aw_log (snd (Write ''b'' (snd (Write (''one'' @ [CHR 0x0A] @ ''a'') android_log)))) = [(4, ''huginn'', ''one'')]"
proof -
  have 1: "snd (Write (''one'' @ [CHR 0x0A] @ ''a'') android_log) = android_log\<lparr>aw_log := [(4, ''huginn'', ''one'')]\<rparr>"
    using Write_shows_whole_lines [of "[''one'']" "''a''" android_log]
    by (simp add: android_log_def shown_def trim_newlines_def)
  then show ?thesis
    using Write_shows_whole_lines [of "[]" "''b''" "android_log\<lparr>aw_log := [(4, ''huginn'', ''one'')]\<rparr>"]
    by (simp add: android_log_def shown_def)
qed

end
