(* ===== verification/Spec2Isabelle.thy ===== *)
theory Spec2Isabelle
  imports StoreMigrations StateSyncSafety Courier MuninnSocket Background Subscriptions EntryPoints
begin

text \<open>
  \<^bold>\<open>The program.\<close> Huginn is a peer-to-peer messenger in Go, run as a library behind a C interface
  (\<open>bridge.go\<close>) or from the command line (\<open>main.go\<close>). Peers find each other and exchange connection
  offers through the server Muninn (HTTP and WebSocket), talk over WebRTC data channels, and keep
  everything in SQLite. A message is cut into blocks that are encrypted for the recipient and signed by
  the sender; the blocks are handed to other peers until the recipient fetches them, by the
  announcements Muninn keeps. Devices with the same key pair exchange their histories (state sync), and
  a new device takes over an account from an old one (relogin).

  \<^bold>\<open>Foundations.\<close>
  \<^item> \<open>Prelude\<close>: bytes, Go results (\<open>Ret\<close>, \<open>Err\<close>, \<open>Panic\<close>), 64-bit integers and times, cutting a list into
    blocks; the collections \<open>wf_intros\<close> and \<open>frame_simps\<close>.
  \<^item> \<open>GoStrings\<close>, \<open>Base64\<close>, \<open>Json\<close>, \<open>FilePath\<close>: the functions of the Go library the program computes with,
    on byte strings: \<open>strings\<close>, \<open>strconv\<close>, \<open>base64\<close>, the JSON of a string map, \<open>filepath\<close>.
  \<^item> \<open>Crypto\<close> (\<open>internal/crypto\<close>) and \<open>Chunk\<close> (\<open>internal/chunk\<close>): keys, sealing and opening blocks. The
    primitives are the parameter \<open>crypto_lib\<close>; \<open>crypto_lawful\<close> states that opening undoes sealing,
    that both sides derive the same key and that a digest has 32 bytes, \<open>sign_pair\<close> that what the one key
    signs the other verifies.

  \<^bold>\<open>The store\<close> (\<open>internal/store\<close>). \<open>Tables\<close> has the statement forms of SQL on lists of rows, \<open>StoreDb\<close>
  the tables, transactions and failure: the state \<open>db\<close> carries a schedule \<open>db_faults\<close> of which
  statement fails, so that a theorem without a hypothesis on it holds for every failure. Each file of the
  store is a theory: \<open>StoreChunks\<close> (\<open>chunkStore\<close>, \<open>chunkExpiry\<close>, \<open>pendingChunkStore\<close>), \<open>StoreMessages\<close>
  (\<open>messageStore\<close>, \<open>outgoingStore\<close>, \<open>stateSyncStore\<close>), \<open>StoreReplication\<close> (\<open>peerStore\<close>, \<open>groupChatStore\<close>,
  \<open>replicationStore\<close>), \<open>StoreTrack\<close>, \<open>StoreDownloads\<close>, \<open>StoreConfig\<close> (with \<open>internal/config\<close>) and
  \<open>StoreMigrations\<close> (with \<open>sqlite.go\<close>).

  \<^bold>\<open>The network.\<close> \<open>MuninnPeer\<close> and \<open>MuninnClient\<close> (\<open>internal/muninn/client.go\<close>): the peer record, its key,
  and for each method the request it sends and what it makes of the answer. \<open>MuninnSocket\<close>
  (\<open>internal/muninn/rtc.go\<close>): the socket as a step relation over calls, frames and ends of connections.
  \<open>WebRTC\<close> (\<open>internal/webrtc\<close>): frames, the connections and channels of a peer, the callbacks of the
  WebRTC library in any order, batches and their acknowledgements.

  \<^bold>\<open>The messenger\<close> (\<open>internal/messenger\<close>). \<open>Messenger\<close> has the record \<open>Messenger\<close> of its whole state: the
  store, the manager of the connections, the maps behind its mutexes, the queue of jobs \<open>ms_jobs\<close>, the
  events told to subscribers \<open>ms_events\<close>, and the disk as far as downloads write to it. What is outside
  of it is the record \<open>net\<close> (Muninn, the clock, fresh ids, randomness, files to send, and what reaches
  the messenger while it waits) and the record \<open>codec\<close> (the JSON of whole values, gzip). An operation is
  a function from the state to its result and the next state; a blocking call is one step, what other
  goroutines do meanwhile being in \<open>net\<close>. The parts are
  \<^item> \<open>Signals\<close>: offers, answers and dialling (\<open>signals.go\<close>, part of \<open>peers.go\<close>);
  \<^item> \<open>Peers\<close>: the known peers (\<open>peers.go\<close>); \<open>GroupChats\<close>: groups and invitations (\<open>groups.go\<close>);
  \<^item> \<open>Delivery\<close>, \<open>DeliverySafety\<close>: accepting and handing on (\<open>outgoing.go\<close>, \<open>chunk_delivery.go\<close>);
  \<^item> \<open>Fetch\<close>: serving and asking for blocks (\<open>chunks.go\<close>); \<open>Downloads\<close>: files (\<open>downloads.go\<close>);
  \<^item> \<open>Receive\<close>, \<open>Arrival\<close>: announced messages, from the sender's text to the history (\<open>messages.go\<close>);
    \<open>Courier\<close>: the same over a third device that only stores the blocks;
  \<^item> \<open>StateSync\<close>, \<open>StateSyncSafety\<close>, \<open>Relogin\<close>, \<open>ReloginSafety\<close>: the two transfers between devices, with
    the reassembly they share in \<open>BlockTransfer\<close>;
  \<^item> \<open>Startup\<close>, \<open>StartupSafety\<close>: the life of a messenger and its jobs (\<open>messenger.go\<close>);
  \<^item> \<open>AsyncPool\<close>: the goroutines of the worker pool as an interleaving (\<open>async_pool.go\<close>);
  \<^item> \<open>Background\<close>: the loops \<open>New\<close> starts, the socket, the pool and \<open>Shutdown\<close>, interleaved. It refines the
    sequence of operations \<open>messenger_step\<close> of \<open>Invariants\<close>.
  \<open>Bridge\<close>, \<open>BridgeSafety\<close> are the C interface, \<open>Subscriptions\<close> the way of an event from the messenger over
  the subscribers' channels to the host that polls, and \<open>EntryPoints\<close> the command line and the log writer
  of Android. \<open>WireCodec\<close> is a concrete \<open>codec\<close> for instances.

  \<^bold>\<open>Interfaces.\<close> \<open>keyed_store\<close> (\<open>Tables\<close>): rows put in any order are found, interpreted on the held
  and the waiting blocks. \<open>reassembly\<close> (\<open>BlockTransfer\<close>): slots filled in any order and repeatedly join
  to what was cut, interpreted on the code's slots, used by both transfers. \<open>kept\<close> (\<open>Invariants\<close>): what
  every writing statement keeps, every operation of the messenger keeps; interpreted on four predicates.

  \<^bold>\<open>What is shown.\<close>
  \<^item> Blocks: a text survives cutting, sealing and assembling; what is accepted was signed by the sender.
  \<^item> Store: expiry, queueing, transfer of snapshots and state sync windows are exact, and a failing
    statement leaves nothing half done; of the migrations a second start runs only those the first did not
    record, whatever failed in it. Every download is in one state, a cancelled one stays so and history is
    never lost, over all sequences of all operations.
  \<^item> Connections: of two colliding offers one survives, a channel belongs to the current connection, a
    batch counts as delivered only on its own acknowledgement; no two calls on the socket wait under one id or
    on one channel, and a request gets its own response.
  \<^item> Messages: accepted as a whole or not at all, placed only when acknowledged; a run places every waiting
    block whose time is not up. Delivered to a connected peer, stored by the recipient as they were
    written, also when the blocks went over a third device. A written file is what its sender signed.
    Events reach the host in their order, and all of them while there is room.
  \<^item> Devices: one round of state sync leaves no gap before the checkpoint (a refinement of "the other
    device has all that was changed before it"); history goes only to live devices of the same key and to
    who shows a signature of this key; relogin imports exactly the sent snapshot under any order of blocks.
  \<^item> Start, pool and end: which setting wins, what a restart keeps, that no job is lost, that \<open>Shutdown\<close>
    returns, after every loop and worker, and that nothing touches the messenger by itself after it.
  \<^item> Faults of the code: each is a theorem of what the code does (a replayed message is accepted, a
    surplus block stalls a download for ever, a failed query makes a migration run again, a new id at every start, lines lost in the log, and others).

  \<^bold>\<open>Bounds.\<close> Recursion is structural or has a measure: no definition carries fuel. Times are integers of
  nanoseconds, rounded as the code does; \<open>i64\<close> wraps where the code computes with 64 bits.
  The interleavings of \<open>AsyncPool\<close>, \<open>MuninnSocket\<close>, \<open>Background\<close> and \<open>Subscriptions\<close> are step relations
  without a bound on their length.

  \<^bold>\<open>Not modelled.\<close> The time between two ticks of a loop, the time a wait takes,
  closing the database file, the ICE servers handed to the WebRTC library, the signal of the operating
  system that ends \<open>main\<close>, and the text of the log but for that of \<open>main\<close>. Third-party packages are parameters: pion/webrtc,
  gorilla/websocket, net/http, encoding/json beyond string maps, gzip, SQLite beyond the statements the
  store issues. Locks are implicit, as an operation that holds one is a step; where the code works
  without one between two accesses, the model has two steps (\<open>messenger_destroy\<close>, completing a download,
  the pool, the socket).
\<close>

end
